(* ===== verification/ByteCodec.thy ===== *)
theory ByteCodec
  imports Prelude
begin

text \<open>
  Python's \<open>struct\<close> module, as far as the program uses it: unsigned and signed integers of
  a byte width, byte strings (\<open>4s\<close>, \<open>16s\<close>) and pad bytes (\<open>6x\<close>), in network or
  little-endian order without alignment.  A format string is a list of \<open>fld\<close>; packing
  returns \<open>None\<close> where Python raises \<open>struct.error\<close>.  The laws of a byte order are
  stated once as a locale and every format's round trip is proved from them.
\<close>

section \<open>Byte orders\<close>

fun le_bytes :: "nat \<Rightarrow> int \<Rightarrow> bytes" where
  "le_bytes 0 v = []"
| "le_bytes (Suc n) v = word_of_int v # le_bytes n (v div 256)"

fun le_int :: "bytes \<Rightarrow> int" where
  "le_int [] = 0"
| "le_int (b # bs) = uint b + 256 * le_int bs"

definition be_bytes :: "nat \<Rightarrow> int \<Rightarrow> bytes" where
  "be_bytes n v = rev (le_bytes n v)"

definition be_int :: "bytes \<Rightarrow> int" where
  "be_int bs = le_int (rev bs)"

locale byte_order =
  fixes enc :: "nat \<Rightarrow> int \<Rightarrow> bytes"
    and dec :: "bytes \<Rightarrow> int"
  assumes enc_length: "length (enc n v) = n"
    and dec_enc: "0 \<le> v \<Longrightarrow> v < 256 ^ n \<Longrightarrow> dec (enc n v) = v"
    and enc_dec: "enc (length bs) (dec bs) = bs"
    and dec_nonneg: "0 \<le> dec bs"
    and dec_bound: "dec bs < 256 ^ length bs"
begin

lemma enc_inj:
  "0 \<le> v \<Longrightarrow> v < 256 ^ n \<Longrightarrow> 0 \<le> w \<Longrightarrow> w < 256 ^ n \<Longrightarrow> enc n v = enc n w \<Longrightarrow> v = w"
  by (metis dec_enc)

lemma dec_inj: "length bs = length cs \<Longrightarrow> dec bs = dec cs \<Longrightarrow> bs = cs"
  by (metis enc_dec)

end

lemma le_bytes_length [simp]: "length (le_bytes n v) = n"
  by (induction n arbitrary: v) simp_all

lemma le_int_le_bytes: "0 \<le> v \<Longrightarrow> v < 256 ^ n \<Longrightarrow> le_int (le_bytes n v) = v"
proof (induction n arbitrary: v)
  case 0
  then show ?case by simp
next
  case (Suc n)
  have "v div 256 < 256 ^ n"
    using Suc.prems(2) by (simp add: div_less_iff_less_mult mult.commute)
  moreover have "0 \<le> v div 256"
    using Suc.prems(1) by simp
  ultimately have "le_int (le_bytes n (v div 256)) = v div 256"
    by (rule Suc.IH[rotated])
  then show ?case
    by (simp add: uint_word_of_int)
qed

lemma le_int_nonneg: "0 \<le> le_int bs"
  by (induction bs) simp_all

lemma le_int_bound: "le_int bs < 256 ^ length bs"
proof (induction bs)
  case Nil
  then show ?case by simp
next
  case (Cons b bs)
  have "uint b < 256"
    using uint_lt2p[of b] by simp
  then show ?case
    using Cons.IH by simp
qed

lemma le_bytes_le_int: "le_bytes (length bs) (le_int bs) = bs"
proof (induction bs)
  case Nil
  then show ?case by simp
next
  case (Cons b bs)
  have b: "0 \<le> uint b" "uint b < 256"
    using uint_lt2p[of b] by simp_all
  have "(uint b + 256 * le_int bs) div 256 = le_int bs"
    using b by simp
  moreover have "word_of_int (uint b + 256 * le_int bs) = b"
  proof -
    have "uint (word_of_int (uint b + 256 * le_int bs) :: byte) = uint b"
      using b by (simp only: uint_word_of_int) simp
    then show ?thesis by (rule word_uint_eqI)
  qed
  ultimately show ?case
    using Cons.IH by simp
qed

interpretation le: byte_order le_bytes le_int
  by unfold_locales
    (simp_all add: le_int_le_bytes le_bytes_le_int le_int_nonneg le_int_bound)

interpretation be: byte_order be_bytes be_int
proof unfold_locales
  fix bs :: bytes
  show "be_bytes (length bs) (be_int bs) = bs"
    using le_bytes_le_int[of "rev bs"] by (simp add: be_bytes_def be_int_def)
  show "be_int bs < 256 ^ length bs"
    using le_int_bound[of "rev bs"] by (simp add: be_int_def)
qed (simp_all add: be_bytes_def be_int_def le_int_le_bytes le_int_nonneg)

section \<open>Formats\<close>

datatype fld = FUint nat | FSint nat | FBytes nat | FPad nat

datatype sval = VInt (ival: int) | VBytes (bval: bytes)

fun fld_size :: "fld \<Rightarrow> nat" where
  "fld_size (FUint n) = n"
| "fld_size (FSint n) = n"
| "fld_size (FBytes n) = n"
| "fld_size (FPad n) = n"

definition calcsize :: "fld list \<Rightarrow> nat" where
  "calcsize fs = sum_list (map fld_size fs)"

lemma calcsize_simps [simp]:
  "calcsize [] = 0"
  "calcsize (f # fs) = fld_size f + calcsize fs"
  by (simp_all add: calcsize_def)

definition signed_of :: "nat \<Rightarrow> int \<Rightarrow> int" where
  "signed_of n u = (if 256 ^ n div 2 \<le> u then u - 256 ^ n else u)"

text \<open>\<open>Ns\<close> pads a short byte string with zeros and truncates a long one.\<close>

fun struct_pack :: "(nat \<Rightarrow> int \<Rightarrow> bytes) \<Rightarrow> fld list \<Rightarrow> sval list \<Rightarrow> bytes option" where
  "struct_pack enc [] [] = Some []"
| "struct_pack enc (FPad n # fs) vs =
     map_option ((@) (replicate n 0)) (struct_pack enc fs vs)"
| "struct_pack enc (FUint n # fs) (VInt v # vs) =
     (if 0 \<le> v \<and> v < 256 ^ n
      then map_option ((@) (enc n v)) (struct_pack enc fs vs) else None)"
| "struct_pack enc (FSint n # fs) (VInt v # vs) =
     (if - (256 ^ n div 2) \<le> v \<and> v < 256 ^ n div 2
      then map_option ((@) (enc n (v mod 256 ^ n))) (struct_pack enc fs vs) else None)"
| "struct_pack enc (FBytes n # fs) (VBytes b # vs) =
     map_option ((@) (take n (b @ replicate n 0))) (struct_pack enc fs vs)"
| "struct_pack enc _ _ = None"

fun struct_unpack :: "(bytes \<Rightarrow> int) \<Rightarrow> fld list \<Rightarrow> bytes \<Rightarrow> sval list option" where
  "struct_unpack dec [] bs = (if bs = [] then Some [] else None)"
| "struct_unpack dec (f # fs) bs =
     (if length bs < fld_size f then None
      else
        let x = take (fld_size f) bs; r = struct_unpack dec fs (drop (fld_size f) bs) in
        (case f of
           FPad n \<Rightarrow> r
         | FUint n \<Rightarrow> map_option ((#) (VInt (dec x))) r
         | FSint n \<Rightarrow>
             map_option ((#) (VInt (signed_of n (dec x)))) r
         | FBytes n \<Rightarrow> map_option ((#) (VBytes x)) r))"

text \<open>\<open>unpack_from\<close> reads a prefix of the buffer at an offset.\<close>

definition struct_unpack_from :: "(bytes \<Rightarrow> int) \<Rightarrow> fld list \<Rightarrow> bytes \<Rightarrow> nat \<Rightarrow> sval list option" where
  "struct_unpack_from dec fs bs off =
     (if length bs < off + calcsize fs then None
      else struct_unpack dec fs (take (calcsize fs) (drop off bs)))"

text \<open>The values a format yields: one per field but pads, each in its field's range.\<close>

fun fits :: "fld list \<Rightarrow> sval list \<Rightarrow> bool" where
  "fits [] vs = (vs = [])"
| "fits (FPad n # fs) vs = fits fs vs"
| "fits (FUint n # fs) vs =
     (case vs of VInt v # r \<Rightarrow> 0 \<le> v \<and> v < 256 ^ n \<and> fits fs r | _ \<Rightarrow> False)"
| "fits (FSint n # fs) vs =
     (case vs of VInt v # r \<Rightarrow> - (256 ^ n div 2) \<le> v \<and> v < 256 ^ n div 2 \<and> fits fs r
      | _ \<Rightarrow> False)"
| "fits (FBytes n # fs) vs =
     (case vs of VBytes b # r \<Rightarrow> length b = n \<and> fits fs r | _ \<Rightarrow> False)"

fun no_pad :: "fld list \<Rightarrow> bool" where
  "no_pad [] = True"
| "no_pad (FPad n # fs) = False"
| "no_pad (_ # fs) = no_pad fs"

lemma signed_fold_bounds:
  fixes u :: int
  assumes "0 \<le> u" "u < 256 ^ n" "0 < n"
  shows "- (256 ^ n div 2) \<le> signed_of n u"
    and "signed_of n u < 256 ^ n div 2"
    and "signed_of n u mod 256 ^ n = u"
proof -
  obtain k where "n = Suc k" using assms(3) by (cases n) auto
  then have e: "(256::int) ^ n = 2 * (128 * 256 ^ k)" by simp
  show "- (256 ^ n div 2) \<le> signed_of n u"
    using assms e by (auto simp: signed_of_def)
  show "signed_of n u < 256 ^ n div 2"
    using assms e by (auto simp: signed_of_def)
  show "signed_of n u mod 256 ^ n = u"
  proof (cases "256 ^ n div 2 \<le> u")
    case True
    have "(u - 256 ^ n) mod 256 ^ n = u mod 256 ^ n" by (rule minus_mod_self2)
    then show ?thesis using True assms by (simp add: signed_of_def)
  next
    case False
    then show ?thesis using assms by (simp add: signed_of_def)
  qed
qed

lemma signed_unfold:
  fixes v :: int
  assumes "- (256 ^ n div 2) \<le> v" "v < 256 ^ n div 2"
  shows "signed_of n (v mod 256 ^ n) = v"
proof (cases "0 \<le> v")
  case True
  have "v < 256 ^ n" using assms(2) True by simp
  then show ?thesis using True assms by (simp add: signed_of_def)
next
  case False
  have "(v + 256 ^ n) mod 256 ^ n = v + 256 ^ n"
    using False assms by (intro mod_pos_pos_trivial) auto
  then have "v mod 256 ^ n = v + 256 ^ n" by simp
  then show ?thesis using False assms by (auto simp: signed_of_def)
qed

context byte_order begin

lemma pack_size: "struct_pack enc fs vs = Some bs \<Longrightarrow> length bs = calcsize fs"
proof (induction fs arbitrary: vs bs)
  case Nil
  then show ?case by (cases vs) simp_all
next
  case (Cons f fs)
  show ?case
  proof (cases f)
    case (FPad n)
    with Cons show ?thesis by auto
  next
    case (FUint n)
    with Cons show ?thesis
      by (cases vs; cases "hd vs") (auto simp: enc_length split: if_splits)
  next
    case (FSint n)
    with Cons show ?thesis
      by (cases vs; cases "hd vs") (auto simp: enc_length split: if_splits)
  next
    case (FBytes n)
    with Cons show ?thesis
      by (cases vs; cases "hd vs") (auto split: if_splits)
  qed
qed

lemma pack_total: "fits fs vs \<Longrightarrow> \<exists>bs. struct_pack enc fs vs = Some bs"
  by (induction fs vs rule: fits.induct) (auto split: list.splits sval.splits)

lemma unpack_pack:
  "fits fs vs \<Longrightarrow> struct_pack enc fs vs = Some bs \<Longrightarrow> struct_unpack dec fs bs = Some vs"
proof (induction fs vs arbitrary: bs rule: fits.induct)
  case (4 n fs vs)
  then obtain v r where v: "vs = VInt v # r" "- (256 ^ n div 2) \<le> v" "v < 256 ^ n div 2" "fits fs r"
    by (auto split: list.splits sval.splits)
  have m: "dec (enc n (v mod 256 ^ n)) = v mod 256 ^ n"
    by (simp add: dec_enc)
  obtain z where z: "struct_pack enc fs r = Some z" "bs = enc n (v mod 256 ^ n) @ z"
    using 4(3) v by auto
  have "struct_unpack dec fs z = Some r"
    using 4(1)[OF v(1) refl v(4) z(1)] .
  then show ?case
    using v z signed_unfold[OF v(2,3)] m by (simp add: enc_length Let_def)
qed (auto simp: enc_length dec_enc Let_def split: list.splits sval.splits if_splits)

lemma unpack_fits:
  assumes "struct_unpack dec fs bs = Some vs" and "FSint 0 \<notin> set fs"
  shows "fits fs vs"
  using assms
proof (induction fs arbitrary: bs vs)
  case Nil
  then show ?case by (simp split: if_splits)
next
  case (Cons f fs)
  let ?x = "take (fld_size f) bs"
  have len: "length ?x = fld_size f"
    using Cons.prems(1) by (auto split: if_splits)
  have b: "0 \<le> dec ?x" "dec ?x < 256 ^ fld_size f"
    using dec_nonneg dec_bound[of ?x] len by simp_all
  show ?case
  proof (cases f)
    case (FSint n)
    then have "0 < n" using Cons.prems(2) by (cases n) auto
    then show ?thesis
      using Cons FSint signed_fold_bounds[of "dec ?x" n] b
      by (auto simp: Let_def split: if_splits)
  qed (use Cons b len in \<open>auto simp: Let_def split: if_splits\<close>)
qed

lemma pack_unpack:
  assumes "struct_unpack dec fs bs = Some vs" and "FSint 0 \<notin> set fs" and "no_pad fs"
  shows "struct_pack enc fs vs = Some bs"
  using assms
proof (induction fs arbitrary: bs vs)
  case Nil
  then show ?case by (simp split: if_splits)
next
  case (Cons f fs)
  let ?x = "take (fld_size f) bs" and ?r = "drop (fld_size f) bs"
  have len: "length ?x = fld_size f" and bs: "?x @ ?r = bs"
    using Cons.prems(1) by (auto split: if_splits)
  have b: "0 \<le> dec ?x" "dec ?x < 256 ^ fld_size f" "enc (fld_size f) (dec ?x) = ?x"
    using dec_nonneg dec_bound[of ?x] enc_dec[of ?x] len by simp_all
  have IH: "struct_unpack dec fs ?r = Some r \<Longrightarrow> struct_pack enc fs r = Some ?r" for r
    using Cons.IH Cons.prems(2,3) by (cases f) auto
  show ?case
  proof (cases f)
    case (FSint n)
    then have "0 < n" using Cons.prems(2) by (cases n) auto
    from signed_fold_bounds[OF b(1) _ this] b FSint show ?thesis
      using Cons.prems(1) IH bs by (auto simp: Let_def split: if_splits)
  qed (use Cons.prems IH b bs len in \<open>auto simp: Let_def split: if_splits\<close>)
qed

lemma unpack_total: "length bs = calcsize fs \<Longrightarrow> \<exists>vs. struct_unpack dec fs bs = Some vs"
proof (induction fs arbitrary: bs)
  case Nil
  then show ?case by simp
next
  case (Cons f fs)
  then have "\<exists>vs. struct_unpack dec fs (drop (fld_size f) bs) = Some vs"
    by simp
  with Cons.prems show ?case by (cases f) (auto simp: Let_def)
qed

end

lemmas struct_laws =
  be.pack_size le.pack_size be.unpack_pack le.unpack_pack be.pack_unpack le.pack_unpack

end
