(* ===== verification/DataProtocol.thy ===== *)
theory DataProtocol
  imports ByteCodec
begin

text \<open>
  The Data Plane v1 wire codec of \<open>host/data_plane/qcrate_data_protocol.py\<close>: the fixed
  64-byte header, the \<open>STREAM_INFO\<close> and \<open>SHOT_END\<close> payloads, whole datagrams and the
  packet-type rules of \<open>validate_payload\<close>.  Every \<open>raise ValueError\<close> of the source is a
  constructor of \<open>wire_error\<close>; the integer fields are Python integers, so the range checks
  of \<open>unsigned\<close> are part of the model.
\<close>

section \<open>Enumerations and constants\<close>

datatype packet_type = STREAM_INFO | DATA | SHOT_END | HEARTBEAT

datatype payload_format = NONE | COUNTER_U32_LE | IQ_S16_LE

datatype timestamp_clock = UNSPECIFIED | QCRATE_TIMEBASE | TAI_NS | MONOTONIC_NS

definition MAGIC :: int where "MAGIC = 0x51434450"
definition VERSION :: int where "VERSION = 1"
definition HEADER_BYTES :: nat where "HEADER_BYTES = 64"
definition MAX_DATAGRAM_BYTES :: nat where "MAX_DATAGRAM_BYTES = 1400"
definition STREAM_INFO_BYTES :: nat where "STREAM_INFO_BYTES = 64"
definition SHOT_END_BYTES :: nat where "SHOT_END_BYTES = 64"

lemmas wire_sizes [simp] =
  HEADER_BYTES_def MAX_DATAGRAM_BYTES_def STREAM_INFO_BYTES_def SHOT_END_BYTES_def

fun packet_type_int :: "packet_type \<Rightarrow> int" where
  "packet_type_int STREAM_INFO = 1"
| "packet_type_int DATA = 2"
| "packet_type_int SHOT_END = 3"
| "packet_type_int HEARTBEAT = 4"

fun payload_format_int :: "payload_format \<Rightarrow> int" where
  "payload_format_int NONE = 0"
| "payload_format_int COUNTER_U32_LE = 1"
| "payload_format_int IQ_S16_LE = 2"

fun timestamp_clock_int :: "timestamp_clock \<Rightarrow> int" where
  "timestamp_clock_int UNSPECIFIED = 0"
| "timestamp_clock_int QCRATE_TIMEBASE = 1"
| "timestamp_clock_int TAI_NS = 2"
| "timestamp_clock_int MONOTONIC_NS = 3"

text \<open>\<open>PacketType(v)\<close> and its like: the member with value \<open>v\<close>, or \<open>ValueError\<close>.\<close>

definition packet_type_of :: "int \<Rightarrow> packet_type option" where
  "packet_type_of v = (if v = 1 then Some STREAM_INFO else if v = 2 then Some DATA
     else if v = 3 then Some SHOT_END else if v = 4 then Some HEARTBEAT else None)"

definition payload_format_of :: "int \<Rightarrow> payload_format option" where
  "payload_format_of v = (if v = 0 then Some NONE else if v = 1 then Some COUNTER_U32_LE
     else if v = 2 then Some IQ_S16_LE else None)"

definition timestamp_clock_of :: "int \<Rightarrow> timestamp_clock option" where
  "timestamp_clock_of v = (if v = 0 then Some UNSPECIFIED else if v = 1 then Some QCRATE_TIMEBASE
     else if v = 2 then Some TAI_NS else if v = 3 then Some MONOTONIC_NS else None)"

lemma packet_type_of_iff: "packet_type_of v = Some t \<longleftrightarrow> v = packet_type_int t"
  by (cases t) (auto simp: packet_type_of_def split: if_splits)

lemma payload_format_of_iff: "payload_format_of v = Some t \<longleftrightarrow> v = payload_format_int t"
  by (cases t) (auto simp: payload_format_of_def split: if_splits)

lemma timestamp_clock_of_iff: "timestamp_clock_of v = Some t \<longleftrightarrow> v = timestamp_clock_int t"
  by (cases t) (auto simp: timestamp_clock_of_def split: if_splits)

lemma enum_of_int [simp]:
  "packet_type_of (packet_type_int t) = Some t"
  "payload_format_of (payload_format_int f) = Some f"
  "timestamp_clock_of (timestamp_clock_int c) = Some c"
  by (simp_all add: packet_type_of_iff payload_format_of_iff timestamp_clock_of_iff)

lemma timestamp_clock_int_inj [simp]: "timestamp_clock_int a = timestamp_clock_int b \<longleftrightarrow> a = b"
  by (metis enum_of_int(3) option.inject)

text \<open>The members of \<open>IntEnum\<close> compare as their values.\<close>

instantiation packet_type :: linorder
begin

definition less_eq_packet_type :: "packet_type \<Rightarrow> packet_type \<Rightarrow> bool" where
  "less_eq_packet_type a b = (packet_type_int a \<le> packet_type_int b)"

definition less_packet_type :: "packet_type \<Rightarrow> packet_type \<Rightarrow> bool" where
  "less_packet_type a b = (packet_type_int a < packet_type_int b)"

instance
proof
  fix a b :: packet_type
  show "a \<le> b \<Longrightarrow> b \<le> a \<Longrightarrow> a = b"
    by (cases a; cases b) (simp_all add: less_eq_packet_type_def)
qed (auto simp: less_eq_packet_type_def less_packet_type_def)

end

definition TIMESTAMP_VALID :: int where "TIMESTAMP_VALID = 1"
definition FRAME_START :: int where "FRAME_START = 2"
definition FRAME_END :: int where "FRAME_END = 4"
definition DISCONTINUITY_BEFORE :: int where "DISCONTINUITY_BEFORE = 8"
definition PAYLOAD_CRC_VALID :: int where "PAYLOAD_CRC_VALID = 16"
definition SOURCE_OVERFLOW :: int where "SOURCE_OVERFLOW = 32"
definition SENDER_DROP :: int where "SENDER_DROP = 64"
definition END_OF_STREAM :: int where "END_OF_STREAM = 128"

lemmas flag_defs =
  TIMESTAMP_VALID_def FRAME_START_def FRAME_END_def DISCONTINUITY_BEFORE_def
  PAYLOAD_CRC_VALID_def SOURCE_OVERFLOW_def SENDER_DROP_def END_OF_STREAM_def

definition has_flag :: "int \<Rightarrow> int \<Rightarrow> bool" where
  "has_flag fl f = (fl AND f \<noteq> 0)"

fun SAMPLE_BYTES :: "payload_format \<Rightarrow> int" where
  "SAMPLE_BYTES NONE = 0"
| "SAMPLE_BYTES COUNTER_U32_LE = 4"
| "SAMPLE_BYTES IQ_S16_LE = 4"

section \<open>Errors\<close>

datatype wire_error =
    NotUint string nat
  | BadHeaderBytes
  | ShortHeader
  | BadMagic int
  | BadVersion int
  | BadPacketType int
  | BadPayloadFormat int
  | ZeroDenominator
  | CenterNotInt64
  | BadStreamInfoLength
  | BadStreamInfoVersion
  | BadClock int
  | BadShotEndLength
  | ShotEndReserved
  | DatagramTooLong
  | RequiresFormat packet_type
  | RequiresNone packet_type
  | BadSampleBytes payload_format
  | TimestampWithoutFlag
  | ZeroSamples
  | BadDataLength nat int
  | FrameStartOffset
  | NonzeroSampleCount packet_type
  | IdentifiesFrame packet_type
  | BadPayloadLength packet_type nat
  | StructError

definition unsigned :: "int \<Rightarrow> nat \<Rightarrow> string \<Rightarrow> wire_error + int" where
  "unsigned v bits name = (if 0 \<le> v \<and> v < 2 ^ bits then Inr v else Inl (NotUint name bits))"

lemma unsigned_Inr_iff [result_iff]: "unsigned v b n = Inr w \<longleftrightarrow> w = v \<and> 0 \<le> v \<and> v < 2 ^ b"
  by (auto simp: unsigned_def)

text \<open>A tuple of \<open>unsigned\<close> calls, evaluated left to right.\<close>

definition unsigned_all :: "(int \<times> nat \<times> string) list \<Rightarrow> wire_error + int list" where
  "unsigned_all fields = map_res (\<lambda>(v, b, n). unsigned v b n) fields"

definition of_struct :: "'a option \<Rightarrow> wire_error + 'a" where
  "of_struct r = (case r of None \<Rightarrow> Inl StructError | Some x \<Rightarrow> Inr x)"

lemma of_struct_Inr_iff [result_iff]: "of_struct r = Inr x \<longleftrightarrow> r = Some x"
  by (auto simp: of_struct_def split: option.splits)

lemma unsigned_all_Inr_iff [result_iff]:
  "unsigned_all fs = Inr vs \<longleftrightarrow>
     vs = map fst fs \<and> (\<forall>(v, b, n) \<in> set fs. 0 \<le> v \<and> v < 2 ^ b)"
proof (induction fs arbitrary: vs)
  case Nil
  then show ?case by (auto simp: unsigned_all_def)
next
  case (Cons f fs)
  then show ?case
    by (cases f) (auto simp: unsigned_all_def result_iff list_all2_Cons1 split: prod.splits)
qed

section \<open>The header\<close>

record header =
  h_packet_type :: packet_type
  h_payload_format :: payload_format
  h_flags :: int
  h_stream_id :: int
  h_run_id :: int
  h_shot_id :: int
  h_packet_sequence :: int
  h_frame_id :: int
  h_sample_offset :: int
  h_sample_count :: int
  h_sample_bytes :: int
  h_timestamp_ticks :: int
  h_header_bytes :: int

definition HEADER_STRUCT :: "fld list" where
  "HEADER_STRUCT =
     [FUint 4, FUint 2, FUint 2, FUint 2, FUint 2, FUint 4, FUint 4,
      FUint 8, FUint 8, FUint 8, FUint 4, FUint 4, FUint 2, FUint 2, FUint 8]"

definition header_fields :: "header \<Rightarrow> (int \<times> nat \<times> string) list" where
  "header_fields h =
     [(MAGIC, 32, ''magic''),
      (VERSION, 16, ''version''),
      (h_header_bytes h, 16, ''header_bytes''),
      (packet_type_int (h_packet_type h), 16, ''packet_type''),
      (payload_format_int (h_payload_format h), 16, ''payload_format''),
      (h_flags h, 32, ''flags''),
      (h_stream_id h, 32, ''stream_id''),
      (h_run_id h, 64, ''run_id''),
      (h_shot_id h, 64, ''shot_id''),
      (h_packet_sequence h, 64, ''packet_sequence''),
      (h_frame_id h, 32, ''frame_id''),
      (h_sample_offset h, 32, ''sample_offset''),
      (h_sample_count h, 16, ''sample_count''),
      (h_sample_bytes h, 16, ''sample_bytes''),
      (h_timestamp_ticks h, 64, ''timestamp_ticks'')]"

definition header_encode :: "header \<Rightarrow> wire_error + bytes" where
  "header_encode h =
     bind_res (unsigned_all (header_fields h)) (\<lambda>fields.
       if h_header_bytes h \<noteq> int HEADER_BYTES then Inl BadHeaderBytes
       else of_struct (struct_pack be_bytes HEADER_STRUCT (map VInt fields)))"

definition header_decode :: "bytes \<Rightarrow> wire_error + header" where
  "header_decode data =
     (if length data < HEADER_BYTES then Inl ShortHeader
      else bind_res (of_struct (struct_unpack_from be_int HEADER_STRUCT data 0)) (\<lambda>unpacked.
        let u = (\<lambda>i. ival (unpacked ! i)) in
        if u 0 \<noteq> MAGIC then Inl (BadMagic (u 0))
        else if u 1 \<noteq> VERSION then Inl (BadVersion (u 1))
        else if u 2 \<noteq> int HEADER_BYTES then Inl BadHeaderBytes
        else case packet_type_of (u 3) of
          None \<Rightarrow> Inl (BadPacketType (u 3))
        | Some pt \<Rightarrow>
          (case payload_format_of (u 4) of
             None \<Rightarrow> Inl (BadPayloadFormat (u 4))
           | Some pf \<Rightarrow> Inr
               \<lparr>h_packet_type = pt, h_payload_format = pf, h_flags = u 5, h_stream_id = u 6,
                h_run_id = u 7, h_shot_id = u 8, h_packet_sequence = u 9, h_frame_id = u 10,
                h_sample_offset = u 11, h_sample_count = u 12, h_sample_bytes = u 13,
                h_timestamp_ticks = u 14, h_header_bytes = u 2\<rparr>)))"

section \<open>Payload records\<close>

record stream_info =
  si_frame_samples :: int
  si_sample_rate_numerator :: int
  si_sample_rate_denominator :: int
  si_timestamp_rate_numerator :: int
  si_timestamp_rate_denominator :: int
  si_center_frequency_hz :: int
  si_channel_count :: int
  si_component_bits :: int
  si_fraction_bits :: int
  si_timestamp_clock_id :: timestamp_clock
  si_config_id :: int

definition STREAM_INFO_STRUCT :: "fld list" where
  "STREAM_INFO_STRUCT =
     [FUint 2, FUint 2, FUint 4, FUint 8, FUint 8, FUint 8, FUint 8, FSint 8,
      FUint 2, FUint 2, FUint 2, FUint 2, FUint 8]"

definition stream_info_encode :: "stream_info \<Rightarrow> wire_error + bytes" where
  "stream_info_encode s =
     (if si_sample_rate_denominator s = 0 \<or> si_timestamp_rate_denominator s = 0
      then Inl ZeroDenominator
      else if \<not> (- (2 ^ 63) \<le> si_center_frequency_hz s \<and> si_center_frequency_hz s < 2 ^ 63)
      then Inl CenterNotInt64
      else
        bind_res (unsigned_all
          [(si_frame_samples s, 32, ''frame_samples''),
           (si_sample_rate_numerator s, 64, ''sample_rate_numerator''),
           (si_sample_rate_denominator s, 64, ''sample_rate_denominator''),
           (si_timestamp_rate_numerator s, 64, ''timestamp_rate_numerator''),
           (si_timestamp_rate_denominator s, 64, ''timestamp_rate_denominator'')]) (\<lambda>a.
        bind_res (unsigned_all
          [(si_channel_count s, 16, ''channel_count''),
           (si_component_bits s, 16, ''component_bits''),
           (si_fraction_bits s, 16, ''fraction_bits''),
           (timestamp_clock_int (si_timestamp_clock_id s), 16, ''timestamp_clock_id''),
           (si_config_id s, 64, ''config_id'')]) (\<lambda>b.
        of_struct (struct_pack be_bytes STREAM_INFO_STRUCT
          (map VInt ([VERSION, int STREAM_INFO_BYTES] @ a @ [si_center_frequency_hz s] @ b))))))"

definition stream_info_decode :: "bytes \<Rightarrow> wire_error + stream_info" where
  "stream_info_decode payload =
     (if length payload \<noteq> STREAM_INFO_BYTES then Inl BadStreamInfoLength
      else bind_res (of_struct (struct_unpack be_int STREAM_INFO_STRUCT payload)) (\<lambda>values.
        let v = (\<lambda>i. ival (values ! i)) in
        if v 0 \<noteq> VERSION \<or> v 1 \<noteq> int STREAM_INFO_BYTES then Inl BadStreamInfoVersion
        else if v 4 = 0 \<or> v 6 = 0 then Inl ZeroDenominator
        else case timestamp_clock_of (v 11) of
          None \<Rightarrow> Inl (BadClock (v 11))
        | Some clock_id \<Rightarrow> Inr
            \<lparr>si_frame_samples = v 2, si_sample_rate_numerator = v 3,
             si_sample_rate_denominator = v 4, si_timestamp_rate_numerator = v 5,
             si_timestamp_rate_denominator = v 6, si_center_frequency_hz = v 7,
             si_channel_count = v 8, si_component_bits = v 9, si_fraction_bits = v 10,
             si_timestamp_clock_id = clock_id, si_config_id = v 12\<rparr>))"

record shot_end =
  se_status :: int
  se_end_flags :: int
  se_total_frames :: int
  se_total_samples :: int
  se_total_data_packets :: int
  se_first_packet_sequence :: int
  se_last_packet_sequence :: int
  se_payload_bytes :: int
  se_payload_crc32 :: int

definition SHOT_END_STRUCT :: "fld list" where
  "SHOT_END_STRUCT =
     [FUint 4, FUint 4, FUint 4, FUint 4, FUint 8, FUint 8, FUint 8, FUint 8, FUint 8,
      FUint 4, FUint 4]"

definition shot_end_encode :: "shot_end \<Rightarrow> wire_error + bytes" where
  "shot_end_encode e =
     bind_res (unsigned_all
       [(se_status e, 32, ''status''),
        (se_end_flags e, 32, ''end_flags''),
        (se_total_frames e, 32, ''total_frames''),
        (0, 32, ''''),
        (se_total_samples e, 64, ''total_samples''),
        (se_total_data_packets e, 64, ''total_data_packets''),
        (se_first_packet_sequence e, 64, ''first_packet_sequence''),
        (se_last_packet_sequence e, 64, ''last_packet_sequence''),
        (se_payload_bytes e, 64, ''payload_bytes''),
        (se_payload_crc32 e, 32, ''payload_crc32''),
        (0, 32, '''')]) (\<lambda>fields.
     of_struct (struct_pack be_bytes SHOT_END_STRUCT (map VInt fields)))"

definition shot_end_decode :: "bytes \<Rightarrow> wire_error + shot_end" where
  "shot_end_decode payload =
     (if length payload \<noteq> SHOT_END_BYTES then Inl BadShotEndLength
      else bind_res (of_struct (struct_unpack be_int SHOT_END_STRUCT payload)) (\<lambda>values.
        let v = (\<lambda>i. ival (values ! i)) in
        if v 3 \<noteq> 0 \<or> v 10 \<noteq> 0 then Inl ShotEndReserved
        else Inr
          \<lparr>se_status = v 0, se_end_flags = v 1, se_total_frames = v 2, se_total_samples = v 4,
           se_total_data_packets = v 5, se_first_packet_sequence = v 6,
           se_last_packet_sequence = v 7, se_payload_bytes = v 8, se_payload_crc32 = v 9\<rparr>))"

section \<open>Packets\<close>

record packet =
  p_header :: header
  p_payload :: bytes

fun expected_payload :: "packet_type \<Rightarrow> nat" where
  "expected_payload STREAM_INFO = STREAM_INFO_BYTES"
| "expected_payload SHOT_END = SHOT_END_BYTES"
| "expected_payload HEARTBEAT = 0"
| "expected_payload DATA = 0"

definition validate_payload :: "header \<Rightarrow> bytes \<Rightarrow> wire_error + unit" where
  "validate_payload h payload =
     (let pt = h_packet_type h; pf = h_payload_format h in
      if pt \<in> {STREAM_INFO, DATA} \<and> pf = NONE then Inl (RequiresFormat pt)
      else if pt \<notin> {STREAM_INFO, DATA} \<and> pf \<noteq> NONE then Inl (RequiresNone pt)
      else if h_sample_bytes h \<noteq> SAMPLE_BYTES pf then Inl (BadSampleBytes pf)
      else if \<not> has_flag (h_flags h) TIMESTAMP_VALID \<and> h_timestamp_ticks h \<noteq> 0
      then Inl TimestampWithoutFlag
      else if pt = DATA then
        (let expected = h_sample_count h * h_sample_bytes h in
         if h_sample_count h = 0 then Inl ZeroSamples
         else if int (length payload) \<noteq> expected then Inl (BadDataLength (length payload) expected)
         else if has_flag (h_flags h) FRAME_START \<and> h_sample_offset h \<noteq> 0
         then Inl FrameStartOffset
         else Inr ())
      else if h_sample_count h \<noteq> 0 then Inl (NonzeroSampleCount pt)
      else if h_frame_id h \<noteq> 0 \<or> h_sample_offset h \<noteq> 0 then Inl (IdentifiesFrame pt)
      else if length payload \<noteq> expected_payload pt then Inl (BadPayloadLength pt (length payload))
      else Inr ())"

definition packet_encode :: "packet \<Rightarrow> wire_error + bytes" where
  "packet_encode p =
     bind_res (validate_payload (p_header p) (p_payload p)) (\<lambda>_.
     bind_res (header_encode (p_header p)) (\<lambda>h.
       let encoded = h @ p_payload p in
       if length encoded > MAX_DATAGRAM_BYTES then Inl DatagramTooLong else Inr encoded))"

definition packet_decode :: "bytes \<Rightarrow> wire_error + packet" where
  "packet_decode datagram =
     (if length datagram > MAX_DATAGRAM_BYTES then Inl DatagramTooLong
      else bind_res (header_decode datagram) (\<lambda>h.
        let payload = drop (nat (h_header_bytes h)) datagram in
        bind_res (validate_payload h payload) (\<lambda>_.
        Inr \<lparr>p_header = h, p_payload = payload\<rparr>)))"

section \<open>Round trips of the fixed records\<close>

text \<open>
  Each record codec is inverse to its decoder on every byte string of its size: the bit
  layout loses nothing and admits one encoding only.  The lemmas below are stated as
  equivalences so that both directions are available to the datagram theorem.
\<close>

lemma struct_unpack_from_prefix:
  "length bs = calcsize fs \<Longrightarrow>
     struct_unpack_from dec fs (bs @ r) 0 = struct_unpack dec fs bs"
  by (simp add: struct_unpack_from_def)

lemma be_pack_iff_unpack:
  assumes "FSint 0 \<notin> set fs" "no_pad fs"
  shows "fits fs vs \<and> struct_pack be_bytes fs vs = Some bs \<longleftrightarrow> struct_unpack be_int fs bs = Some vs"
  using assms be.pack_unpack be.unpack_fits be.unpack_pack by blast

lemma unpack_size: "struct_unpack dec fs bs = Some vs \<Longrightarrow> length bs = calcsize fs"
proof (induction fs arbitrary: bs vs)
  case Nil
  then show ?case by (simp split: if_splits)
next
  case (Cons f fs)
  then obtain r where "struct_unpack dec fs (drop (fld_size f) bs) = Some r" "fld_size f \<le> length bs"
    by (cases f) (auto simp: Let_def split: if_splits)
  with Cons.IH show ?case by force
qed

definition header_ok :: "header \<Rightarrow> bool" where
  "header_ok h \<longleftrightarrow>
     0 \<le> h_flags h \<and> h_flags h < 2 ^ 32 \<and> 0 \<le> h_stream_id h \<and> h_stream_id h < 2 ^ 32 \<and>
     0 \<le> h_run_id h \<and> h_run_id h < 2 ^ 64 \<and> 0 \<le> h_shot_id h \<and> h_shot_id h < 2 ^ 64 \<and>
     0 \<le> h_packet_sequence h \<and> h_packet_sequence h < 2 ^ 64 \<and>
     0 \<le> h_frame_id h \<and> h_frame_id h < 2 ^ 32 \<and>
     0 \<le> h_sample_offset h \<and> h_sample_offset h < 2 ^ 32 \<and>
     0 \<le> h_sample_count h \<and> h_sample_count h < 2 ^ 16 \<and>
     0 \<le> h_sample_bytes h \<and> h_sample_bytes h < 2 ^ 16 \<and>
     0 \<le> h_timestamp_ticks h \<and> h_timestamp_ticks h < 2 ^ 64 \<and> h_header_bytes h = 64"

definition header_values :: "header \<Rightarrow> sval list" where
  "header_values h = map (VInt \<circ> fst) (header_fields h)"

lemma enum_ranges:
  "0 \<le> packet_type_int t" "packet_type_int t < 65536"
  "0 \<le> payload_format_int f" "payload_format_int f < 65536"
  "0 \<le> timestamp_clock_int c" "timestamp_clock_int c < 65536"
  by (cases t; cases f; cases c; simp)+

lemma header_fits: "header_ok h \<Longrightarrow> fits HEADER_STRUCT (header_values h)"
  by (simp add: header_ok_def header_values_def header_fields_def HEADER_STRUCT_def enum_ranges
      MAGIC_def VERSION_def)

lemma header_encode_iff:
  "header_encode h = Inr bs \<longleftrightarrow>
     header_ok h \<and> struct_pack be_bytes HEADER_STRUCT (header_values h) = Some bs"
  by (auto simp: header_encode_def result_iff header_ok_def header_values_def header_fields_def
      MAGIC_def VERSION_def enum_ranges)

lemma fits_HEADER_cases:
  assumes "fits HEADER_STRUCT vs"
  obtains a b c d e f g h i j k l m n p where
    "vs = map VInt [a, b, c, d, e, f, g, h, i, j, k, l, m, n, p]"
  using assms by (auto simp: HEADER_STRUCT_def split: list.splits sval.splits)

lemma header_decode_iff:
  "header_decode data = Inr h \<longleftrightarrow>
     64 \<le> length data \<and> header_ok h \<and>
     struct_unpack be_int HEADER_STRUCT (take 64 data) = Some (header_values h)"
proof -
  have size: "calcsize HEADER_STRUCT = 64"
    by (simp add: HEADER_STRUCT_def)
  show ?thesis
  proof (cases "64 \<le> length data")
    case False
    then show ?thesis by (auto simp: header_decode_def)
  next
    case True
    then obtain vs where vs: "struct_unpack be_int HEADER_STRUCT (take 64 data) = Some vs"
      using be.unpack_total[of "take 64 data" HEADER_STRUCT] size by auto
    then have r: "fits HEADER_STRUCT vs"
      by (rule be.unpack_fits) (simp add: HEADER_STRUCT_def)
    then obtain a b c d e f g h' i j k l m n p where
      v: "vs = map VInt [a, b, c, d, e, f, g, h', i, j, k, l, m, n, p]"
      by (rule fits_HEADER_cases)
    have "struct_unpack_from be_int HEADER_STRUCT data 0 = Some vs"
      using vs True size by (simp add: struct_unpack_from_def)
    then have "header_decode data = Inr h \<longleftrightarrow>
        a = MAGIC \<and> b = VERSION \<and> c = 64 \<and> packet_type_of d = Some (h_packet_type h) \<and>
        payload_format_of e = Some (h_payload_format h) \<and>
        h = \<lparr>h_packet_type = h_packet_type h, h_payload_format = h_payload_format h, h_flags = f,
             h_stream_id = g, h_run_id = h', h_shot_id = i, h_packet_sequence = j, h_frame_id = k,
             h_sample_offset = l, h_sample_count = m, h_sample_bytes = n, h_timestamp_ticks = p,
             h_header_bytes = c\<rparr>"
      using True v
      by (cases h) (auto simp: header_decode_def of_struct_def split: option.splits)
    moreover have "vs = header_values h \<and> header_ok h \<longleftrightarrow> (a = MAGIC \<and> b = VERSION \<and> c = 64 \<and> packet_type_of d = Some (h_packet_type h) \<and>
        payload_format_of e = Some (h_payload_format h) \<and>
        h = \<lparr>h_packet_type = h_packet_type h, h_payload_format = h_payload_format h, h_flags = f,
             h_stream_id = g, h_run_id = h', h_shot_id = i, h_packet_sequence = j, h_frame_id = k,
             h_sample_offset = l, h_sample_count = m, h_sample_bytes = n, h_timestamp_ticks = p,
             h_header_bytes = c\<rparr>)"
      using v r
      by (cases h) (auto simp: header_values_def header_fields_def header_ok_def HEADER_STRUCT_def
          packet_type_of_iff payload_format_of_iff)
    ultimately show ?thesis using vs True by auto
  qed
qed

lemma header_round_trip:
  "header_encode h = Inr hb \<Longrightarrow> header_decode (hb @ payload) = Inr h"
proof -
  assume e: "header_encode h = Inr hb"
  then have ok: "header_ok h" and pk: "struct_pack be_bytes HEADER_STRUCT (header_values h) = Some hb"
    by (simp_all add: header_encode_iff)
  have "length hb = 64"
    using be.pack_size[OF pk] by (simp add: HEADER_STRUCT_def)
  moreover have "struct_unpack be_int HEADER_STRUCT hb = Some (header_values h)"
    using be.unpack_pack[OF header_fits[OF ok] pk] .
  ultimately show ?thesis
    using ok by (simp add: header_decode_iff)
qed

lemma header_decode_encode:
  assumes "header_decode data = Inr h"
  shows "header_encode h = Inr (take 64 data)" and "64 \<le> length data" and "header_ok h"
proof -
  from assms have d: "64 \<le> length data" "header_ok h"
      "struct_unpack be_int HEADER_STRUCT (take 64 data) = Some (header_values h)"
    by (simp_all add: header_decode_iff)
  have "struct_pack be_bytes HEADER_STRUCT (header_values h) = Some (take 64 data)"
    by (rule be.pack_unpack[OF d(3)]) (simp_all add: HEADER_STRUCT_def)
  with d show "header_encode h = Inr (take 64 data)" and "64 \<le> length data" and "header_ok h"
    by (simp_all add: header_encode_iff)
qed

lemma header_encode_length: "header_encode h = Inr hb \<Longrightarrow> length hb = 64"
  using be.pack_size[of HEADER_STRUCT "header_values h" hb]
  by (simp add: header_encode_iff HEADER_STRUCT_def)

lemma packet_codec_iff: "packet_encode p = Inr bs \<longleftrightarrow> packet_decode bs = Inr p"
proof
  assume e: "packet_encode p = Inr bs"
  then obtain hb where hb: "validate_payload (p_header p) (p_payload p) = Inr ()"
      "header_encode (p_header p) = Inr hb" "bs = hb @ p_payload p" "length bs \<le> 1400"
    by (auto simp: packet_encode_def result_iff Let_def split: if_splits)
  have d: "header_decode bs = Inr (p_header p)"
    using header_round_trip[OF hb(2)] hb(3) by simp
  then have "h_header_bytes (p_header p) = 64"
    using header_decode_encode(3) by (simp add: header_ok_def)
  moreover have "length hb = 64"
    using hb(2) by (rule header_encode_length)
  ultimately show "packet_decode bs = Inr p"
    using d hb by (cases p) (simp add: packet_decode_def)
next
  assume d: "packet_decode bs = Inr p"
  then have l: "length bs \<le> 1400" and h: "header_decode bs = Inr (p_header p)"
    and pl: "p_payload p = drop (nat (h_header_bytes (p_header p))) bs"
    and v: "validate_payload (p_header p) (p_payload p) = Inr ()"
    by (auto simp: packet_decode_def result_iff Let_def split: if_splits)
  have "h_header_bytes (p_header p) = 64"
    using header_decode_encode(3)[OF h] by (simp add: header_ok_def)
  then have "take 64 bs @ p_payload p = bs"
    using pl by simp
  then show "packet_encode p = Inr bs"
    using header_decode_encode(1)[OF h] v l
    by (simp add: packet_encode_def Let_def del: length_append)
qed

lemma fits_STREAM_INFO_cases:
  assumes "fits STREAM_INFO_STRUCT vs"
  obtains a b c d e f g h i j k l m where
    "vs = map VInt [a, b, c, d, e, f, g, h, i, j, k, l, m]"
  using assms by (auto simp: STREAM_INFO_STRUCT_def split: list.splits sval.splits)

definition stream_info_values :: "stream_info \<Rightarrow> sval list" where
  "stream_info_values s = map VInt
     [1, 64, si_frame_samples s, si_sample_rate_numerator s, si_sample_rate_denominator s,
      si_timestamp_rate_numerator s, si_timestamp_rate_denominator s, si_center_frequency_hz s,
      si_channel_count s, si_component_bits s, si_fraction_bits s,
      timestamp_clock_int (si_timestamp_clock_id s), si_config_id s]"

lemma stream_info_encode_iff:
  "stream_info_encode s = Inr bs \<longleftrightarrow>
     si_sample_rate_denominator s \<noteq> 0 \<and> si_timestamp_rate_denominator s \<noteq> 0 \<and>
     fits STREAM_INFO_STRUCT (stream_info_values s) \<and>
     struct_pack be_bytes STREAM_INFO_STRUCT (stream_info_values s) = Some bs"
  by (auto simp: stream_info_encode_def result_iff stream_info_values_def STREAM_INFO_STRUCT_def
      VERSION_def enum_ranges)

lemma stream_info_decode_iff:
  "stream_info_decode bs = Inr s \<longleftrightarrow>
     si_sample_rate_denominator s \<noteq> 0 \<and> si_timestamp_rate_denominator s \<noteq> 0 \<and>
     struct_unpack be_int STREAM_INFO_STRUCT bs = Some (stream_info_values s)"
proof -
  have size: "calcsize STREAM_INFO_STRUCT = 64"
    by (simp add: STREAM_INFO_STRUCT_def)
  show ?thesis
  proof (cases "length bs = 64")
    case False
    then show ?thesis
      using unpack_size[of be_int STREAM_INFO_STRUCT bs] size
      by (auto simp: stream_info_decode_def)
  next
    case True
    then obtain vs where vs: "struct_unpack be_int STREAM_INFO_STRUCT bs = Some vs"
      using be.unpack_total[of bs STREAM_INFO_STRUCT] size by auto
    then have "fits STREAM_INFO_STRUCT vs"
      by (rule be.unpack_fits) (simp add: STREAM_INFO_STRUCT_def)
    then obtain a b c d e f g h i j k l m where
      v: "vs = map VInt [a, b, c, d, e, f, g, h, i, j, k, l, m]"
      by (rule fits_STREAM_INFO_cases)
    show ?thesis
      using True vs v
      by (cases s)
        (auto simp: stream_info_decode_def stream_info_values_def of_struct_def VERSION_def
          timestamp_clock_of_iff split: option.splits)
  qed
qed

lemma stream_info_codec_iff: "stream_info_encode s = Inr bs \<longleftrightarrow> stream_info_decode bs = Inr s"
proof -
  have "FSint 0 \<notin> set STREAM_INFO_STRUCT" "no_pad STREAM_INFO_STRUCT"
    by (simp_all add: STREAM_INFO_STRUCT_def)
  then show ?thesis
    unfolding stream_info_encode_iff stream_info_decode_iff
    using be_pack_iff_unpack by blast
qed

lemma fits_SHOT_END_cases:
  assumes "fits SHOT_END_STRUCT vs"
  obtains a b c d e f g h i j k where
    "vs = map VInt [a, b, c, d, e, f, g, h, i, j, k]"
  using assms by (auto simp: SHOT_END_STRUCT_def split: list.splits sval.splits)

definition shot_end_values :: "shot_end \<Rightarrow> sval list" where
  "shot_end_values e = map VInt
     [se_status e, se_end_flags e, se_total_frames e, 0, se_total_samples e,
      se_total_data_packets e, se_first_packet_sequence e, se_last_packet_sequence e,
      se_payload_bytes e, se_payload_crc32 e, 0]"

lemma shot_end_encode_iff:
  "shot_end_encode e = Inr bs \<longleftrightarrow>
     fits SHOT_END_STRUCT (shot_end_values e) \<and>
     struct_pack be_bytes SHOT_END_STRUCT (shot_end_values e) = Some bs"
  by (auto simp: shot_end_encode_def result_iff shot_end_values_def SHOT_END_STRUCT_def)

lemma shot_end_decode_iff:
  "shot_end_decode bs = Inr e \<longleftrightarrow>
     struct_unpack be_int SHOT_END_STRUCT bs = Some (shot_end_values e)"
proof -
  have size: "calcsize SHOT_END_STRUCT = 64"
    by (simp add: SHOT_END_STRUCT_def)
  show ?thesis
  proof (cases "length bs = 64")
    case False
    then show ?thesis
      using unpack_size[of be_int SHOT_END_STRUCT bs] size
      by (auto simp: shot_end_decode_def)
  next
    case True
    then obtain vs where vs: "struct_unpack be_int SHOT_END_STRUCT bs = Some vs"
      using be.unpack_total[of bs SHOT_END_STRUCT] size by auto
    then have "fits SHOT_END_STRUCT vs"
      by (rule be.unpack_fits) (simp add: SHOT_END_STRUCT_def)
    then obtain a b c d f g h i j k l where
      v: "vs = map VInt [a, b, c, d, f, g, h, i, j, k, l]"
      by (rule fits_SHOT_END_cases)
    show ?thesis
      using True vs v
      by (cases e) (auto simp: shot_end_decode_def shot_end_values_def of_struct_def)
  qed
qed

lemma shot_end_codec_iff: "shot_end_encode e = Inr bs \<longleftrightarrow> shot_end_decode bs = Inr e"
proof -
  have "FSint 0 \<notin> set SHOT_END_STRUCT" "no_pad SHOT_END_STRUCT"
    by (simp_all add: SHOT_END_STRUCT_def)
  then show ?thesis
    unfolding shot_end_encode_iff shot_end_decode_iff
    using be_pack_iff_unpack by blast
qed

section \<open>Properties\<close>

text \<open>
  C1. The datagram codec is a bijection between the packets \<open>Packet.encode\<close> accepts and the
  byte strings \<open>Packet.decode\<close> accepts: a datagram decodes to a packet exactly when that
  packet encodes to that datagram.  So nothing a sender can emit is misread, and every
  accepted datagram has one encoding only.
\<close>

theorem packet_codec_inverse:
  "packet_encode p = Inr bs \<longleftrightarrow> packet_decode bs = Inr p"
  by (rule packet_codec_iff)

text \<open>
  C2. The \<open>STREAM_INFO\<close> and \<open>SHOT_END\<close> payload codecs are bijections in the same sense: a metadata record
  encodes to a payload exactly when the payload decodes to it, signed centre frequency and
  clock enumeration included, and so does the trailer of a shot, so a trailer with a nonzero
  reserved field is never accepted.
\<close>

theorem payload_codecs_inverse:
  "(stream_info_encode s = Inr stream_bytes \<longleftrightarrow> stream_info_decode stream_bytes = Inr s) \<and>
   (shot_end_encode e = Inr end_bytes \<longleftrightarrow> shot_end_decode end_bytes = Inr e)"
  by (simp add: stream_info_codec_iff shot_end_codec_iff)

lemma packet_decode_valid:
  assumes "packet_decode bs = Inr p"
  shows "validate_payload (p_header p) (p_payload p) = Inr ()" and "header_ok (p_header p)"
    and "header_decode bs = Inr (p_header p)" and "length bs = 64 + length (p_payload p)"
    and "length bs \<le> 1400"
proof -
  from assms have h: "header_decode bs = Inr (p_header p)"
    and pl: "p_payload p = drop (nat (h_header_bytes (p_header p))) bs"
    and v: "validate_payload (p_header p) (p_payload p) = Inr ()" and l: "length bs \<le> 1400"
    by (auto simp: packet_decode_def result_iff Let_def split: if_splits)
  note d = header_decode_encode[OF h]
  show "validate_payload (p_header p) (p_payload p) = Inr ()" "header_ok (p_header p)"
    "header_decode bs = Inr (p_header p)" "length bs \<le> 1400"
    using v d h l by simp_all
  show "length bs = 64 + length (p_payload p)"
    using d pl by (simp add: header_ok_def)
qed

lemma validate_DATA:
  assumes "validate_payload h payload = Inr ()" and "h_packet_type h = DATA"
  shows "h_sample_bytes h = 4" and "h_sample_count h \<noteq> 0"
    and "int (length payload) = 4 * h_sample_count h"
  using assms by (cases "h_payload_format h"; auto simp: validate_payload_def Let_def split: if_splits)+

text \<open>
  C3. Bounds of an accepted datagram: at most 1400 bytes, made of the 64-byte header and the
  payload; a \<open>DATA\<close> packet carries between 1 and 334 whole four-byte samples, exactly as many
  as its header announces.
\<close>

theorem decoded_packet_bounds:
  assumes "packet_decode bs = Inr p"
  shows "length bs = 64 + length (p_payload p) \<and> length bs \<le> 1400 \<and>
    (h_packet_type (p_header p) = DATA \<longrightarrow>
       length (p_payload p) = 4 * nat (h_sample_count (p_header p)) \<and>
       1 \<le> h_sample_count (p_header p) \<and> h_sample_count (p_header p) \<le> 334)"
proof (intro conjI impI)
  note d = packet_decode_valid[OF assms]
  show l: "length bs = 64 + length (p_payload p)" "length bs \<le> 1400"
    by (fact d(4), fact d(5))
  assume t: "h_packet_type (p_header p) = DATA"
  note v = validate_DATA[OF d(1) t]
  show "length (p_payload p) = 4 * nat (h_sample_count (p_header p))"
      "1 \<le> h_sample_count (p_header p)" "h_sample_count (p_header p) \<le> 334"
    using v l d(2) by (auto simp: header_ok_def)
qed

definition example_data_packet :: packet where
  "example_data_packet =
     \<lparr>p_header = \<lparr>h_packet_type = DATA, h_payload_format = IQ_S16_LE, h_flags = 7,
        h_stream_id = 1, h_run_id = 2, h_shot_id = 3, h_packet_sequence = 4, h_frame_id = 5,
        h_sample_offset = 0, h_sample_count = 1, h_sample_bytes = 4, h_timestamp_ticks = 9,
        h_header_bytes = 64\<rparr>,
      p_payload = [1, 2, 3, 4]\<rparr>"

definition example_data_bytes :: bytes where
  "example_data_bytes =
     [0x51, 0x43, 0x44, 0x50, 0, 1, 0, 64, 0, 2, 0, 2, 0, 0, 0, 7, 0, 0, 0, 1,
      0, 0, 0, 0, 0, 0, 0, 2, 0, 0, 0, 0, 0, 0, 0, 3, 0, 0, 0, 0, 0, 0, 0, 4,
      0, 0, 0, 5, 0, 0, 0, 0, 0, 1, 0, 4, 0, 0, 0, 0, 0, 0, 0, 9, 1, 2, 3, 4]"

lemma example_data_decodes: "packet_decode example_data_bytes = Inr example_data_packet"
  by code_simp

theorem decoded_packet_bounds_witness:
  "length example_data_bytes = 64 + length (p_payload example_data_packet) \<and>
   length (p_payload example_data_packet) = 4 * nat (h_sample_count (p_header example_data_packet))"
  using decoded_packet_bounds[OF example_data_decodes]
  by (simp add: example_data_packet_def)

end
