(* ===== verification/Json.thy ===== *)
theory Json
  imports Prelude "HOL-Library.List_Lexorder" "HOL-Library.Char_ord" "HOL-Library.Product_Lexorder"
begin

text \<open>
  The values \<open>json.load\<close> returns.  An object is its list of key/value pairs in document
  order; a float is kept as its literal, since the modelled code only tells it from an
  integer.  A Python \<open>bool\<close> is its own constructor although \<open>isinstance(True, int)\<close> holds:
  every check of the source that excludes or admits booleans is written out where it stands.
\<close>

datatype json =
    JNull
  | JBool bool
  | JInt int
  | JFloat string
  | JString string
  | JArray "json list"
  | JObject "(string \<times> json) list"

type_synonym jobject = "(string \<times> json) list"

abbreviation keys_of :: "jobject \<Rightarrow> string list" where
  "keys_of d \<equiv> map fst d"

text \<open>\<open>d[k]\<close> on a key that is present; a Python dict has one value per key.\<close>

definition get :: "jobject \<Rightarrow> string \<Rightarrow> json" where
  "get d k = (case map_of d k of Some v \<Rightarrow> v | None \<Rightarrow> JNull)"

definition has_key :: "jobject \<Rightarrow> string \<Rightarrow> bool" where
  "has_key d k = (map_of d k \<noteq> None)"

fun is_JString :: "json \<Rightarrow> bool" where
  "is_JString (JString s) = True"
| "is_JString _ = False"

fun is_JObject :: "json \<Rightarrow> bool" where
  "is_JObject (JObject d) = True"
| "is_JObject _ = False"

fun is_JInt :: "json \<Rightarrow> bool" where
  "is_JInt (JInt i) = True"
| "is_JInt _ = False"

fun jint :: "json \<Rightarrow> int" where
  "jint (JInt i) = i"
| "jint _ = 0"

text \<open>\<open>sorted(xs)\<close> of a set of keys: the distinct keys in order.\<close>

definition sorted_keys :: "string list \<Rightarrow> string list" where
  "sorted_keys ks = sort (remdups ks)"

lemma sorted_keys_Nil_iff [simp]: "sorted_keys ks = [] \<longleftrightarrow> ks = []"
  by (metis set_empty2 set_remdups set_sort sorted_keys_def)

lemma has_key_iff: "has_key d k \<longleftrightarrow> k \<in> fst ` set d"
  by (simp add: has_key_def map_of_eq_None_iff)

section \<open>Duplicate keys\<close>

text \<open>
  \<open>json.load(..., object_pairs_hook=f)\<close> with an \<open>f\<close> that raises on a repeated key: every object
  is checked, inner objects first, in document order.  \<open>dup\<close> is the exception the program raises.
\<close>

fun unique_keys :: "(string \<Rightarrow> 'e) \<Rightarrow> string list \<Rightarrow> jobject \<Rightarrow> 'e + jobject" where
  "unique_keys dup seen [] = Inr []"
| "unique_keys dup seen ((k, v) # kvs) =
     (if k \<in> set seen then Inl (dup k)
      else bind_res (unique_keys dup (k # seen) kvs) (\<lambda>r. Inr ((k, v) # r)))"

fun hook :: "(string \<Rightarrow> 'e) \<Rightarrow> json \<Rightarrow> 'e + json"
  and hook_list :: "(string \<Rightarrow> 'e) \<Rightarrow> json list \<Rightarrow> 'e + json list"
  and hook_pairs :: "(string \<Rightarrow> 'e) \<Rightarrow> jobject \<Rightarrow> 'e + jobject"
where
  "hook dup (JObject kvs) =
     bind_res (hook_pairs dup kvs) (\<lambda>kvs'.
     bind_res (unique_keys dup [] kvs') (\<lambda>d. Inr (JObject d)))"
| "hook dup (JArray xs) = bind_res (hook_list dup xs) (\<lambda>ys. Inr (JArray ys))"
| "hook dup JNull = Inr JNull"
| "hook dup (JBool b) = Inr (JBool b)"
| "hook dup (JInt i) = Inr (JInt i)"
| "hook dup (JFloat s) = Inr (JFloat s)"
| "hook dup (JString s) = Inr (JString s)"
| "hook_list dup [] = Inr []"
| "hook_list dup (x # xs) =
     bind_res (hook dup x) (\<lambda>y. bind_res (hook_list dup xs) (\<lambda>ys. Inr (y # ys)))"
| "hook_pairs dup [] = Inr []"
| "hook_pairs dup ((k, v) # kvs) =
     bind_res (hook dup v) (\<lambda>w. bind_res (hook_pairs dup kvs) (\<lambda>r. Inr ((k, w) # r)))"

lemma unique_keys_Inr:
  "unique_keys dup seen kvs = Inr d \<longleftrightarrow> d = kvs \<and> distinct (map fst kvs) \<and> set (map fst kvs) \<inter> set seen = {}"
  by (induction dup seen kvs arbitrary: d rule: unique_keys.induct) (auto simp: result_iff)

text \<open>The hook returns the value it was given, or raises.\<close>

lemma hook_same:
  "hook dup v = Inr w \<Longrightarrow> w = v"
  "hook_list dup vs = Inr ws \<Longrightarrow> ws = vs"
  "hook_pairs dup kvs = Inr kws \<Longrightarrow> kws = kvs"
  by (induction dup v and dup vs and dup kvs arbitrary: w and ws and kws rule: hook_hook_list_hook_pairs.induct)
     (auto simp: result_iff unique_keys_Inr)

end
