(* ===== verification/Hashing.thy ===== *)
theory Hashing
  imports ByteCodec
begin

text \<open>
  The two digests the program takes from Python's library: \<open>zlib.crc32\<close> (also reached as
  \<open>binascii.crc32\<close>), whose error detection the sequence images and the shot payloads rest on,
  and \<open>hashlib.sha256\<close>, used as an identity.  Both are executable definitions on byte lists.
\<close>

section \<open>CRC-32\<close>

definition crc_bit :: "32 word \<Rightarrow> 32 word" where
  "crc_bit c = (if bit c 0 then drop_bit 1 c XOR 0xEDB88320 else drop_bit 1 c)"

definition crc_8 :: "32 word \<Rightarrow> 32 word" where
  "crc_8 c = (crc_bit ^^ 8) c"

definition crc_byte :: "32 word \<Rightarrow> byte \<Rightarrow> 32 word" where
  "crc_byte c b = crc_8 (c XOR ucast b)"

definition crc_update :: "32 word \<Rightarrow> bytes \<Rightarrow> 32 word" where
  "crc_update c bs = foldl crc_byte c bs"

definition crc32 :: "bytes \<Rightarrow> int" where
  "crc32 bs = uint (NOT (crc_update (NOT 0) bs))"

lemma crc_update_simps [simp]:
  "crc_update c [] = c"
  "crc_update c (b # bs) = crc_update (crc_byte c b) bs"
  "crc_update c (xs @ ys) = crc_update (crc_update c xs) ys"
  by (simp_all add: crc_update_def)

lemma crc32_bounds: "0 \<le> crc32 bs" "crc32 bs < 2 ^ 32"
  using uint_lt2p[of "NOT (crc_update (NOT 0) bs)"] by (simp_all add: crc32_def)

lemma crc32_masked [simp]: "crc32 bs AND 0xFFFFFFFF = crc32 bs"
proof -
  have "crc32 bs AND mask 32 = crc32 bs"
    using crc32_bounds[of bs] by (simp only: take_bit_eq_mask[symmetric] take_bit_eq_mod) simp
  then show ?thesis by (simp add: mask_eq_exp_minus_1)
qed

text \<open>The check value of the catalogue of CRC algorithms: \<open>crc32(b"123456789")\<close>.\<close>

lemma crc_8_unfold:
  "crc_8 c = crc_bit (crc_bit (crc_bit (crc_bit (crc_bit (crc_bit (crc_bit (crc_bit c)))))))"
  by (simp add: crc_8_def eval_nat_numeral)

lemmas crc32_eval = crc32_def crc_byte_def crc_8_unfold crc_bit_def

lemma crc32_check:
  "crc32 [0x31, 0x32, 0x33, 0x34, 0x35, 0x36, 0x37, 0x38, 0x39] = 0xCBF43926"
  by (simp add: crc32_eval)

subsection \<open>Injectivity and linearity of the shift register\<close>

lemma crc_bit_top: "bit (crc_bit c) 31 = bit c 0"
proof -
  have "bit (0xEDB88320 :: 32 word) 31" by simp
  moreover have "\<not> bit (drop_bit 1 c) 31"
    using bit_imp_le_length[of c 32] by (auto simp: bit_drop_bit_eq)
  ultimately show ?thesis by (simp add: crc_bit_def bit_xor_iff)
qed

lemma drop_bit_low_inj:
  fixes a b :: "32 word"
  assumes "drop_bit 1 a = drop_bit 1 b" "bit a 0 = bit b 0"
  shows "a = b"
proof (rule bit_eqI)
  fix n
  show "bit a n = bit b n"
  proof (cases n)
    case 0
    then show ?thesis using assms(2) by simp
  next
    case (Suc m)
    have "bit (drop_bit 1 a) m = bit (drop_bit 1 b) m" using assms(1) by simp
    then show ?thesis using Suc by (simp add: bit_drop_bit_eq)
  qed
qed

lemma xor_cancel_right: "(a::'a::ring_bit_operations) XOR c = b XOR c \<longleftrightarrow> a = b"
  by (metis xor.assoc xor.right_neutral xor_self_eq)

lemma crc_bit_inj: "crc_bit a = crc_bit b \<longleftrightarrow> a = b"
proof
  assume eq: "crc_bit a = crc_bit b"
  then have low: "bit a 0 = bit b 0"
    using crc_bit_top by metis
  with eq have "drop_bit 1 a = drop_bit 1 b"
    by (simp add: crc_bit_def xor_cancel_right split: if_splits)
  then show "a = b" using low by (rule drop_bit_low_inj)
qed simp

lemma crc_8_inj: "crc_8 a = crc_8 b \<longleftrightarrow> a = b"
proof -
  have "(crc_bit ^^ n) a = (crc_bit ^^ n) b \<longleftrightarrow> a = b" for n
    by (induction n) (simp_all add: crc_bit_inj)
  then show ?thesis by (simp add: crc_8_def)
qed

lemma crc_update_inj: "crc_update a bs = crc_update b bs \<longleftrightarrow> a = b"
  by (induction bs arbitrary: a b) (simp_all add: crc_byte_def crc_8_inj xor_cancel_right)

lemma crc_bit_xor: "crc_bit (a XOR b) = crc_bit a XOR crc_bit b"
proof -
  have "drop_bit 1 (a XOR b) = drop_bit 1 a XOR drop_bit 1 b" by (simp add: drop_bit_xor)
  then show ?thesis
    by (simp add: crc_bit_def bit_xor_iff ac_simps)
qed

lemma crc_8_xor: "crc_8 (a XOR b) = crc_8 a XOR crc_8 b"
proof -
  have "(crc_bit ^^ n) (a XOR b) = (crc_bit ^^ n) a XOR (crc_bit ^^ n) b" for n
    by (induction n) (simp_all add: crc_bit_xor)
  then show ?thesis by (simp add: crc_8_def)
qed

lemma crc_bit_even: "\<not> bit c 0 \<Longrightarrow> crc_bit c = drop_bit 1 c"
  by (simp add: crc_bit_def)

lemma crc_bits_zero: "(\<And>i. i < n \<Longrightarrow> \<not> bit c i) \<Longrightarrow> (crc_bit ^^ n) c = drop_bit n c"
proof (induction n)
  case 0
  then show ?case by simp
next
  case (Suc n)
  then have "(crc_bit ^^ n) c = drop_bit n c" by simp
  moreover have "\<not> bit (drop_bit n c) 0"
    using Suc.prems[of n] by (simp add: bit_drop_bit_eq)
  ultimately show ?case by (simp add: crc_bit_even)
qed

text \<open>Eight steps on a register whose low byte is clear only shift it.\<close>

lemma crc_8_push:
  assumes "\<And>i. bit c i \<Longrightarrow> i < 24"
  shows "crc_8 (push_bit 8 c) = c"
proof -
  have "crc_8 (push_bit 8 c) = drop_bit 8 (push_bit 8 c)"
    unfolding crc_8_def by (rule crc_bits_zero) (simp add: bit_push_bit_iff)
  also have "\<dots> = c"
  proof (rule bit_eqI)
    fix n
    show "bit (drop_bit 8 (push_bit 8 c)) n = bit c n"
      using assms[of n] by (auto simp: bit_drop_bit_eq bit_push_bit_iff)
  qed
  finally show ?thesis .
qed

subsection \<open>Burst errors\<close>

fun window :: "bytes \<Rightarrow> 32 word" where
  "window [] = 0"
| "window (b # bs) = ucast b XOR push_bit 8 (window bs)"

lemma window_bits: "bit (window bs) i \<Longrightarrow> i < 8 * length bs"
proof (induction bs arbitrary: i)
  case Nil
  then show ?case by simp
next
  case (Cons b bs)
  then consider "bit (ucast b :: 32 word) i" | "bit (push_bit 8 (window bs)) i"
    by (auto simp: bit_xor_iff)
  then show ?case
  proof cases
    case 1
    then have "i < 8" using bit_imp_le_length[of b i] by (simp add: bit_simps)
    then show ?thesis by simp
  next
    case 2
    then have "bit (window bs) (i - 8)" by (simp add: bit_push_bit_iff)
    from Cons.IH[OF this] show ?thesis by simp
  qed
qed

lemma window_inj:
  assumes "length xs = length ys" "length xs \<le> 4" "window xs = window ys"
  shows "xs = ys"
  using assms
proof (induction xs ys rule: list_induct2)
  case Nil
  then show ?case by simp
next
  case (Cons x xs y ys)
  have bits: "bit (window (x # xs)) i = bit (window (y # ys)) i" for i
    using Cons.prems(2) by simp
  have "x = y"
  proof (rule bit_eqI)
    fix n assume "possible_bit TYPE(8 word) n"
    then have "n < 8" by simp
    then show "bit x n = bit y n"
      using bits[of n] by (simp add: bit_simps)
  qed
  moreover have "window xs = window ys"
  proof (rule bit_eqI)
    fix n
    have high: "\<not> bit (window zs) n" if "length zs \<le> 3" "24 \<le> n" for zs
      using window_bits[of zs n] that by linarith
    show "bit (window xs) n = bit (window ys) n"
    proof (cases "n < 24")
      case True
      have "\<not> bit z (n + 8)" for z :: byte
        using bit_imp_le_length[of z "n + 8"] by auto
      then show ?thesis
        using bits[of "n + 8"] True by (simp add: bit_simps)
    next
      case False
      then show ?thesis using high[of xs] high[of ys] Cons.hyps Cons.prems(1) by simp
    qed
  qed
  ultimately show ?case using Cons.IH Cons.prems(1) by simp
qed

lemma crc_update_window:
  "length bs \<le> 4 \<Longrightarrow> crc_update c bs = (crc_8 ^^ length bs) (c XOR window bs)"
proof (induction bs arbitrary: c)
  case Nil
  then show ?case by simp
next
  case (Cons b bs)
  have "i < 24" if "bit (window bs) i" for i
    using window_bits[OF that] Cons.prems by simp
  then have "crc_8 (push_bit 8 (window bs)) = window bs"
    by (rule crc_8_push)
  then have "crc_byte c b XOR window bs = crc_8 (c XOR window (b # bs))"
    by (simp add: crc_byte_def crc_8_xor ac_simps)
  then show ?case
    using Cons by (simp add: funpow_swap1)
qed

text \<open>
  Two byte strings that agree outside a window of at most four bytes have different checksums.
\<close>

lemma crc32_burst:
  assumes "length xs = length ys" "length xs \<le> 4" "xs \<noteq> ys"
  shows "crc32 (pre @ xs @ post) \<noteq> crc32 (pre @ ys @ post)"
proof
  assume "crc32 (pre @ xs @ post) = crc32 (pre @ ys @ post)"
  then have "NOT (crc_update (NOT 0) (pre @ xs @ post)) =
             NOT (crc_update (NOT 0) (pre @ ys @ post))"
    unfolding crc32_def by (rule word_uint_eqI)
  then have "crc_update (crc_update (NOT 0) pre) xs = crc_update (crc_update (NOT 0) pre) ys"
    by (simp add: crc_update_inj bit.compl_eq_compl_iff)
  then have "(crc_8 ^^ length xs) (crc_update (NOT 0) pre XOR window xs) =
             (crc_8 ^^ length xs) (crc_update (NOT 0) pre XOR window ys)"
    using assms(1,2) by (simp add: crc_update_window)
  moreover have "(crc_8 ^^ n) a = (crc_8 ^^ n) b \<longleftrightarrow> a = b" for n a b
    by (induction n) (simp_all add: crc_8_inj)
  ultimately have "window xs = window ys"
    by (metis xor.commute xor_cancel_right)
  then show False
    using window_inj[OF assms(1,2)] assms(3) by simp
qed

section \<open>SHA-256\<close>

text \<open>The compression function and padding of FIPS 180-4, on 32-bit words.\<close>

definition sha_K :: "32 word list" where
  "sha_K =
     [1116352408, 1899447441, 3049323471, 3921009573, 961987163, 1508970993, 2453635748, 2870763221,
      3624381080, 310598401, 607225278, 1426881987, 1925078388, 2162078206, 2614888103, 3248222580,
      3835390401, 4022224774, 264347078, 604807628, 770255983, 1249150122, 1555081692, 1996064986,
      2554220882, 2821834349, 2952996808, 3210313671, 3336571891, 3584528711, 113926993, 338241895,
      666307205, 773529912, 1294757372, 1396182291, 1695183700, 1986661051, 2177026350, 2456956037,
      2730485921, 2820302411, 3259730800, 3345764771, 3516065817, 3600352804, 4094571909, 275423344,
      430227734, 506948616, 659060556, 883997877, 958139571, 1322822218, 1537002063, 1747873779,
      1955562222, 2024104815, 2227730452, 2361852424, 2428436474, 2756734187, 3204031479, 3329325298]"

definition sha_init :: "32 word list" where
  "sha_init =
     [1779033703, 3144134277, 1013904242, 2773480762, 1359893119, 2600822924, 528734635, 1541459225]"

definition sha_rotr :: "nat \<Rightarrow> 32 word \<Rightarrow> 32 word" where
  "sha_rotr n w = drop_bit n w OR push_bit (32 - n) w"

definition sha_small0 :: "32 word \<Rightarrow> 32 word" where
  "sha_small0 x = sha_rotr 7 x XOR sha_rotr 18 x XOR drop_bit 3 x"

definition sha_small1 :: "32 word \<Rightarrow> 32 word" where
  "sha_small1 x = sha_rotr 17 x XOR sha_rotr 19 x XOR drop_bit 10 x"

definition sha_big0 :: "32 word \<Rightarrow> 32 word" where
  "sha_big0 x = sha_rotr 2 x XOR sha_rotr 13 x XOR sha_rotr 22 x"

definition sha_big1 :: "32 word \<Rightarrow> 32 word" where
  "sha_big1 x = sha_rotr 6 x XOR sha_rotr 11 x XOR sha_rotr 25 x"

text \<open>The message schedule is kept newest word first.\<close>

fun sha_extend :: "nat \<Rightarrow> 32 word list \<Rightarrow> 32 word list" where
  "sha_extend 0 w = w"
| "sha_extend (Suc n) w =
     sha_extend n ((sha_small1 (w ! 1) + w ! 6 + sha_small0 (w ! 14) + w ! 15) # w)"

fun sha_round :: "32 word list \<Rightarrow> 32 word \<times> 32 word \<Rightarrow> 32 word list" where
  "sha_round [a, b, c, d, e, f, g, h] (k, w) =
     (let t1 = h + sha_big1 e + ((e AND f) XOR (NOT e AND g)) + k + w;
          t2 = sha_big0 a + ((a AND b) XOR (a AND c) XOR (b AND c))
      in [t1 + t2, a, b, c, d + t1, e, f, g])"
| "sha_round s _ = s"

fun sha_words :: "bytes \<Rightarrow> 32 word list" where
  "sha_words (a # b # c # d # r) = word_of_int (be_int [a, b, c, d]) # sha_words r"
| "sha_words _ = []"

definition sha_block :: "32 word list \<Rightarrow> bytes \<Rightarrow> 32 word list" where
  "sha_block s blk =
     (let w = rev (sha_extend 48 (rev (sha_words blk)))
      in map2 (+) s (foldl sha_round s (zip sha_K w)))"

fun sha_blocks :: "nat \<Rightarrow> 32 word list \<Rightarrow> bytes \<Rightarrow> 32 word list" where
  "sha_blocks 0 s bs = s"
| "sha_blocks (Suc n) s bs = sha_blocks n (sha_block s (take 64 bs)) (drop 64 bs)"

definition sha_pad :: "bytes \<Rightarrow> bytes" where
  "sha_pad bs =
     bs @ [0x80] @ replicate ((119 - length bs mod 64) mod 64) 0 @
     be_bytes 8 (8 * int (length bs))"

definition sha256 :: "bytes \<Rightarrow> bytes" where
  "sha256 bs =
     (let p = sha_pad bs
      in concat (map (\<lambda>w. be_bytes 4 (uint w)) (sha_blocks (length p div 64) sha_init p)))"

lemma sha_round_length: "length s = 8 \<Longrightarrow> length (sha_round s kw) = 8"
  by (cases "(s, kw)" rule: sha_round.cases) (auto simp: Let_def)

lemma sha_rounds_length: "length s = 8 \<Longrightarrow> length (foldl sha_round s kws) = 8"
  by (induction kws arbitrary: s) (simp_all add: sha_round_length)

lemma sha_blocks_length: "length s = 8 \<Longrightarrow> length (sha_blocks n s bs) = 8"
  by (induction n arbitrary: s bs) (simp_all add: sha_block_def Let_def sha_rounds_length)

lemma sha256_length [simp]: "length (sha256 bs) = 32"
proof -
  have "length (concat (map (\<lambda>w. be_bytes 4 (uint (w :: 32 word))) ws)) = 4 * length ws" for ws
    by (induction ws) (simp_all add: be.enc_length)
  then show ?thesis
    by (simp add: sha256_def Let_def sha_blocks_length sha_init_def)
qed

end
