(* ===== verification/Sequence.thy ===== *)
theory Sequence
  imports Json Hashing "HOL-Library.AList"
begin

text \<open>
  The pulse-sequence compiler of \<open>host/sequence_compiler/qcrate_sequence.py\<close>: the JSON
  document checks, the translation of pulse intervals to output-state events, the event
  rules, and the \<open>QSEQ\<close> image with its CRC.  The abstract meaning of a document is
  \<open>pulse_active\<close>: a channel is high at a tick exactly when one of its pulses covers it.
\<close>

section \<open>Constants and errors\<close>

definition TICK_HZ :: int where "TICK_HZ = 200000000"
definition MIN_EVENTS :: int where "MIN_EVENTS = 2"
definition MAX_EVENTS :: int where "MAX_EVENTS = 128"
definition OUTPUT_MASK :: int where "OUTPUT_MASK = 3"
definition UINT64_MAX :: int where "UINT64_MAX = 2 ^ 64 - 1"
definition FORMAT_VERSION :: int where "FORMAT_VERSION = 1"
definition QSEQ :: bytes where "QSEQ = [0x51, 0x53, 0x45, 0x51]"

definition SEQ_HEADER :: "fld list" where
  "SEQ_HEADER = [FBytes 4, FUint 2, FUint 2, FUint 4, FUint 4, FUint 4, FUint 4, FUint 8]"

definition SEQ_EVENT :: "fld list" where
  "SEQ_EVENT = [FUint 8, FUint 4, FUint 4]"

text \<open>The \<open>context\<close> a message names: the whole document, a pulse, an event, or a field.\<close>

datatype seq_ctx = Doc | Field string | Pulse nat | PulseField nat string | EventField nat string

datatype seq_error =
    DuplicateKey string
  | NotAnObject
  | MissingKeys seq_ctx "string list"
  | UnknownKeys seq_ctx "string list"
  | NotInteger seq_ctx
  | OutOfRange seq_ctx int
  | BadFormat
  | NameNotString seq_ctx
  | BadTickRate
  | PulsesNotArray
  | PulseNotObject seq_ctx
  | ZeroDuration seq_ctx
  | EndOverflow seq_ctx
  | Overlap nat nat nat
  | EventCount
  | NotIncreasing
  | ReservedBits nat
  | FlagsNonzero nat
  | NoStateChange nat
  | FinalNotLow
  | ShortImage
  | WrongMagic
  | UnsupportedVersion int
  | RecordSizes
  | ReservedNonzero
  | WrongImageSize int int
  | CrcMismatch int int
  | SeqStructError

record seq_event =
  ev_timestamp :: int
  ev_output_state :: int
  ev_flags :: int

section \<open>Document checks\<close>

definition object_without_duplicate_keys :: "jobject \<Rightarrow> seq_error + jobject" where
  "object_without_duplicate_keys pairs = unique_keys DuplicateKey [] pairs"

definition load_json :: "json \<Rightarrow> seq_error + jobject" where
  "load_json parsed =
     bind_res (hook DuplicateKey parsed) (\<lambda>document.
       case document of JObject d \<Rightarrow> Inr d | _ \<Rightarrow> Inl NotAnObject)"

definition check_keys ::
    "jobject \<Rightarrow> string list \<Rightarrow> string list \<Rightarrow> seq_ctx \<Rightarrow> seq_error + unit" where
  "check_keys value required optional context =
     (let missing = sorted_keys (filter (\<lambda>k. k \<notin> set (keys_of value)) required);
          unknown = sorted_keys (filter (\<lambda>k. k \<notin> set required \<and> k \<notin> set optional) (keys_of value))
      in if missing \<noteq> [] then Inl (MissingKeys context missing)
         else if unknown \<noteq> [] then Inl (UnknownKeys context unknown)
         else Inr ())"

fun uint_field :: "json \<Rightarrow> int \<Rightarrow> seq_ctx \<Rightarrow> seq_error + int" where
  "uint_field (JInt v) maximum context =
     (if v < 0 \<or> v > maximum then Inl (OutOfRange context maximum) else Inr v)"
| "uint_field _ maximum context = Inl (NotInteger context)"

definition check_name :: "jobject \<Rightarrow> seq_ctx \<Rightarrow> seq_error + unit" where
  "check_name d context =
     ensure (\<not> (has_key d ''name'' \<and> \<not> is_JString (get d ''name''))) (NameNotString context)"

lemma uint_field_Inr_iff [result_iff]:
  "uint_field v m c = Inr i \<longleftrightarrow> v = JInt i \<and> 0 \<le> i \<and> i \<le> m"
  by (cases v) auto

lemma check_keys_Inr_iff [result_iff]:
  "check_keys d req opt c = Inr u \<longleftrightarrow>
     set req \<subseteq> set (keys_of d) \<and> set (keys_of d) \<subseteq> set req \<union> set opt"
  by (auto simp: check_keys_def Let_def filter_empty_conv)

section \<open>Compilation\<close>

text \<open>One pulse: its checks, then its interval appended to its channel's list.\<close>

type_synonym interval = "int \<times> int \<times> nat"

definition parse_pulse :: "nat \<Rightarrow> json \<Rightarrow> seq_error + (nat \<times> int \<times> int)" where
  "parse_pulse index pulse =
     (case pulse of
        JObject d \<Rightarrow>
          bind_res (check_keys d [''channel'', ''start_tick'', ''duration_ticks''] [''name'']
            (Pulse index)) (\<lambda>_.
          bind_res (check_name d (PulseField index ''name'')) (\<lambda>_.
          bind_res (uint_field (get d ''channel'') 1 (PulseField index ''channel'')) (\<lambda>channel.
          bind_res (uint_field (get d ''start_tick'') UINT64_MAX (PulseField index ''start_tick''))
            (\<lambda>start.
          bind_res (uint_field (get d ''duration_ticks'') UINT64_MAX
            (PulseField index ''duration_ticks'')) (\<lambda>duration.
          if duration = 0 then Inl (ZeroDuration (PulseField index ''duration_ticks''))
          else if duration > UINT64_MAX - start then Inl (EndOverflow (Pulse index))
          else Inr (nat channel, start, start + duration))))))
      | _ \<Rightarrow> Inl (PulseNotObject (Pulse index)))"

fun collect_intervals ::
    "nat \<Rightarrow> json list \<Rightarrow> interval list list \<Rightarrow> seq_error + interval list list" where
  "collect_intervals index [] intervals = Inr intervals"
| "collect_intervals index (pulse # pulses) intervals =
     bind_res (parse_pulse index pulse) (\<lambda>(channel, start, end).
       collect_intervals (Suc index) pulses
         (intervals[channel := intervals ! channel @ [(start, end, index)]]))"

fun check_overlap ::
    "nat \<Rightarrow> (int \<times> nat) option \<Rightarrow> interval list \<Rightarrow> seq_error + unit" where
  "check_overlap channel previous [] = Inr ()"
| "check_overlap channel previous ((start, end, index) # rest) =
     (case previous of
        Some (previous_end, previous_index) \<Rightarrow>
          if start < previous_end then Inl (Overlap index previous_index channel)
          else check_overlap channel (Some (end, index)) rest
      | None \<Rightarrow> check_overlap channel (Some (end, index)) rest)"

fun sort_and_check :: "nat \<Rightarrow> interval list list \<Rightarrow> seq_error + interval list list" where
  "sort_and_check channel [] = Inr []"
| "sort_and_check channel (ivs # rest) =
     bind_res (check_overlap channel None (sort ivs)) (\<lambda>_.
     bind_res (sort_and_check (Suc channel) rest) (\<lambda>r. Inr (sort ivs # r)))"

type_synonym changes = "(int \<times> int \<times> int) list"

definition change_at :: "changes \<Rightarrow> int \<Rightarrow> int \<times> int" where
  "change_at changes t = (case map_of changes t of Some c \<Rightarrow> c | None \<Rightarrow> (0, 0))"

definition add_interval :: "int \<Rightarrow> interval \<Rightarrow> changes \<Rightarrow> changes" where
  "add_interval b iv changes =
     (case iv of (start, end, _) \<Rightarrow>
        let (clear_mask, set_mask) = change_at changes start;
            changes = AList.update start (clear_mask, set_mask OR b) changes;
            (clear_mask, set_mask) = change_at changes end
        in AList.update end (clear_mask OR b, set_mask) changes)"

fun collect_changes :: "nat \<Rightarrow> interval list list \<Rightarrow> changes \<Rightarrow> changes" where
  "collect_changes channel [] changes = changes"
| "collect_changes channel (ivs # rest) changes =
     collect_changes (Suc channel) rest (fold (add_interval (push_bit channel 1)) ivs changes)"

fun emit_events :: "changes \<Rightarrow> int list \<Rightarrow> int \<Rightarrow> seq_event list" where
  "emit_events changes [] state = []"
| "emit_events changes (timestamp # rest) state =
     (let (clear_mask, set_mask) = change_at changes timestamp;
          next_state = (state AND NOT clear_mask) OR set_mask
      in (if next_state \<noteq> state
          then [\<lparr>ev_timestamp = timestamp, ev_output_state = next_state, ev_flags = 0\<rparr>] else []) @
         emit_events changes rest next_state)"

fun validate_loop ::
    "nat \<Rightarrow> int option \<Rightarrow> int \<Rightarrow> seq_event list \<Rightarrow> seq_error + int" where
  "validate_loop index previous_timestamp previous_state [] = Inr previous_state"
| "validate_loop index previous_timestamp previous_state (event # rest) =
     bind_res (uint_field (JInt (ev_timestamp event)) UINT64_MAX (EventField index ''timestamp'')) (\<lambda>_.
     bind_res (uint_field (JInt (ev_output_state event)) UINT64_MAX (EventField index ''state'')) (\<lambda>_.
     bind_res (uint_field (JInt (ev_flags event)) UINT64_MAX (EventField index ''flags'')) (\<lambda>_.
     if (case previous_timestamp of Some p \<Rightarrow> ev_timestamp event \<le> p | None \<Rightarrow> False)
     then Inl NotIncreasing
     else if ev_output_state event AND NOT OUTPUT_MASK \<noteq> 0 then Inl (ReservedBits index)
     else if ev_flags event \<noteq> 0 then Inl (FlagsNonzero index)
     else if ev_output_state event = previous_state then Inl (NoStateChange index)
     else validate_loop (Suc index) (Some (ev_timestamp event)) (ev_output_state event) rest)))"

definition validate_events :: "seq_event list \<Rightarrow> seq_error + unit" where
  "validate_events events =
     (if \<not> (MIN_EVENTS \<le> int (length events) \<and> int (length events) \<le> MAX_EVENTS)
      then Inl EventCount
      else bind_res (validate_loop 0 None 0 events) (\<lambda>previous_state.
        if previous_state \<noteq> 0 then Inl FinalNotLow else Inr ()))"

definition compile_document :: "jobject \<Rightarrow> seq_error + seq_event list" where
  "compile_document document =
     bind_res (check_keys document [''format'', ''tick_hz'', ''pulses''] [''name''] Doc) (\<lambda>_.
     bind_res (ensure (get document ''format'' = JString ''qcrate-sequence-v1'') BadFormat) (\<lambda>_.
     bind_res (check_name document (Field ''sequence.name'')) (\<lambda>_.
     bind_res (uint_field (get document ''tick_hz'') UINT64_MAX (Field ''tick_hz'')) (\<lambda>tick_hz.
     bind_res (ensure (tick_hz = TICK_HZ) BadTickRate) (\<lambda>_.
     case get document ''pulses'' of
       JArray pulses \<Rightarrow>
         if pulses = [] then Inl PulsesNotArray
         else
           bind_res (collect_intervals 0 pulses [[], []]) (\<lambda>intervals.
           bind_res (sort_and_check 0 intervals) (\<lambda>intervals.
           let changes = collect_changes 0 intervals [];
               events = emit_events changes (sort (map fst changes)) 0
           in bind_res (validate_events events) (\<lambda>_. Inr events)))
     | _ \<Rightarrow> Inl PulsesNotArray)))))"

section \<open>Images\<close>

definition encode_event :: "seq_event \<Rightarrow> seq_error + bytes" where
  "encode_event e =
     (case struct_pack le_bytes SEQ_EVENT
        [VInt (ev_timestamp e), VInt (ev_output_state e), VInt (ev_flags e)] of
        Some b \<Rightarrow> Inr b | None \<Rightarrow> Inl SeqStructError)"

definition seq_header :: "int \<Rightarrow> int \<Rightarrow> sval list" where
  "seq_header count crc =
     [VBytes QSEQ, VInt FORMAT_VERSION, VInt (int (calcsize SEQ_HEADER)), VInt count,
      VInt (int (calcsize SEQ_EVENT)), VInt TICK_HZ, VInt crc, VInt 0]"

definition encode_sequence :: "seq_event list \<Rightarrow> seq_error + bytes" where
  "encode_sequence events =
     bind_res (validate_events events) (\<lambda>_.
     bind_res (map_res encode_event events) (\<lambda>records.
       let payload = concat records;
           checksum = crc32 payload AND 0xFFFFFFFF
       in case struct_pack le_bytes SEQ_HEADER (seq_header (int (length events)) checksum) of
            Some header \<Rightarrow> Inr (header @ payload)
          | None \<Rightarrow> Inl SeqStructError))"

definition decode_event :: "bytes \<Rightarrow> nat \<Rightarrow> seq_error + seq_event" where
  "decode_event payload index =
     (case struct_unpack_from le_int SEQ_EVENT payload (index * calcsize SEQ_EVENT) of
        Some [t, s, f] \<Rightarrow>
          Inr \<lparr>ev_timestamp = ival t, ev_output_state = ival s, ev_flags = ival f\<rparr>
      | _ \<Rightarrow> Inl SeqStructError)"

definition decode_sequence :: "bytes \<Rightarrow> seq_error + seq_event list" where
  "decode_sequence img =
     (if length img < calcsize SEQ_HEADER then Inl ShortImage
      else case struct_unpack_from le_int SEQ_HEADER img 0 of
        Some [magic, version, header_size, event_count, event_size, tick_hz, expected_crc, reserved] \<Rightarrow>
          if bval magic \<noteq> QSEQ then Inl WrongMagic
          else if ival version \<noteq> FORMAT_VERSION then Inl (UnsupportedVersion (ival version))
          else if ival header_size \<noteq> int (calcsize SEQ_HEADER) \<or>
                  ival event_size \<noteq> int (calcsize SEQ_EVENT) then Inl RecordSizes
          else if ival tick_hz \<noteq> TICK_HZ then Inl BadTickRate
          else if ival reserved \<noteq> 0 then Inl ReservedNonzero
          else if \<not> (MIN_EVENTS \<le> ival event_count \<and> ival event_count \<le> MAX_EVENTS)
          then Inl EventCount
          else
            let expected_size = ival header_size + ival event_count * ival event_size in
            if int (length img) \<noteq> expected_size
            then Inl (WrongImageSize (int (length img)) expected_size)
            else
              let payload = drop (nat (ival header_size)) img;
                  actual_crc = crc32 payload AND 0xFFFFFFFF
              in if actual_crc \<noteq> ival expected_crc
                 then Inl (CrcMismatch (ival expected_crc) actual_crc)
                 else bind_res (map_res (decode_event payload) [0..<nat (ival event_count)]) (\<lambda>events.
                      bind_res (validate_events events) (\<lambda>_. Inr events))
      | _ \<Rightarrow> Inl SeqStructError)"

text \<open>The line \<open>inspect_events\<close> prints of an event: index, tick, nanoseconds, both channels.\<close>

definition inspect_events :: "seq_event list \<Rightarrow> (nat \<times> int \<times> int \<times> int \<times> int) list" where
  "inspect_events events =
     map (\<lambda>(index, event).
       (index, ev_timestamp event, ev_timestamp event * 5,
        drop_bit 1 (ev_output_state event) AND 1, ev_output_state event AND 1))
     (zip [0..<length events] events)"

section \<open>Meaning of a document\<close>

text \<open>The output word that holds at a tick, given the word before the first event.\<close>

fun state_at :: "int \<Rightarrow> seq_event list \<Rightarrow> int \<Rightarrow> int" where
  "state_at state [] t = state"
| "state_at state (event # rest) t =
     (if ev_timestamp event \<le> t then state_at (ev_output_state event) rest t else state)"

fun pulse_covers :: "int \<Rightarrow> int \<Rightarrow> json \<Rightarrow> bool" where
  "pulse_covers channel t (JObject d) =
     (get d ''channel'' = JInt channel \<and> jint (get d ''start_tick'') \<le> t \<and>
      t < jint (get d ''start_tick'') + jint (get d ''duration_ticks''))"
| "pulse_covers channel t _ = False"

fun pulses_of :: "json \<Rightarrow> json list" where
  "pulses_of (JArray pulses) = pulses"
| "pulses_of _ = []"

definition channel_active :: "jobject \<Rightarrow> int \<Rightarrow> int \<Rightarrow> bool" where
  "channel_active document channel t =
     list_ex (pulse_covers channel t) (pulses_of (get document ''pulses''))"

section \<open>The change table\<close>

definition covers :: "interval list list \<Rightarrow> nat \<Rightarrow> int \<Rightarrow> bool" where
  "covers ivss c t \<longleftrightarrow> c < length ivss \<and> (\<exists>s e i. (s, e, i) \<in> set (ivss ! c) \<and> s \<le> t \<and> t < e)"

definition starts_at :: "interval list list \<Rightarrow> nat \<Rightarrow> int \<Rightarrow> bool" where
  "starts_at ivss c t \<longleftrightarrow> c < length ivss \<and> (\<exists>e i. (t, e, i) \<in> set (ivss ! c))"

definition ends_at :: "interval list list \<Rightarrow> nat \<Rightarrow> int \<Rightarrow> bool" where
  "ends_at ivss c t \<longleftrightarrow> c < length ivss \<and> (\<exists>s i. (s, t, i) \<in> set (ivss ! c))"

lemma change_at_update [simp]:
  "change_at (AList.update k v al) t = (if t = k then v else change_at al t)"
  by (simp add: change_at_def update_conv')

lemma change_at_Nil [simp]: "change_at [] t = (0, 0)"
  by (simp add: change_at_def)

lemma add_interval_alt:
  "add_interval b (s, e, i) ch =
     (let c1 = AList.update s (fst (change_at ch s), snd (change_at ch s) OR b) ch
      in AList.update e (fst (change_at c1 e) OR b, snd (change_at c1 e)) c1)"
  by (simp add: add_interval_def Let_def case_prod_beta)

lemma add_interval_at:
  "change_at (add_interval b (s, e, i) ch) t =
     (fst (change_at ch t) OR (if t = e then b else 0),
      snd (change_at ch t) OR (if t = s then b else 0))"
  by (simp add: add_interval_alt Let_def prod_eq_iff)

lemma add_interval_keys:
  "fst ` set (add_interval b (s, e, i) ch) = fst ` set ch \<union> {s, e}"
  by (auto simp: add_interval_alt Let_def dom_update)

lemma add_interval_distinct:
  "distinct (map fst ch) \<Longrightarrow> distinct (map fst (add_interval b iv ch))"
  by (cases iv) (simp add: add_interval_alt Let_def distinct_update)

lemma fold_add_at:
  "bit (fst (change_at (fold (add_interval (push_bit k 1)) ivs ch) t)) c \<longleftrightarrow>
     bit (fst (change_at ch t)) c \<or> (c = k \<and> (\<exists>s i. (s, t, i) \<in> set ivs))"
  "bit (snd (change_at (fold (add_interval (push_bit k 1)) ivs ch) t)) c \<longleftrightarrow>
     bit (snd (change_at ch t)) c \<or> (c = k \<and> (\<exists>e i. (t, e, i) \<in> set ivs))"
proof (induction ivs arbitrary: ch)
  case (Cons iv ivs)
  have b: "bit (2 ^ k :: int) c \<longleftrightarrow> c = k"
    by (auto simp: bit_simps)
  obtain s e i where iv: "iv = (s, e, i)" by (cases iv)
  case 1
  show ?case
    unfolding fold_Cons o_apply Cons.IH iv add_interval_at
    by (auto simp: bit_or_iff b)
  case 2
  show ?case
    unfolding fold_Cons o_apply Cons.IH iv add_interval_at
    by (auto simp: bit_or_iff b)
qed simp_all

lemma fold_add_keys:
  "fst ` set (fold (add_interval b) ivs ch) =
     fst ` set ch \<union> {t. (\<exists>e i. (t, e, i) \<in> set ivs) \<or> (\<exists>s i. (s, t, i) \<in> set ivs)}"
proof (induction ivs arbitrary: ch)
  case (Cons iv ivs)
  obtain s e i where iv: "iv = (s, e, i)" by (cases iv)
  show ?case
    unfolding fold_Cons o_apply Cons.IH iv add_interval_keys by auto
qed simp

lemma fold_add_distinct:
  "distinct (map fst ch) \<Longrightarrow> distinct (map fst (fold (add_interval b) ivs ch))"
  by (induction ivs arbitrary: ch) (simp_all add: add_interval_distinct)

lemma collect_changes_at:
  "bit (fst (change_at (collect_changes k ivss ch) t)) c \<longleftrightarrow>
     bit (fst (change_at ch t)) c \<or> (k \<le> c \<and> ends_at ivss (c - k) t)"
  "bit (snd (change_at (collect_changes k ivss ch) t)) c \<longleftrightarrow>
     bit (snd (change_at ch t)) c \<or> (k \<le> c \<and> starts_at ivss (c - k) t)"
proof (induction ivss arbitrary: k ch)
  case Nil
  case 1 show ?case by (simp add: ends_at_def)
  case 2 show ?case by (simp add: starts_at_def)
next
  case (Cons ivs ivss)
  have cmp: "c < k \<or> c = k \<or> Suc k \<le> c" for k by linarith
  have ends: "k \<le> c \<and> ends_at (ivs # ivss) (c - k) t \<longleftrightarrow>
      (c = k \<and> (\<exists>s i. (s, t, i) \<in> set ivs)) \<or> (Suc k \<le> c \<and> ends_at ivss (c - Suc k) t)" for k
    using cmp[of k] by (auto simp: ends_at_def nth_Cons')
  have starts: "k \<le> c \<and> starts_at (ivs # ivss) (c - k) t \<longleftrightarrow>
      (c = k \<and> (\<exists>e i. (t, e, i) \<in> set ivs)) \<or> (Suc k \<le> c \<and> starts_at ivss (c - Suc k) t)" for k
    using cmp[of k] by (auto simp: starts_at_def nth_Cons')
  case 1
  show ?case
    unfolding collect_changes.simps Cons.IH fold_add_at using ends[of k] by blast
  case 2
  show ?case
    unfolding collect_changes.simps Cons.IH fold_add_at using starts[of k] by blast
qed

lemma collect_changes_keys:
  "fst ` set (collect_changes k ivss ch) =
     fst ` set ch \<union> {t. \<exists>c. starts_at ivss c t \<or> ends_at ivss c t}"
proof (induction ivss arbitrary: k ch)
  case Nil
  then show ?case by (simp add: starts_at_def ends_at_def)
next
  case (Cons ivs ivss)
  have step: "(\<exists>c. starts_at (ivs # ivss) c t \<or> ends_at (ivs # ivss) c t) \<longleftrightarrow>
      ((\<exists>e i. (t, e, i) \<in> set ivs) \<or> (\<exists>s i. (s, t, i) \<in> set ivs)) \<or> (\<exists>c. starts_at ivss c t \<or> ends_at ivss c t)"
    (is "?L \<longleftrightarrow> ?R") for t
  proof (rule iffI)
    assume ?L
    then obtain c where "starts_at (ivs # ivss) c t \<or> ends_at (ivs # ivss) c t" ..
    then show ?R by (cases c) (auto simp: starts_at_def ends_at_def)
  next
    assume ?R
    then show ?L
    proof
      assume "(\<exists>e i. (t, e, i) \<in> set ivs) \<or> (\<exists>s i. (s, t, i) \<in> set ivs)"
      then have "starts_at (ivs # ivss) 0 t \<or> ends_at (ivs # ivss) 0 t"
        by (auto simp: starts_at_def ends_at_def)
      then show ?L ..
    next
      assume "\<exists>c. starts_at ivss c t \<or> ends_at ivss c t"
      then obtain c where "starts_at ivss c t \<or> ends_at ivss c t" ..
      then have "starts_at (ivs # ivss) (Suc c) t \<or> ends_at (ivs # ivss) (Suc c) t"
        by (simp add: starts_at_def ends_at_def)
      then show ?L ..
    qed
  qed
  show ?case
    unfolding collect_changes.simps Cons.IH fold_add_keys by (auto simp: step)
qed

lemma collect_changes_distinct:
  "distinct (map fst ch) \<Longrightarrow> distinct (map fst (collect_changes k ivss ch))"
  by (induction ivss arbitrary: k ch) (simp_all add: fold_add_distinct)

section \<open>Overlap and coverage\<close>

definition apart :: "interval list \<Rightarrow> bool" where
  "apart ivs \<longleftrightarrow> sorted_wrt (\<lambda>(s, e, i) (s', e', i'). e \<le> s') ivs"

definition proper :: "interval list \<Rightarrow> bool" where
  "proper ivs \<longleftrightarrow> (\<forall>(s, e, i) \<in> set ivs. 0 \<le> s \<and> s < e \<and> e \<le> UINT64_MAX)"

lemma check_overlap_apart:
  assumes "check_overlap ch prev ivs = Inr u" "proper ivs"
  shows "apart ivs \<and> (\<forall>pe pi. prev = Some (pe, pi) \<longrightarrow> (\<forall>(s, e, i) \<in> set ivs. pe \<le> s))"
  using assms
proof (induction ch prev ivs rule: check_overlap.induct)
  case (2 ch prev s e i rest)
  have p: "s < e" "proper rest"
    using 2(4) by (auto simp: proper_def)
  have chk: "check_overlap ch (Some (e, i)) rest = Inr u"
    and pe: "\<And>pe pi. prev = Some (pe, pi) \<Longrightarrow> pe \<le> s"
    using 2(3) by (auto split: option.splits prod.splits if_splits)
  have "apart rest \<and> (\<forall>(s', e', i') \<in> set rest. e \<le> s')"
  proof (cases prev)
    case None
    then show ?thesis using 2(1)[OF None chk p(2)] by auto
  next
    case (Some pp)
    obtain a b where pp: "pp = (a, b)" by (cases pp)
    have "\<not> s < a" using pe[of a b] Some pp by simp
    from 2(2)[OF Some pp[symmetric] this chk p(2)] show ?thesis by auto
  qed
  then show ?case
    using p pe by (fastforce simp: apart_def)
qed (simp add: apart_def)

lemma apart_disjoint:
  assumes "apart ivs" "proper ivs" "(s, e, i) \<in> set ivs" "(s', e', i') \<in> set ivs"
  shows "(s, e, i) = (s', e', i') \<or> e \<le> s' \<or> e' \<le> s"
proof -
  obtain m n where m: "m < length ivs" "ivs ! m = (s, e, i)" and n: "n < length ivs" "ivs ! n = (s', e', i')"
    using assms(3,4) by (metis in_set_conv_nth)
  have "m < n \<Longrightarrow> e \<le> s'" "n < m \<Longrightarrow> e' \<le> s"
    using sorted_wrt_nth_less[OF assms(1)[unfolded apart_def], of m n]
      sorted_wrt_nth_less[OF assms(1)[unfolded apart_def], of n m] m n by auto
  then show ?thesis
    using m n by (cases m n rule: linorder_cases) auto
qed

lemma covers_step:
  assumes ivss: "\<And>ivs. ivs \<in> set ivss \<Longrightarrow> apart ivs \<and> proper ivs"
  shows "covers ivss c t \<longleftrightarrow> starts_at ivss c t \<or> (covers ivss c (t - 1) \<and> \<not> ends_at ivss c t)"
proof (cases "c < length ivss")
  case False
  then show ?thesis by (simp add: covers_def starts_at_def)
next
  case True
  define ivs where "ivs = ivss ! c"
  have ap: "apart ivs" "proper ivs"
    using ivss True by (auto simp: ivs_def)
  have pos: "s < e" if "(s, e, i) \<in> set ivs" for s e i
    using ap(2) that by (auto simp: proper_def)
  have "(\<exists>s e i. (s, e, i) \<in> set ivs \<and> s \<le> t \<and> t < e) \<longleftrightarrow>
      (\<exists>e i. (t, e, i) \<in> set ivs) \<or>
      ((\<exists>s e i. (s, e, i) \<in> set ivs \<and> s \<le> t - 1 \<and> t - 1 < e) \<and> \<not> (\<exists>s i. (s, t, i) \<in> set ivs))"
    (is "?C \<longleftrightarrow> ?S \<or> (?P \<and> \<not> ?E)")
  proof
    assume ?C
    then obtain s e i where iv: "(s, e, i) \<in> set ivs" "s \<le> t" "t < e" by auto
    show "?S \<or> (?P \<and> \<not> ?E)"
    proof (cases "s = t")
      case True
      then show ?thesis using iv by auto
    next
      case False
      have "e' \<noteq> t" if "(s', e', i') \<in> set ivs" for s' e' i'
        using apart_disjoint[OF ap iv(1) that] iv False pos[OF that] by auto
      then show ?thesis using iv False by fastforce
    qed
  next
    assume "?S \<or> (?P \<and> \<not> ?E)"
    then show ?C
    proof
      assume ?S
      then show ?C using pos by fastforce
    next
      assume pe: "?P \<and> \<not> ?E"
      then obtain s e i where "(s, e, i) \<in> set ivs" "s \<le> t - 1" "t - 1 < e" by auto
      moreover from this pe have "e \<noteq> t" by auto
      ultimately show ?C by (intro exI[of _ s] exI[of _ e] exI[of _ i]) auto
    qed
  qed
  then show ?thesis
    using True by (simp add: covers_def starts_at_def ends_at_def ivs_def)
qed

lemma parse_pulse_Inr:
  assumes "parse_pulse index pulse = Inr (ch, s, e)"
  shows "ch < 2" "0 \<le> s" "s < e" "e \<le> UINT64_MAX"
    and "pulse_covers (int c) t pulse \<longleftrightarrow> c = ch \<and> s \<le> t \<and> t < e"
  using assms by (auto simp: parse_pulse_def result_iff split: json.splits if_splits)

lemma covers_append:
  assumes "ch < length ivss"
  shows "covers (ivss[ch := ivss ! ch @ [(s, e, i)]]) c t \<longleftrightarrow>
    covers ivss c t \<or> (c = ch \<and> s \<le> t \<and> t < e)"
  using assms by (cases "c = ch") (auto simp: covers_def)

lemma collect_intervals_meaning:
  assumes "collect_intervals k pulses ivss = Inr ivss'" "length ivss = 2"
    and "\<And>ivs. ivs \<in> set ivss \<Longrightarrow> proper ivs"
  shows "length ivss' = 2 \<and> (\<forall>ivs \<in> set ivss'. proper ivs) \<and>
    (covers ivss' c t \<longleftrightarrow> covers ivss c t \<or> list_ex (pulse_covers (int c) t) pulses)"
  using assms
proof (induction k pulses ivss rule: collect_intervals.induct)
  case (1 k ivss)
  then show ?case by simp
next
  case (2 k pulse pulses ivss)
  obtain ch s e where p: "parse_pulse k pulse = Inr (ch, s, e)"
      "collect_intervals (Suc k) pulses (ivss[ch := ivss ! ch @ [(s, e, k)]]) = Inr ivss'"
    using 2(2) by (auto simp: result_iff)
  note pp = parse_pulse_Inr[OF p(1)]
  have "proper (ivss ! ch)"
    using 2(3,4) pp(1) by simp
  then have new: "proper (ivss ! ch @ [(s, e, k)])"
    using pp by (auto simp: proper_def)
  have "proper ivs" if "ivs \<in> set (ivss[ch := ivss ! ch @ [(s, e, k)]])" for ivs
    using set_update_subset_insert[of ivss ch] that new 2(4) by blast
  from 2(1)[OF p(2) _ this]
  have "length ivss' = 2 \<and> (\<forall>ivs \<in> set ivss'. proper ivs) \<and>
    (covers ivss' c t \<longleftrightarrow> covers (ivss[ch := ivss ! ch @ [(s, e, k)]]) c t \<or>
      list_ex (pulse_covers (int c) t) pulses)"
    using 2(3) by simp
  then show ?case
    using pp 2(3) by (auto simp: covers_append)
qed

lemma sort_and_check_Inr:
  "sort_and_check k ivss = Inr r \<Longrightarrow> \<forall>ivs \<in> set ivss. proper ivs \<Longrightarrow>
     r = map sort ivss \<and> (\<forall>ivs \<in> set r. apart ivs \<and> proper ivs)"
proof (induction k ivss arbitrary: r rule: sort_and_check.induct)
  case (2 k ivs rest)
  have "proper (sort ivs)" using 2(3) by (simp add: proper_def)
  with 2 show ?case
    by (auto simp: result_iff dest: check_overlap_apart)
qed simp

lemma covers_sort: "covers (map sort ivss) c t = covers ivss c t"
  by (simp add: covers_def cong: conj_cong)

section \<open>The emitted events\<close>

lemma no_change_between:
  fixes act :: "int \<Rightarrow> bool"
  assumes "a \<le> b" "\<And>t. a < t \<Longrightarrow> t \<le> b \<Longrightarrow> act t = act (t - 1)"
  shows "act b = act a"
  using assms
proof (induction b rule: int_ge_induct)
  case (step i)
  have "act (i + 1) = act i" using step(3)[of "i + 1"] step(1) by simp
  moreover have "act i = act a" using step by simp
  ultimately show ?case by simp
qed simp

lemma state_at_before: "\<forall>e \<in> set es. t < ev_timestamp e \<Longrightarrow> state_at s es t = s"
  by (cases es) auto

lemma emit_events_after:
  "\<forall>v \<in> set ts. u < v \<Longrightarrow> \<forall>e \<in> set (emit_events changes ts s). u < ev_timestamp e"
  by (induction changes ts s rule: emit_events.induct) (auto simp: Let_def split: prod.splits)

lemma emit_meaning:
  assumes "sorted_wrt (<) ts"
    and "\<And>t c. t \<in> set ts \<Longrightarrow> act c t \<longleftrightarrow> bit (snd (change_at changes t)) c \<or>
      (act c (t - 1) \<and> \<not> bit (fst (change_at changes t)) c)"
    and "\<And>t c. lo < t \<Longrightarrow> t \<notin> set ts \<Longrightarrow> act c t = act c (t - 1)"
    and "\<And>c. bit state c = act c lo" and "\<And>t. t \<in> set ts \<Longrightarrow> lo < t" and "lo \<le> t"
  shows "bit (state_at state (emit_events changes ts state) t) c = act c t"
  using assms
proof (induction changes ts state arbitrary: lo rule: emit_events.induct)
  case (1 changes state)
  have "act c t = act c lo"
    by (rule no_change_between[OF 1(6)]) (use 1(3) in simp_all)
  then show ?case
    using 1(4) by simp
next
  case (2 changes u rest state)
  let ?cl = "fst (change_at changes u)" and ?st = "snd (change_at changes u)"
  let ?next = "(state AND NOT ?cl) OR ?st"
  have later: "v \<in> set rest \<Longrightarrow> u < v" for v
    using 2(2) by simp
  have lou: "lo < u" using 2(6) by simp
  have gap: "act c v = act c lo" if "lo \<le> v" "v < u" for c v
  proof (rule no_change_between[OF that(1)])
    fix w assume "lo < w" "w \<le> v"
    then show "act c w = act c (w - 1)"
      using 2(4)[of w c] that later by fastforce
  qed
  have nxt: "bit ?next c = act c u" for c
    using 2(3)[of u c] gap[of "u - 1" c] 2(5)[of c] lou
    by (auto simp: bit_or_iff bit_and_iff bit_not_iff)
  have IH: "u \<le> t \<Longrightarrow> bit (state_at ?next (emit_events changes rest ?next) t) c = act c t"
  proof (rule 2(1)[of "change_at changes u" ?cl ?st ?next u])
    show "sorted_wrt (<) rest" using 2(2) by simp
    show "act c v = act c (v - 1)" if "u < v" "v \<notin> set rest" for v c
      using 2(4)[of v c] that lou by auto
    show "act c v \<longleftrightarrow> bit (snd (change_at changes v)) c \<or>
        (act c (v - 1) \<and> \<not> bit (fst (change_at changes v)) c)" if "v \<in> set rest" for v c
      using 2(3)[of v c] that by simp
  qed (use nxt later in simp_all)
  have after: "state_at ?next (emit_events changes rest ?next) t = ?next" if "t < u"
    using emit_events_after[of rest u changes ?next] later that
    by (intro state_at_before) fastforce
  show ?case
  proof (cases "t < u")
    case True
    then have "bit (state_at state (emit_events changes (u # rest) state) t) c = bit state c"
      using after by (auto simp: Let_def case_prod_beta)
    then show ?thesis
      using gap[of t c] True 2(5)[of c] 2(7) by simp
  next
    case False
    then have "state_at state (emit_events changes (u # rest) state) t =
        state_at ?next (emit_events changes rest ?next) t"
      by (auto simp: Let_def case_prod_beta)
    then show ?thesis using IH False by simp
  qed
qed

section \<open>The event rules\<close>

definition events_ok :: "seq_event list \<Rightarrow> bool" where
  "events_ok events \<longleftrightarrow>
     sorted_wrt (<) (map ev_timestamp events) \<and>
     (\<forall>e \<in> set events. 0 \<le> ev_timestamp e \<and> ev_timestamp e \<le> UINT64_MAX \<and>
        0 \<le> ev_output_state e \<and> ev_output_state e \<le> 3 \<and> ev_flags e = 0) \<and>
     distinct_adj (0 # map ev_output_state events) \<and>
     last (0 # map ev_output_state events) = 0"

lemma and_not_OUTPUT_MASK: "0 \<le> s \<Longrightarrow> s AND NOT OUTPUT_MASK = 0 \<longleftrightarrow> s \<le> 3"
proof -
  assume "0 \<le> s"
  have m: "OUTPUT_MASK = mask 2" by (simp add: OUTPUT_MASK_def mask_eq_exp_minus_1)
  have "s AND NOT (mask 2) = 0 \<longleftrightarrow> take_bit 2 s = s"
  proof
    assume "s AND NOT (mask 2) = 0"
    moreover have "s = (s AND mask 2) OR (s AND NOT (mask 2))"
      by (rule bit_eqI) (auto simp: bit_or_iff bit_and_iff bit_not_iff)
    ultimately show "take_bit 2 s = s" by (simp add: take_bit_eq_mask)
  next
    assume "take_bit 2 s = s"
    then show "s AND NOT (mask 2) = 0"
      by (metis (no_types) and.assoc and.right_neutral bit.conj_cancel_right bit.conj_zero_right
          take_bit_eq_mask)
  qed
  also have "\<dots> \<longleftrightarrow> s \<le> 3"
    using \<open>0 \<le> s\<close> by (auto simp: take_bit_eq_mod)
  finally show ?thesis using m by simp
qed

lemma validate_loop_Inr_iff:
  "validate_loop k prev st es = Inr s \<longleftrightarrow>
     (\<forall>p. prev = Some p \<longrightarrow> (\<forall>e \<in> set es. p < ev_timestamp e)) \<and>
     sorted_wrt (<) (map ev_timestamp es) \<and>
     (\<forall>e \<in> set es. 0 \<le> ev_timestamp e \<and> ev_timestamp e \<le> UINT64_MAX \<and>
        0 \<le> ev_output_state e \<and> ev_output_state e \<le> 3 \<and> ev_flags e = 0) \<and>
     distinct_adj (st # map ev_output_state es) \<and> s = last (st # map ev_output_state es)"
proof (induction es arbitrary: k prev st)
  case Nil
  then show ?case by auto
next
  case (Cons e rest)
  let ?here = "0 \<le> ev_timestamp e \<and> ev_timestamp e \<le> UINT64_MAX \<and>
    0 \<le> ev_output_state e \<and> ev_output_state e \<le> 3 \<and> ev_flags e = 0 \<and>
    ev_output_state e \<noteq> st \<and> (\<forall>p. prev = Some p \<longrightarrow> p < ev_timestamp e)"
  have U: "x \<le> 3 \<Longrightarrow> x \<le> UINT64_MAX" for x by (simp add: UINT64_MAX_def)
  have Z: "0 \<le> UINT64_MAX" by (simp add: UINT64_MAX_def)
  show ?case
  proof (cases ?here)
    case True
    then have step: "validate_loop k prev st (e # rest) =
        validate_loop (Suc k) (Some (ev_timestamp e)) (ev_output_state e) rest"
      using U[of "ev_output_state e"] Z by (auto simp: and_not_OUTPUT_MASK split: option.splits)
    show ?thesis
      unfolding step Cons.IH using True by force
  next
    case False
    then have "validate_loop k prev st (e # rest) \<noteq> Inr s"
      by (auto simp: result_iff and_not_OUTPUT_MASK split: option.splits if_splits)
    moreover have "\<not> (distinct_adj (st # map ev_output_state (e # rest)) \<and>
        (\<forall>p. prev = Some p \<longrightarrow> (\<forall>e' \<in> set (e # rest). p < ev_timestamp e')) \<and>
        (\<forall>e \<in> set (e # rest). 0 \<le> ev_timestamp e \<and> ev_timestamp e \<le> UINT64_MAX \<and>
        0 \<le> ev_output_state e \<and> ev_output_state e \<le> 3 \<and> ev_flags e = 0))"
      using False by auto
    ultimately show ?thesis by blast
  qed
qed

lemma validate_events_iff [result_iff]:
  "validate_events es = Inr u \<longleftrightarrow> 2 \<le> length es \<and> length es \<le> 128 \<and> events_ok es"
  by (auto simp: validate_events_def result_iff validate_loop_Inr_iff events_ok_def
      MIN_EVENTS_def MAX_EVENTS_def)

section \<open>The compiler's events\<close>

definition change_times :: "interval list list \<Rightarrow> int list" where
  "change_times ivss = sort (map fst (collect_changes 0 ivss []))"

definition compiled :: "interval list list \<Rightarrow> seq_event list" where
  "compiled ivss = emit_events (collect_changes 0 ivss []) (change_times ivss) 0"

definition well_laid :: "interval list list \<Rightarrow> bool" where
  "well_laid ivss \<longleftrightarrow> length ivss = 2 \<and> (\<forall>ivs \<in> set ivss. apart ivs \<and> proper ivs)"

lemma change_times_props:
  "sorted_wrt (<) (change_times ivss)"
  "t \<in> set (change_times ivss) \<longleftrightarrow> (\<exists>c. starts_at ivss c t \<or> ends_at ivss c t)"
  using collect_changes_distinct[of "[]" 0 ivss] collect_changes_keys[of 0 ivss "[]"]
  by (auto simp: change_times_def strict_sorted_iff)

lemma well_laid_times:
  assumes "well_laid ivss" "t \<in> set (change_times ivss)"
  shows "0 \<le> t" "t \<le> UINT64_MAX"
  using assms by (force simp: change_times_props well_laid_def proper_def starts_at_def ends_at_def)+

lemma covers_range:
  assumes "well_laid ivss" "covers ivss c t"
  shows "c < 2" "0 \<le> t" "t < UINT64_MAX"
proof -
  obtain s e i where iv: "c < length ivss" "(s, e, i) \<in> set (ivss ! c)" "s \<le> t" "t < e"
    using assms(2) by (auto simp: covers_def)
  then have "proper (ivss ! c)" using assms(1) by (simp add: well_laid_def)
  then have "0 \<le> s \<and> e \<le> UINT64_MAX" using iv(2) by (auto simp: proper_def)
  then show "c < 2" "0 \<le> t" "t < UINT64_MAX"
    using iv assms(1) by (simp_all add: well_laid_def)
qed

lemma compiled_meaning:
  assumes "well_laid ivss"
  shows "bit (state_at 0 (compiled ivss) t) c = covers ivss c t"
proof (cases "-1 \<le> t")
  case True
  have ap: "ivs \<in> set ivss \<Longrightarrow> apart ivs \<and> proper ivs" for ivs
    using assms by (simp add: well_laid_def)
  show ?thesis
    unfolding compiled_def
  proof (rule emit_meaning[where lo = "-1"])
    show "covers ivss c u \<longleftrightarrow> bit (snd (change_at (collect_changes 0 ivss []) u)) c \<or>
      (covers ivss c (u - 1) \<and> \<not> bit (fst (change_at (collect_changes 0 ivss []) u)) c)" for u c
      using covers_step[of ivss c u, OF ap] by (simp add: collect_changes_at)
    show "covers ivss c u = covers ivss c (u - 1)" if "u \<notin> set (change_times ivss)" for u c
      using covers_step[of ivss c u, OF ap] that by (auto simp: change_times_props)
    show "bit (0::int) c = covers ivss c (- 1)" for c
      using covers_range(2)[OF assms, of c "-1"] by auto
  qed (use True change_times_props well_laid_times[OF assms] in force)+
next
  case False
  have "\<forall>e \<in> set (compiled ivss). -1 < ev_timestamp e"
    unfolding compiled_def using well_laid_times[OF assms] by (intro emit_events_after) force
  then have "state_at 0 (compiled ivss) t = 0"
    using False by (intro state_at_before) fastforce
  moreover have "\<not> covers ivss c t"
    using covers_range(2)[OF assms, of c t] False by auto
  ultimately show ?thesis by simp
qed

lemma emit_events_times: "e \<in> set (emit_events ch ts s) \<Longrightarrow> ev_timestamp e \<in> set ts"
  by (induction ts arbitrary: s) (auto simp: Let_def split: prod.splits if_splits)

lemma emit_events_shape:
  "sorted_wrt (<) ts \<Longrightarrow> sorted_wrt (<) (map ev_timestamp (emit_events ch ts s)) \<and>
     distinct_adj (s # map ev_output_state (emit_events ch ts s)) \<and>
     (\<forall>e \<in> set (emit_events ch ts s). ev_flags e = 0)"
proof (induction ch ts s rule: emit_events.induct)
  case (2 ch t rest s)
  define n where "n = (s AND NOT (fst (change_at ch t))) OR snd (change_at ch t)"
  have IH: "sorted_wrt (<) (map ev_timestamp (emit_events ch rest n)) \<and>
     distinct_adj (n # map ev_output_state (emit_events ch rest n)) \<and>
     (\<forall>e \<in> set (emit_events ch rest n). ev_flags e = 0)"
    using 2 unfolding n_def by (simp add: prod_eq_iff)
  have "\<forall>e \<in> set (emit_events ch rest n). t < ev_timestamp e"
    using 2(2) by (intro emit_events_after) simp
  moreover have "emit_events ch (t # rest) s =
      (if n \<noteq> s then [\<lparr>ev_timestamp = t, ev_output_state = n, ev_flags = 0\<rparr>] else []) @ emit_events ch rest n"
    by (simp add: n_def Let_def case_prod_beta)
  ultimately show ?case using IH by auto
qed simp

lemma state_at_event:
  "sorted_wrt (<) (map ev_timestamp es) \<Longrightarrow> e \<in> set es \<Longrightarrow>
     state_at s es (ev_timestamp e) = ev_output_state e"
proof (induction es arbitrary: s)
  case (Cons x xs)
  show ?case
  proof (cases "e = x")
    case True
    then show ?thesis using Cons.prems(1) by (simp add: state_at_before)
  next
    case False
    then have "e \<in> set xs" using Cons.prems(2) by simp
    moreover from this have "ev_timestamp x \<le> ev_timestamp e" using Cons.prems(1) by fastforce
    ultimately show ?thesis using Cons by simp
  qed
qed simp

lemma state_at_last:
  "\<forall>e \<in> set es. ev_timestamp e \<le> t \<Longrightarrow> state_at s es t = last (s # map ev_output_state es)"
  by (induction es arbitrary: s) auto

lemma two_bits:
  fixes s :: int
  assumes "\<And>c. 2 \<le> c \<Longrightarrow> \<not> bit s c"
  shows "0 \<le> s \<and> s \<le> 3"
proof -
  have "take_bit 2 s = s"
    by (rule bit_eqI) (use assms in \<open>auto simp: bit_take_bit_iff not_less[symmetric]\<close>)
  then have "s mod 4 = s" by (simp add: take_bit_eq_mod)
  then show ?thesis using pos_mod_bound[of 4 s] pos_mod_sign[of 4 s] by simp
qed

lemma compiled_ok: "well_laid ivss \<Longrightarrow> events_ok (compiled ivss)"
proof -
  assume wl: "well_laid ivss"
  note shape = emit_events_shape[OF change_times_props(1), of "collect_changes 0 ivss []" ivss 0,
      folded compiled_def]
  have times: "0 \<le> ev_timestamp e \<and> ev_timestamp e \<le> UINT64_MAX" if "e \<in> set (compiled ivss)" for e
    using emit_events_times[of e "collect_changes 0 ivss []" "change_times ivss" 0, folded compiled_def]
      well_laid_times[OF wl, of "ev_timestamp e"] that by auto
  have word: "0 \<le> state_at 0 (compiled ivss) t \<and> state_at 0 (compiled ivss) t \<le> 3" for t
    by (rule two_bits) (use wl covers_range(1)[OF wl] in \<open>fastforce simp: compiled_meaning\<close>)
  have states: "0 \<le> ev_output_state e \<and> ev_output_state e \<le> 3" if "e \<in> set (compiled ivss)" for e
    using word[of "ev_timestamp e"] state_at_event[of "compiled ivss" e] shape that by simp
  have "\<not> covers ivss c UINT64_MAX" for c
    using covers_range(3)[OF wl, of c UINT64_MAX] by auto
  then have "state_at 0 (compiled ivss) UINT64_MAX = 0"
    by (intro bit_eqI) (simp add: compiled_meaning wl)
  then have "last (0 # map ev_output_state (compiled ivss)) = 0"
    using state_at_last[of "compiled ivss" UINT64_MAX 0] times by simp
  then show ?thesis
    using shape times states by (simp add: events_ok_def)
qed

lemma laid_out:
  assumes "get document ''pulses'' = JArray pulses"
    and "collect_intervals 0 pulses [[], []] = Inr ivss0" and "sort_and_check 0 ivss0 = Inr ivss"
  shows "well_laid ivss \<and> (\<forall>c t. covers ivss c t = channel_active document (int c) t)"
proof -
  have init: "covers [[], []] c t = False" for c t
    by (auto simp: covers_def less_Suc_eq nth_Cons')
  have ci: "length ivss0 = 2 \<and> (\<forall>ivs \<in> set ivss0. proper ivs) \<and>
      (covers ivss0 c t \<longleftrightarrow> list_ex (pulse_covers (int c) t) pulses)" for c t
    using collect_intervals_meaning[OF assms(2), of c t] init by (simp add: proper_def)
  have sc: "ivss = map sort ivss0 \<and> (\<forall>ivs \<in> set ivss. apart ivs \<and> proper ivs)"
    by (rule sort_and_check_Inr[OF assms(3)]) (use ci in blast)
  have "covers ivss c t = channel_active document (int c) t" for c t
    using sc ci[of c t] assms(1) by (simp add: covers_sort channel_active_def)
  moreover have "well_laid ivss"
    using sc ci by (simp add: well_laid_def)
  ultimately show ?thesis by blast
qed

lemma compile_document_Inr:
  assumes "compile_document document = Inr events"
  obtains ivss where "well_laid ivss" "events = compiled ivss"
    and "\<And>c t. covers ivss c t = channel_active document (int c) t"
    and "validate_events events = Inr ()"
proof -
  from assms obtain pulses ivss0 ivss where d:
      "get document ''pulses'' = JArray pulses"
      "collect_intervals 0 pulses [[], []] = Inr ivss0" "sort_and_check 0 ivss0 = Inr ivss"
      "events = compiled ivss" "validate_events events = Inr ()"
    by (auto simp: compile_document_def bind_res_Inr_iff Let_def compiled_def change_times_def
        split: json.splits if_splits)
  with laid_out[OF d(1-3)] show thesis by (intro that) auto
qed

subsection \<open>Which documents are rejected\<close>

definition document_word :: "jobject \<Rightarrow> int \<Rightarrow> int" where
  "document_word document t =
     of_bool (channel_active document 0 t) + 2 * of_bool (channel_active document 1 t)"

text \<open>The errors only \<open>validate_events\<close> raises, its event count apart.\<close>

fun validator_error :: "seq_error \<Rightarrow> bool" where
  "validator_error NotIncreasing = True"
| "validator_error (ReservedBits i) = True"
| "validator_error (FlagsNonzero i) = True"
| "validator_error (NoStateChange i) = True"
| "validator_error FinalNotLow = True"
| "validator_error (OutOfRange (EventField i f) m) = True"
| "validator_error (NotInteger (EventField i f)) = True"
| "validator_error _ = False"

lemma check_keys_Inl: "check_keys d r p c = Inl e \<Longrightarrow> \<not> validator_error e \<and> e \<noteq> EventCount"
  by (auto simp: check_keys_def Let_def split: if_splits)

lemma check_name_Inl: "check_name d c = Inl e \<Longrightarrow> \<not> validator_error e \<and> e \<noteq> EventCount"
  by (auto simp: check_name_def ensure_def split: if_splits)

lemma uint_field_Inl:
  "uint_field v m c = Inl e \<Longrightarrow> e = NotInteger c \<or> e = OutOfRange c m"
  by (cases v) (auto split: if_splits)

lemma parse_pulse_Inl: "parse_pulse i p = Inl e \<Longrightarrow> \<not> validator_error e \<and> e \<noteq> EventCount"
  by (auto simp: parse_pulse_def bind_res_Inl_iff dest!: check_keys_Inl check_name_Inl uint_field_Inl
      split: json.splits if_splits)

lemma collect_intervals_Inl:
  "collect_intervals i ps ivss = Inl e \<Longrightarrow> \<not> validator_error e \<and> e \<noteq> EventCount"
  by (induction i ps ivss rule: collect_intervals.induct)
    (auto simp: bind_res_Inl_iff dest: parse_pulse_Inl)

lemma check_overlap_Inl:
  "check_overlap ch prev ivs = Inl e \<Longrightarrow> \<not> validator_error e \<and> e \<noteq> EventCount"
  by (induction ivs arbitrary: prev) (auto split: option.splits if_splits)

lemma sort_and_check_Inl:
  "sort_and_check k ivss = Inl e \<Longrightarrow> \<not> validator_error e \<and> e \<noteq> EventCount"
  by (induction k ivss rule: sort_and_check.induct)
    (auto simp: bind_res_Inl_iff dest: check_overlap_Inl)

lemma validate_events_Inl:
  assumes "events_ok es" "validate_events es = Inl e"
  shows "e = EventCount \<and> (length es < 2 \<or> 128 < length es)"
proof -
  have "validate_loop 0 None 0 es = Inr 0"
    using assms(1) by (simp add: validate_loop_Inr_iff events_ok_def)
  then show ?thesis
    using assms(2) by (auto simp: validate_events_def MIN_EVENTS_def MAX_EVENTS_def split: if_splits)
qed

lemma change_ticks:
  "sorted_wrt (<) (map ev_timestamp es) \<Longrightarrow> distinct_adj (s # map ev_output_state es) \<Longrightarrow>
     {t. state_at s es t \<noteq> state_at s es (t - 1)} = ev_timestamp ` set es"
proof (induction es arbitrary: s)
  case (Cons e es)
  have IH: "state_at (ev_output_state e) es t \<noteq> state_at (ev_output_state e) es (t - 1) \<longleftrightarrow>
      t \<in> ev_timestamp ` set es" for t
    using Cons by auto
  have later: "\<forall>x \<in> set es. ev_timestamp e < ev_timestamp x"
    using Cons.prems(1) by simp
  have ne: "ev_output_state e \<noteq> s" using Cons.prems(2) by simp
  have "state_at s (e # es) t \<noteq> state_at s (e # es) (t - 1) \<longleftrightarrow>
      t \<in> ev_timestamp ` set (e # es)" for t
  proof (cases t "ev_timestamp e" rule: linorder_cases)
    case less
    then show ?thesis using later by auto
  next
    case equal
    then show ?thesis using later ne by (simp add: state_at_before)
  next
    case greater
    then show ?thesis using IH[of t] by simp
  qed
  then show ?case by blast
qed simp

lemma compiled_count:
  assumes "events_ok es"
  shows "card {t. state_at 0 es t \<noteq> state_at 0 es (t - 1)} = length es"
proof -
  have d: "distinct (map ev_timestamp es)"
    using assms strict_sorted_iff by (auto simp: events_ok_def)
  have "{t. state_at 0 es t \<noteq> state_at 0 es (t - 1)} = set (map ev_timestamp es)"
    using change_ticks[of es 0] assms by (simp add: events_ok_def)
  then show ?thesis using distinct_card[OF d] by simp
qed

lemma document_word_compiled:
  assumes "well_laid ivss" "\<And>c t. covers ivss c t = channel_active document (int c) t"
  shows "state_at 0 (compiled ivss) t = document_word document t"
proof (rule bit_eqI)
  fix c
  show "bit (state_at 0 (compiled ivss) t) c = bit (document_word document t) c"
  proof (cases "c < 2")
    case True
    then have "bit (document_word document t) c = channel_active document (int c) t"
      by (auto simp: document_word_def less_2_cases_iff bit_0 bit_Suc)
    then show ?thesis using assms by (simp add: compiled_meaning)
  next
    case False
    then obtain k where c: "c = Suc (Suc k)" by (metis add_2_eq_Suc le_Suc_ex not_less)
    have "\<not> bit (document_word document t) c"
      by (auto simp: document_word_def c bit_Suc)
    moreover have "\<not> covers ivss c t" using covers_range(1)[OF assms(1), of c t] False by auto
    ultimately show ?thesis using assms(1) by (simp add: compiled_meaning)
  qed
qed

lemma compile_document_Inl:
  assumes "compile_document document = Inl e"
  shows "\<not> validator_error e \<and>
    (e = EventCount \<longrightarrow> 128 < card {t. document_word document t \<noteq> document_word document (t - 1)})"
proof -
  consider (early) "\<not> validator_error e \<and> e \<noteq> EventCount"
    | (late) pulses ivss0 ivss where "get document ''pulses'' = JArray pulses" "pulses \<noteq> []"
      "collect_intervals 0 pulses [[], []] = Inr ivss0" "sort_and_check 0 ivss0 = Inr ivss"
      "validate_events (compiled ivss) = Inl e"
    using assms
    by (auto simp: compile_document_def bind_res_Inl_iff Let_def compiled_def change_times_def ensure_def
        split: json.splits if_splits
        dest!: check_keys_Inl check_name_Inl uint_field_Inl collect_intervals_Inl sort_and_check_Inl)
  then show ?thesis
  proof cases
    case early
    then show ?thesis by simp
  next
    case late
    have w: "well_laid ivss" "\<And>c t. covers ivss c t = channel_active document (int c) t"
      using laid_out[OF late(1,3,4)] by blast+
    have ok: "events_ok (compiled ivss)" using w(1) by (rule compiled_ok)
    have word: "state_at 0 (compiled ivss) t = document_word document t" for t
      using document_word_compiled[OF w] .
    have n: "card {t. document_word document t \<noteq> document_word document (t - 1)} = length (compiled ivss)"
      using compiled_count[OF ok] word by simp
    have "2 \<le> length (compiled ivss)"
    proof (rule ccontr)
      assume "\<not> 2 \<le> length (compiled ivss)"
      then have "compiled ivss = []"
        using ok by (cases "compiled ivss"; cases "tl (compiled ivss)") (auto simp: events_ok_def)
      then have none: "document_word document t = 0" for t using word[of t] by simp
      obtain pulse rest where "pulses = pulse # rest" using late(2) by (cases pulses) auto
      with late(3) obtain ch s e' where "parse_pulse 0 pulse = Inr (ch, s, e')"
        by (auto simp: result_iff)
      note pp = parse_pulse_Inr[OF this]
      have "channel_active document (int ch) s"
        using pp(3) pp(5)[of ch s] late(1) \<open>pulses = pulse # rest\<close> by (simp add: channel_active_def)
      then have "document_word document s \<noteq> 0"
        using pp(1) by (auto simp: document_word_def less_2_cases_iff)
      then show False using none by simp
    qed
    moreover have "e = EventCount \<and> (length (compiled ivss) < 2 \<or> 128 < length (compiled ivss))"
      using validate_events_Inl[OF ok late(5)] .
    ultimately show ?thesis using n by auto
  qed
qed

section \<open>Images\<close>

lemma seq_sizes [simp]: "calcsize SEQ_HEADER = 32" "calcsize SEQ_EVENT = 16"
  by (simp_all add: SEQ_HEADER_def SEQ_EVENT_def)

lemma event_codec_iff: "encode_event e = Inr b \<longleftrightarrow> length b = 16 \<and> decode_event b 0 = Inr e"
proof
  let ?v = "[VInt (ev_timestamp e), VInt (ev_output_state e), VInt (ev_flags e)]"
  assume "encode_event e = Inr b"
  then have p: "struct_pack le_bytes SEQ_EVENT ?v = Some b"
    by (auto simp: encode_event_def split: option.splits)
  then have "fits SEQ_EVENT ?v"
    by (auto simp: SEQ_EVENT_def split: if_splits)
  with p show "length b = 16 \<and> decode_event b 0 = Inr e"
    using le.unpack_pack[of SEQ_EVENT ?v b] le.pack_size[OF p]
    by (simp add: decode_event_def struct_unpack_from_def)
next
  assume d: "length b = 16 \<and> decode_event b 0 = Inr e"
  then obtain t s f where u: "struct_unpack le_int SEQ_EVENT b = Some [t, s, f]"
      "e = \<lparr>ev_timestamp = ival t, ev_output_state = ival s, ev_flags = ival f\<rparr>"
    by (auto simp: decode_event_def struct_unpack_from_def split: option.splits list.splits)
  then have "fits SEQ_EVENT [t, s, f]"
    by (intro le.unpack_fits) (simp_all add: SEQ_EVENT_def)
  then have "[t, s, f] = [VInt (ev_timestamp e), VInt (ev_output_state e), VInt (ev_flags e)]"
    using u(2) by (auto simp: SEQ_EVENT_def split: sval.splits)
  with le.pack_unpack[OF u(1)] show "encode_event e = Inr b"
    by (simp add: encode_event_def SEQ_EVENT_def)
qed

lemma decode_event_shift:
  "length b = 16 \<Longrightarrow> decode_event (b @ r) 0 = decode_event b 0"
  "length b = 16 \<Longrightarrow> decode_event (b @ r) (Suc i) = decode_event r i"
  by (simp_all add: decode_event_def struct_unpack_from_def)

lemma map_res_map: "map_res f (map g xs) = map_res (f \<circ> g) xs"
  by (induction xs) simp_all

lemma decode_events_iff:
  "length payload = 16 * n \<Longrightarrow>
     map_res (decode_event payload) [0..<n] = Inr es \<longleftrightarrow>
     length es = n \<and> (\<exists>recs. map_res encode_event es = Inr recs \<and> concat recs = payload)"
proof (induction n arbitrary: payload es)
  case 0
  then show ?case by auto
next
  case (Suc n)
  define b r where "b = take 16 payload" and "r = drop 16 payload"
  have br: "payload = b @ r" "length b = 16" "length r = 16 * n"
    using Suc.prems by (simp_all add: b_def r_def)
  have "map_res (decode_event payload) [0..<Suc n] =
      bind_res (decode_event b 0) (\<lambda>e. bind_res (map_res (decode_event r) [0..<n]) (\<lambda>es. Inr (e # es)))"
    using br decode_event_shift(2)[OF br(2), of r]
    by (simp add: upt_conv_Cons map_Suc_upt[symmetric] map_res_map decode_event_shift comp_def
        del: upt_Suc)
  also have "\<dots> = Inr es \<longleftrightarrow> (\<exists>e es'. es = e # es' \<and> encode_event e = Inr b \<and> length es' = n \<and>
      (\<exists>recs. map_res encode_event es' = Inr recs \<and> concat recs = r))"
    using Suc.IH[OF br(3)] br(2) by (auto simp: bind_res_Inr_iff event_codec_iff)
  also have "\<dots> \<longleftrightarrow> length es = Suc n \<and>
      (\<exists>recs. map_res encode_event es = Inr recs \<and> concat recs = payload)"
  proof (cases es)
    case (Cons e es')
    have "(\<exists>recs. map_res encode_event es = Inr recs \<and> concat recs = payload) \<longleftrightarrow>
        (\<exists>rec recs. encode_event e = Inr rec \<and> map_res encode_event es' = Inr recs \<and>
           rec @ concat recs = b @ r)"
      unfolding Cons br(1) by (auto simp: bind_res_Inr_iff)
    also have "\<dots> \<longleftrightarrow> encode_event e = Inr b \<and> (\<exists>recs. map_res encode_event es' = Inr recs \<and> concat recs = r)"
      using br(2) by (auto simp: event_codec_iff append_eq_append_conv)
    finally show ?thesis using Cons by auto
  qed simp
  finally show ?case .
qed

lemma seq_header_fits:
  "0 \<le> n \<Longrightarrow> n < 2 ^ 32 \<Longrightarrow> 0 \<le> c \<Longrightarrow> c < 2 ^ 32 \<Longrightarrow> fits SEQ_HEADER (seq_header n c)"
  by (simp add: SEQ_HEADER_def seq_header_def FORMAT_VERSION_def SEQ_EVENT_def TICK_HZ_def QSEQ_def)

lemma seq_header_pack:
  assumes "0 \<le> n" "n < 2 ^ 32" "0 \<le> c" "c < 2 ^ 32"
  shows "struct_pack le_bytes SEQ_HEADER (seq_header n c) = Some
    (QSEQ @ le_bytes 2 1 @ le_bytes 2 32 @ le_bytes 4 n @ le_bytes 4 16 @ le_bytes 4 TICK_HZ @
     le_bytes 4 c @ le_bytes 8 0)"
proof -
  have "0 \<le> TICK_HZ" "TICK_HZ < 256 ^ 4" by (simp_all add: TICK_HZ_def)
  then show ?thesis
    using assms
    by (simp add: SEQ_HEADER_def seq_header_def QSEQ_def FORMAT_VERSION_def SEQ_EVENT_def
        del: le_bytes.simps)
qed

lemma encode_sequence_Inr_iff:
  "encode_sequence es = Inr img \<longleftrightarrow>
     validate_events es = Inr () \<and>
     (\<exists>header recs. map_res encode_event es = Inr recs \<and> img = header @ concat recs \<and>
        struct_pack le_bytes SEQ_HEADER (seq_header (int (length es)) (crc32 (concat recs))) = Some header)"
  by (auto simp: encode_sequence_def bind_res_Inr_iff Let_def split: option.splits)

lemma decode_sequence_Inr_iff:
  "decode_sequence img = Inr es \<longleftrightarrow>
     32 \<le> length img \<and> length img = 32 + 16 * length es \<and> validate_events es = Inr () \<and>
     struct_unpack le_int SEQ_HEADER (take 32 img) =
       Some (seq_header (int (length es)) (crc32 (drop 32 img))) \<and>
     map_res (decode_event (drop 32 img)) [0..<length es] = Inr es"
proof (cases "32 \<le> length img")
  case False
  then show ?thesis by (simp add: decode_sequence_def)
next
  case True
  then obtain vs where vs: "struct_unpack le_int SEQ_HEADER (take 32 img) = Some vs"
    using le.unpack_total[of "take 32 img" SEQ_HEADER] by auto
  then have f: "fits SEQ_HEADER vs"
    by (rule le.unpack_fits) (simp add: SEQ_HEADER_def)
  then obtain m v h n z t c r where
      u: "vs = [VBytes m, VInt v, VInt h, VInt n, VInt z, VInt t, VInt c, VInt r]" and "0 \<le> n"
    by (auto simp: SEQ_HEADER_def split: list.splits sval.splits)
  have from0: "struct_unpack_from le_int SEQ_HEADER img 0 = Some vs"
    using True vs by (simp add: struct_unpack_from_def)
  have count: "n = int (length es)" if "map_res f [0..<nat n] = Inr es" for f
    using map_res_length[OF that] \<open>0 \<le> n\<close> by simp
  show ?thesis
  proof
    assume d: "decode_sequence img = Inr es"
    then have e: "m = QSEQ" "v = FORMAT_VERSION" "h = 32" "z = 16" "t = TICK_HZ" "r = 0"
        "int (length img) = 32 + n * 16" "crc32 (drop 32 img) = c"
        "map_res (decode_event (drop 32 img)) [0..<nat n] = Inr es" "validate_events es = Inr ()"
      using True unfolding decode_sequence_def from0 u
      by (auto simp: bind_res_Inr_iff Let_def split: if_splits)
    then show "32 \<le> length img \<and> length img = 32 + 16 * length es \<and> validate_events es = Inr () \<and>
     struct_unpack le_int SEQ_HEADER (take 32 img) =
       Some (seq_header (int (length es)) (crc32 (drop 32 img))) \<and>
     map_res (decode_event (drop 32 img)) [0..<length es] = Inr es"
      using count[OF e(9)] vs True u by (simp add: seq_header_def)
  next
    assume a: "32 \<le> length img \<and> length img = 32 + 16 * length es \<and> validate_events es = Inr () \<and>
     struct_unpack le_int SEQ_HEADER (take 32 img) =
       Some (seq_header (int (length es)) (crc32 (drop 32 img))) \<and>
     map_res (decode_event (drop 32 img)) [0..<length es] = Inr es"
    then have "2 \<le> length es" "length es \<le> 128" by (simp_all add: validate_events_iff)
    then show "decode_sequence img = Inr es"
      using a vs from0 by (simp add: decode_sequence_def seq_header_def MIN_EVENTS_def MAX_EVENTS_def)
  qed
qed

lemma sequence_codec_iff: "encode_sequence es = Inr img \<longleftrightarrow> decode_sequence img = Inr es"
proof
  assume "encode_sequence es = Inr img"
  then obtain header recs where e: "validate_events es = Inr ()" "map_res encode_event es = Inr recs"
      "img = header @ concat recs"
      and p: "struct_pack le_bytes SEQ_HEADER (seq_header (int (length es)) (crc32 (concat recs))) = Some header"
    by (auto simp: encode_sequence_Inr_iff)
  have len: "length header = 32" using le.pack_size[OF p] by simp
  have "length rec = 16" if "rec \<in> set recs" for rec
    using e(2) that unfolding map_res_Inr_iff by (auto simp: event_codec_iff list_all2_conv_all_nth in_set_conv_nth)
  then have plen: "length (concat recs) = 16 * length es"
    using map_res_length[OF e(2)] by (simp add: length_concat sum_list_triv cong: map_cong)
  have "fits SEQ_HEADER (seq_header (int (length es)) (crc32 (concat recs)))"
    using e(1) crc32_bounds by (intro seq_header_fits) (auto simp: validate_events_iff)
  then have "struct_unpack le_int SEQ_HEADER header =
      Some (seq_header (int (length es)) (crc32 (concat recs)))"
    using p by (rule le.unpack_pack)
  moreover have "map_res (decode_event (concat recs)) [0..<length es] = Inr es"
    using e(2) by (simp add: decode_events_iff[OF plen])
  ultimately show "decode_sequence img = Inr es"
    using e(1,3) len plen by (simp add: decode_sequence_Inr_iff)
next
  assume "decode_sequence img = Inr es"
  then have d: "32 \<le> length img" "length img = 32 + 16 * length es" "validate_events es = Inr ()"
      "struct_unpack le_int SEQ_HEADER (take 32 img) =
         Some (seq_header (int (length es)) (crc32 (drop 32 img)))"
      "map_res (decode_event (drop 32 img)) [0..<length es] = Inr es"
    by (simp_all add: decode_sequence_Inr_iff)
  have "struct_pack le_bytes SEQ_HEADER (seq_header (int (length es)) (crc32 (drop 32 img))) =
      Some (take 32 img)"
    by (rule le.pack_unpack[OF d(4)]) (simp_all add: SEQ_HEADER_def)
  moreover obtain recs where "map_res encode_event es = Inr recs" "concat recs = drop 32 img"
    using d(5) decode_events_iff[of "drop 32 img" "length es" es] d(2) by auto
  ultimately show "encode_sequence es = Inr img"
    using d(3) append_take_drop_id[of 32 img] by (auto simp: encode_sequence_Inr_iff)
qed

text \<open>
  Two accepted images of the same length differ in their checksum field whenever their
  payloads have different checksums, and are equal when their payloads are.
\<close>

lemma accepted_header:
  assumes "decode_sequence img = Inr es"
  shows "take 32 img = QSEQ @ le_bytes 2 1 @ le_bytes 2 32 @ le_bytes 4 (int (length es)) @
    le_bytes 4 16 @ le_bytes 4 TICK_HZ @ le_bytes 4 (crc32 (drop 32 img)) @ le_bytes 8 0"
proof -
  have d: "struct_unpack le_int SEQ_HEADER (take 32 img) =
      Some (seq_header (int (length es)) (crc32 (drop 32 img)))"
    using assms by (simp add: decode_sequence_Inr_iff)
  have "struct_pack le_bytes SEQ_HEADER (seq_header (int (length es)) (crc32 (drop 32 img))) =
      Some (take 32 img)"
    by (rule le.pack_unpack[OF d]) (simp_all add: SEQ_HEADER_def)
  moreover have "length es \<le> 128"
    using assms by (simp add: decode_sequence_Inr_iff validate_events_iff)
  ultimately show ?thesis
    using seq_header_pack[of "int (length es)" "crc32 (drop 32 img)"] crc32_bounds[of "drop 32 img"]
    by simp
qed

lemma accepted_crc:
  assumes "decode_sequence img = Inr es"
  shows "take 4 (drop 20 img) = le_bytes 4 (crc32 (drop 32 img))"
proof -
  define A where "A = QSEQ @ le_bytes 2 1 @ le_bytes 2 32 @ le_bytes 4 (int (length es)) @
    le_bytes 4 16 @ le_bytes 4 TICK_HZ"
  define B where "B = le_bytes 4 (crc32 (drop 32 img))"
  define C where "C = le_bytes 8 0"
  have "take 32 img = A @ B @ C"
    using accepted_header[OF assms] by (simp only: A_def B_def C_def append.assoc)
  moreover have "length A = 20" "length B = 4"
    by (simp_all only: A_def B_def QSEQ_def length_append le_bytes_length) simp_all
  ultimately have "take 4 (drop 20 (take 32 img)) = B" by simp
  moreover have "take 4 (drop 20 (take 32 img)) = take 4 (drop 20 img)"
    by (simp add: drop_take min_def)
  ultimately show ?thesis by (simp only: B_def)
qed

lemma sequence_burst:
  assumes acc: "decode_sequence (pre @ xs @ post) = Inr es"
    and "length ys = length xs" "length xs \<le> 4" "ys \<noteq> xs"
  shows "\<exists>e. decode_sequence (pre @ ys @ post) = Inl e"
proof (rule ccontr)
  let ?a = "pre @ xs @ post" and ?b = "pre @ ys @ post"
  assume "\<not> (\<exists>e. decode_sequence ?b = Inl e)"
  then obtain es' where acc': "decode_sequence ?b = Inr es'"
    by (cases "decode_sequence ?b") auto
  have "length es = length es'"
    using acc acc' assms(2) by (simp add: decode_sequence_Inr_iff)
  note ha = accepted_header[OF acc] and hb = accepted_header[OF acc', folded this]
  have la: "32 \<le> length ?a" using acc by (simp add: decode_sequence_Inr_iff)
  show False
  proof (cases "drop 32 ?a = drop 32 ?b")
    case True
    then have "take 32 ?a = take 32 ?b" using ha hb by simp
    then have "?a = ?b" using True by (metis append_take_drop_id)
    then show False using assms(2,4) by simp
  next
    case False
    then have "28 < length pre + length xs - 4 + 4 \<and> 28 < length pre"
    proof -
      have "\<not> length pre + length xs \<le> 32"
        using False assms(2) by (auto simp: drop_append)
      then show ?thesis using assms(3) by linarith
    qed
    then have pre: "28 < length pre" by simp
    have "take 4 (drop 20 ?a) = take 4 (drop 20 ?b)"
      using pre by (simp add: drop_append take_append)
    then have "le_bytes 4 (crc32 (drop 32 ?a)) = le_bytes 4 (crc32 (drop 32 ?b))"
      unfolding accepted_crc[OF acc] accepted_crc[OF acc'] .
    moreover have "crc32 bs < 256 ^ 4" for bs using crc32_bounds[of bs] by simp
    ultimately have crc: "crc32 (drop 32 ?a) = crc32 (drop 32 ?b)"
      using crc32_bounds(1) le.enc_inj[of _ 4] by blast
    have "\<exists>p u v. drop 32 ?a = p @ u @ post \<and> drop 32 ?b = p @ v @ post \<and>
        length u = length v \<and> length u \<le> 4"
    proof (cases "32 \<le> length pre")
      case True
      then show ?thesis using assms(2,3) by (intro exI[of _ "drop 32 pre"] exI[of _ xs] exI[of _ ys]) simp
    next
      case short: False
      have "\<not> length pre + length xs \<le> 32"
        using False assms(2) by (auto simp: drop_append)
      then show ?thesis using assms(2,3) short
        by (intro exI[of _ "[]"] exI[of _ "drop (32 - length pre) xs"]
            exI[of _ "drop (32 - length pre) ys"]) simp
    qed
    then obtain p u v where w: "drop 32 ?a = p @ u @ post" "drop 32 ?b = p @ v @ post"
        "length u = length v" "length u \<le> 4" by blast
    then have "u \<noteq> v" using False by auto
    then show False using crc32_burst[OF w(3,4)] crc w(1,2) by simp
  qed
qed

section \<open>Properties\<close>

text \<open>
  C4. The compiler implements its document: when a document compiles, the output word the
  events establish at every tick has bit 0 set exactly when a pulse of channel 0 covers the
  tick, bit 1 exactly when one of channel 1 does, and no other bit.
\<close>

theorem compile_document_meaning:
  assumes "compile_document document = Inr events"
  shows "state_at 0 events t = document_word document t"
proof -
  obtain ivss where w: "well_laid ivss" "events = compiled ivss"
      "\<And>c t. covers ivss c t = channel_active document (int c) t"
    using compile_document_Inr[OF assms] by metis
  show ?thesis using document_word_compiled[OF w(1,3)] w(2) by simp
qed

definition example_pulse :: "int \<Rightarrow> int \<Rightarrow> int \<Rightarrow> json" where
  "example_pulse c s d = JObject
     [(''channel'', JInt c), (''start_tick'', JInt s), (''duration_ticks'', JInt d)]"

definition example_document :: jobject where
  "example_document =
     [(''format'', JString ''qcrate-sequence-v1''), (''tick_hz'', JInt 200000000),
      (''pulses'', JArray [example_pulse 1 12 8, example_pulse 0 10 5])]"

definition example_event :: "int \<Rightarrow> int \<Rightarrow> seq_event" where
  "example_event t s = \<lparr>ev_timestamp = t, ev_output_state = s, ev_flags = 0\<rparr>"

definition example_events :: "seq_event list" where
  "example_events = [example_event 10 1, example_event 12 3, example_event 15 2, example_event 20 0]"

lemma example_compiles: "compile_document example_document = Inr example_events"
  by code_simp

theorem compile_document_meaning_witness:
  "state_at 0 example_events 13 = document_word example_document 13"
  by (rule compile_document_meaning[OF example_compiles])

text \<open>
  C5. A document is rejected for its own faults only: the compiler never produces events that
  its validator finds out of order, redundant, out of range, with reserved bits or flags, or
  not ending low; and it complains about the number of events only when the output word of
  the document really changes at more than 128 ticks.
\<close>

theorem compile_rejections:
  assumes "compile_document document = Inl e"
  shows "\<not> validator_error e \<and>
    (e = EventCount \<longrightarrow> 128 < card {t. document_word document t \<noteq> document_word document (t - 1)})"
  using assms by (rule compile_document_Inl)

definition example_overlap :: jobject where
  "example_overlap =
     [(''format'', JString ''qcrate-sequence-v1''), (''tick_hz'', JInt 200000000),
      (''pulses'', JArray [example_pulse 0 12 8, example_pulse 0 10 5])]"

lemma example_overlap_rejected: "compile_document example_overlap = Inl (Overlap 0 1 0)"
  by code_simp

theorem compile_rejections_witness:
  "\<not> validator_error (Overlap 0 1 0)"
  using compile_rejections[OF example_overlap_rejected] by simp

text \<open>
  C6. The image codec is a bijection between valid event lists and accepted images: an event
  list encodes to an image exactly when the image decodes to it, CRC, counts and sizes
  included.
\<close>

theorem sequence_codec_inverse:
  "encode_sequence es = Inr img \<longleftrightarrow> decode_sequence img = Inr es"
  by (rule sequence_codec_iff)

text \<open>
  C7. Corruption is detected: changing any bytes of an accepted image inside one window of at
  most four bytes, wherever it lies, yields an image that is rejected.
\<close>

theorem sequence_corruption_detected:
  assumes "decode_sequence (pre @ xs @ post) = Inr es"
    and "length ys = length xs" "length xs \<le> 4" "ys \<noteq> xs"
  shows "\<exists>e. decode_sequence (pre @ ys @ post) = Inl e"
  using assms by (rule sequence_burst)

definition short_events :: "seq_event list" where
  "short_events = [example_event 10 1, example_event 15 0]"

definition short_records :: "bytes list" where
  "short_records =
     [[10, 0, 0, 0, 0, 0, 0, 0, 1, 0, 0, 0, 0, 0, 0, 0],
      [15, 0, 0, 0, 0, 0, 0, 0, 0, 0, 0, 0, 0, 0, 0, 0]]"

definition short_header :: bytes where
  "short_header =
     [81, 83, 69, 81, 1, 0, 32, 0, 2, 0, 0, 0, 16, 0, 0, 0,
      0, 194, 235, 11, 241, 110, 20, 205, 0, 0, 0, 0, 0, 0, 0, 0]"

lemma short_crc: "crc32 (concat short_records) = 3440668401"
  by (simp add: short_records_def crc32_eval)

lemma short_decodes: "decode_sequence (short_header @ concat short_records) = Inr short_events"
  unfolding sequence_codec_iff[symmetric] encode_sequence_Inr_iff
proof (intro conjI exI)
  show "validate_events short_events = Inr ()" by code_simp
  show "map_res encode_event short_events = Inr short_records" by code_simp
  have "struct_pack le_bytes SEQ_HEADER (seq_header (int (length short_events)) 3440668401) =
      Some short_header"
    by code_simp
  then show "struct_pack le_bytes SEQ_HEADER
      (seq_header (int (length short_events)) (crc32 (concat short_records))) = Some short_header"
    by (simp only: short_crc)
qed (rule refl)

theorem sequence_corruption_detected_witness:
  "\<exists>e. decode_sequence ([] @ [0x51, 0x53, 0x45, 0x50] @ drop 4 short_header @ concat short_records) = Inl e"
proof (rule sequence_corruption_detected)
  have "[] @ [0x51, 0x53, 0x45, 0x51] @ drop 4 short_header @ concat short_records =
      short_header @ concat short_records"
    by (simp add: short_header_def)
  then show "decode_sequence ([] @ [0x51, 0x53, 0x45, 0x51] @ drop 4 short_header @ concat short_records) =
      Inr short_events"
    using short_decodes by (simp only:)
qed simp_all

end
