(* ===== verification/Journal.thy ===== *)
theory Journal
  imports ByteCodec
begin

text \<open>
  The append-only datagram journal of \<open>host/data_plane/qcrate_receiver.py\<close>:
  \<open>JournalRecord\<close>, \<open>JournalWriter\<close> and \<open>read_journal\<close>.  An \<open>ipaddress\<close> value is its packed
  bytes, with the scope identifier of a link-local IPv6 address kept apart, because the text of
  the address carries it and the sixteen journalled bytes do not.
\<close>

section \<open>Addresses and records\<close>

datatype ip_address = IPv4 bytes | IPv6 bytes string

fun ip_packed :: "ip_address \<Rightarrow> bytes" where
  "ip_packed (IPv4 b) = b"
| "ip_packed (IPv6 b scope) = b"

fun ip_version :: "ip_address \<Rightarrow> int" where
  "ip_version (IPv4 b) = 4"
| "ip_version (IPv6 b scope) = 6"

text \<open>What \<open>ipaddress.ip_address\<close> guarantees, and the addresses without a scope.\<close>

fun ip_ok :: "ip_address \<Rightarrow> bool" where
  "ip_ok (IPv4 b) = (length b = 4)"
| "ip_ok (IPv6 b scope) = (length b = 16)"

fun ip_plain :: "ip_address \<Rightarrow> bool" where
  "ip_plain (IPv4 b) = True"
| "ip_plain (IPv6 b scope) = (scope = [])"

record jrecord =
  jr_receive_monotonic_ns :: int
  jr_source_address :: ip_address
  jr_source_port :: int
  jr_datagram :: bytes

datatype journal_error =
    JournalNotOpen
  | DatagramTooLarge
  | PortTooLarge
  | JournalStructError
  | HeaderTruncated
  | BadJournalMagic int
  | UnsupportedJournal
  | HeaderReserved
  | RecordTruncated
  | RecordReserved
  | IPv4Padding
  | UnsupportedFamily int
  | DatagramTruncated

definition JOURNAL_MAGIC :: int where "JOURNAL_MAGIC = 0x5143524A"
definition JOURNAL_VERSION :: int where "JOURNAL_VERSION = 1"

definition JOURNAL_HEADER :: "fld list" where
  "JOURNAL_HEADER = [FUint 4, FUint 2, FUint 2, FUint 8]"

definition JOURNAL_RECORD :: "fld list" where
  "JOURNAL_RECORD = [FUint 2, FUint 1, FUint 1, FUint 2, FUint 2, FUint 8, FBytes 16]"

definition JOURNAL_HEADER_BYTES :: nat where "JOURNAL_HEADER_BYTES = calcsize JOURNAL_HEADER"
definition JOURNAL_RECORD_BYTES :: nat where "JOURNAL_RECORD_BYTES = calcsize JOURNAL_RECORD"

lemma journal_sizes [simp]:
  "calcsize JOURNAL_HEADER = 16" "calcsize JOURNAL_RECORD = 32"
  "JOURNAL_HEADER_BYTES = 16" "JOURNAL_RECORD_BYTES = 32"
  by (simp_all add: JOURNAL_HEADER_def JOURNAL_RECORD_def JOURNAL_HEADER_BYTES_def
      JOURNAL_RECORD_BYTES_def)

section \<open>Writing\<close>

text \<open>The writer: the handle (\<open>None\<close> when closed) as what was written, and the record count.\<close>

record journal_writer =
  jw_file :: "bytes option"
  jw_records :: nat

definition journal_init :: journal_writer where
  "journal_init = \<lparr>jw_file = None, jw_records = 0\<rparr>"

definition pack_journal :: "fld list \<Rightarrow> sval list \<Rightarrow> journal_error + bytes" where
  "pack_journal fs vs =
     (case struct_pack be_bytes fs vs of Some b \<Rightarrow> Inr b | None \<Rightarrow> Inl JournalStructError)"

definition journal_enter :: "journal_writer \<Rightarrow> journal_error + journal_writer" where
  "journal_enter w =
     bind_res (pack_journal JOURNAL_HEADER
       (map VInt [JOURNAL_MAGIC, JOURNAL_VERSION, int JOURNAL_HEADER_BYTES, 0])) (\<lambda>h.
     Inr (w\<lparr>jw_file := Some h\<rparr>))"

definition write_record :: "jrecord \<Rightarrow> journal_error + bytes" where
  "write_record record =
     (let address = jr_source_address record;
          family = (if ip_version address = 4 then 4 else 6);
          packed_address = ip_packed address @ replicate (16 - length (ip_packed address)) 0
      in if length (jr_datagram record) > 0xFFFF then Inl DatagramTooLarge
         else if \<not> (0 \<le> jr_source_port record \<and> jr_source_port record \<le> 0xFFFF)
         then Inl PortTooLarge
         else
           bind_res (pack_journal JOURNAL_RECORD
             [VInt (int (length (jr_datagram record))), VInt family, VInt 0,
              VInt (jr_source_port record), VInt 0, VInt (jr_receive_monotonic_ns record),
              VBytes packed_address]) (\<lambda>header.
           Inr (header @ jr_datagram record)))"

definition journal_write :: "jrecord \<Rightarrow> journal_writer \<Rightarrow> journal_error + journal_writer" where
  "journal_write record w =
     (case jw_file w of
        None \<Rightarrow> Inl JournalNotOpen
      | Some contents \<Rightarrow>
          bind_res (write_record record) (\<lambda>b.
          Inr (w\<lparr>jw_file := Some (contents @ b), jw_records := jw_records w + 1\<rparr>)))"

section \<open>Reading\<close>

definition read_address :: "int \<Rightarrow> bytes \<Rightarrow> journal_error + ip_address" where
  "read_address family packed_address =
     (if family = 4 then
        (if \<exists>b \<in> set (drop 4 packed_address). b \<noteq> 0 then Inl IPv4Padding
         else Inr (IPv4 (take 4 packed_address)))
      else if family = 6 then Inr (IPv6 packed_address [])
      else Inl (UnsupportedFamily family))"

function read_records :: "bytes \<Rightarrow> journal_error + jrecord list" where
  "read_records journal =
     (let raw_record = take JOURNAL_RECORD_BYTES journal in
      if raw_record = [] then Inr []
      else if length raw_record \<noteq> JOURNAL_RECORD_BYTES then Inl RecordTruncated
      else case struct_unpack be_int JOURNAL_RECORD raw_record of
        Some [datagram_bytes, family, flags, source_port, record_reserved, receive_ns, packed_address] \<Rightarrow>
          if ival flags \<noteq> 0 \<or> ival record_reserved \<noteq> 0 then Inl RecordReserved
          else
            bind_res (read_address (ival family) (bval packed_address)) (\<lambda>address.
            let rest = drop JOURNAL_RECORD_BYTES journal;
                datagram = take (nat (ival datagram_bytes)) rest
            in if int (length datagram) \<noteq> ival datagram_bytes then Inl DatagramTruncated
               else
                 bind_res (read_records (drop (nat (ival datagram_bytes)) rest)) (\<lambda>rs.
                 Inr (\<lparr>jr_receive_monotonic_ns = ival receive_ns, jr_source_address = address,
                       jr_source_port = ival source_port, jr_datagram = datagram\<rparr> # rs)))
      | _ \<Rightarrow> Inl JournalStructError)"
  by pat_completeness auto
termination by (relation "measure length") (auto split: if_splits)

declare read_records.simps [simp del]

definition read_journal :: "bytes \<Rightarrow> journal_error + jrecord list" where
  "read_journal journal =
     (let raw_header = take JOURNAL_HEADER_BYTES journal in
      if length raw_header \<noteq> JOURNAL_HEADER_BYTES then Inl HeaderTruncated
      else case struct_unpack be_int JOURNAL_HEADER raw_header of
        Some [magic, version, header_bytes, reserved] \<Rightarrow>
          if ival magic \<noteq> JOURNAL_MAGIC then Inl (BadJournalMagic (ival magic))
          else if ival version \<noteq> JOURNAL_VERSION \<or> ival header_bytes \<noteq> int JOURNAL_HEADER_BYTES
          then Inl UnsupportedJournal
          else if ival reserved \<noteq> 0 then Inl HeaderReserved
          else read_records (drop JOURNAL_HEADER_BYTES journal)
      | _ \<Rightarrow> Inl JournalStructError)"

section \<open>Reading inverts writing\<close>

definition ip_family :: "ip_address \<Rightarrow> int" where
  "ip_family address = (if ip_version address = 4 then 4 else 6)"

definition ip_field :: "ip_address \<Rightarrow> bytes" where
  "ip_field address = ip_packed address @ replicate (16 - length (ip_packed address)) 0"

lemma read_address_iff:
  assumes "length packed = 16"
  shows "read_address family packed = Inr a \<longleftrightarrow>
    ip_ok a \<and> ip_plain a \<and> family = ip_family a \<and> packed = ip_field a"
proof (cases a)
  case (IPv4 b)
  have "packed = b @ replicate 12 0 \<and> length b = 4 \<longleftrightarrow>
      take 4 packed = b \<and> (\<forall>x \<in> set (drop 4 packed). x = 0)"
  proof
    assume "take 4 packed = b \<and> (\<forall>x \<in> set (drop 4 packed). x = 0)"
    moreover from this have "drop 4 packed = replicate 12 0"
      using assms by (intro replicate_eqI) auto
    ultimately show "packed = b @ replicate 12 0 \<and> length b = 4"
      using assms append_take_drop_id[of 4 packed] by auto
  qed auto
  then show ?thesis
    using IPv4 by (auto simp: read_address_def ip_family_def ip_field_def)
next
  case (IPv6 b scope)
  then show ?thesis
    using assms by (auto simp: read_address_def ip_family_def ip_field_def)
qed

definition record_values :: "jrecord \<Rightarrow> sval list" where
  "record_values r =
     [VInt (int (length (jr_datagram r))), VInt (ip_family (jr_source_address r)), VInt 0,
      VInt (jr_source_port r), VInt 0, VInt (jr_receive_monotonic_ns r),
      VBytes (ip_field (jr_source_address r))]"

lemma ip_field_length: "ip_ok a \<Longrightarrow> length (ip_field a) = 16"
  by (cases a) (auto simp: ip_field_def)

lemma write_record_iff:
  assumes "ip_ok (jr_source_address r)"
  shows "write_record r = Inr b \<longleftrightarrow>
    (\<exists>h. struct_unpack be_int JOURNAL_RECORD h = Some (record_values r) \<and> b = h @ jr_datagram r)"
proof -
  have pad: "FSint 0 \<notin> set JOURNAL_RECORD" "no_pad JOURNAL_RECORD"
    by (simp_all add: JOURNAL_RECORD_def)
  have "struct_unpack be_int JOURNAL_RECORD h = Some (record_values r) \<longleftrightarrow>
      fits JOURNAL_RECORD (record_values r) \<and>
      struct_pack be_bytes JOURNAL_RECORD (record_values r) = Some h" for h
    using be.pack_unpack[OF _ pad] be.unpack_fits[OF _ pad(1)] be.unpack_pack by blast
  moreover have "fits JOURNAL_RECORD (record_values r) \<longleftrightarrow>
      length (jr_datagram r) \<le> 0xFFFF \<and> 0 \<le> jr_source_port r \<and> jr_source_port r \<le> 0xFFFF \<and>
      0 \<le> jr_receive_monotonic_ns r \<and> jr_receive_monotonic_ns r < 2 ^ 64"
    using ip_field_length[OF assms]
    by (auto simp: record_values_def JOURNAL_RECORD_def ip_family_def)
  moreover have "write_record r = Inr b \<longleftrightarrow>
      length (jr_datagram r) \<le> 0xFFFF \<and> 0 \<le> jr_source_port r \<and> jr_source_port r \<le> 0xFFFF \<and>
      (\<exists>h. struct_pack be_bytes JOURNAL_RECORD (record_values r) = Some h \<and> b = h @ jr_datagram r)"
    by (auto simp: write_record_def Let_def pack_journal_def record_values_def ip_family_def
        ip_field_def bind_res_Inr_iff split: option.splits)
  moreover have "0 \<le> jr_receive_monotonic_ns r \<and> jr_receive_monotonic_ns r < 2 ^ 64"
    if "struct_pack be_bytes JOURNAL_RECORD (record_values r) = Some h" for h
    using that by (auto simp: record_values_def JOURNAL_RECORD_def split: if_splits)
  ultimately show ?thesis by blast
qed

lemma read_records_Nil [simp]: "read_records [] = Inr []"
  by (simp add: read_records.simps)

lemma read_records_step:
  assumes "ip_ok (jr_source_address r)" "ip_plain (jr_source_address r)"
    and "write_record r = Inr b"
  shows "read_records (b @ rest) = bind_res (read_records rest) (\<lambda>rs. Inr (r # rs))"
proof -
  obtain h where h: "struct_unpack be_int JOURNAL_RECORD h = Some (record_values r)"
      "b = h @ jr_datagram r"
    using assms(1,3) by (auto simp: write_record_iff)
  then have len: "length h = 32"
    using be.pack_unpack[OF h(1)] be.pack_size[of JOURNAL_RECORD "record_values r" h]
    by (simp add: JOURNAL_RECORD_def)
  have "read_address (ip_family (jr_source_address r)) (ip_field (jr_source_address r)) =
      Inr (jr_source_address r)"
    using assms(1,2) by (simp add: read_address_iff ip_field_length)
  then show ?thesis
    using h len
    by (subst read_records.simps, cases "read_records rest") (auto simp: record_values_def Let_def)
qed

lemma read_records_uncons:
  assumes "read_records bs = Inr rs0"
  obtains "bs = []" "rs0 = []"
  | r rs b rest where "rs0 = r # rs" "ip_ok (jr_source_address r)" "ip_plain (jr_source_address r)"
      "write_record r = Inr b" "bs = b @ rest" "read_records rest = Inr rs"
proof (cases "bs = []")
  case True
  then show ?thesis using assms that(1) by simp
next
  case False
  let ?h = "take 32 bs"
  have len: "length ?h = 32"
    using assms False by (subst (asm) read_records.simps) (auto split: if_splits)
  then obtain vs where vs: "struct_unpack be_int JOURNAL_RECORD ?h = Some vs"
    using be.unpack_total[of ?h JOURNAL_RECORD] by auto
  then have "fits JOURNAL_RECORD vs"
    by (rule be.unpack_fits) (simp add: JOURNAL_RECORD_def)
  then obtain n fam fl port res ns pk where
      v: "vs = [VInt n, VInt fam, VInt fl, VInt port, VInt res, VInt ns, VBytes pk]"
      and rng: "0 \<le> n" "length pk = 16"
    by (auto simp: JOURNAL_RECORD_def split: list.splits sval.splits)
  define d where "d = take (nat n) (drop 32 bs)"
  from assms vs v len False obtain a rs where r: "fl = 0" "res = 0" "read_address fam pk = Inr a"
      "int (length d) = n" "read_records (drop (nat n) (drop 32 bs)) = Inr rs"
      "rs0 = \<lparr>jr_receive_monotonic_ns = ns, jr_source_address = a, jr_source_port = port,
              jr_datagram = d\<rparr> # rs"
    by (subst (asm) read_records.simps)
      (auto simp: Let_def bind_res_Inr_iff d_def split: if_splits)
  let ?r = "\<lparr>jr_receive_monotonic_ns = ns, jr_source_address = a, jr_source_port = port, jr_datagram = d\<rparr>"
  have a: "ip_ok a" "ip_plain a" "fam = ip_family a" "pk = ip_field a"
    using r(3) rng(2) by (simp_all add: read_address_iff)
  have "write_record ?r = Inr (?h @ d)"
    using vs v r a by (subst write_record_iff) (auto simp: record_values_def)
  moreover have "bs = (?h @ d) @ drop (nat n) (drop 32 bs)"
    unfolding d_def by (metis append.assoc append_take_drop_id)
  ultimately show ?thesis
    using that(2)[OF r(6), of "?h @ d" "drop (nat n) (drop 32 bs)"] a r(5) by simp
qed

lemma read_records_iff:
  "read_records bs = Inr rs \<longleftrightarrow>
     (\<exists>chunks. map_res write_record rs = Inr chunks \<and> bs = concat chunks \<and>
        (\<forall>r \<in> set rs. ip_ok (jr_source_address r) \<and> ip_plain (jr_source_address r)))"
proof (induction rs arbitrary: bs)
  case Nil
  show ?case by (auto elim: read_records_uncons)
next
  case (Cons r rs)
  show ?case
  proof
    assume "read_records bs = Inr (r # rs)"
    then obtain b rest where b: "ip_ok (jr_source_address r)" "ip_plain (jr_source_address r)"
        "write_record r = Inr b" "bs = b @ rest" "read_records rest = Inr rs"
      by (auto elim: read_records_uncons)
    then obtain chunks where "map_res write_record rs = Inr chunks" "rest = concat chunks"
        "\<forall>r \<in> set rs. ip_ok (jr_source_address r) \<and> ip_plain (jr_source_address r)"
      using Cons.IH by blast
    with b show "\<exists>chunks. map_res write_record (r # rs) = Inr chunks \<and> bs = concat chunks \<and>
        (\<forall>r \<in> set (r # rs). ip_ok (jr_source_address r) \<and> ip_plain (jr_source_address r))"
      by (intro exI[of _ "b # chunks"]) simp
  next
    assume "\<exists>chunks. map_res write_record (r # rs) = Inr chunks \<and> bs = concat chunks \<and>
        (\<forall>r \<in> set (r # rs). ip_ok (jr_source_address r) \<and> ip_plain (jr_source_address r))"
    then obtain b chunks where "write_record r = Inr b" "map_res write_record rs = Inr chunks"
        "bs = b @ concat chunks"
        "\<forall>r \<in> set (r # rs). ip_ok (jr_source_address r) \<and> ip_plain (jr_source_address r)"
      by (auto simp: bind_res_Inr_iff)
    moreover from this have "read_records (concat chunks) = Inr rs"
      unfolding Cons.IH by auto
    ultimately show "read_records bs = Inr (r # rs)"
      using read_records_step[of r b "concat chunks"] by auto
  qed
qed

definition journal_header_bytes :: bytes where
  "journal_header_bytes =
     be_bytes 4 JOURNAL_MAGIC @ be_bytes 2 1 @ be_bytes 2 16 @ be_bytes 8 0"

lemma journal_header_pack:
  "struct_pack be_bytes JOURNAL_HEADER (map VInt [JOURNAL_MAGIC, 1, 16, 0]) = Some journal_header_bytes"
proof -
  have "0 \<le> JOURNAL_MAGIC" "JOURNAL_MAGIC < 256 ^ 4" by (simp_all add: JOURNAL_MAGIC_def)
  then show ?thesis by (simp add: JOURNAL_HEADER_def journal_header_bytes_def)
qed

lemma journal_enter_eq: "journal_enter w = Inr (w\<lparr>jw_file := Some journal_header_bytes\<rparr>)"
  using journal_header_pack
  by (simp add: journal_enter_def pack_journal_def JOURNAL_VERSION_def)

lemma read_journal_iff:
  "read_journal bs = Inr rs \<longleftrightarrow>
     (\<exists>body. bs = journal_header_bytes @ body \<and> read_records body = Inr rs)"
proof (cases "16 \<le> length bs")
  case False
  have "length journal_header_bytes = 16"
    using be.pack_size[OF journal_header_pack] by simp
  then show ?thesis using False by (auto simp: read_journal_def)
next
  case True
  let ?h = "take 16 bs"
  obtain vs where vs: "struct_unpack be_int JOURNAL_HEADER ?h = Some vs"
    using be.unpack_total[of ?h JOURNAL_HEADER] True by auto
  then have f: "fits JOURNAL_HEADER vs"
    by (rule be.unpack_fits) (simp add: JOURNAL_HEADER_def)
  then obtain a b c d where v: "vs = map VInt [a, b, c, d]"
    by (auto simp: JOURNAL_HEADER_def split: list.splits sval.splits)
  have pk: "struct_pack be_bytes JOURNAL_HEADER vs = Some ?h"
    by (rule be.pack_unpack[OF vs]) (simp_all add: JOURNAL_HEADER_def)
  have len: "length journal_header_bytes = 16"
    using be.pack_size[OF journal_header_pack] by simp
  have "vs = map VInt [JOURNAL_MAGIC, 1, 16, 0] \<longleftrightarrow> ?h = journal_header_bytes"
  proof
    assume "?h = journal_header_bytes"
    moreover have "struct_unpack be_int JOURNAL_HEADER journal_header_bytes =
        Some (map VInt [JOURNAL_MAGIC, 1, 16, 0])"
      by (rule be.unpack_pack[OF _ journal_header_pack])
        (simp add: JOURNAL_HEADER_def JOURNAL_MAGIC_def)
    ultimately show "vs = map VInt [JOURNAL_MAGIC, 1, 16, 0]" using vs by simp
  qed (use pk journal_header_pack in simp)
  moreover have "read_journal bs = Inr rs \<longleftrightarrow>
      vs = map VInt [JOURNAL_MAGIC, 1, 16, 0] \<and> read_records (drop 16 bs) = Inr rs"
    using True vs v by (auto simp: read_journal_def Let_def JOURNAL_VERSION_def)
  moreover have "?h = journal_header_bytes \<longleftrightarrow> bs = journal_header_bytes @ drop 16 bs"
    using len append_take_drop_id[of 16 bs] by (metis append_same_eq)
  ultimately show ?thesis
    using len by auto
qed

text \<open>The contents of the file after writing records into a fresh journal.\<close>

definition write_journal :: "jrecord list \<Rightarrow> journal_error + journal_writer" where
  "write_journal rs = bind_res (journal_enter journal_init) (fold_res journal_write rs)"

lemma journal_write_eq:
  "jw_file w = Some c \<Longrightarrow> journal_write r w =
     bind_res (write_record r) (\<lambda>b. Inr (w\<lparr>jw_file := Some (c @ b), jw_records := jw_records w + 1\<rparr>))"
  by (simp add: journal_write_def)

lemma fold_journal_write:
  "jw_file w = Some c \<Longrightarrow>
     fold_res journal_write rs w =
       bind_res (map_res write_record rs) (\<lambda>chunks.
       Inr (w\<lparr>jw_file := Some (c @ concat chunks), jw_records := jw_records w + length rs\<rparr>))"
proof (induction rs arbitrary: w c)
  case (Cons r rs)
  show ?case
    by (cases "write_record r"; cases "map_res write_record rs")
      (simp_all add: journal_write_eq[OF Cons.prems] Cons.IH)
qed simp

lemma write_journal_iff:
  "(\<exists>w. write_journal rs = Inr w \<and> jw_file w = Some bs) \<longleftrightarrow>
     (\<exists>chunks. map_res write_record rs = Inr chunks \<and> bs = journal_header_bytes @ concat chunks)"
  by (auto simp: write_journal_def journal_enter_eq journal_init_def fold_journal_write
      bind_res_Inr_iff)

lemma journal_codec:
  "read_journal bs = Inr rs \<longleftrightarrow>
     (\<exists>w. write_journal rs = Inr w \<and> jw_file w = Some bs) \<and>
     (\<forall>r \<in> set rs. ip_ok (jr_source_address r) \<and> ip_plain (jr_source_address r))"
  unfolding read_journal_iff read_records_iff write_journal_iff by blast

section \<open>Properties\<close>

text \<open>
  C8. The journal is lossless and canonical: a file reads back as a list of records exactly
  when a \<open>JournalWriter\<close> given those records, in that order, produces that file and their
  addresses are addresses without a scope identifier.  In particular a truncated, padded or
  reordered file never reads as a journal of other records.
\<close>

theorem journal_reads_what_was_written:
  "read_journal bs = Inr rs \<longleftrightarrow>
     (\<exists>w. write_journal rs = Inr w \<and> jw_file w = Some bs) \<and>
     list_all (\<lambda>r. ip_ok (jr_source_address r) \<and> ip_plain (jr_source_address r)) rs"
  unfolding list_all_iff by (rule journal_codec)

end
