(* ===== verification/Text.thy ===== *)
theory Text
  imports Prelude
begin

text \<open>
  The number formats of the program's text files and manifests: hexadecimal digits,
  zero-padding as in \<open>f"{v:016x}"\<close>, and the readers \<open>int(s, 16)\<close> and \<open>int(s)\<close> on plain
  digit strings.
\<close>

definition digit_char :: "nat \<Rightarrow> char" where
  "digit_char d = ''0123456789abcdef'' ! d"

fun digits :: "nat \<Rightarrow> nat \<Rightarrow> string" where
  "digits b n = (if n < b \<or> b < 2 then [digit_char n] else digits b (n div b) @ [digit_char (n mod b)])"

declare digits.simps [simp del]

abbreviation hex :: "nat \<Rightarrow> string" where "hex \<equiv> digits 16"
abbreviation dec :: "nat \<Rightarrow> string" where "dec \<equiv> digits 10"

definition zfill :: "nat \<Rightarrow> string \<Rightarrow> string" where
  "zfill w s = replicate (w - length s) (CHR ''0'') @ s"

text \<open>\<open>hexadecimal(value, bits)\<close> of the receiver.\<close>

definition hexadecimal :: "int \<Rightarrow> nat \<Rightarrow> string" where
  "hexadecimal value bits = ''0x'' @ zfill (bits div 4) (hex (nat value))"

text \<open>\<open>str(i)\<close> of an integer.\<close>

definition str_int :: "int \<Rightarrow> string" where
  "str_int i = (if i < 0 then CHR ''-'' # dec (nat (- i)) else dec (nat i))"

definition digit_value :: "char \<Rightarrow> nat option" where
  "digit_value c =
     (let n = of_char c :: nat in
      if 48 \<le> n \<and> n \<le> 57 then Some (n - 48)
      else if 97 \<le> n \<and> n \<le> 102 then Some (n - 87)
      else if 65 \<le> n \<and> n \<le> 70 then Some (n - 55) else None)"

fun read_digits :: "nat \<Rightarrow> nat \<Rightarrow> string \<Rightarrow> nat option" where
  "read_digits b acc [] = Some acc"
| "read_digits b acc (c # cs) =
     (case digit_value c of
        Some d \<Rightarrow> if d < b then read_digits b (b * acc + d) cs else None
      | None \<Rightarrow> None)"

definition read_nat :: "nat \<Rightarrow> string \<Rightarrow> nat option" where
  "read_nat b s = (if s = [] then None else read_digits b 0 s)"

lemma digit_value_char: "d < 16 \<Longrightarrow> digit_value (digit_char d) = Some d"
proof -
  assume "d < 16"
  then have "d \<in> set [0..<16]" by simp
  moreover have "list_all (\<lambda>d. digit_value (digit_char d) = Some d) [0..<16]"
    by code_simp
  ultimately show ?thesis unfolding list_all_iff by blast
qed

lemma read_digits_append:
  "read_digits b acc (xs @ ys) = Option.bind (read_digits b acc xs) (\<lambda>a. read_digits b a ys)"
  by (induction xs arbitrary: acc) (auto split: option.splits)

lemma digits_Nil [simp]: "digits b n \<noteq> []"
  by (subst digits.simps) simp

lemma read_digits_zeros: "2 \<le> b \<Longrightarrow> read_digits b 0 (replicate k (CHR ''0'') @ s) = read_digits b 0 s"
  by (induction k) (simp_all add: digit_value_def)

lemma read_digits_digits: "2 \<le> b \<Longrightarrow> b \<le> 16 \<Longrightarrow> read_digits b 0 (digits b n) = Some n"
proof (induction b n rule: digits.induct)
  case (1 b n)
  show ?case
  proof (cases "n < b")
    case True
    then show ?thesis using 1 by (subst digits.simps) (simp add: digit_value_char)
  next
    case False
    moreover from 1 False have "read_digits b 0 (digits b (n div b)) = Some (n div b)" by simp
    moreover have "n mod b < b" "n mod b < 16"
      using 1(2,3) mod_less_divisor[of b n] by linarith+
    ultimately show ?thesis
      using 1(2) by (subst digits.simps) (simp add: read_digits_append digit_value_char)
  qed
qed

lemma read_nat_zfill: "2 \<le> b \<Longrightarrow> b \<le> 16 \<Longrightarrow> read_nat b (zfill w (digits b n)) = Some n"
  by (simp add: read_nat_def zfill_def read_digits_zeros read_digits_digits)

lemma read_nat_digits: "2 \<le> b \<Longrightarrow> b \<le> 16 \<Longrightarrow> read_nat b (digits b n) = Some n"
  by (simp add: read_nat_def read_digits_digits)

lemma digits_inj: "2 \<le> b \<Longrightarrow> b \<le> 16 \<Longrightarrow> digits b m = digits b n \<longleftrightarrow> m = n"
  by (metis option.inject read_nat_digits)

end
