(* ===== verification/Assembler.thy ===== *)
theory Assembler
  imports DataProtocol Journal Hashing Text "HOL-Library.AList" "HOL-Library.Product_Lexorder"
    "HOL-Library.List_Lexorder" "HOL-Library.Char_ord"
begin

text \<open>
  \<open>ShotAssembler\<close> of \<open>host/data_plane/qcrate_receiver.py\<close>: selection of a shot by its first
  \<open>STREAM_INFO\<close> packet, the routing and duplicate rules of every later datagram, and the final
  audit.  An issue text of the manifest is a constructor of \<open>issue\<close> carrying the values the
  text interpolates; Python dictionaries are association lists in insertion order.
\<close>

section \<open>Missing sequence ranges\<close>

fun gap_loop ::
    "int \<Rightarrow> int \<Rightarrow> int list \<Rightarrow> int \<Rightarrow> int \<Rightarrow> (int \<times> int) list \<Rightarrow> int \<times> int \<times> (int \<times> int) list" where
  "gap_loop lo hi [] cursor count ranges = (cursor, count, ranges)"
| "gap_loop lo hi (v # vs) cursor count ranges =
     (if v < lo \<or> v > hi then gap_loop lo hi vs cursor count ranges
      else if v > cursor
      then gap_loop lo hi vs (max cursor (v + 1)) (count + (v - cursor))
             (ranges @ [(cursor, v - 1)])
      else gap_loop lo hi vs (max cursor (v + 1)) count ranges)"

definition find_missing_ranges :: "int \<Rightarrow> int \<Rightarrow> int list \<Rightarrow> int \<times> (int \<times> int) list" where
  "find_missing_ranges lo hi present =
     (if hi < lo then (0, [])
      else
        let (cursor, count, ranges) = gap_loop lo hi (sort (remdups present)) lo 0 [] in
        if cursor \<le> hi then (count + (hi - cursor + 1), ranges @ [(cursor, hi)])
        else (count, ranges))"

section \<open>State\<close>

datatype issue =
    MalformedDatagram wire_error
  | PacketError int wire_error
  | ConflictingContents int
  | InvalidStreamInfo wire_error
  | ConflictingStreamInfo
  | StreamFormatChanged
  | InvalidShotEnd wire_error
  | ConflictingShotEnd
  | NoShotSelected
  | StreamInfoMissing
  | ShotEndMissing
  | SelectedMalformed int
  | SequenceCollisions int
  | PendingExceeded int
  | EndPrecedesInfo
  | SequencesMissing int
  | OutsideInterval nat
  | NoData
  | FramesNotContiguous
  | NoFrameStart int
  | SampleGap int int
  | OverlappingData int int
  | NoFrameEnd int
  | FrameSampleCount int int int
  | SequenceOrder
  | IntegrityFlags int
  | EndStatus int
  | EndNotMarked
  | TotalMismatch string int int
  | FirstSequenceDisagrees
  | LastSequenceDisagrees
  | PayloadCrc int int

type_synonym source = "ip_address \<times> int"
type_synonym identity = "ip_address \<times> int \<times> int \<times> int \<times> int"
type_synonym pending_item = "jrecord \<times> header option \<times> packet option \<times> wire_error option"

record assembler =
  a_identity :: "identity option"
  a_stream_info_header :: "header option"
  a_stream_info :: "stream_info option"
  a_shot_end_header :: "header option"
  a_shot_end :: "shot_end option"
  a_pending :: "pending_item list"
  a_seen_sequences :: "(int \<times> bytes) list"
  a_data_packets :: "(int \<times> packet) list"
  a_packet_types :: "(packet_type \<times> int) list"
  a_total_datagrams :: int
  a_valid_selected_packets :: int
  a_foreign_packets :: int
  a_malformed_selected :: int
  a_malformed_unclassified :: int
  a_duplicate_packets :: int
  a_conflicting_duplicates :: int
  a_reordered_packets :: int
  a_highest_arrival_sequence :: "int option"
  a_protocol_errors :: "issue list"
  a_pending_overflow :: int

definition assembler_init :: assembler where
  "assembler_init =
     \<lparr>a_identity = None, a_stream_info_header = None, a_stream_info = None,
      a_shot_end_header = None, a_shot_end = None, a_pending = [], a_seen_sequences = [],
      a_data_packets = [], a_packet_types = [], a_total_datagrams = 0,
      a_valid_selected_packets = 0, a_foreign_packets = 0, a_malformed_selected = 0,
      a_malformed_unclassified = 0, a_duplicate_packets = 0, a_conflicting_duplicates = 0,
      a_reordered_packets = 0, a_highest_arrival_sequence = None, a_protocol_errors = [],
      a_pending_overflow = 0\<rparr>"

definition MAX_PENDING_DATAGRAMS :: nat where "MAX_PENDING_DATAGRAMS = 4096"

definition end_received :: "assembler \<Rightarrow> bool" where
  "end_received a = (a_shot_end a \<noteq> None)"

definition source_key :: "jrecord \<Rightarrow> source" where
  "source_key r = (jr_source_address r, jr_source_port r)"

definition packet_key :: "jrecord \<Rightarrow> header \<Rightarrow> identity" where
  "packet_key r h =
     (jr_source_address r, jr_source_port r, h_run_id h, h_stream_id h, h_shot_id h)"

definition identity_source :: "identity \<Rightarrow> source" where
  "identity_source i = (case i of (a, p, _) \<Rightarrow> (a, p))"

text \<open>\<open>Counter[k] += 1\<close>.\<close>

definition counter_add :: "'k \<Rightarrow> ('k \<times> int) list \<Rightarrow> ('k \<times> int) list" where
  "counter_add k c = AList.update k ((case map_of c k of Some n \<Rightarrow> n | None \<Rightarrow> 0) + 1) c"

definition add_error :: "issue \<Rightarrow> assembler \<Rightarrow> assembler" where
  "add_error i a = a\<lparr>a_protocol_errors := a_protocol_errors a @ [i]\<rparr>"

section \<open>Ingestion\<close>

definition save_pending :: "pending_item \<Rightarrow> assembler \<Rightarrow> assembler" where
  "save_pending item a =
     (let a = (if length (a_pending a) \<ge> MAX_PENDING_DATAGRAMS
               then a\<lparr>a_pending := tl (a_pending a), a_pending_overflow := a_pending_overflow a + 1\<rparr>
               else a)
      in a\<lparr>a_pending := a_pending a @ [item]\<rparr>)"

definition accept_stream_info :: "packet \<Rightarrow> assembler \<Rightarrow> assembler" where
  "accept_stream_info p a =
     (case stream_info_decode (p_payload p) of
        Inl e \<Rightarrow> add_error (InvalidStreamInfo e) a
      | Inr info \<Rightarrow>
          (case a_stream_info a of
             None \<Rightarrow> a\<lparr>a_stream_info_header := Some (p_header p), a_stream_info := Some info\<rparr>
           | Some old \<Rightarrow>
               (case a_stream_info_header a of
                  None \<Rightarrow> add_error ConflictingStreamInfo a
                | Some h \<Rightarrow>
                    if old \<noteq> info then add_error ConflictingStreamInfo a
                    else if h_payload_format h \<noteq> h_payload_format (p_header p) \<or>
                            h_sample_bytes h \<noteq> h_sample_bytes (p_header p)
                    then add_error StreamFormatChanged a
                    else a)))"

definition accept_shot_end :: "packet \<Rightarrow> assembler \<Rightarrow> assembler" where
  "accept_shot_end p a =
     (case shot_end_decode (p_payload p) of
        Inl e \<Rightarrow> add_error (InvalidShotEnd e) a
      | Inr end \<Rightarrow>
          (case a_shot_end a of
             None \<Rightarrow> a\<lparr>a_shot_end_header := Some (p_header p), a_shot_end := Some end\<rparr>
           | Some old \<Rightarrow> if old \<noteq> end then add_error ConflictingShotEnd a else a))"

definition accept_new :: "packet \<Rightarrow> bytes \<Rightarrow> assembler \<Rightarrow> assembler" where
  "accept_new p digest a =
     (let sequence = h_packet_sequence (p_header p);
          reordered = (case a_highest_arrival_sequence a of Some h \<Rightarrow> sequence < h | None \<Rightarrow> False);
          previous_highest =
            (case a_highest_arrival_sequence a of Some h \<Rightarrow> h | None \<Rightarrow> sequence);
          a = a\<lparr>a_reordered_packets := a_reordered_packets a + (if reordered then 1 else 0),
                a_highest_arrival_sequence := Some (max sequence previous_highest),
                a_seen_sequences := AList.update sequence digest (a_seen_sequences a),
                a_valid_selected_packets := a_valid_selected_packets a + 1,
                a_packet_types := counter_add (h_packet_type (p_header p)) (a_packet_types a)\<rparr>
      in case h_packet_type (p_header p) of
           STREAM_INFO \<Rightarrow> accept_stream_info p a
         | DATA \<Rightarrow> a\<lparr>a_data_packets := AList.update sequence p (a_data_packets a)\<rparr>
         | SHOT_END \<Rightarrow> accept_shot_end p a
         | HEARTBEAT \<Rightarrow> a)"

definition accept_packet :: "packet \<Rightarrow> bytes \<Rightarrow> assembler \<Rightarrow> assembler" where
  "accept_packet p datagram a =
     (let sequence = h_packet_sequence (p_header p);
          digest = sha256 datagram
      in case map_of (a_seen_sequences a) sequence of
           Some previous \<Rightarrow>
             if previous = digest
             then a\<lparr>a_duplicate_packets := a_duplicate_packets a + 1\<rparr>
             else add_error (ConflictingContents sequence)
                    (a\<lparr>a_conflicting_duplicates := a_conflicting_duplicates a + 1\<rparr>)
         | None \<Rightarrow> accept_new p digest a)"

text \<open>
  \<open>_route\<close> is only called after the identity is set; the assertion of the source is the
  \<open>None\<close> of its \<open>case\<close>, which leaves the state as it is.
\<close>

definition route :: "pending_item \<Rightarrow> assembler \<Rightarrow> assembler" where
  "route item a =
     (case item of (r, header, packet, packet_error) \<Rightarrow>
        (case header of
           None \<Rightarrow>
             if (case a_identity a of Some i \<Rightarrow> source_key r = identity_source i | None \<Rightarrow> False)
             then add_error (MalformedDatagram (the packet_error))
                    (a\<lparr>a_malformed_selected := a_malformed_selected a + 1\<rparr>)
             else a\<lparr>a_malformed_unclassified := a_malformed_unclassified a + 1\<rparr>
         | Some h \<Rightarrow>
             (case a_identity a of
                None \<Rightarrow> a
              | Some i \<Rightarrow>
                  if packet_key r h \<noteq> i
                  then a\<lparr>a_foreign_packets := a_foreign_packets a + 1\<rparr>
                  else
                    (case packet of
                       None \<Rightarrow>
                         add_error (PacketError (h_packet_sequence h) (the packet_error))
                           (a\<lparr>a_malformed_selected := a_malformed_selected a + 1\<rparr>)
                     | Some p \<Rightarrow> accept_packet p (jr_datagram r) a))))"

definition select_shot :: "jrecord \<Rightarrow> header \<Rightarrow> packet \<Rightarrow> assembler \<Rightarrow> assembler" where
  "select_shot r h p a =
     (let a = a\<lparr>a_identity := Some (packet_key r h)\<rparr>;
          saved = a_pending a;
          a = a\<lparr>a_pending := []\<rparr>;
          a = fold route saved a
      in route (r, Some h, Some p, None) a)"

definition ingest :: "jrecord \<Rightarrow> assembler \<Rightarrow> assembler" where
  "ingest r a0 =
     (let a = a0\<lparr>a_total_datagrams := a_total_datagrams a0 + 1\<rparr> in
      case header_decode (jr_datagram r) of
        Inl e \<Rightarrow>
          (case a_identity a of
             None \<Rightarrow> save_pending (r, None, None, Some e) a
           | Some i \<Rightarrow>
               if source_key r = identity_source i
               then add_error (MalformedDatagram e)
                      (a\<lparr>a_malformed_selected := a_malformed_selected a + 1\<rparr>)
               else a\<lparr>a_malformed_unclassified := a_malformed_unclassified a + 1\<rparr>)
      | Inr h \<Rightarrow>
          (let (packet, packet_error) =
             (case packet_decode (jr_datagram r) of
                Inr p \<Rightarrow> (Some p, None) | Inl e \<Rightarrow> (None, Some e))
           in case a_identity a of
                None \<Rightarrow>
                  (case packet of
                     Some p \<Rightarrow>
                       if h_packet_type h = STREAM_INFO then select_shot r h p a
                       else save_pending (r, Some h, packet, packet_error) a
                   | None \<Rightarrow> save_pending (r, Some h, packet, packet_error) a)
              | Some i \<Rightarrow> route (r, Some h, packet, packet_error) a))"

definition ingest_all :: "jrecord list \<Rightarrow> assembler" where
  "ingest_all rs = fold ingest rs assembler_init"

section \<open>The final audit\<close>

type_synonym chunk = "int \<times> int \<times> packet"

abbreviation issue_if :: "bool \<Rightarrow> issue \<Rightarrow> issue list" where
  "issue_if b i \<equiv> (if b then [i] else [])"

definition ordered_data :: "assembler \<Rightarrow> (int \<times> packet) list" where
  "ordered_data a = sort_key fst (a_data_packets a)"

definition selection_issues :: "assembler \<Rightarrow> issue list" where
  "selection_issues a =
     issue_if (a_identity a = None) NoShotSelected @
     issue_if (a_stream_info a = None \<or> a_stream_info_header a = None) StreamInfoMissing @
     issue_if (a_shot_end a = None \<or> a_shot_end_header a = None) ShotEndMissing @
     issue_if (a_malformed_selected a \<noteq> 0) (SelectedMalformed (a_malformed_selected a)) @
     issue_if (a_conflicting_duplicates a \<noteq> 0) (SequenceCollisions (a_conflicting_duplicates a)) @
     issue_if (a_pending_overflow a \<noteq> 0) (PendingExceeded (a_pending_overflow a))"

definition outside :: "int \<Rightarrow> int \<Rightarrow> assembler \<Rightarrow> int list" where
  "outside lo hi a = filter (\<lambda>s. s < lo \<or> s > hi) (map fst (a_seen_sequences a))"

definition sequence_audit :: "assembler \<Rightarrow> issue list \<times> (int \<times> int) list" where
  "sequence_audit a =
     (case (a_stream_info_header a, a_shot_end_header a) of
        (Some i, Some e) \<Rightarrow>
          (let lo = h_packet_sequence i; hi = h_packet_sequence e in
           if hi < lo then ([EndPrecedesInfo], [])
           else
             let (count, ranges) = find_missing_ranges lo hi (map fst (a_seen_sequences a));
                 beyond = outside lo hi a
             in (issue_if (count \<noteq> 0) (SequencesMissing count) @
                 issue_if (beyond \<noteq> []) (OutsideInterval (length beyond)), ranges))
      | _ \<Rightarrow> ([], []))"

definition frame_ids :: "(int \<times> packet) list \<Rightarrow> int list" where
  "frame_ids data = sort (remdups (map (\<lambda>(s, p). h_frame_id (p_header p)) data))"

text \<open>\<open>sorted(frame_chunks[f])\<close>: the packets of a frame by sample offset, then sequence.\<close>

definition frame_chunks :: "(int \<times> packet) list \<Rightarrow> int \<Rightarrow> chunk list" where
  "frame_chunks data f =
     sort_key (\<lambda>(off, s, p). (off, s))
       (map (\<lambda>(s, p). (h_sample_offset (p_header p), s, p))
         (filter (\<lambda>(s, p). h_frame_id (p_header p) = f) data))"

fun chunk_loop :: "int \<Rightarrow> chunk list \<Rightarrow> int \<Rightarrow> issue list \<times> int" where
  "chunk_loop f [] expected_offset = ([], expected_offset)"
| "chunk_loop f ((off, s, p) # chunks) expected_offset =
     (let here = (if off > expected_offset then [SampleGap f expected_offset]
                  else if off < expected_offset then [OverlappingData f off] else []);
          (issues, final) =
            chunk_loop f chunks (max expected_offset (off + h_sample_count (p_header p)))
      in (here @ issues, final))"

definition chunk_flag :: "chunk \<Rightarrow> int \<Rightarrow> bool" where
  "chunk_flag c flag = has_flag (h_flags (p_header (snd (snd c)))) flag"

definition frame_issues :: "stream_info option \<Rightarrow> (int \<times> packet) list \<Rightarrow> int \<Rightarrow> issue list" where
  "frame_issues info data f =
     (let chunks = frame_chunks data f;
          (loop_issues, expected_offset) = chunk_loop f chunks 0
      in issue_if (\<not> chunk_flag (hd chunks) FRAME_START) (NoFrameStart f) @
         loop_issues @
         issue_if (\<not> chunk_flag (last chunks) FRAME_END) (NoFrameEnd f) @
         (case info of
            Some i \<Rightarrow> issue_if (expected_offset \<noteq> si_frame_samples i)
                        (FrameSampleCount f expected_offset (si_frame_samples i))
          | None \<Rightarrow> []))"

definition contiguous :: "int list \<Rightarrow> bool" where
  "contiguous ids = (ids = [] \<or> ids = map (\<lambda>k. hd ids + int k) [0..<length ids])"

definition logical_order :: "(int \<times> packet) list \<Rightarrow> (int \<times> int \<times> int) list" where
  "logical_order data =
     concat (map (\<lambda>f. map (\<lambda>(off, s, p). (f, off, s)) (frame_chunks data f)) (frame_ids data))"

definition sequence_order :: "(int \<times> packet) list \<Rightarrow> (int \<times> int \<times> int) list" where
  "sequence_order data =
     map (\<lambda>(s, p). (h_frame_id (p_header p), h_sample_offset (p_header p), s)) data"

definition reconstructed :: "(int \<times> packet) list \<Rightarrow> bytes" where
  "reconstructed data =
     concat (map (\<lambda>f. concat (map (\<lambda>(off, s, p). p_payload p) (frame_chunks data f))) (frame_ids data))"

definition source_flags :: "(int \<times> packet) list \<Rightarrow> int" where
  "source_flags data =
     fold (\<lambda>(s, p) fl. fl OR (h_flags (p_header p) AND
        (DISCONTINUITY_BEFORE OR SOURCE_OVERFLOW OR SENDER_DROP))) data 0"

definition payload_by_sequence :: "(int \<times> packet) list \<Rightarrow> bytes" where
  "payload_by_sequence data = concat (map (\<lambda>(s, p). p_payload p) data)"

definition total_samples :: "(int \<times> packet) list \<Rightarrow> int" where
  "total_samples data = sum_list (map (\<lambda>(s, p). h_sample_count (p_header p)) data)"

definition shot_end_issues :: "shot_end \<Rightarrow> (int \<times> packet) list \<Rightarrow> issue list" where
  "shot_end_issues end data =
     (let crc = crc32 (payload_by_sequence data) AND 0xFFFFFFFF;
          checks =
            [(''frames'', int (length (frame_ids data)), se_total_frames end),
             (''samples'', total_samples data, se_total_samples end),
             (''data packets'', int (length data), se_total_data_packets end),
             (''payload bytes'', int (length (payload_by_sequence data)), se_payload_bytes end)]
      in issue_if (se_status end \<noteq> 0) (EndStatus (se_status end)) @
         issue_if (\<not> has_flag (se_end_flags end) END_OF_STREAM) EndNotMarked @
         concat (map (\<lambda>(name, actual, expected).
           issue_if (actual \<noteq> expected) (TotalMismatch name actual expected)) checks) @
         (if data \<noteq> [] then
            issue_if (fst (hd data) \<noteq> se_first_packet_sequence end) FirstSequenceDisagrees @
            issue_if (fst (last data) \<noteq> se_last_packet_sequence end) LastSequenceDisagrees
          else []) @
         (if has_flag (se_end_flags end) PAYLOAD_CRC_VALID
          then issue_if (crc \<noteq> se_payload_crc32 end) (PayloadCrc crc (se_payload_crc32 end))
          else []))"

definition data_issues :: "assembler \<Rightarrow> issue list" where
  "data_issues a =
     (let data = ordered_data a; ids = frame_ids data in
      issue_if (data = []) NoData @
      issue_if (\<not> contiguous ids) FramesNotContiguous @
      concat (map (frame_issues (a_stream_info a) data) ids) @
      issue_if (sequence_order data \<noteq> logical_order data) SequenceOrder @
      issue_if (source_flags data \<noteq> 0) (IntegrityFlags (source_flags data)) @
      (case a_shot_end a of Some end \<Rightarrow> shot_end_issues end data | None \<Rightarrow> []))"

definition audit_issues :: "assembler \<Rightarrow> issue list" where
  "audit_issues a =
     fromkeys (a_protocol_errors a) @ selection_issues a @ fst (sequence_audit a) @ data_issues a"

record identity_json =
  ij_source_address :: ip_address
  ij_source_port :: int
  ij_run_id :: string
  ij_stream_id :: string
  ij_shot_id :: string

record stream_info_entry =
  sj_payload_format :: payload_format
  sj_sample_bytes :: int
  sj_frame_samples :: int
  sj_sample_rate :: "int \<times> int"
  sj_timestamp_rate :: "int \<times> int"
  sj_center_frequency_hz :: int
  sj_channel_count :: int
  sj_component_bits :: int
  sj_fraction_bits :: int
  sj_timestamp_clock :: timestamp_clock
  sj_config_id :: string

record shot_end_entry =
  ej_packet_sequence :: int
  ej_status :: string
  ej_end_flags :: string
  ej_total_frames :: int
  ej_total_samples :: int
  ej_total_data_packets :: int
  ej_first_packet_sequence :: int
  ej_last_packet_sequence :: int
  ej_payload_bytes :: int
  ej_payload_crc32 :: string

record manifest =
  mf_complete :: bool
  mf_issues :: "issue list"
  mf_identity :: "identity_json option"
  mf_datagrams :: int
  mf_valid_selected_packets :: int
  mf_foreign_packets :: int
  mf_malformed_selected :: int
  mf_malformed_unclassified :: int
  mf_duplicate_packets :: int
  mf_conflicting_duplicates :: int
  mf_reordered_packets :: int
  mf_pending_overflow :: int
  mf_packet_types :: "(packet_type \<times> int) list"
  mf_missing_sequence_ranges :: "(int \<times> int) list"
  mf_frames :: nat
  mf_count :: int
  mf_bytes :: nat
  mf_payload_crc32 :: string
  mf_sha256 :: bytes
  mf_stream_info :: "stream_info_entry option"
  mf_shot_end :: "shot_end_entry option"

definition identity_json :: "identity \<Rightarrow> identity_json" where
  "identity_json i =
     (case i of (address, port, run_id, stream_id, shot_id) \<Rightarrow>
        \<lparr>ij_source_address = address, ij_source_port = port, ij_run_id = hexadecimal run_id 64,
         ij_stream_id = hexadecimal stream_id 32, ij_shot_id = hexadecimal shot_id 64\<rparr>)"

definition stream_info_json :: "header option \<Rightarrow> stream_info option \<Rightarrow> stream_info_entry option" where
  "stream_info_json h i =
     (case (h, i) of
        (Some header, Some info) \<Rightarrow> Some
          \<lparr>sj_payload_format = h_payload_format header, sj_sample_bytes = h_sample_bytes header,
           sj_frame_samples = si_frame_samples info,
           sj_sample_rate = (si_sample_rate_numerator info, si_sample_rate_denominator info),
           sj_timestamp_rate = (si_timestamp_rate_numerator info, si_timestamp_rate_denominator info),
           sj_center_frequency_hz = si_center_frequency_hz info,
           sj_channel_count = si_channel_count info, sj_component_bits = si_component_bits info,
           sj_fraction_bits = si_fraction_bits info,
           sj_timestamp_clock = si_timestamp_clock_id info,
           sj_config_id = hexadecimal (si_config_id info) 64\<rparr>
      | _ \<Rightarrow> None)"

definition shot_status_name :: "int \<Rightarrow> string" where
  "shot_status_name v =
     (if v = 0 then ''COMPLETE'' else if v = 1 then ''ABORTED'' else if v = 2 then ''DMA_ERROR''
      else if v = 3 then ''TIMEOUT'' else if v = 4 then ''SOURCE_ERROR''
      else if v = 5 then ''SENDER_ERROR'' else ''UNKNOWN_'' @ str_int v)"

definition shot_end_json :: "header option \<Rightarrow> shot_end option \<Rightarrow> shot_end_entry option" where
  "shot_end_json h e =
     (case (h, e) of
        (Some header, Some end) \<Rightarrow> Some
          \<lparr>ej_packet_sequence = h_packet_sequence header, ej_status = shot_status_name (se_status end),
           ej_end_flags = hexadecimal (se_end_flags end) 32, ej_total_frames = se_total_frames end,
           ej_total_samples = se_total_samples end,
           ej_total_data_packets = se_total_data_packets end,
           ej_first_packet_sequence = se_first_packet_sequence end,
           ej_last_packet_sequence = se_last_packet_sequence end,
           ej_payload_bytes = se_payload_bytes end,
           ej_payload_crc32 = hexadecimal (se_payload_crc32 end) 32\<rparr>
      | _ \<Rightarrow> None)"

fun packet_type_name :: "packet_type \<Rightarrow> string" where
  "packet_type_name STREAM_INFO = ''STREAM_INFO''"
| "packet_type_name DATA = ''DATA''"
| "packet_type_name SHOT_END = ''SHOT_END''"
| "packet_type_name HEARTBEAT = ''HEARTBEAT''"

definition finalize :: "assembler \<Rightarrow> bytes option \<times> manifest" where
  "finalize a =
     (let data = ordered_data a;
          issues = audit_issues a;
          complete = (issues = []);
          samples = reconstructed data
      in (if complete then Some samples else None,
          \<lparr>mf_complete = complete, mf_issues = issues,
           mf_identity = map_option identity_json (a_identity a),
           mf_datagrams = a_total_datagrams a,
           mf_valid_selected_packets = a_valid_selected_packets a,
           mf_foreign_packets = a_foreign_packets a,
           mf_malformed_selected = a_malformed_selected a,
           mf_malformed_unclassified = a_malformed_unclassified a,
           mf_duplicate_packets = a_duplicate_packets a,
           mf_conflicting_duplicates = a_conflicting_duplicates a,
           mf_reordered_packets = a_reordered_packets a,
           mf_pending_overflow = a_pending_overflow a,
           mf_packet_types = sort_key (\<lambda>(t, n). packet_type_name t) (a_packet_types a),
           mf_missing_sequence_ranges = snd (sequence_audit a),
           mf_frames = length (frame_ids data),
           mf_count = total_samples data,
           mf_bytes = length samples,
           mf_payload_crc32 = hexadecimal (crc32 (payload_by_sequence data) AND 0xFFFFFFFF) 32,
           mf_sha256 = sha256 samples,
           mf_stream_info = stream_info_json (a_stream_info_header a) (a_stream_info a),
           mf_shot_end = shot_end_json (a_shot_end_header a) (a_shot_end a)\<rparr>))"

end
