(* ===== verification/ShotAudit.thy ===== *)
theory ShotAudit
  imports Assembler
begin

text \<open>
  What the audit of \<open>ShotAssembler.finalize\<close> establishes: the missing-range scan is exact,
  and a shot is released exactly when its declarative description \<open>shot_complete\<close> holds.
\<close>

section \<open>The missing-range scan\<close>

definition range_set :: "(int \<times> int) list \<Rightarrow> int set" where
  "range_set ranges = (\<Union>(a, b) \<in> set ranges. {a..b})"

definition separated :: "(int \<times> int) list \<Rightarrow> bool" where
  "separated ranges \<longleftrightarrow>
     (\<forall>(a, b) \<in> set ranges. a \<le> b) \<and> sorted_wrt (\<lambda>(a, b) (c, d). b + 1 < c) ranges"

lemma range_set_simps [simp]:
  "range_set [] = {}"
  "range_set (xs @ ys) = range_set xs \<union> range_set ys"
  "range_set [(a, b)] = {a..b}"
  by (auto simp: range_set_def)

lemma separated_snoc:
  assumes "separated ranges" "\<And>a b. (a, b) \<in> set ranges \<Longrightarrow> b + 1 < c" "c \<le> d"
  shows "separated (ranges @ [(c, d)])"
  using assms by (auto simp: separated_def sorted_wrt_append)

lemma gap_loop_correct:
  assumes "gap_loop lo hi vs c n rs = (c', n', rs')"
    and "sorted_wrt (<) vs" "lo \<le> c" "c \<le> hi + 1"
    and "\<And>v. v \<in> set vs \<Longrightarrow> lo \<le> v \<Longrightarrow> v \<le> hi \<Longrightarrow> c \<le> v"
    and "separated rs" "\<And>a b. (a, b) \<in> set rs \<Longrightarrow> b + 1 < c"
  shows "c \<le> c' \<and> c' \<le> hi + 1 \<and> range_set rs' = range_set rs \<union> ({c..<c'} - set vs) \<and>
    n' = n + int (card ({c..<c'} - set vs)) \<and>
    (\<forall>v \<in> set vs. lo \<le> v \<longrightarrow> v \<le> hi \<longrightarrow> v < c') \<and>
    separated rs' \<and> (\<forall>(a, b) \<in> set rs'. b + 1 < c')"
  using assms
proof (induction vs arbitrary: c n rs)
  case Nil
  then show ?case by auto
next
  case (Cons v vs)
  show ?case
  proof (cases "v < lo \<or> v > hi")
    case True
    then have "{c..<c'} - set (v # vs) = {c..<c'} - set vs" if "c' \<le> hi + 1"
      using Cons.prems(3) that by auto
    then show ?thesis
      using Cons.IH[of c n rs] Cons.prems True by auto
  next
    case False
    then have cv: "c \<le> v" using Cons.prems(5) by simp
    define rs1 where "rs1 = (if v > c then rs @ [(c, v - 1)] else rs)"
    define n1 where "n1 = (if v > c then n + (v - c) else n)"
    have step: "gap_loop lo hi vs (v + 1) n1 rs1 = (c', n', rs')"
      using Cons.prems(1) False cv by (auto simp: rs1_def n1_def max_def)
    have sep: "separated rs1"
      using Cons.prems(6,7) by (auto simp: rs1_def intro!: separated_snoc)
    have bnd: "b + 1 < v + 1" if "(a, b) \<in> set rs1" for a b
      using that Cons.prems(7)[of a b] cv by (auto simp: rs1_def split: if_splits)
    have later: "v + 1 \<le> w" if "w \<in> set vs" for w
      using Cons.prems(2) that by auto
    from Cons.IH[OF step _ _ _ _ sep bnd] Cons.prems(2,3) False cv later
    have IH: "v + 1 \<le> c' \<and> c' \<le> hi + 1 \<and> range_set rs' = range_set rs1 \<union> ({v + 1..<c'} - set vs) \<and>
      n' = n1 + int (card ({v + 1..<c'} - set vs)) \<and>
      (\<forall>w \<in> set vs. lo \<le> w \<longrightarrow> w \<le> hi \<longrightarrow> w < c') \<and>
      separated rs' \<and> (\<forall>(a, b) \<in> set rs'. b + 1 < c')"
      by auto
    have split: "{c..<c'} - set (v # vs) = {c..<v} \<union> ({v + 1..<c'} - set vs)"
      using IH cv later by fastforce
    have "card ({c..<c'} - set (v # vs)) = card {c..<v} + card ({v + 1..<c'} - set vs)"
      unfolding split by (rule card_Un_disjoint) auto
    moreover have "range_set rs1 = range_set rs \<union> {c..<v}"
      using cv by (auto simp: rs1_def)
    moreover have "n1 = n + int (card {c..<v})"
      using cv by (simp add: n1_def)
    ultimately show ?thesis
      using IH cv split by auto
  qed
qed

lemma find_missing_ranges_correct:
  assumes "find_missing_ranges lo hi present = (count, ranges)"
  shows "range_set ranges = {lo..hi} - set present \<and>
    count = int (card ({lo..hi} - set present)) \<and> separated ranges"
proof (cases "hi < lo")
  case True
  then show ?thesis using assms by (auto simp: find_missing_ranges_def separated_def)
next
  case False
  obtain c n rs where g: "gap_loop lo hi (sort (remdups present)) lo 0 [] = (c, n, rs)"
    by (metis prod_cases3)
  have "sorted_wrt (<) (sort (remdups present))"
    by (simp add: strict_sorted_iff)
  from gap_loop_correct[OF g this] False
  have G: "lo \<le> c" "c \<le> hi + 1" "range_set rs = {lo..<c} - set present"
      "n = int (card ({lo..<c} - set present))"
      "\<And>v. v \<in> set present \<Longrightarrow> lo \<le> v \<Longrightarrow> v \<le> hi \<Longrightarrow> v < c"
      "separated rs" "\<And>a b. (a, b) \<in> set rs \<Longrightarrow> b + 1 < c"
    by (auto simp: separated_def)
  show ?thesis
  proof (cases "c \<le> hi")
    case True
    have "v \<notin> {c..hi}" if "v \<in> set present" for v
      using G(1) G(5)[OF that] by auto
    then have s: "{lo..hi} - set present = ({lo..<c} - set present) \<union> {c..hi}"
      using G(1,2) by auto
    have "card ({lo..hi} - set present) = card ({lo..<c} - set present) + card {c..hi}"
      unfolding s by (rule card_Un_disjoint) auto
    moreover have "separated (rs @ [(c, hi)])"
      using G(6,7) True by (intro separated_snoc) auto
    moreover have "count = n + (hi - c + 1)" "ranges = rs @ [(c, hi)]"
      using assms g False True by (simp_all add: find_missing_ranges_def)
    ultimately show ?thesis
      using True G(3,4) s by simp
  next
    case out: False
    then have "{lo..<c} = {lo..hi}" using G(2) by auto
    moreover have "count = n" "ranges = rs"
      using assms g False out by (simp_all add: find_missing_ranges_def)
    ultimately show ?thesis
      using G(3,4,6) by simp
  qed
qed

text \<open>
  C9. \<open>find_missing_ranges\<close> is exact: the ranges it returns contain exactly the sequence
  numbers of the interval that are absent, none is empty, they are in increasing order with a
  present number between any two, and the count is the number of absent values.
\<close>

theorem missing_ranges_exact:
  assumes "find_missing_ranges lo hi present = (count, ranges)"
  shows "range_set ranges = {lo..hi} - set present \<and>
    count = int (card ({lo..hi} - set present)) \<and> separated ranges"
  using assms by (rule find_missing_ranges_correct)

theorem missing_ranges_exact_witness:
  "range_set [(3, 3), (5, 6), (9, 10)] = {3..10} - set [7, 4, 20, 8, 4] \<and>
   5 = int (card ({3..10} - set [7::int, 4, 20, 8, 4]))"
proof -
  have "find_missing_ranges 3 10 [7, 4, 20, 8, 4] = (5, [(3, 3), (5, 6), (9, 10)])"
    by code_simp
  from missing_ranges_exact[OF this] show ?thesis by blast
qed

section \<open>Complete shots\<close>

text \<open>
  The description a released shot meets: the packets in sequence order are the concatenation
  of frames with consecutive identifiers, each frame tiled from offset 0 to the announced
  number of samples, opened by \<open>FRAME_START\<close> and closed by \<open>FRAME_END\<close>.
\<close>

fun tiles :: "int \<Rightarrow> (int \<times> packet) list \<Rightarrow> int \<Rightarrow> bool" where
  "tiles off [] n = (off = n)"
| "tiles off ((s, p) # fr) n =
     (h_sample_offset (p_header p) = off \<and> tiles (off + h_sample_count (p_header p)) fr n)"

definition packet_flag :: "int \<times> packet \<Rightarrow> int \<Rightarrow> bool" where
  "packet_flag sp flag = has_flag (h_flags (p_header (snd sp))) flag"

definition frame_ok :: "int \<Rightarrow> int \<Rightarrow> (int \<times> packet) list \<Rightarrow> bool" where
  "frame_ok n f fr \<longleftrightarrow>
     fr \<noteq> [] \<and> (\<forall>(s, p) \<in> set fr. h_frame_id (p_header p) = f) \<and> tiles 0 fr n \<and>
     packet_flag (hd fr) FRAME_START \<and> packet_flag (last fr) FRAME_END"

definition framed :: "int \<Rightarrow> (int \<times> packet) list \<Rightarrow> int \<Rightarrow> (int \<times> packet) list list \<Rightarrow> bool" where
  "framed n data f0 frames \<longleftrightarrow>
     data = concat frames \<and> (\<forall>k < length frames. frame_ok n (f0 + int k) (frames ! k))"

definition integrity_mask :: int where
  "integrity_mask = DISCONTINUITY_BEFORE OR SOURCE_OVERFLOW OR SENDER_DROP"

definition totals_agree :: "shot_end \<Rightarrow> int \<Rightarrow> (int \<times> packet) list \<Rightarrow> bool" where
  "totals_agree end frames data \<longleftrightarrow>
     se_status end = 0 \<and> has_flag (se_end_flags end) END_OF_STREAM \<and>
     se_total_frames end = frames \<and> se_total_samples end = total_samples data \<and>
     se_total_data_packets end = int (length data) \<and>
     se_payload_bytes end = int (length (payload_by_sequence data)) \<and>
     se_first_packet_sequence end = fst (hd data) \<and> se_last_packet_sequence end = fst (last data) \<and>
     (has_flag (se_end_flags end) PAYLOAD_CRC_VALID \<longrightarrow>
        se_payload_crc32 end = crc32 (payload_by_sequence data))"

definition data_complete :: "stream_info \<Rightarrow> shot_end \<Rightarrow> (int \<times> packet) list \<Rightarrow> bool" where
  "data_complete info end data \<longleftrightarrow>
     data \<noteq> [] \<and>
     (\<exists>f0 frames. framed (si_frame_samples info) data f0 frames \<and>
        totals_agree end (int (length frames)) data) \<and>
     (\<forall>(s, p) \<in> set data. h_flags (p_header p) AND integrity_mask = 0)"

text \<open>What the assembler keeps true of the packets it stores.\<close>

definition stored_ok :: "(int \<times> packet) list \<Rightarrow> bool" where
  "stored_ok data \<longleftrightarrow>
     distinct (map fst data) \<and>
     (\<forall>(s, p) \<in> set data. s = h_packet_sequence (p_header p) \<and> 1 \<le> h_sample_count (p_header p) \<and>
        int (length (p_payload p)) = 4 * h_sample_count (p_header p))"

subsection \<open>Grouping by frame\<close>

definition by_offset :: "(int \<times> packet) list \<Rightarrow> chunk list" where
  "by_offset fr = map (\<lambda>(s, p). (h_sample_offset (p_header p), s, p)) fr"

definition unchunk :: "chunk list \<Rightarrow> (int \<times> packet) list" where
  "unchunk cs = map snd cs"

lemma unchunk_by_offset [simp]: "unchunk (by_offset fr) = fr"
  by (induction fr) (auto simp: unchunk_def by_offset_def)

lemma frame_chunks_alt:
  "frame_chunks data f =
     sort_key (\<lambda>(off, s, p). (off, s)) (by_offset (filter (\<lambda>(s, p). h_frame_id (p_header p) = f) data))"
  by (simp add: frame_chunks_def by_offset_def)

lemma chunk_in:
  "(off, s, p) \<in> set (frame_chunks data f) \<longleftrightarrow>
     (s, p) \<in> set data \<and> h_frame_id (p_header p) = f \<and> off = h_sample_offset (p_header p)"
  by (auto simp: frame_chunks_alt by_offset_def)

lemma by_offset_unchunk_chunks: "by_offset (unchunk (frame_chunks data f)) = frame_chunks data f"
proof -
  have "by_offset (unchunk cs) = cs" if "\<forall>(off, s, p) \<in> set cs. off = h_sample_offset (p_header p)" for cs
    using that by (induction cs) (auto simp: by_offset_def unchunk_def)
  moreover have "\<forall>(off, s, p) \<in> set (frame_chunks data f). off = h_sample_offset (p_header p)"
    by (auto simp: chunk_in)
  ultimately show ?thesis .
qed

lemma tiles_lower: "tiles off fr n \<Longrightarrow> \<forall>(s, p) \<in> set fr. 0 \<le> h_sample_count (p_header p) \<Longrightarrow>
    (\<forall>(s, p) \<in> set fr. off \<le> h_sample_offset (p_header p)) \<and> off \<le> n"
  by (induction off fr n rule: tiles.induct) fastforce+

lemma tiles_sorted:
  assumes "tiles off fr n" "\<forall>(s, p) \<in> set fr. 0 \<le> h_sample_count (p_header p)"
    and "sorted_wrt (<) (map fst fr)"
  shows "sorted (map (\<lambda>(off, s, p). (off, s)) (by_offset fr))"
  using assms
proof (induction off fr n rule: tiles.induct)
  case (2 off s p fr n)
  have off: "h_sample_offset (p_header p) = off" "0 \<le> h_sample_count (p_header p)"
      "tiles (off + h_sample_count (p_header p)) fr n" "\<forall>(s, p) \<in> set fr. 0 \<le> h_sample_count (p_header p)"
    using 2(2,3) by simp_all
  have "(off, s) \<le> (h_sample_offset (p_header p'), s')" if "(s', p') \<in> set fr" for s' p'
  proof -
    have "off + h_sample_count (p_header p) \<le> h_sample_offset (p_header p')"
      using tiles_lower[OF off(3,4)] that by auto
    moreover have "s < s'" using 2(4) that by force
    ultimately show ?thesis using off(2) by (simp add: less_eq_prod_def)
  qed
  moreover have "sorted (map (\<lambda>(off, s, p). (off, s)) (by_offset fr))"
    by (rule 2(1)[OF off(3,4)]) (use 2(4) in simp)
  ultimately show ?case
    using off(1) by (auto simp: by_offset_def)
qed (simp add: by_offset_def)

lemma chunk_loop_tiles:
  assumes "\<forall>(s, p) \<in> set fr. 0 \<le> h_sample_count (p_header p)"
  shows "chunk_loop f (by_offset fr) off = ([], n) \<longleftrightarrow> tiles off fr n"
  using assms
proof (induction off fr n rule: tiles.induct)
  case (2 off s p fr n)
  then show ?case
    by (auto simp: by_offset_def Let_def max_def split: prod.splits if_splits)
qed (simp add: by_offset_def)

lemma sum_samples_tiles: "tiles off fr n \<Longrightarrow> total_samples fr = n - off"
  by (induction off fr n rule: tiles.induct) (auto simp: total_samples_def)

lemma frame_issues_Nil_iff:
  assumes "f \<in> set (frame_ids data)" "stored_ok data"
  shows "frame_issues (Some info) data f = [] \<longleftrightarrow>
    frame_ok (si_frame_samples info) f (unchunk (frame_chunks data f))"
proof -
  define fr where "fr = unchunk (frame_chunks data f)"
  have cs: "frame_chunks data f = by_offset fr"
    by (simp add: fr_def by_offset_unchunk_chunks)
  have mem: "(s, p) \<in> set fr \<longleftrightarrow> (s, p) \<in> set data \<and> h_frame_id (p_header p) = f" for s p
    using chunk_in[of "h_sample_offset (p_header p)" s p data f]
    unfolding cs by (auto simp: by_offset_def)
  have ne: "fr \<noteq> []"
    using assms(1) mem by (fastforce simp: frame_ids_def)
  have pos: "\<forall>(s, p) \<in> set fr. 0 \<le> h_sample_count (p_header p)"
    using assms(2) mem by (fastforce simp: stored_ok_def)
  have flag: "chunk_flag (hd (by_offset fr)) x = packet_flag (hd fr) x"
      "chunk_flag (last (by_offset fr)) x = packet_flag (last fr) x" for x
    using ne by (auto simp: by_offset_def chunk_flag_def packet_flag_def hd_map last_map split: prod.splits)
  have "frame_issues (Some info) data f = [] \<longleftrightarrow>
      packet_flag (hd fr) FRAME_START \<and> packet_flag (last fr) FRAME_END \<and>
      chunk_loop f (by_offset fr) 0 = ([], si_frame_samples info)"
    by (auto simp: frame_issues_def cs flag Let_def split: prod.splits)
  also have "\<dots> \<longleftrightarrow> frame_ok (si_frame_samples info) f fr"
    using ne mem by (auto simp: chunk_loop_tiles[OF pos] frame_ok_def)
  finally show ?thesis by (simp add: fr_def)
qed

lemma keyed_list_eq:
  assumes "distinct (map fst data)" "map fst L = map fst data" "set L \<subseteq> set data"
  shows "L = data"
proof (rule nth_equalityI)
  show len: "length L = length data" using assms(2) map_eq_imp_length_eq by blast
  fix i assume i: "i < length L"
  obtain k v k' v' where kv: "L ! i = (k, v)" "data ! i = (k', v')" by fastforce
  have "(k, v) \<in> set data" using assms(3) nth_mem[OF i] kv(1) by auto
  moreover have "(k', v') \<in> set data" using i len kv(2) by (metis nth_mem)
  moreover have "k = k'"
    using arg_cong[OF assms(2), of "\<lambda>l. l ! i"] i len kv by simp
  ultimately show "L ! i = data ! i"
    using eq_key_imp_eq_value[OF assms(1)] kv by simp
qed

lemma logical_order_frames:
  "logical_order data = concat (map (\<lambda>f. sequence_order (unchunk (frame_chunks data f))) (frame_ids data))"
proof -
  have "map (\<lambda>(off, s, p). (f, off, s)) (frame_chunks data f) = sequence_order (unchunk (frame_chunks data f))" for f
  proof -
    have "\<forall>(off, s, p) \<in> set (frame_chunks data f). h_frame_id (p_header p) = f \<and> off = h_sample_offset (p_header p)"
      by (auto simp: chunk_in)
    then show ?thesis
      by (auto simp: sequence_order_def unchunk_def)
  qed
  then show ?thesis by (simp add: logical_order_def)
qed

lemma sequence_order_concat: "sequence_order (concat xss) = concat (map sequence_order xss)"
  by (induction xss) (simp_all add: sequence_order_def)

lemma data_of_orders:
  assumes "distinct (map fst data)" "sequence_order data = logical_order data"
  shows "data = concat (map (\<lambda>f. unchunk (frame_chunks data f)) (frame_ids data))" (is "_ = ?L")
proof -
  have so: "map (snd \<circ> snd) (sequence_order xs) = map fst xs" for xs
    by (auto simp: sequence_order_def)
  have "sequence_order data = sequence_order ?L"
    using assms(2) by (simp add: logical_order_frames sequence_order_concat comp_def)
  then have "map fst ?L = map fst data" by (metis so)
  moreover have "set ?L \<subseteq> set data"
    by (auto simp: unchunk_def chunk_in)
  ultimately show ?thesis using keyed_list_eq[OF assms(1)] by metis
qed

lemma frame_filter:
  assumes "\<forall>k < length frames. \<forall>(s, p) \<in> set (frames ! k). h_frame_id (p_header p) = f0 + int k"
  shows "filter (\<lambda>(s, p). h_frame_id (p_header p) = x) (concat frames) =
    (if f0 \<le> x \<and> x < f0 + int (length frames) then frames ! nat (x - f0) else [])"
  using assms
proof (induction frames arbitrary: f0)
  case (Cons fr frames)
  have hd: "\<forall>(s, p) \<in> set fr. h_frame_id (p_header p) = f0"
    using Cons.prems[rule_format, of 0] by simp
  have "\<forall>k < length frames. \<forall>(s, p) \<in> set (frames ! k). h_frame_id (p_header p) = f0 + 1 + int k"
  proof (intro allI impI)
    fix k assume "k < length frames"
    then show "\<forall>(s, p) \<in> set (frames ! k). h_frame_id (p_header p) = f0 + 1 + int k"
      using Cons.prems[rule_format, of "Suc k"] by (simp add: add.assoc)
  qed
  note IH = Cons.IH[OF this]
  have "filter (\<lambda>(s, p). h_frame_id (p_header p) = x) fr = (if x = f0 then fr else [])"
    using hd by (auto simp: filter_empty_conv intro: filter_True)
  moreover have "x \<noteq> f0 \<Longrightarrow> f0 \<le> x \<Longrightarrow> nat (x - f0) = Suc (nat (x - (f0 + 1)))"
    by simp
  ultimately show ?case
    using IH by auto
qed auto

lemma framed_ids:
  assumes "framed n data f0 frames"
  shows "frame_ids data = map (\<lambda>k. f0 + int k) [0..<length frames]"
proof -
  have "h_frame_id (p_header p) \<in> (\<lambda>k. f0 + int k) ` {..<length frames}" if "(s, p) \<in> set data" for s p
    using assms that by (fastforce simp: framed_def frame_ok_def in_set_conv_nth)
  moreover have "f0 + int k \<in> (\<lambda>(s, p). h_frame_id (p_header p)) ` set data" if "k < length frames" for k
  proof -
    have ok: "frame_ok n (f0 + int k) (frames ! k)" using assms that by (simp add: framed_def)
    then have "hd (frames ! k) \<in> set (frames ! k)" by (simp add: frame_ok_def)
    then obtain s p where "(s, p) \<in> set (frames ! k)" by (metis prod.collapse)
    with ok have "h_frame_id (p_header p) = f0 + int k" by (auto simp: frame_ok_def)
    moreover have "(s, p) \<in> set data"
      using assms that \<open>(s, p) \<in> set (frames ! k)\<close> by (auto simp: framed_def)
    ultimately show ?thesis by force
  qed
  ultimately have "(\<lambda>(s, p). h_frame_id (p_header p)) ` set data = (\<lambda>k. f0 + int k) ` {..<length frames}"
    by auto
  then have "set (frame_ids data) = set (map (\<lambda>k. f0 + int k) [0..<length frames])"
    by (simp add: frame_ids_def atLeast_upt)
  moreover have "sorted (map (\<lambda>k. f0 + int k) [0..<length frames])"
    by (simp add: sorted_iff_nth_mono)
  moreover have "distinct (map (\<lambda>k. f0 + int k) [0..<length frames])"
    by (simp add: distinct_map inj_on_def)
  ultimately show ?thesis
    by (intro sorted_distinct_set_unique) (simp_all add: frame_ids_def)
qed

lemma framed_chunks:
  assumes "framed n data f0 frames" "k < length frames" "stored_ok data"
    and "sorted_wrt (<) (map fst data)"
  shows "frame_chunks data (f0 + int k) = by_offset (frames ! k)"
proof -
  let ?fr = "frames ! k"
  have ok: "frame_ok n (f0 + int k) ?fr" using assms(1,2) by (simp add: framed_def)
  have d: "data = concat frames" using assms(1) by (simp add: framed_def)
  have fil: "filter (\<lambda>(s, p). h_frame_id (p_header p) = f0 + int k) data = ?fr"
    unfolding d using assms(1,2) by (subst frame_filter) (auto simp: framed_def frame_ok_def)
  then have sub: "set ?fr \<subseteq> set data" by (metis filter_is_subset)
  have "sorted_wrt (<) (map fst ?fr)"
    unfolding fil[symmetric] using assms(4) by (simp add: sorted_wrt_map sorted_wrt_filter)
  moreover have "\<forall>(s, p) \<in> set ?fr. 0 \<le> h_sample_count (p_header p)"
    using assms(3) sub by (fastforce simp: stored_ok_def)
  ultimately have "sorted (map (\<lambda>(off, s, p). (off, s)) (by_offset ?fr))"
    using ok by (intro tiles_sorted) (auto simp: frame_ok_def)
  then show ?thesis
    by (simp add: frame_chunks_alt fil sort_key_id_if_sorted)
qed

lemma or_fold_zero:
  "fold (\<lambda>(s, p) fl. fl OR g p) data z = (0::int) \<longleftrightarrow> z = 0 \<and> (\<forall>(s, p) \<in> set data. g p = 0)"
  by (induction data arbitrary: z) (auto simp: or_eq_0_iff)

lemma source_flags_zero_iff:
  "source_flags data = 0 \<longleftrightarrow> (\<forall>(s, p) \<in> set data. h_flags (p_header p) AND integrity_mask = 0)"
  by (simp add: source_flags_def or_fold_zero integrity_mask_def)

lemma shot_end_issues_Nil_iff:
  assumes "data \<noteq> []"
  shows "shot_end_issues end data = [] \<longleftrightarrow> totals_agree end (int (length (frame_ids data))) data"
  using assms by (auto simp: shot_end_issues_def totals_agree_def Let_def)

lemma contiguous_map: "contiguous (map (\<lambda>k. f0 + int k) [0..<n])"
  by (cases n) (auto simp: contiguous_def hd_map simp del: upt_Suc)

lemma data_complete_framed:
  assumes "framed n data f0 frames" "stored_ok data" "sorted_wrt (<) (map fst data)"
  shows "contiguous (frame_ids data)" "length (frame_ids data) = length frames"
    and "sequence_order data = logical_order data"
    and "\<forall>f \<in> set (frame_ids data). frame_ok n f (unchunk (frame_chunks data f))"
proof -
  note ids = framed_ids[OF assms(1)]
  have ch: "frame_chunks data (f0 + int k) = by_offset (frames ! k)" if "k < length frames" for k
    using framed_chunks[OF assms(1) that assms(2,3)] .
  show "contiguous (frame_ids data)" unfolding ids by (rule contiguous_map)
  show "length (frame_ids data) = length frames" by (simp add: ids)
  have "logical_order data =
      concat (map (\<lambda>k. sequence_order (unchunk (frame_chunks data (f0 + int k)))) [0..<length frames])"
    by (simp add: logical_order_frames ids comp_def)
  also have "\<dots> = concat (map (\<lambda>k. sequence_order (frames ! k)) [0..<length frames])"
    by (intro arg_cong[where f = concat] map_cong) (simp_all add: ch)
  also have "\<dots> = sequence_order (concat frames)"
    by (simp only: sequence_order_concat map_nth_upt)
  finally show "sequence_order data = logical_order data"
    using assms(1) by (simp add: framed_def)
  show "\<forall>f \<in> set (frame_ids data). frame_ok n f (unchunk (frame_chunks data f))"
  proof
    fix f assume "f \<in> set (frame_ids data)"
    then obtain k where "f = f0 + int k" "k < length frames" by (auto simp: ids)
    then show "frame_ok n f (unchunk (frame_chunks data f))"
      using assms(1) ch by (simp add: framed_def)
  qed
qed

lemma data_issues_Nil_iff:
  assumes "stored_ok (ordered_data a)" "a_stream_info a = Some info" "a_shot_end a = Some end"
    and "sorted_wrt (<) (map fst (ordered_data a))"
  shows "data_issues a = [] \<longleftrightarrow> data_complete info end (ordered_data a)"
proof -
  define data where "data = ordered_data a"
  define ids where "ids = frame_ids data"
  define n where "n = si_frame_samples info"
  have ok: "stored_ok data" "sorted_wrt (<) (map fst data)"
    using assms by (simp_all add: data_def)
  have fi: "(\<forall>f \<in> set ids. frame_issues (Some info) data f = []) \<longleftrightarrow>
      (\<forall>f \<in> set ids. frame_ok n f (unchunk (frame_chunks data f)))"
    using frame_issues_Nil_iff[OF _ ok(1)] unfolding ids_def n_def by blast
  have "data_issues a = [] \<longleftrightarrow>
      data \<noteq> [] \<and> contiguous ids \<and>
      (\<forall>f \<in> set ids. frame_issues (Some info) data f = []) \<and>
      sequence_order data = logical_order data \<and> source_flags data = 0 \<and> shot_end_issues end data = []"
    using assms(2,3) by (auto simp: data_issues_def Let_def data_def ids_def)
  also have "\<dots> \<longleftrightarrow>
      data \<noteq> [] \<and> contiguous ids \<and> (\<forall>f \<in> set ids. frame_ok n f (unchunk (frame_chunks data f))) \<and>
      sequence_order data = logical_order data \<and>
      (\<forall>(s, p) \<in> set data. h_flags (p_header p) AND integrity_mask = 0) \<and>
      totals_agree end (int (length ids)) data"
    unfolding fi source_flags_zero_iff using shot_end_issues_Nil_iff[of data "end"]
    by (auto simp only: ids_def)
  also have "\<dots> \<longleftrightarrow> data_complete info end data"
  proof
    assume a: "data \<noteq> [] \<and> contiguous ids \<and> (\<forall>f \<in> set ids. frame_ok n f (unchunk (frame_chunks data f))) \<and>
      sequence_order data = logical_order data \<and>
      (\<forall>(s, p) \<in> set data. h_flags (p_header p) AND integrity_mask = 0) \<and>
      totals_agree end (int (length ids)) data"
    let ?frames = "map (\<lambda>f. unchunk (frame_chunks data f)) ids"
    have c: "data = concat ?frames"
      unfolding ids_def using a ok(1) by (intro data_of_orders) (simp_all add: stored_ok_def)
    have "frame_ok n (hd ids + int k) (?frames ! k)" if "k < length ids" for k
    proof -
      have "ids = map (\<lambda>k. hd ids + int k) [0..<length ids]"
        using a that by (auto simp: contiguous_def)
      from arg_cong[OF this, of "\<lambda>l. l ! k"] have "ids ! k = hd ids + int k"
        using that by simp
      then show ?thesis using a nth_mem[OF that] that by simp
    qed
    with c have f: "framed n data (hd ids) ?frames" by (simp add: framed_def)
    have "totals_agree end (int (length ?frames)) data" using a by simp
    with f a show "data_complete info end data"
      unfolding data_complete_def n_def by blast
  next
    assume "data_complete info end data"
    then obtain f0 frames where f: "framed n data f0 frames" "data \<noteq> []"
        "totals_agree end (int (length frames)) data"
        "\<forall>(s, p) \<in> set data. h_flags (p_header p) AND integrity_mask = 0"
      by (auto simp: data_complete_def n_def)
    with data_complete_framed[OF f(1) ok]
    show "data \<noteq> [] \<and> contiguous ids \<and> (\<forall>f \<in> set ids. frame_ok n f (unchunk (frame_chunks data f))) \<and>
      sequence_order data = logical_order data \<and>
      (\<forall>(s, p) \<in> set data. h_flags (p_header p) AND integrity_mask = 0) \<and>
      totals_agree end (int (length ids)) data"
      by (simp add: ids_def)
  qed
  finally show ?thesis by (simp add: data_def)
qed

end
