(* ===== verification/ShotArrival.thy ===== *)
theory ShotArrival
  imports ShotAudit "HOL-Library.Multiset"
begin

text \<open>
  What \<open>ShotAssembler.ingest\<close> keeps true in every order of arrival: the accounting of
  datagrams, the bound on the pending queue, and the consistency of the stored packets; and
  that the released samples do not depend on order, duplication or timing.
\<close>

section \<open>The invariant\<close>

definition counted :: "assembler \<Rightarrow> int" where
  "counted a =
     a_valid_selected_packets a + a_foreign_packets a + a_malformed_selected a +
     a_malformed_unclassified a + a_duplicate_packets a + a_conflicting_duplicates a"

fun item_ok :: "pending_item \<Rightarrow> bool" where
  "item_ok (r, None, p, e) = (p = None)"
| "item_ok (r, Some h, p, e) =
     (header_decode (jr_datagram r) = Inr h \<and> (\<forall>q. p = Some q \<longrightarrow> packet_decode (jr_datagram r) = Inr q))"

definition accounting :: "assembler \<Rightarrow> bool" where
  "accounting a \<longleftrightarrow>
     a_total_datagrams a = counted a + int (length (a_pending a)) + a_pending_overflow a \<and>
     length (a_pending a) \<le> MAX_PENDING_DATAGRAMS \<and>
     (a_identity a \<noteq> None \<longrightarrow> a_pending a = []) \<and> (\<forall>item \<in> set (a_pending a). item_ok item)"

definition stored :: "assembler \<Rightarrow> bool" where
  "stored a \<longleftrightarrow>
     distinct (map fst (a_seen_sequences a)) \<and>
     a_valid_selected_packets a = int (length (a_seen_sequences a)) \<and>
     sum_list (map snd (a_packet_types a)) = a_valid_selected_packets a \<and>
     stored_ok (a_data_packets a) \<and>
     fst ` set (a_data_packets a) \<subseteq> fst ` set (a_seen_sequences a) \<and>
     (case a_highest_arrival_sequence a of
        None \<Rightarrow> a_seen_sequences a = []
      | Some h \<Rightarrow> h \<in> fst ` set (a_seen_sequences a) \<and> (\<forall>s \<in> fst ` set (a_seen_sequences a). s \<le> h)) \<and>
     (a_stream_info a = None \<longleftrightarrow> a_stream_info_header a = None) \<and>
     (a_shot_end a = None \<longleftrightarrow> a_shot_end_header a = None)"

lemma update_new: "k \<notin> fst ` set al \<Longrightarrow> AList.update k v al = al @ [(k, v)]"
  by (induction al) auto

lemma map_of_None_iff: "map_of al k = None \<longleftrightarrow> k \<notin> fst ` set al"
  by (simp add: map_of_eq_None_iff)

lemma counter_add_total: "sum_list (map snd (counter_add k c)) = sum_list (map snd c) + 1"
  by (induction c) (auto simp: counter_add_def split: option.splits)

lemma accept_stream_info_frame:
  "accept_stream_info p a =
     a\<lparr>a_stream_info_header := a_stream_info_header (accept_stream_info p a),
       a_stream_info := a_stream_info (accept_stream_info p a),
       a_protocol_errors := a_protocol_errors (accept_stream_info p a)\<rparr>"
  by (auto simp: accept_stream_info_def add_error_def split: sum.splits option.splits)

lemma accept_stream_info_both:
  "(a_stream_info a = None \<longleftrightarrow> a_stream_info_header a = None) \<Longrightarrow>
     (a_stream_info (accept_stream_info p a) = None \<longleftrightarrow>
      a_stream_info_header (accept_stream_info p a) = None)"
  by (auto simp: accept_stream_info_def add_error_def split: sum.splits option.splits)

lemma accept_shot_end_frame:
  "accept_shot_end p a =
     a\<lparr>a_shot_end_header := a_shot_end_header (accept_shot_end p a),
       a_shot_end := a_shot_end (accept_shot_end p a),
       a_protocol_errors := a_protocol_errors (accept_shot_end p a)\<rparr>"
  by (auto simp: accept_shot_end_def add_error_def split: sum.splits option.splits)

lemma accept_shot_end_both:
  "(a_shot_end a = None \<longleftrightarrow> a_shot_end_header a = None) \<Longrightarrow>
     (a_shot_end (accept_shot_end p a) = None \<longleftrightarrow> a_shot_end_header (accept_shot_end p a) = None)"
  by (auto simp: accept_shot_end_def add_error_def split: sum.splits option.splits)

text \<open>The bookkeeping half of \<open>accept_new\<close>, before the packet type is looked at.\<close>

definition note_arrival :: "packet \<Rightarrow> bytes \<Rightarrow> assembler \<Rightarrow> assembler" where
  "note_arrival p digest a =
     (let sequence = h_packet_sequence (p_header p) in
      a\<lparr>a_reordered_packets := a_reordered_packets a +
          (if (case a_highest_arrival_sequence a of Some h \<Rightarrow> sequence < h | None \<Rightarrow> False) then 1 else 0),
        a_highest_arrival_sequence :=
          Some (max sequence (case a_highest_arrival_sequence a of Some h \<Rightarrow> h | None \<Rightarrow> sequence)),
        a_seen_sequences := AList.update sequence digest (a_seen_sequences a),
        a_valid_selected_packets := a_valid_selected_packets a + 1,
        a_packet_types := counter_add (h_packet_type (p_header p)) (a_packet_types a)\<rparr>)"

definition dispatch :: "packet \<Rightarrow> assembler \<Rightarrow> assembler" where
  "dispatch p a =
     (case h_packet_type (p_header p) of
        STREAM_INFO \<Rightarrow> accept_stream_info p a
      | DATA \<Rightarrow> a\<lparr>a_data_packets := AList.update (h_packet_sequence (p_header p)) p (a_data_packets a)\<rparr>
      | SHOT_END \<Rightarrow> accept_shot_end p a
      | HEARTBEAT \<Rightarrow> a)"

lemma accept_new_split: "accept_new p d a = dispatch p (note_arrival p d a)"
  by (simp add: accept_new_def dispatch_def note_arrival_def Let_def)

text \<open>The fields each half leaves alone.\<close>

lemma note_arrival_fields [simp]:
  "a_identity (note_arrival p d a) = a_identity a"
  "a_pending (note_arrival p d a) = a_pending a"
  "a_total_datagrams (note_arrival p d a) = a_total_datagrams a"
  "a_pending_overflow (note_arrival p d a) = a_pending_overflow a"
  "a_foreign_packets (note_arrival p d a) = a_foreign_packets a"
  "a_malformed_selected (note_arrival p d a) = a_malformed_selected a"
  "a_malformed_unclassified (note_arrival p d a) = a_malformed_unclassified a"
  "a_duplicate_packets (note_arrival p d a) = a_duplicate_packets a"
  "a_conflicting_duplicates (note_arrival p d a) = a_conflicting_duplicates a"
  "a_valid_selected_packets (note_arrival p d a) = a_valid_selected_packets a + 1"
  "a_data_packets (note_arrival p d a) = a_data_packets a"
  "a_stream_info (note_arrival p d a) = a_stream_info a"
  "a_stream_info_header (note_arrival p d a) = a_stream_info_header a"
  "a_shot_end (note_arrival p d a) = a_shot_end a"
  "a_shot_end_header (note_arrival p d a) = a_shot_end_header a"
  "a_protocol_errors (note_arrival p d a) = a_protocol_errors a"
  by (simp_all add: note_arrival_def Let_def)

lemma dispatch_fields [simp]:
  "a_identity (dispatch p a) = a_identity a"
  "a_pending (dispatch p a) = a_pending a"
  "a_total_datagrams (dispatch p a) = a_total_datagrams a"
  "a_pending_overflow (dispatch p a) = a_pending_overflow a"
  "a_foreign_packets (dispatch p a) = a_foreign_packets a"
  "a_malformed_selected (dispatch p a) = a_malformed_selected a"
  "a_malformed_unclassified (dispatch p a) = a_malformed_unclassified a"
  "a_duplicate_packets (dispatch p a) = a_duplicate_packets a"
  "a_conflicting_duplicates (dispatch p a) = a_conflicting_duplicates a"
  "a_valid_selected_packets (dispatch p a) = a_valid_selected_packets a"
  "a_seen_sequences (dispatch p a) = a_seen_sequences a"
  "a_packet_types (dispatch p a) = a_packet_types a"
  "a_highest_arrival_sequence (dispatch p a) = a_highest_arrival_sequence a"
  by (cases "h_packet_type (p_header p)";
      simp add: dispatch_def; subst accept_stream_info_frame accept_shot_end_frame; simp)+

lemma add_error_fields [simp]:
  "a_identity (add_error i a) = a_identity a"
  "a_pending (add_error i a) = a_pending a"
  "a_total_datagrams (add_error i a) = a_total_datagrams a"
  "a_pending_overflow (add_error i a) = a_pending_overflow a"
  "counted (add_error i a) = counted a"
  "stored (add_error i a) = stored a"
  by (cases "a_highest_arrival_sequence a"; simp add: add_error_def counted_def stored_def)+

subsection \<open>Accounting\<close>

lemma accept_packet_accounting [simp]:
  "counted (accept_packet p d a) = counted a + 1"
  "a_identity (accept_packet p d a) = a_identity a"
  "a_pending (accept_packet p d a) = a_pending a"
  "a_total_datagrams (accept_packet p d a) = a_total_datagrams a"
  "a_pending_overflow (accept_packet p d a) = a_pending_overflow a"
  by (simp_all add: accept_packet_def Let_def accept_new_split counted_def add_error_def split: option.splits)

lemma route_accounting:
  assumes "a_identity a \<noteq> None"
  shows "counted (route item a) = counted a + 1" "a_identity (route item a) = a_identity a"
    and "a_pending (route item a) = a_pending a"
    and "a_total_datagrams (route item a) = a_total_datagrams a"
    and "a_pending_overflow (route item a) = a_pending_overflow a"
  using assms accept_packet_accounting
  by (auto simp: route_def counted_def add_error_def split: prod.splits option.splits)

lemma fold_route_accounting:
  "a_identity a \<noteq> None \<Longrightarrow>
     counted (fold route items a) = counted a + int (length items) \<and>
     a_identity (fold route items a) = a_identity a \<and> a_pending (fold route items a) = a_pending a \<and>
     a_total_datagrams (fold route items a) = a_total_datagrams a \<and>
     a_pending_overflow (fold route items a) = a_pending_overflow a"
  by (induction items arbitrary: a) (simp_all add: route_accounting)

lemma save_pending_accounting:
  assumes "length (a_pending a) \<le> MAX_PENDING_DATAGRAMS"
  shows "int (length (a_pending (save_pending item a))) + a_pending_overflow (save_pending item a) =
      int (length (a_pending a)) + a_pending_overflow a + 1"
    and "length (a_pending (save_pending item a)) \<le> MAX_PENDING_DATAGRAMS"
    and "set (a_pending (save_pending item a)) \<subseteq> insert item (set (a_pending a))"
    and "counted (save_pending item a) = counted a"
    and "a_total_datagrams (save_pending item a) = a_total_datagrams a"
    and "a_identity (save_pending item a) = a_identity a"
proof -
  have "set (tl (a_pending a)) \<subseteq> set (a_pending a)" by (cases "a_pending a") auto
  then show "set (a_pending (save_pending item a)) \<subseteq> insert item (set (a_pending a))"
    by (auto simp: save_pending_def Let_def)
qed (use assms in \<open>simp_all add: save_pending_def Let_def counted_def MAX_PENDING_DATAGRAMS_def\<close>)

text \<open>The item \<open>ingest\<close> builds from a datagram, and its three destinations.\<close>

definition item_of :: "jrecord \<Rightarrow> pending_item" where
  "item_of r =
     (case header_decode (jr_datagram r) of
        Inl e \<Rightarrow> (r, None, None, Some e)
      | Inr h \<Rightarrow>
          (case packet_decode (jr_datagram r) of
             Inr p \<Rightarrow> (r, Some h, Some p, None) | Inl e \<Rightarrow> (r, Some h, None, Some e)))"

lemma item_of_ok: "item_ok (item_of r)"
  by (auto simp: item_of_def split: sum.splits)

definition selects :: "jrecord \<Rightarrow> bool" where
  "selects r = (case packet_decode (jr_datagram r) of
     Inr p \<Rightarrow> h_packet_type (p_header p) = STREAM_INFO | Inl e \<Rightarrow> False)"

lemma ingest_cases:
  "ingest r a =
     (let b = a\<lparr>a_total_datagrams := a_total_datagrams a + 1\<rparr> in
      if a_identity a \<noteq> None then route (item_of r) b
      else if selects r
      then (case packet_decode (jr_datagram r) of Inr p \<Rightarrow> select_shot r (p_header p) p b | _ \<Rightarrow> b)
      else save_pending (item_of r) b)"
proof (cases "header_decode (jr_datagram r)")
  case (Inl e)
  then have "\<not> (\<exists>p. packet_decode (jr_datagram r) = Inr p)"
    using packet_decode_valid(3) by fastforce
  then have "\<not> selects r" by (auto simp: selects_def split: sum.splits)
  then show ?thesis
    using Inl by (auto simp: ingest_def item_of_def route_def Let_def split: option.splits)
next
  case (Inr h)
  show ?thesis
  proof (cases "packet_decode (jr_datagram r)")
    case (Inl e)
    then show ?thesis
      using Inr by (auto simp: ingest_def item_of_def selects_def Let_def split: option.splits)
  next
    case (Inr p)
    then have "h = p_header p"
      using packet_decode_valid(3)[OF Inr] \<open>header_decode (jr_datagram r) = Inr h\<close> by simp
    then show ?thesis
      using Inr \<open>header_decode (jr_datagram r) = Inr h\<close>
      by (auto simp: ingest_def item_of_def selects_def Let_def split: option.splits)
  qed
qed

lemma selects_iff: "selects r \<longleftrightarrow>
    (\<exists>p. packet_decode (jr_datagram r) = Inr p \<and> h_packet_type (p_header p) = STREAM_INFO)"
  by (auto simp: selects_def split: sum.splits)

lemma select_shot_alt:
  "select_shot r h p a =
     fold route (a_pending a @ [(r, Some h, Some p, None)])
       (a\<lparr>a_identity := Some (packet_key r h), a_pending := []\<rparr>)"
  by (simp add: select_shot_def Let_def)

lemma ingest_accounting: "accounting a \<Longrightarrow> accounting (ingest r a)"
proof -
  assume inv: "accounting a"
  let ?b = "a\<lparr>a_total_datagrams := a_total_datagrams a + 1\<rparr>"
  have b: "counted ?b = counted a" by (simp add: counted_def)
  consider (routed) "a_identity a \<noteq> None" | (selected) p where "a_identity a = None"
      "packet_decode (jr_datagram r) = Inr p" "selects r" | (saved) "a_identity a = None" "\<not> selects r"
    by (cases "a_identity a = None"; cases "selects r") (auto simp: selects_iff)
  then show ?thesis
  proof cases
    case routed
    then show ?thesis
      using inv b route_accounting[of ?b "item_of r"]
      by (simp add: ingest_cases accounting_def)
  next
    case selected
    let ?c = "?b\<lparr>a_identity := Some (packet_key r (p_header p)), a_pending := []\<rparr>"
    have "counted ?c = counted a" by (simp add: counted_def)
    then show ?thesis
      using selected inv
        fold_route_accounting[of ?c "a_pending ?b @ [(r, Some (p_header p), Some p, None)]"]
      by (simp add: ingest_cases accounting_def select_shot_alt)
  next
    case saved
    have len: "length (a_pending ?b) \<le> MAX_PENDING_DATAGRAMS"
      using inv by (simp add: accounting_def)
    have "set (a_pending (save_pending (item_of r) ?b)) \<subseteq> insert (item_of r) (set (a_pending a))"
      using save_pending_accounting(3)[OF len, of "item_of r"] by simp
    then have "\<forall>item \<in> set (a_pending (save_pending (item_of r) ?b)). item_ok item"
      using inv item_of_ok by (auto simp: accounting_def)
    then show ?thesis
      using saved inv b save_pending_accounting[OF len, of "item_of r"]
      by (simp add: ingest_cases accounting_def)
  qed
qed

lemma ingest_all_snoc: "ingest_all (rs @ [r]) = ingest r (ingest_all rs)"
  by (simp add: ingest_all_def)

lemma ingest_all_Nil [simp]: "ingest_all [] = assembler_init"
  by (simp add: ingest_all_def)

lemma ingest_all_accounting: "accounting (ingest_all rs)"
proof (induction rs rule: rev_induct)
  case Nil
  then show ?case by (simp add: accounting_def counted_def assembler_init_def)
next
  case (snoc r rs)
  then show ?case by (simp add: ingest_all_snoc ingest_accounting)
qed

subsection \<open>Stored packets\<close>

lemma dispatch_both:
  "(a_stream_info a = None \<longleftrightarrow> a_stream_info_header a = None) \<Longrightarrow>
   (a_shot_end a = None \<longleftrightarrow> a_shot_end_header a = None) \<Longrightarrow>
     (a_stream_info (dispatch p a) = None \<longleftrightarrow> a_stream_info_header (dispatch p a) = None) \<and>
     (a_shot_end (dispatch p a) = None \<longleftrightarrow> a_shot_end_header (dispatch p a) = None)"
proof (cases "h_packet_type (p_header p)")
  case STREAM_INFO
  assume "a_stream_info a = None \<longleftrightarrow> a_stream_info_header a = None"
    "a_shot_end a = None \<longleftrightarrow> a_shot_end_header a = None"
  then show ?thesis
    using STREAM_INFO accept_stream_info_both[of a p]
    by (simp add: dispatch_def) (subst (1 2) accept_stream_info_frame, simp)
next
  case SHOT_END
  assume "a_stream_info a = None \<longleftrightarrow> a_stream_info_header a = None"
    "a_shot_end a = None \<longleftrightarrow> a_shot_end_header a = None"
  then show ?thesis
    using SHOT_END accept_shot_end_both[of a p]
    by (simp add: dispatch_def) (subst (1 2) accept_shot_end_frame, simp)
qed (simp_all add: dispatch_def)

lemma dispatch_data:
  "a_data_packets (dispatch p a) =
     (if h_packet_type (p_header p) = DATA
      then AList.update (h_packet_sequence (p_header p)) p (a_data_packets a) else a_data_packets a)"
  by (cases "h_packet_type (p_header p)"; simp add: dispatch_def;
      subst accept_stream_info_frame accept_shot_end_frame; simp)

lemma data_packet_stored_ok:
  assumes "packet_decode d = Inr p" "h_packet_type (p_header p) = DATA"
  shows "1 \<le> h_sample_count (p_header p)" "int (length (p_payload p)) = 4 * h_sample_count (p_header p)"
  using validate_DATA[OF packet_decode_valid(1)[OF assms(1)] assms(2)]
    packet_decode_valid(2)[OF assms(1)]
  by (auto simp: header_ok_def)

lemma accept_new_stored:
  assumes "stored a" "packet_decode d = Inr p" "h_packet_sequence (p_header p) \<notin> fst ` set (a_seen_sequences a)"
  shows "stored (accept_new p dg a)"
proof -
  define sq where "sq = h_packet_sequence (p_header p)"
  define b where "b = dispatch p (note_arrival p dg a)"
  have new: "sq \<notin> fst ` set (a_seen_sequences a)" using assms(3) by (simp add: sq_def)
  have seen: "a_seen_sequences b = a_seen_sequences a @ [(sq, dg)]"
    using update_new[OF new, of dg] by (simp add: b_def note_arrival_def sq_def Let_def)
  have types: "sum_list (map snd (a_packet_types b)) = sum_list (map snd (a_packet_types a)) + 1"
    by (simp add: b_def note_arrival_def counter_add_total Let_def)
  have both: "a_stream_info b = None \<longleftrightarrow> a_stream_info_header b = None"
      "a_shot_end b = None \<longleftrightarrow> a_shot_end_header b = None"
    using dispatch_both[of "note_arrival p dg a" p] assms(1) by (simp_all add: b_def stored_def)
  have hi: "a_highest_arrival_sequence b =
      Some (max sq (case a_highest_arrival_sequence a of Some h \<Rightarrow> h | None \<Rightarrow> sq))"
    unfolding b_def sq_def dispatch_fields note_arrival_def by (simp add: Let_def)
  have hiok: "(case a_highest_arrival_sequence b of
        None \<Rightarrow> a_seen_sequences b = []
      | Some h \<Rightarrow> h \<in> fst ` set (a_seen_sequences b) \<and> (\<forall>s \<in> fst ` set (a_seen_sequences b). s \<le> h))"
    using assms(1) unfolding hi seen
    by (auto simp: stored_def max_def split: option.splits if_splits)
  have sub: "fst ` set (a_data_packets a) \<subseteq> fst ` set (a_seen_sequences a)" and ok: "stored_ok (a_data_packets a)"
    using assms(1) by (simp_all add: stored_def)
  have new': "sq \<notin> fst ` set (a_data_packets a)" using sub new by blast
  have data: "a_data_packets b = (if h_packet_type (p_header p) = DATA
      then a_data_packets a @ [(sq, p)] else a_data_packets a)"
    using update_new[OF new', of p] by (simp add: b_def dispatch_data sq_def)
  have dok: "stored_ok (a_data_packets b) \<and> fst ` set (a_data_packets b) \<subseteq> fst ` set (a_seen_sequences b)"
    using ok sub new' data_packet_stored_ok[OF assms(2)]
    by (auto simp: data seen stored_ok_def sq_def)
  have vb: "a_valid_selected_packets b = a_valid_selected_packets a + 1"
    by (simp add: b_def)
  have "distinct (map fst (a_seen_sequences b))"
      "a_valid_selected_packets b = int (length (a_seen_sequences b))"
      "sum_list (map snd (a_packet_types b)) = a_valid_selected_packets b"
    using assms(1) new seen types vb by (simp_all add: stored_def)
  then have "stored b"
    unfolding stored_def using both hiok dok by blast
  then show ?thesis by (simp add: accept_new_split b_def)
qed

lemma stored_cong:
  "stored (a\<lparr>a_duplicate_packets := x\<rparr>) = stored a"
  "stored (a\<lparr>a_conflicting_duplicates := x\<rparr>) = stored a"
  "stored (a\<lparr>a_malformed_selected := x\<rparr>) = stored a"
  "stored (a\<lparr>a_malformed_unclassified := x\<rparr>) = stored a"
  "stored (a\<lparr>a_foreign_packets := x\<rparr>) = stored a"
  "stored (a\<lparr>a_total_datagrams := x\<rparr>) = stored a"
  "stored (a\<lparr>a_identity := i\<rparr>) = stored a"
  "stored (a\<lparr>a_pending := l\<rparr>) = stored a"
  "stored (a\<lparr>a_pending_overflow := x\<rparr>) = stored a"
  by (cases "a_highest_arrival_sequence a"; simp add: stored_def)+

lemma accept_packet_stored:
  assumes "stored a" "packet_decode d = Inr p"
  shows "stored (accept_packet p dg a)"
proof (cases "map_of (a_seen_sequences a) (h_packet_sequence (p_header p))")
  case None
  then have "h_packet_sequence (p_header p) \<notin> fst ` set (a_seen_sequences a)"
    by (simp add: map_of_None_iff)
  then show ?thesis
    using accept_new_stored[OF assms] by (simp add: accept_packet_def None Let_def)
next
  case (Some v)
  then show ?thesis using assms(1) by (simp add: accept_packet_def Let_def stored_cong)
qed

lemma route_stored: "stored a \<Longrightarrow> item_ok item \<Longrightarrow> stored (route item a)"
  by (cases item rule: item_ok.cases)
    (auto simp: route_def stored_cong accept_packet_stored split: option.splits)

lemma fold_route_stored: "stored a \<Longrightarrow> \<forall>i \<in> set items. item_ok i \<Longrightarrow> stored (fold route items a)"
  by (induction items arbitrary: a) (simp_all add: route_stored)

lemma ingest_stored:
  assumes "stored a" "accounting a"
  shows "stored (ingest r a)"
proof -
  let ?b = "a\<lparr>a_total_datagrams := a_total_datagrams a + 1\<rparr>"
  consider (routed) "a_identity a \<noteq> None" | (selected) p where "a_identity a = None"
      "packet_decode (jr_datagram r) = Inr p" "selects r" | (saved) "a_identity a = None" "\<not> selects r"
    by (cases "a_identity a = None"; cases "selects r") (auto simp: selects_iff)
  then show ?thesis
  proof cases
    case routed
    then show ?thesis
      using assms(1) route_stored[OF _ item_of_ok, of ?b r] by (simp add: ingest_cases stored_cong)
  next
    case selected
    have "item_ok (r, Some (p_header p), Some p, None)"
      using selected(2) packet_decode_valid(3)[OF selected(2)] by simp
    then have "\<forall>i \<in> set (a_pending ?b @ [(r, Some (p_header p), Some p, None)]). item_ok i"
      using assms(2) by (auto simp: accounting_def)
    then show ?thesis
      using selected assms(1) fold_route_stored
      by (simp add: ingest_cases select_shot_alt stored_cong del: fold_append)
  next
    case saved
    then show ?thesis
      using assms(1) by (simp add: ingest_cases save_pending_def Let_def stored_cong)
  qed
qed

lemma ingest_all_stored: "stored (ingest_all rs)"
proof (induction rs rule: rev_induct)
  case Nil
  then show ?case by (simp add: stored_def assembler_init_def stored_ok_def)
next
  case (snoc r rs)
  then show ?case by (simp add: ingest_all_snoc ingest_stored ingest_all_accounting)
qed

lemma ingest_total: "a_total_datagrams (ingest r a) = a_total_datagrams a + 1"
proof -
  let ?b = "a\<lparr>a_total_datagrams := a_total_datagrams a + 1\<rparr>"
  have r: "a_total_datagrams (route item c) = a_total_datagrams c" for item c
    by (cases "a_identity c = None")
      (auto simp: route_accounting route_def add_error_def split: prod.splits option.splits)
  have f: "a_total_datagrams (fold route items c) = a_total_datagrams c" for items c
    by (induction items arbitrary: c) (simp_all add: r)
  show ?thesis
    by (auto simp: ingest_cases r f select_shot_def save_pending_def Let_def split: sum.splits)
qed

lemma ingest_all_total: "a_total_datagrams (ingest_all rs) = int (length rs)"
  by (induction rs rule: rev_induct) (simp_all add: ingest_all_snoc ingest_total assembler_init_def)

section \<open>Release\<close>

definition shot_complete :: "assembler \<Rightarrow> bool" where
  "shot_complete a \<longleftrightarrow>
     a_identity a \<noteq> None \<and> a_protocol_errors a = [] \<and> a_malformed_selected a = 0 \<and>
     a_conflicting_duplicates a = 0 \<and> a_pending_overflow a = 0 \<and>
     (\<exists>i info e end. a_stream_info_header a = Some i \<and> a_stream_info a = Some info \<and>
        a_shot_end_header a = Some e \<and> a_shot_end a = Some end \<and>
        h_packet_sequence i \<le> h_packet_sequence e \<and>
        fst ` set (a_seen_sequences a) = {h_packet_sequence i..h_packet_sequence e} \<and>
        data_complete info end (ordered_data a))"

lemma sequence_audit_Nil_iff:
  assumes "a_stream_info_header a = Some i" "a_shot_end_header a = Some e"
  shows "fst (sequence_audit a) = [] \<longleftrightarrow> h_packet_sequence i \<le> h_packet_sequence e \<and>
    fst ` set (a_seen_sequences a) = {h_packet_sequence i..h_packet_sequence e}"
proof -
  let ?lo = "h_packet_sequence i" and ?hi = "h_packet_sequence e"
  let ?seen = "map fst (a_seen_sequences a)"
  obtain count ranges where f: "find_missing_ranges ?lo ?hi ?seen = (count, ranges)"
    by fastforce
  have c: "count = int (card ({?lo..?hi} - set ?seen))"
    using find_missing_ranges_correct[OF f] by blast
  have "count = 0 \<longleftrightarrow> {?lo..?hi} \<subseteq> fst ` set (a_seen_sequences a)"
    using c by (auto simp: card_eq_0_iff)
  moreover have "outside ?lo ?hi a = [] \<longleftrightarrow> fst ` set (a_seen_sequences a) \<subseteq> {?lo..?hi}"
    by (auto simp: outside_def filter_empty_conv)
  ultimately show ?thesis
    using assms f by (auto simp: sequence_audit_def Let_def)
qed

lemma ordered_data_props:
  assumes "stored a"
  shows "stored_ok (ordered_data a)" "sorted_wrt (<) (map fst (ordered_data a))"
proof -
  have ok: "stored_ok (a_data_packets a)" using assms by (simp add: stored_def)
  have m: "mset (map fst (ordered_data a)) = mset (map fst (a_data_packets a))"
    by (simp add: ordered_data_def)
  have d: "distinct (map fst (ordered_data a))"
    using ok mset_eq_imp_distinct_iff[OF m] by (simp add: stored_ok_def)
  then show "stored_ok (ordered_data a)"
    using ok by (simp add: stored_ok_def) (simp add: ordered_data_def)
  show "sorted_wrt (<) (map fst (ordered_data a))"
    using d by (simp add: strict_sorted_iff) (simp add: ordered_data_def)
qed

lemma audit_issues_Nil_iff:
  assumes "stored a"
  shows "audit_issues a = [] \<longleftrightarrow> shot_complete a"
proof -
  have both: "a_stream_info a = None \<longleftrightarrow> a_stream_info_header a = None"
      "a_shot_end a = None \<longleftrightarrow> a_shot_end_header a = None"
    using assms by (simp_all add: stored_def)
  show ?thesis
  proof (cases "a_stream_info a = None \<or> a_shot_end a = None")
    case True
    then show ?thesis by (auto simp: audit_issues_def selection_issues_def shot_complete_def)
  next
    case False
    then obtain i info e "end" where "a_stream_info_header a = Some i" "a_stream_info a = Some info"
        "a_shot_end_header a = Some e" "a_shot_end a = Some end"
      using both by auto
    then show ?thesis
      using data_issues_Nil_iff[OF ordered_data_props(1)[OF assms] _ _ ordered_data_props(2)[OF assms]]
        sequence_audit_Nil_iff
      by (auto simp: audit_issues_def selection_issues_def shot_complete_def)
  qed
qed

lemma payload_by_sequence_concat:
  "payload_by_sequence (concat xss) = concat (map payload_by_sequence xss)"
  by (induction xss) (simp_all add: payload_by_sequence_def)

lemma reconstructed_ordered:
  assumes "stored a" "shot_complete a"
  shows "reconstructed (ordered_data a) = payload_by_sequence (ordered_data a)"
proof -
  let ?d = "ordered_data a"
  obtain n f0 frames where "framed n ?d f0 frames"
    using assms(2) by (auto simp: shot_complete_def data_complete_def)
  from data_complete_framed(3)[OF this ordered_data_props[OF assms(1)]]
  have "?d = concat (map (\<lambda>f. unchunk (frame_chunks ?d f)) (frame_ids ?d))"
    using ordered_data_props(1)[OF assms(1)] by (intro data_of_orders) (simp_all add: stored_ok_def)
  then have "payload_by_sequence ?d =
      payload_by_sequence (concat (map (\<lambda>f. unchunk (frame_chunks ?d f)) (frame_ids ?d)))"
    by simp
  also have "\<dots> = concat (map (\<lambda>f. payload_by_sequence (unchunk (frame_chunks ?d f))) (frame_ids ?d))"
    by (simp add: payload_by_sequence_concat comp_def)
  finally show ?thesis
    by (simp add: reconstructed_def payload_by_sequence_def unchunk_def comp_def case_prod_unfold)
qed

lemma finalize_release:
  assumes "stored a"
  shows "fst (finalize a) = Some samples \<longleftrightarrow>
    shot_complete a \<and> samples = payload_by_sequence (ordered_data a)"
  using audit_issues_Nil_iff[OF assms] reconstructed_ordered[OF assms]
  by (auto simp: finalize_def Let_def)

section \<open>Order of arrival\<close>

text \<open>
  A clean arrival: every datagram is a valid packet of one shot, a sequence number, the
  \<open>STREAM_INFO\<close> and the \<open>SHOT_END\<close> have one datagram each (which may arrive any number of
  times), and at most 4096 datagrams precede the first \<open>STREAM_INFO\<close>.
\<close>

definition clean_record :: "identity \<Rightarrow> jrecord \<Rightarrow> bool" where
  "clean_record I r =
     (case packet_decode (jr_datagram r) of
        Inl e \<Rightarrow> False
      | Inr p \<Rightarrow>
          packet_key r (p_header p) = I \<and>
          (h_packet_type (p_header p) = STREAM_INFO \<longrightarrow> \<not> isl (stream_info_decode (p_payload p))) \<and>
          (h_packet_type (p_header p) = SHOT_END \<longrightarrow> \<not> isl (shot_end_decode (p_payload p))))"

definition clashes :: "jrecord \<Rightarrow> jrecord \<Rightarrow> bool" where
  "clashes r r' =
     (case (packet_decode (jr_datagram r), packet_decode (jr_datagram r')) of
        (Inr p, Inr q) \<Rightarrow>
          jr_datagram r \<noteq> jr_datagram r' \<and>
          (h_packet_sequence (p_header p) = h_packet_sequence (p_header q) \<or>
           h_packet_type (p_header p) = h_packet_type (p_header q) \<and>
             (h_packet_type (p_header p) = STREAM_INFO \<or> h_packet_type (p_header p) = SHOT_END))
      | _ \<Rightarrow> False)"

definition clean_arrival :: "identity \<Rightarrow> jrecord list \<Rightarrow> bool" where
  "clean_arrival I rs \<longleftrightarrow>
     list_all (clean_record I) rs \<and> list_all (\<lambda>r. list_all (\<lambda>r'. \<not> clashes r r') rs) rs \<and>
     list_ex selects rs \<and> length (takeWhile (\<lambda>r. \<not> selects r) rs) \<le> MAX_PENDING_DATAGRAMS"

subsection \<open>Every clean arrival routes every datagram\<close>

lemma accept_packet_total:
  "accept_packet p d (a\<lparr>a_total_datagrams := t\<rparr>) = (accept_packet p d a)\<lparr>a_total_datagrams := t\<rparr>"
  by (cases "h_packet_type (p_header p)")
    (auto simp: accept_packet_def accept_new_def accept_stream_info_def accept_shot_end_def
      add_error_def Let_def split: option.splits sum.splits)

lemma route_total:
  "route item (a\<lparr>a_total_datagrams := t\<rparr>) = (route item a)\<lparr>a_total_datagrams := t\<rparr>"
  by (auto simp: route_def add_error_def accept_packet_total split: prod.splits option.splits)

lemma fold_route_total:
  "fold route items (a\<lparr>a_total_datagrams := t\<rparr>) = (fold route items a)\<lparr>a_total_datagrams := t\<rparr>"
  by (induction items arbitrary: a) (simp_all add: route_total)

lemma ingest_routed:
  "a_identity a \<noteq> None \<Longrightarrow>
     fold ingest rs a = (fold route (map item_of rs) a)\<lparr>a_total_datagrams := a_total_datagrams a + int (length rs)\<rparr>"
proof (induction rs arbitrary: a)
  case (Cons r rs)
  define b where "b = a\<lparr>a_total_datagrams := a_total_datagrams a + 1\<rparr>"
  have step: "ingest r a = route (item_of r) b"
    using Cons.prems by (simp add: ingest_cases b_def Let_def)
  have id: "a_identity (route (item_of r) b) \<noteq> None"
    and tot: "a_total_datagrams (route (item_of r) b) = a_total_datagrams a + 1"
    using Cons.prems route_accounting[of b "item_of r"] by (simp_all add: b_def)
  have "fold ingest (r # rs) a = fold ingest rs (route (item_of r) b)" by (simp add: step)
  also have "\<dots> = (fold route (map item_of rs) (route (item_of r) b))
      \<lparr>a_total_datagrams := a_total_datagrams a + 1 + int (length rs)\<rparr>"
    using Cons.IH[OF id] tot by simp
  also have "route (item_of r) b = (route (item_of r) a)\<lparr>a_total_datagrams := a_total_datagrams a + 1\<rparr>"
    by (simp add: b_def route_total)
  finally show ?case by (simp add: fold_route_total ac_simps)
qed simp

lemma ingest_unselected:
  assumes "\<forall>r \<in> set rs. \<not> selects r" "length rs \<le> MAX_PENDING_DATAGRAMS"
  shows "ingest_all rs =
    assembler_init\<lparr>a_total_datagrams := int (length rs), a_pending := map item_of rs\<rparr>"
  using assms
proof (induction rs rule: rev_induct)
  case Nil
  then show ?case by (simp add: assembler_init_def)
next
  case (snoc r rs)
  then show ?case
    by (simp add: ingest_all_snoc ingest_cases save_pending_def assembler_init_def Let_def)
qed

lemma clean_arrival_routed:
  assumes "clean_arrival I rs"
  shows "\<exists>t. ingest_all rs =
    (fold route (map item_of rs) (assembler_init\<lparr>a_identity := Some I\<rparr>))\<lparr>a_total_datagrams := t\<rparr>"
proof -
  obtain pre r post where rs: "rs = pre @ r # post" "\<forall>x \<in> set pre. \<not> selects x" "selects r"
    using assms split_list_first_prop[of rs selects] by (auto simp: clean_arrival_def list_ex_iff)
  have "takeWhile (\<lambda>r. \<not> selects r) rs = pre"
    using rs by (simp add: takeWhile_append2 takeWhile_tail)
  then have len: "length pre \<le> MAX_PENDING_DATAGRAMS"
    using assms by (simp add: clean_arrival_def)
  obtain p where p: "packet_decode (jr_datagram r) = Inr p" "packet_key r (p_header p) = I"
    using assms rs(1) by (auto simp: clean_arrival_def clean_record_def split: sum.splits)
  have hd: "header_decode (jr_datagram r) = Inr (p_header p)"
    using packet_decode_valid(3)[OF p(1)] .
  have item: "item_of r = (r, Some (p_header p), Some p, None)"
    using p hd by (simp add: item_of_def)
  define a where "a = ingest_all pre"
  have a: "a_identity a = None" "a_pending a = map item_of pre"
      "a\<lparr>a_total_datagrams := t, a_identity := i, a_pending := []\<rparr> =
       assembler_init\<lparr>a_identity := i, a_total_datagrams := t\<rparr>" for t i
    using ingest_unselected[OF rs(2) len] by (simp_all add: a_def assembler_init_def)
  have "ingest r a = fold route (map item_of (pre @ [r]))
      (assembler_init\<lparr>a_identity := Some I, a_total_datagrams := a_total_datagrams a + 1\<rparr>)"
    using a rs(3) p item by (simp add: ingest_cases select_shot_alt Let_def)
  then obtain t where sel: "ingest r a =
      (fold route (map item_of (pre @ [r])) (assembler_init\<lparr>a_identity := Some I\<rparr>))\<lparr>a_total_datagrams := t\<rparr>"
    unfolding fold_route_total by blast
  have "a_identity (ingest r a) \<noteq> None"
    unfolding sel
    using fold_route_accounting[of "assembler_init\<lparr>a_identity := Some I\<rparr>" "map item_of (pre @ [r])"]
    by (simp del: map_append fold_append)
  then have "fold ingest post (ingest r a) = (fold route (map item_of post) (ingest r a))
      \<lparr>a_total_datagrams := a_total_datagrams (ingest r a) + int (length post)\<rparr>"
    by (rule ingest_routed)
  then have "\<exists>t. fold ingest post (ingest r a) =
      (fold route (map item_of rs) (assembler_init\<lparr>a_identity := Some I\<rparr>))\<lparr>a_total_datagrams := t\<rparr>"
    unfolding sel fold_route_total by (auto simp: rs(1))
  moreover have "ingest_all rs = fold ingest post (ingest r a)"
    by (simp add: a_def ingest_all_def rs(1))
  ultimately show ?thesis by simp
qed

subsection \<open>What a clean arrival stores\<close>

definition pk :: "bytes \<Rightarrow> packet" where
  "pk d = (case packet_decode d of Inr p \<Rightarrow> p | Inl e \<Rightarrow> undefined)"

abbreviation type_of :: "bytes \<Rightarrow> packet_type" where
  "type_of d \<equiv> h_packet_type (p_header (pk d))"

abbreviation seq_of :: "bytes \<Rightarrow> int" where
  "seq_of d \<equiv> h_packet_sequence (p_header (pk d))"

text \<open>The state after routing the datagrams \<open>D\<close> of a clean arrival, counters apart.\<close>

definition clean_state :: "identity \<Rightarrow> bytes set \<Rightarrow> assembler \<Rightarrow> bool" where
  "clean_state I D a \<longleftrightarrow>
     a_identity a = Some I \<and> a_protocol_errors a = [] \<and> a_malformed_selected a = 0 \<and>
     a_conflicting_duplicates a = 0 \<and> a_pending_overflow a = 0 \<and>
     set (a_seen_sequences a) = (\<lambda>d. (seq_of d, sha256 d)) ` D \<and>
     distinct (map fst (a_seen_sequences a)) \<and>
     set (a_data_packets a) = (\<lambda>d. (seq_of d, pk d)) ` {d \<in> D. type_of d = DATA} \<and>
     (\<forall>h. a_stream_info_header a = Some h \<longleftrightarrow>
        (\<exists>d \<in> D. type_of d = STREAM_INFO \<and> h = p_header (pk d))) \<and>
     (\<forall>i. a_stream_info a = Some i \<longleftrightarrow>
        (\<exists>d \<in> D. type_of d = STREAM_INFO \<and> stream_info_decode (p_payload (pk d)) = Inr i)) \<and>
     (\<forall>h. a_shot_end_header a = Some h \<longleftrightarrow>
        (\<exists>d \<in> D. type_of d = SHOT_END \<and> h = p_header (pk d))) \<and>
     (\<forall>e. a_shot_end a = Some e \<longleftrightarrow>
        (\<exists>d \<in> D. type_of d = SHOT_END \<and> shot_end_decode (p_payload (pk d)) = Inr e))"

text \<open>Datagrams of a clean arrival: valid payloads, and no two that clash.\<close>

definition clean_datagrams :: "bytes set \<Rightarrow> bool" where
  "clean_datagrams D \<longleftrightarrow>
     (\<forall>d \<in> D. (type_of d = STREAM_INFO \<longrightarrow> (\<exists>i. stream_info_decode (p_payload (pk d)) = Inr i)) \<and>
        (type_of d = SHOT_END \<longrightarrow> (\<exists>e. shot_end_decode (p_payload (pk d)) = Inr e))) \<and>
     (\<forall>d \<in> D. \<forall>d' \<in> D. seq_of d = seq_of d' \<longrightarrow> d = d') \<and>
     (\<forall>d \<in> D. \<forall>d' \<in> D. type_of d = STREAM_INFO \<longrightarrow> type_of d' = STREAM_INFO \<longrightarrow> d = d') \<and>
     (\<forall>d \<in> D. \<forall>d' \<in> D. type_of d = SHOT_END \<longrightarrow> type_of d' = SHOT_END \<longrightarrow> d = d')"

lemma clean_record_facts:
  assumes "clean_record I r"
  shows "packet_decode (jr_datagram r) = Inr (pk (jr_datagram r))"
    and "packet_key r (p_header (pk (jr_datagram r))) = I"
    and "item_of r = (r, Some (p_header (pk (jr_datagram r))), Some (pk (jr_datagram r)), None)"
    and "type_of (jr_datagram r) = STREAM_INFO \<Longrightarrow>
      \<exists>i. stream_info_decode (p_payload (pk (jr_datagram r))) = Inr i"
    and "type_of (jr_datagram r) = SHOT_END \<Longrightarrow>
      \<exists>e. shot_end_decode (p_payload (pk (jr_datagram r))) = Inr e"
proof -
  from assms obtain p where p: "packet_decode (jr_datagram r) = Inr p" "packet_key r (p_header p) = I"
      "h_packet_type (p_header p) = STREAM_INFO \<longrightarrow> \<not> isl (stream_info_decode (p_payload p))"
      "h_packet_type (p_header p) = SHOT_END \<longrightarrow> \<not> isl (shot_end_decode (p_payload p))"
    by (auto simp: clean_record_def split: sum.splits)
  have eq: "pk (jr_datagram r) = p" by (simp add: pk_def p(1))
  show "packet_decode (jr_datagram r) = Inr (pk (jr_datagram r))"
    "packet_key r (p_header (pk (jr_datagram r))) = I"
    using p eq by simp_all
  show "item_of r = (r, Some (p_header (pk (jr_datagram r))), Some (pk (jr_datagram r)), None)"
    using p(1) packet_decode_valid(3)[OF p(1)] eq by (simp add: item_of_def)
  show "type_of (jr_datagram r) = STREAM_INFO \<Longrightarrow>
      \<exists>i. stream_info_decode (p_payload (pk (jr_datagram r))) = Inr i"
    using p(3) eq by (cases "stream_info_decode (p_payload p)") auto
  show "type_of (jr_datagram r) = SHOT_END \<Longrightarrow>
      \<exists>e. shot_end_decode (p_payload (pk (jr_datagram r))) = Inr e"
    using p(4) eq by (cases "shot_end_decode (p_payload p)") auto
qed

lemma clean_arrival_datagrams:
  assumes "clean_arrival I rs"
  shows "clean_datagrams (jr_datagram ` set rs)"
proof -
  have c: "clean_record I r" if "r \<in> set rs" for r
    using assms that by (simp add: clean_arrival_def list_all_iff)
  have n: "\<not> clashes r r'" if "r \<in> set rs" "r' \<in> set rs" for r r'
    using assms that by (simp add: clean_arrival_def list_all_iff)
  have sep: "jr_datagram r = jr_datagram r'"
    if "r \<in> set rs" "r' \<in> set rs"
      "seq_of (jr_datagram r) = seq_of (jr_datagram r') \<or>
       type_of (jr_datagram r) = type_of (jr_datagram r') \<and>
         (type_of (jr_datagram r) = STREAM_INFO \<or> type_of (jr_datagram r) = SHOT_END)" for r r'
    using n[OF that(1,2)] that(3) clean_record_facts(1)[OF c[OF that(1)]]
      clean_record_facts(1)[OF c[OF that(2)]]
    by (auto simp: clashes_def)
  then show ?thesis
    using clean_record_facts(4,5)[OF c] unfolding clean_datagrams_def by auto
qed

lemma clean_route_seen:
  assumes "clean_state I D a" "jr_datagram r \<in> D" "clean_record I r"
  shows "clean_state I D (route (item_of r) a)"
proof -
  let ?d = "jr_datagram r"
  have "(seq_of ?d, sha256 ?d) \<in> set (a_seen_sequences a)"
    using assms(1,2) by (simp add: clean_state_def)
  then have "map_of (a_seen_sequences a) (seq_of ?d) = Some (sha256 ?d)"
    using assms(1) by (simp add: clean_state_def)
  moreover have "a_identity a = Some I" using assms(1) by (simp add: clean_state_def)
  ultimately have "route (item_of r) a = a\<lparr>a_duplicate_packets := a_duplicate_packets a + 1\<rparr>"
    using clean_record_facts(2,3)[OF assms(3)] by (simp add: route_def accept_packet_def Let_def)
  then show ?thesis using assms(1) by (simp add: clean_state_def)
qed

lemma clean_accept_new:
  assumes st: "clean_state I D a" and new: "d \<notin> D" and cd: "clean_datagrams (insert d D)"
  shows "clean_state I (insert d D) (accept_new (pk d) (sha256 d) a)"
proof -
  define b where "b = note_arrival (pk d) (sha256 d) a"
  have sq: "seq_of d \<notin> seq_of ` D"
    using cd new unfolding clean_datagrams_def by blast
  then have "seq_of d \<notin> fst ` set (a_seen_sequences a)" "seq_of d \<notin> fst ` set (a_data_packets a)"
    using st by (auto simp: clean_state_def image_image)
  then have seen: "a_seen_sequences b = a_seen_sequences a @ [(seq_of d, sha256 d)]"
    and upd: "AList.update (seq_of d) (pk d) (a_data_packets a) = a_data_packets a @ [(seq_of d, pk d)]"
    by (simp_all add: b_def note_arrival_def Let_def update_new)
  have dist: "distinct (map fst (a_seen_sequences b))"
    using st \<open>seq_of d \<notin> fst ` set (a_seen_sequences a)\<close> by (simp add: seen clean_state_def)
  show ?thesis
  proof (cases "type_of d")
    case STREAM_INFO
    then obtain i where i: "stream_info_decode (p_payload (pk d)) = Inr i"
      using cd by (auto simp: clean_datagrams_def)
    have none: "\<not> (\<exists>x \<in> D. type_of x = STREAM_INFO)"
      using cd new STREAM_INFO unfolding clean_datagrams_def by blast
    then have "a_stream_info a = None" "a_stream_info_header a = None"
      using st by (auto simp: clean_state_def intro: not_Some_eq[THEN iffD1])
    then have "accept_new (pk d) (sha256 d) a =
        b\<lparr>a_stream_info_header := Some (p_header (pk d)), a_stream_info := Some i\<rparr>"
      using STREAM_INFO i by (simp add: accept_new_split dispatch_def accept_stream_info_def b_def)
    then show ?thesis
      using st none STREAM_INFO i seen dist by (auto simp: clean_state_def b_def)
  next
    case DATA
    then have "accept_new (pk d) (sha256 d) a = b\<lparr>a_data_packets := a_data_packets a @ [(seq_of d, pk d)]\<rparr>"
      by (simp add: accept_new_split dispatch_def b_def upd)
    then show ?thesis
      using st DATA seen dist by (auto simp: clean_state_def b_def)
  next
    case SHOT_END
    then obtain e where e: "shot_end_decode (p_payload (pk d)) = Inr e"
      using cd by (auto simp: clean_datagrams_def)
    have none: "\<not> (\<exists>x \<in> D. type_of x = SHOT_END)"
      using cd new SHOT_END unfolding clean_datagrams_def by blast
    then have "a_shot_end a = None" "a_shot_end_header a = None"
      using st by (auto simp: clean_state_def intro: not_Some_eq[THEN iffD1])
    then have "accept_new (pk d) (sha256 d) a =
        b\<lparr>a_shot_end_header := Some (p_header (pk d)), a_shot_end := Some e\<rparr>"
      using SHOT_END e by (simp add: accept_new_split dispatch_def accept_shot_end_def b_def)
    then show ?thesis
      using st none SHOT_END e seen dist by (auto simp: clean_state_def b_def)
  next
    case HEARTBEAT
    then have "accept_new (pk d) (sha256 d) a = b"
      by (simp add: accept_new_split dispatch_def b_def)
    then show ?thesis
      using st HEARTBEAT seen dist by (auto simp: clean_state_def b_def)
  qed
qed

lemma clean_route:
  assumes "clean_state I D a" "clean_record I r" "clean_datagrams (insert (jr_datagram r) D)"
  shows "clean_state I (insert (jr_datagram r) D) (route (item_of r) a)"
proof (cases "jr_datagram r \<in> D")
  case True
  then show ?thesis
    using clean_route_seen[OF assms(1) True assms(2)] by (simp add: insert_absorb)
next
  case False
  let ?d = "jr_datagram r"
  have "seq_of ?d \<notin> seq_of ` D"
    using assms(3) False unfolding clean_datagrams_def by blast
  then have "map_of (a_seen_sequences a) (seq_of ?d) = None"
    using assms(1) by (simp add: clean_state_def map_of_None_iff image_image)
  moreover have "a_identity a = Some I" using assms(1) by (simp add: clean_state_def)
  ultimately have "route (item_of r) a = accept_new (pk ?d) (sha256 ?d) a"
    using clean_record_facts(2,3)[OF assms(2)] by (simp add: route_def accept_packet_def Let_def)
  then show ?thesis
    using clean_accept_new[OF assms(1) False assms(3)] by simp
qed

lemma clean_datagrams_subset: "clean_datagrams D \<Longrightarrow> E \<subseteq> D \<Longrightarrow> clean_datagrams E"
  unfolding clean_datagrams_def by blast

lemma clean_fold:
  assumes "list_all (clean_record I) rs" "clean_datagrams (jr_datagram ` set rs)"
  shows "clean_state I (jr_datagram ` set rs)
    (fold route (map item_of rs) (assembler_init\<lparr>a_identity := Some I\<rparr>))"
  using assms
proof (induction rs rule: rev_induct)
  case Nil
  then show ?case by (simp add: clean_state_def assembler_init_def)
next
  case (snoc r rs)
  have sub: "clean_datagrams (insert (jr_datagram r) (jr_datagram ` set rs))"
    using snoc.prems(2) by simp
  have "clean_state I (jr_datagram ` set rs)
      (fold route (map item_of rs) (assembler_init\<lparr>a_identity := Some I\<rparr>))"
    using snoc.IH snoc.prems(1) clean_datagrams_subset[OF sub] by auto
  from clean_route[OF this _ sub] show ?case
    using snoc.prems(1) by simp
qed

lemma clean_ingest_all:
  assumes "clean_arrival I rs"
  shows "clean_state I (jr_datagram ` set rs) (ingest_all rs)"
proof -
  have "clean_state I (jr_datagram ` set rs)
      (fold route (map item_of rs) (assembler_init\<lparr>a_identity := Some I\<rparr>))"
    using assms clean_arrival_datagrams[OF assms] by (intro clean_fold) (simp_all add: clean_arrival_def)
  moreover obtain t where "ingest_all rs =
      (fold route (map item_of rs) (assembler_init\<lparr>a_identity := Some I\<rparr>))\<lparr>a_total_datagrams := t\<rparr>"
    using clean_arrival_routed[OF assms] by blast
  ultimately show ?thesis by (simp add: clean_state_def)
qed

lemma strictly_sorted_keys_eq:
  fixes xs ys :: "('k::linorder \<times> 'v) list"
  assumes "sorted_wrt (<) (map fst xs)" "sorted_wrt (<) (map fst ys)" "set xs = set ys"
  shows "xs = ys"
proof -
  have "map fst xs = map fst ys"
    using assms by (intro sorted_distinct_set_unique) (auto simp: strict_sorted_iff)
  moreover have "distinct (map fst ys)" using assms(2) by (simp add: strict_sorted_iff)
  ultimately show ?thesis
    using keyed_list_eq[of ys xs] assms(3) by simp
qed

lemma clean_states_complete:
  assumes "clean_state I D a" "clean_state I' D b" "stored a" "stored b"
  shows "ordered_data a = ordered_data b" "shot_complete a = shot_complete b"
proof -
  have "set (ordered_data a) = set (ordered_data b)"
    using assms(1,2) by (simp add: ordered_data_def clean_state_def)
  then show od: "ordered_data a = ordered_data b"
    using strictly_sorted_keys_eq ordered_data_props(2) assms(3,4) by metis
  have opt: "x = y" if "\<And>v. x = Some v \<longleftrightarrow> y = Some v" for x y :: "'z option"
    using that by (metis option.exhaust)
  have "a_stream_info_header a = a_stream_info_header b"
    by (rule opt) (use assms(1,2) in \<open>simp add: clean_state_def\<close>)
  moreover have "a_stream_info a = a_stream_info b"
    by (rule opt) (use assms(1,2) in \<open>simp add: clean_state_def\<close>)
  moreover have "a_shot_end_header a = a_shot_end_header b"
    by (rule opt) (use assms(1,2) in \<open>simp add: clean_state_def\<close>)
  moreover have "a_shot_end a = a_shot_end b"
    by (rule opt) (use assms(1,2) in \<open>simp add: clean_state_def\<close>)
  moreover have "set (a_seen_sequences a) = set (a_seen_sequences b)"
    using assms(1,2) by (simp add: clean_state_def)
  ultimately show "shot_complete a = shot_complete b"
    using assms(1,2) od by (simp add: shot_complete_def clean_state_def)
qed

lemma clean_arrivals_release:
  assumes "clean_arrival I rs" "clean_arrival I' rs'"
    and "jr_datagram ` set rs = jr_datagram ` set rs'"
  shows "fst (finalize (ingest_all rs)) = fst (finalize (ingest_all rs'))"
proof -
  have a: "clean_state I (jr_datagram ` set rs) (ingest_all rs)" using clean_ingest_all assms(1) .
  have b: "clean_state I' (jr_datagram ` set rs) (ingest_all rs')"
    using clean_ingest_all[OF assms(2)] assms(3) by simp
  note eq = clean_states_complete[OF a b ingest_all_stored ingest_all_stored]
  have "fst (finalize (ingest_all rs)) = Some s \<longleftrightarrow> fst (finalize (ingest_all rs')) = Some s" for s
    unfolding finalize_release[OF ingest_all_stored] eq ..
  then show ?thesis by (metis option.exhaust)
qed

lemma clean_shot_complete:
  assumes "clean_arrival I rs"
    and "di \<in> jr_datagram ` set rs" "type_of di = STREAM_INFO"
      "stream_info_decode (p_payload (pk di)) = Inr info"
    and "de \<in> jr_datagram ` set rs" "type_of de = SHOT_END"
      "shot_end_decode (p_payload (pk de)) = Inr end"
    and "seq_of ` jr_datagram ` set rs = {seq_of di..seq_of de}"
    and "sorted_wrt (<) (map fst data)"
      "set data = (\<lambda>d. (seq_of d, pk d)) ` {d \<in> jr_datagram ` set rs. type_of d = DATA}"
    and "data_complete info end data"
  shows "fst (finalize (ingest_all rs)) = Some (payload_by_sequence data)"
proof -
  let ?D = "jr_datagram ` set rs"
  define a where "a = ingest_all rs"
  have st: "clean_state I ?D a" using clean_ingest_all[OF assms(1)] by (simp only: a_def)
  have stored: "stored a" unfolding a_def by (rule ingest_all_stored)
  have "set (ordered_data a) = set data"
    using st assms(10) by (simp add: ordered_data_def clean_state_def)
  then have od: "ordered_data a = data"
    using strictly_sorted_keys_eq ordered_data_props(2)[OF stored] assms(9) by blast
  have parts: "a_stream_info a = Some info" "a_stream_info_header a = Some (p_header (pk di))"
      "a_shot_end a = Some end" "a_shot_end_header a = Some (p_header (pk de))"
    using st assms(2-7) unfolding clean_state_def by blast+
  have basics: "a_identity a \<noteq> None \<and> a_protocol_errors a = [] \<and> a_malformed_selected a = 0 \<and>
      a_conflicting_duplicates a = 0 \<and> a_pending_overflow a = 0"
    using st by (simp add: clean_state_def)
  have "set (a_seen_sequences a) = (\<lambda>d. (seq_of d, sha256 d)) ` ?D"
    using st unfolding clean_state_def by (elim conjE)
  then have "fst ` set (a_seen_sequences a) = seq_of ` ?D"
    by (simp only: image_image fst_conv)
  then have seen: "fst ` set (a_seen_sequences a) = {seq_of di..seq_of de}"
    using assms(8) by simp
  have le: "seq_of di \<le> seq_of de"
    using assms(2,8) by (metis atLeastatMost_empty_iff empty_iff imageI)
  have "shot_complete a"
    unfolding shot_complete_def od using basics parts seen le assms(11) by blast
  then show ?thesis
    using finalize_release[OF stored] od by (simp add: a_def)
qed

lemma released_size:
  assumes "fst (finalize (ingest_all rs)) = Some samples"
  shows "\<exists>info frames. a_stream_info (ingest_all rs) = Some info \<and>
    int (length samples) = 4 * int frames * si_frame_samples info \<and> 0 < frames"
proof -
  define a where "a = ingest_all rs"
  have r: "shot_complete a" "samples = payload_by_sequence (ordered_data a)"
    using assms finalize_release[OF ingest_all_stored] by (auto simp: a_def)
  then obtain info f0 frames where f: "a_stream_info a = Some info" "ordered_data a \<noteq> []"
      "framed (si_frame_samples info) (ordered_data a) f0 frames"
    by (auto simp: shot_complete_def data_complete_def)
  have ok: "stored_ok (ordered_data a)"
    using ordered_data_props(1)[OF ingest_all_stored] by (simp add: a_def)
  have bytes: "int (length (payload_by_sequence data)) = 4 * total_samples data"
    if "\<forall>(s, p) \<in> set data. int (length (p_payload p)) = 4 * h_sample_count (p_header p)" for data
    using that by (induction data) (auto simp: payload_by_sequence_def total_samples_def)
  have tot: "total_samples (concat frs) = int (length frs) * n"
    if "\<forall>k < length frs. total_samples (frs ! k) = n" for frs n
    using that
  proof (induction frs)
    case (Cons fr frs)
    have "total_samples fr = n" using Cons.prems[rule_format, of 0] by simp
    moreover have "\<forall>k < length frs. total_samples (frs ! k) = n"
      using Cons.prems by (metis Suc_less_eq length_Cons nth_Cons_Suc)
    ultimately show ?case
      using Cons.IH by (simp add: total_samples_def distrib_right)
  qed (simp add: total_samples_def)
  have "total_samples (ordered_data a) = int (length frames) * si_frame_samples info"
    using f(3) sum_samples_tiles tot[of frames "si_frame_samples info"]
    by (fastforce simp: framed_def frame_ok_def)
  moreover have "int (length samples) = 4 * total_samples (ordered_data a)"
    unfolding r(2) by (rule bytes) (use ok in \<open>auto simp: stored_ok_def\<close>)
  moreover have "0 < length frames"
    using f(2,3) by (auto simp: framed_def)
  ultimately show ?thesis
    using f(1) by (intro exI[of _ info] exI[of _ "length frames"]) (simp add: a_def)
qed

section \<open>Properties\<close>

text \<open>
  C10. Accounting, after any sequence of datagrams: every datagram is counted once, as
  accepted, foreign, malformed (selected or not), duplicate, conflicting, still pending or
  dropped from the pending queue; the queue never exceeds 4096 entries and is empty once a
  shot is selected; the accepted packets are the distinct sequence numbers seen, and their
  per-type counters add up.
\<close>

theorem datagram_accounting:
  "let a = ingest_all rs in
     a_total_datagrams a = int (length rs) \<and>
     a_total_datagrams a = counted a + int (length (a_pending a)) + a_pending_overflow a \<and>
     length (a_pending a) \<le> 4096 \<and> (a_identity a = None \<or> a_pending a = []) \<and>
     distinct (map fst (a_seen_sequences a)) \<and>
     a_valid_selected_packets a = int (length (a_seen_sequences a)) \<and>
     sum_list (map snd (a_packet_types a)) = a_valid_selected_packets a"
  using ingest_all_accounting[of rs] ingest_all_stored[of rs] ingest_all_total[of rs]
  unfolding accounting_def stored_def MAX_PENDING_DATAGRAMS_def Let_def by blast

text \<open>
  C11. What a release means, and that nothing complete is withheld: after any sequence of
  datagrams \<open>finalize\<close> returns samples exactly when the shot is complete (metadata and
  trailer present, no protocol error, collision or overflow, every sequence number between
  them seen and none outside, the data a concatenation of whole consecutive frames, clean
  flags, and the sender's totals and CRC in agreement), and the samples are then the payloads
  in sequence order.
\<close>

theorem finalize_releases_exactly_complete_shots:
  "fst (finalize (ingest_all rs)) = Some samples \<longleftrightarrow>
     shot_complete (ingest_all rs) \<and> samples = payload_by_sequence (ordered_data (ingest_all rs))"
  by (rule finalize_release[OF ingest_all_stored])

text \<open>
  C12. Order, duplication and timing do not matter: two arrivals of the same set of datagrams,
  each clean (one shot, no conflicting contents, at most 4096 datagrams before the metadata),
  release the same samples or both release none.
\<close>

theorem arrival_order_irrelevant:
  assumes "clean_arrival I rs" "clean_arrival I' rs'"
    and "jr_datagram ` set rs = jr_datagram ` set rs'"
  shows "fst (finalize (ingest_all rs)) = fst (finalize (ingest_all rs'))"
  using assms by (rule clean_arrivals_release)

definition si_datagram :: bytes where
  "si_datagram =
     [81, 67, 68, 80, 0, 1, 0, 64, 0, 1, 0, 2, 0, 0, 0, 0, 0, 0, 0, 7, 0, 0, 0, 0,
      0, 0, 0, 1, 0, 0, 0, 0, 0, 0, 0, 3, 0, 0, 0, 0, 0, 0, 0, 10, 0, 0, 0, 0,
      0, 0, 0, 0, 0, 0, 0, 4, 0, 0, 0, 0, 0, 0, 0, 0, 0, 1, 0, 64, 0, 0, 0, 2,
      0, 0, 0, 0, 0, 0, 0, 1, 0, 0, 0, 0, 0, 0, 0, 1, 0, 0, 0, 0, 0, 0, 0, 1,
      0, 0, 0, 0, 0, 0, 0, 1, 0, 0, 0, 0, 0, 0, 0, 0, 0, 1, 0, 16, 0, 15, 0, 1,
      0, 0, 0, 0, 0, 0, 0, 9]"

definition data_datagram :: bytes where
  "data_datagram =
     [81, 67, 68, 80, 0, 1, 0, 64, 0, 2, 0, 2, 0, 0, 0, 6, 0, 0, 0, 7, 0, 0, 0, 0,
      0, 0, 0, 1, 0, 0, 0, 0, 0, 0, 0, 3, 0, 0, 0, 0, 0, 0, 0, 11, 0, 0, 0, 5,
      0, 0, 0, 0, 0, 2, 0, 4, 0, 0, 0, 0, 0, 0, 0, 0, 1, 2, 3, 4, 5, 6, 7, 8]"

definition end_datagram :: bytes where
  "end_datagram =
     [81, 67, 68, 80, 0, 1, 0, 64, 0, 3, 0, 0, 0, 0, 0, 0, 0, 0, 0, 7, 0, 0, 0, 0,
      0, 0, 0, 1, 0, 0, 0, 0, 0, 0, 0, 3, 0, 0, 0, 0, 0, 0, 0, 12, 0, 0, 0, 0,
      0, 0, 0, 0, 0, 0, 0, 0, 0, 0, 0, 0, 0, 0, 0, 0, 0, 0, 0, 0, 0, 0, 0, 144,
      0, 0, 0, 1, 0, 0, 0, 0, 0, 0, 0, 0, 0, 0, 0, 2, 0, 0, 0, 0, 0, 0, 0, 1,
      0, 0, 0, 0, 0, 0, 0, 11, 0, 0, 0, 0, 0, 0, 0, 11, 0, 0, 0, 0, 0, 0, 0, 8,
      63, 202, 136, 197, 0, 0, 0, 0]"

definition arrived :: "int \<Rightarrow> bytes \<Rightarrow> jrecord" where
  "arrived ns d = \<lparr>jr_receive_monotonic_ns = ns, jr_source_address = IPv4 [10, 0, 0, 2],
     jr_source_port = 47000, jr_datagram = d\<rparr>"

definition example_identity :: identity where
  "example_identity = (IPv4 [10, 0, 0, 2], 47000, 1, 7, 3)"

definition in_order :: "jrecord list" where
  "in_order = [arrived 1 si_datagram, arrived 2 data_datagram, arrived 3 end_datagram]"

definition shuffled :: "jrecord list" where
  "shuffled = [arrived 5 end_datagram, arrived 6 data_datagram, arrived 7 si_datagram,
     arrived 8 data_datagram, arrived 9 si_datagram]"

lemma in_order_clean: "clean_arrival example_identity in_order"
  by code_simp

lemma shuffled_clean: "clean_arrival example_identity shuffled"
  by code_simp

theorem arrival_order_irrelevant_witness:
  "fst (finalize (ingest_all in_order)) = fst (finalize (ingest_all shuffled))"
  by (rule arrival_order_irrelevant[OF in_order_clean shuffled_clean])
    (auto simp: in_order_def shuffled_def arrived_def)

text \<open>
  C13. Every complete shot is released: if the datagrams of a clean arrival contain metadata
  and trailer, their sequence numbers fill the interval between the two, and the data packets
  in sequence order form whole consecutive frames that agree with the trailer, then
  \<open>finalize\<close> returns the concatenation of their payloads, whatever the order of arrival.
\<close>

theorem clean_shot_released:
  assumes "clean_arrival I rs"
    and "di \<in> jr_datagram ` set rs" "type_of di = STREAM_INFO"
      "stream_info_decode (p_payload (pk di)) = Inr info"
    and "de \<in> jr_datagram ` set rs" "type_of de = SHOT_END"
      "shot_end_decode (p_payload (pk de)) = Inr end"
    and "seq_of ` jr_datagram ` set rs = {seq_of di..seq_of de}"
    and "sorted_wrt (<) (map fst data)"
      "set data = (\<lambda>d. (seq_of d, pk d)) ` {d \<in> jr_datagram ` set rs. type_of d = DATA}"
    and "data_complete info end data"
  shows "fst (finalize (ingest_all rs)) = Some (payload_by_sequence data)"
  using assms by (rule clean_shot_complete)

definition example_info :: stream_info where
  "example_info =
     \<lparr>si_frame_samples = 2, si_sample_rate_numerator = 1, si_sample_rate_denominator = 1,
      si_timestamp_rate_numerator = 1, si_timestamp_rate_denominator = 1,
      si_center_frequency_hz = 0, si_channel_count = 1, si_component_bits = 16,
      si_fraction_bits = 15, si_timestamp_clock_id = QCRATE_TIMEBASE, si_config_id = 9\<rparr>"

definition example_end :: shot_end where
  "example_end =
     \<lparr>se_status = 0, se_end_flags = 144, se_total_frames = 1, se_total_samples = 2,
      se_total_data_packets = 1, se_first_packet_sequence = 11, se_last_packet_sequence = 11,
      se_payload_bytes = 8, se_payload_crc32 = 1070237893\<rparr>"

definition example_data :: "(int \<times> packet) list" where
  "example_data = [(11, pk data_datagram)]"

lemma example_types:
  "type_of si_datagram = STREAM_INFO" "type_of data_datagram = DATA" "type_of end_datagram = SHOT_END"
  "seq_of si_datagram = 10" "seq_of data_datagram = 11" "seq_of end_datagram = 12"
  by code_simp+

lemma example_info_decodes: "stream_info_decode (p_payload (pk si_datagram)) = Inr example_info"
  by code_simp

lemma example_end_decodes: "shot_end_decode (p_payload (pk end_datagram)) = Inr example_end"
  by code_simp

lemma example_payload: "payload_by_sequence example_data = [1, 2, 3, 4, 5, 6, 7, 8]"
  by code_simp

lemma example_data_nonempty: "example_data \<noteq> []"
  by (simp add: example_data_def)

lemma example_data_complete: "data_complete example_info example_end example_data"
proof -
  have "framed (si_frame_samples example_info) example_data 5 [example_data]"
  proof -
    have "frame_ok 2 5 example_data" by code_simp
    then show ?thesis by (simp add: framed_def example_info_def)
  qed
  moreover have "totals_agree example_end (int (length [example_data])) example_data"
    unfolding totals_agree_def
  proof (intro conjI impI)
    have "crc32 [1, 2, 3, 4, 5, 6, 7, 8] = 1070237893"
      by (simp add: crc32_eval)
    then show "se_payload_crc32 example_end = crc32 (payload_by_sequence example_data)"
      by (simp add: example_payload example_end_def)
  qed code_simp+
  moreover have "\<forall>(s, p) \<in> set example_data. h_flags (p_header p) AND integrity_mask = 0"
    by code_simp
  ultimately show ?thesis
    unfolding data_complete_def using example_data_nonempty by blast
qed

lemma shuffled_datagrams: "jr_datagram ` set shuffled = {si_datagram, data_datagram, end_datagram}"
  by (auto simp: shuffled_def arrived_def)

lemma example_only_data:
  "{d \<in> {si_datagram, data_datagram, end_datagram}. type_of d = DATA} = {data_datagram}"
  by (auto simp: example_types)

lemma shuffled_released: "fst (finalize (ingest_all shuffled)) = Some (payload_by_sequence example_data)"
proof (rule clean_shot_complete[OF shuffled_clean _ example_types(1) example_info_decodes _
    example_types(3) example_end_decodes _ _ _ example_data_complete])
  show "seq_of ` jr_datagram ` set shuffled = {seq_of si_datagram..seq_of end_datagram}"
    unfolding shuffled_datagrams by (auto simp: example_types)
  show "set example_data =
      (\<lambda>d. (seq_of d, pk d)) ` {d \<in> jr_datagram ` set shuffled. type_of d = DATA}"
    unfolding shuffled_datagrams example_only_data by (simp add: example_data_def example_types)
qed (simp_all add: shuffled_datagrams example_data_def)

theorem clean_shot_released_witness:
  "fst (finalize (ingest_all shuffled)) = Some [1, 2, 3, 4, 5, 6, 7, 8]"
  unfolding example_payload[symmetric]
proof (rule clean_shot_released[OF shuffled_clean _ example_types(1) example_info_decodes _
    example_types(3) example_end_decodes _ _ _ example_data_complete])
  show "seq_of ` jr_datagram ` set shuffled = {seq_of si_datagram..seq_of end_datagram}"
    unfolding shuffled_datagrams by (auto simp: example_types)
  show "set example_data =
      (\<lambda>d. (seq_of d, pk d)) ` {d \<in> jr_datagram ` set shuffled. type_of d = DATA}"
    unfolding shuffled_datagrams example_only_data by (simp add: example_data_def example_types)
qed (simp_all add: shuffled_datagrams example_data_def)

text \<open>
  C14. Released samples have the announced shape: whenever samples are returned, they are a
  positive number of frames of the announced length, four bytes per sample.
\<close>

theorem released_samples_shape:
  assumes "fst (finalize (ingest_all rs)) = Some samples"
  shows "\<exists>info frames. a_stream_info (ingest_all rs) = Some info \<and>
    int (length samples) = 4 * int frames * si_frame_samples info \<and> 0 < frames"
  using assms by (rule released_size)

theorem released_samples_shape_witness:
  "\<exists>info frames. a_stream_info (ingest_all shuffled) = Some info \<and>
    int (length (payload_by_sequence example_data)) = 4 * int frames * si_frame_samples info \<and> 0 < frames"
  by (rule released_samples_shape[OF shuffled_released])

end
