(* ===== verification/Receiver.thy ===== *)
theory Receiver
  imports ShotArrival Journal Complex_Main
begin

text \<open>
  The two commands of \<open>host/data_plane/qcrate_receiver.py\<close>: \<open>receive\<close>, which journals and
  ingests datagrams until the shot ends or a timeout expires, and \<open>replay\<close>, which re-reads a
  journal.  The socket and the clock are an explicit list of loop iterations, each with the
  time read at its start and what \<open>recvmsg\<close> returned; times are rational seconds.
\<close>

section \<open>Output directory and bundle\<close>

datatype fs_entry = Absent | PlainFile | Directory "string list"

datatype receive_error =
    NotADirectory
  | DirectoryNotEmpty
  | TruncatedDatagram
  | JournalFailure journal_error

definition prepare_output :: "fs_entry \<Rightarrow> receive_error + fs_entry" where
  "prepare_output path =
     (case path of
        Absent \<Rightarrow> Inr (Directory [])
      | PlainFile \<Rightarrow> Inl NotADirectory
      | Directory entries \<Rightarrow> if entries \<noteq> [] then Inl DirectoryNotEmpty else Inr (Directory []))"




section \<open>The receive loop\<close>

record receive_args =
  ra_source :: "ip_address option"
  ra_wait_timeout :: rat
  ra_idle_timeout :: rat
  ra_end_grace_ms :: int

text \<open>
  \<open>recvmsg\<close>: a timeout, or a datagram with the truncation flag, the kernel's drop counter when
  the ancillary data holds it, the clock after the call, the sender, and \<open>monotonic_ns\<close>.
\<close>

record received =
  rx_datagram :: bytes
  rx_truncated :: bool
  rx_drops :: "int option"
  rx_time :: rat
  rx_source :: ip_address
  rx_port :: int
  rx_ns :: int

type_synonym iteration = "rat \<times> received option"

record receiver =
  rc_assembler :: assembler
  rc_journal :: journal_writer
  rc_start :: rat
  rc_last_datagram :: rat
  rc_end_seen_at :: "rat option"
  rc_kernel_drop_counter :: int

datatype outcome = Waiting | Finished | Failed receive_error

definition note_end :: "rat \<Rightarrow> receiver \<Rightarrow> receiver" where
  "note_end now s =
     (if end_received (rc_assembler s) \<and> rc_end_seen_at s = None
      then s\<lparr>rc_end_seen_at := Some now\<rparr> else s)"

definition should_stop :: "receive_args \<Rightarrow> rat \<Rightarrow> receiver \<Rightarrow> bool" where
  "should_stop args now s =
     (if end_received (rc_assembler s)
      then now - the (rc_end_seen_at s) \<ge> of_int (ra_end_grace_ms args) / 1000
      else if a_total_datagrams (rc_assembler s) = 0
      then now - rc_start s \<ge> ra_wait_timeout args
      else now - rc_last_datagram s \<ge> ra_idle_timeout args)"

definition record_of :: "received \<Rightarrow> jrecord" where
  "record_of rx = \<lparr>jr_receive_monotonic_ns = rx_ns rx, jr_source_address = rx_source rx,
     jr_source_port = rx_port rx, jr_datagram = rx_datagram rx\<rparr>"

definition receive_datagram :: "receive_args \<Rightarrow> received \<Rightarrow> receiver \<Rightarrow> receive_error + receiver" where
  "receive_datagram args rx s =
     (if rx_truncated rx then Inl TruncatedDatagram
      else
        let s = s\<lparr>rc_kernel_drop_counter :=
                    (case rx_drops rx of Some n \<Rightarrow> max (rc_kernel_drop_counter s) n
                                       | None \<Rightarrow> rc_kernel_drop_counter s),
                  rc_last_datagram := rx_time rx\<rparr>
        in if (case ra_source args of Some a \<Rightarrow> rx_source rx \<noteq> a | None \<Rightarrow> False) then Inr s
           else
             (case journal_write (record_of rx) (rc_journal s) of
                Inl e \<Rightarrow> Inl (JournalFailure e)
              | Inr j \<Rightarrow> Inr (s\<lparr>rc_journal := j,
                              rc_assembler := ingest (record_of rx) (rc_assembler s)\<rparr>)))"

fun receive_loop :: "receive_args \<Rightarrow> iteration list \<Rightarrow> receiver \<Rightarrow> receiver \<times> outcome" where
  "receive_loop args [] s = (s, Waiting)"
| "receive_loop args ((now, rx) # its) s =
     (let s = note_end now s in
      if should_stop args now s then (s, Finished)
      else case rx of
        None \<Rightarrow> receive_loop args its s
      | Some r \<Rightarrow>
          (case receive_datagram args r s of
             Inl e \<Rightarrow> (s, Failed e)
           | Inr s' \<Rightarrow> receive_loop args its s'))"

definition receiver_init :: "rat \<Rightarrow> receiver" where
  "receiver_init start =
     \<lparr>rc_assembler = assembler_init,
      rc_journal = (case journal_enter journal_init of Inr w \<Rightarrow> w | Inl e \<Rightarrow> journal_init),
      rc_start = start, rc_last_datagram = start, rc_end_seen_at = None,
      rc_kernel_drop_counter = 0\<rparr>"




section \<open>The journal holds what was ingested\<close>


definition consistent :: "receiver \<Rightarrow> bool" where
  "consistent s \<longleftrightarrow>
     (\<exists>rs chunks. rc_assembler s = ingest_all rs \<and> map_res write_record rs = Inr chunks \<and>
        jw_file (rc_journal s) = Some (journal_header_bytes @ concat chunks) \<and>
        (\<forall>r \<in> set rs. ip_ok (jr_source_address r) \<and> ip_plain (jr_source_address r)))"


lemma note_end_consistent [simp]: "consistent (note_end now s) = consistent s"
  by (simp add: note_end_def consistent_def)




section \<open>The loop ends\<close>

lemma accept_shot_end_keeps: "a_shot_end a \<noteq> None \<Longrightarrow> a_shot_end (accept_shot_end p a) \<noteq> None"
  by (auto simp: accept_shot_end_def add_error_def split: sum.splits option.splits)

lemma dispatch_keeps_end: "a_shot_end a \<noteq> None \<Longrightarrow> a_shot_end (dispatch p a) \<noteq> None"
proof (cases "h_packet_type (p_header p)")
  case STREAM_INFO
  assume "a_shot_end a \<noteq> None"
  then show ?thesis
    using STREAM_INFO by (simp add: dispatch_def) (subst accept_stream_info_frame, simp)
qed (use accept_shot_end_keeps in \<open>auto simp: dispatch_def\<close>)

lemma route_keeps_end: "a_shot_end a \<noteq> None \<Longrightarrow> a_shot_end (route item a) \<noteq> None"
  using dispatch_keeps_end
  by (auto simp: route_def accept_packet_def accept_new_split add_error_def Let_def
      split: prod.splits option.splits)

lemma ingest_keeps_end: "end_received a \<Longrightarrow> end_received (ingest r a)"
proof -
  assume e: "end_received a"
  have f: "a_shot_end b \<noteq> None \<Longrightarrow> a_shot_end (fold route items b) \<noteq> None" for items b
    by (induction items arbitrary: b) (simp_all add: route_keeps_end del: not_None_eq)
  show ?thesis
    using e f route_keeps_end
    by (auto simp: end_received_def ingest_cases select_shot_def save_pending_def Let_def
        simp del: not_None_eq split: sum.splits)
qed

lemma receive_datagram_keeps_end:
  assumes "receive_datagram args rx s = Inr s'" "end_received (rc_assembler s)"
  shows "end_received (rc_assembler s') \<and> rc_end_seen_at s' = rc_end_seen_at s"
  using assms ingest_keeps_end
  by (auto simp: receive_datagram_def Let_def split: if_splits sum.splits option.splits)

lemma receive_loop_ends:
  assumes "end_received (rc_assembler s)" "rc_end_seen_at s = Some t"
    and "\<exists>(now, rx) \<in> set its. now - t \<ge> of_int (ra_end_grace_ms args) / 1000"
  shows "snd (receive_loop args its s) \<noteq> Waiting"
  using assms
proof (induction args its s rule: receive_loop.induct)
  case (2 args now rx its s)
  have n: "note_end now s = s" using 2(4) by (simp add: note_end_def)
  show ?case
  proof (cases "should_stop args now s")
    case True
    then show ?thesis by (simp add: n Let_def)
  next
    case False
    then have late: "\<exists>(now, rx) \<in> set its. now - t \<ge> of_int (ra_end_grace_ms args) / 1000"
      using 2(3-5) by (auto simp: should_stop_def)
    show ?thesis
    proof (cases rx)
      case None
      then show ?thesis using 2(1)[OF refl _ None] 2(3,4) False late by (simp add: n Let_def)
    next
      case (Some r)
      show ?thesis
      proof (cases "receive_datagram args r s")
        case (Inl e)
        then show ?thesis using False Some by (simp add: n Let_def)
      next
        case (Inr s1)
        have "end_received (rc_assembler s1)" "rc_end_seen_at s1 = Some t"
          using receive_datagram_keeps_end[OF Inr 2(3)] 2(4) by simp_all
        then show ?thesis
          using 2(2)[OF refl _ Some, of s1] False Some Inr late by (simp add: n Let_def)
      qed
    qed
  qed
qed simp

section \<open>Properties\<close>


definition example_args :: receive_args where
  "example_args = \<lparr>ra_source = None, ra_wait_timeout = 30, ra_idle_timeout = 2, ra_end_grace_ms = 250\<rparr>"




text \<open>
  C16. The receive loop terminates after the shot: once a \<open>SHOT_END\<close> has been accepted and its
  time noted, the loop is over by the first iteration that starts the grace period later,
  however many datagrams keep arriving.
\<close>

theorem receive_ends_after_grace:
  assumes "end_received (rc_assembler s)" "rc_end_seen_at s = Some t"
    and "\<exists>(now, rx) \<in> set its. now - t \<ge> of_int (ra_end_grace_ms args) / 1000"
  shows "snd (receive_loop args its s) \<noteq> Waiting"
  using assms by (rule receive_loop_ends)

definition ended_receiver :: receiver where
  "ended_receiver = (receiver_init 0)
     \<lparr>rc_assembler := assembler_init\<lparr>a_shot_end := Some example_end\<rparr>, rc_end_seen_at := Some 0\<rparr>"

theorem receive_ends_after_grace_witness:
  "snd (receive_loop example_args [(1/10, None), (1/2, None)] ended_receiver) \<noteq> Waiting"
  by (rule receive_ends_after_grace[where t = 0])
    (simp_all add: ended_receiver_def end_received_def example_args_def)

end
