(* ===== verification/Decimals.thy ===== *)
theory Decimals
  imports Json Text Complex_Main
begin

text \<open>
  Python's \<open>decimal.Decimal\<close> and \<open>int\<close> on parsed JSON values, the arithmetic of the default
  context and the half-up rounding the numerical code uses.  A value is the rational it denotes;
  an operation of the context is the exact result rounded half-even to 28 significant digits.
  The exponent limits of the context (about a million) are not modelled, and neither are the
  underscores and surrounding blanks \<open>Decimal(str)\<close> also accepts, nor NaN and infinities.
\<close>

section \<open>Reading numbers\<close>

definition is_exponent_mark :: "char \<Rightarrow> bool" where
  "is_exponent_mark c = (c = CHR ''e'' \<or> c = CHR ''E'')"

definition read_sign :: "string \<Rightarrow> int \<times> string" where
  "read_sign s =
     (case s of
        c # r \<Rightarrow> if c = CHR ''-'' then (-1, r) else if c = CHR ''+'' then (1, r) else (1, s)
      | [] \<Rightarrow> (1, []))"

definition read_signed :: "string \<Rightarrow> int option" where
  "read_signed s =
     (let (sign, digits) = read_sign s in
      map_option (\<lambda>n. sign * int n) (read_nat 10 digits))"

definition read_mantissa :: "string \<Rightarrow> rat option" where
  "read_mantissa s =
     (let whole = takeWhile (\<lambda>c. c \<noteq> CHR ''.'') s;
          fraction = tl (dropWhile (\<lambda>c. c \<noteq> CHR ''.'') s)
      in map_option (\<lambda>n. of_nat n / 10 ^ length fraction) (read_nat 10 (whole @ fraction)))"

definition scale10 :: "rat \<Rightarrow> int \<Rightarrow> rat" where
  "scale10 m e = (if e < 0 then m / 10 ^ nat (- e) else m * 10 ^ nat e)"

definition decimal_of_string :: "string \<Rightarrow> rat option" where
  "decimal_of_string s =
     (let (sign, r) = read_sign s;
          mantissa = takeWhile (\<lambda>c. \<not> is_exponent_mark c) r;
          exponent = dropWhile (\<lambda>c. \<not> is_exponent_mark c) r
      in Option.bind (read_mantissa mantissa) (\<lambda>m.
         Option.bind (if exponent = [] then Some 0 else read_signed (tl exponent)) (\<lambda>e.
         Some (of_int sign * scale10 m e))))"

text \<open>\<open>Decimal(v)\<close>: a value, \<open>InvalidOperation\<close>, or \<open>TypeError\<close>.\<close>

datatype decimal_result = DecimalValue rat | DecimalInvalid | DecimalType

definition decimal_text :: "string \<Rightarrow> decimal_result" where
  "decimal_text s = (case decimal_of_string s of Some q \<Rightarrow> DecimalValue q | None \<Rightarrow> DecimalInvalid)"

fun decimal_of :: "json \<Rightarrow> decimal_result" where
  "decimal_of (JInt i) = DecimalValue (of_int i)"
| "decimal_of (JBool b) = DecimalValue (if b then 1 else 0)"
| "decimal_of (JFloat s) = decimal_text s"
| "decimal_of (JString s) = decimal_text s"
| "decimal_of _ = DecimalType"

text \<open>\<open>int(v)\<close>: truncation of a decimal, the digits of a string; \<open>None\<close> for an exception.\<close>

definition truncate_rat :: "rat \<Rightarrow> int" where
  "truncate_rat q = (if q < 0 then - \<lfloor>- q\<rfloor> else \<lfloor>q\<rfloor>)"

fun int_of_json :: "json \<Rightarrow> int option" where
  "int_of_json (JInt i) = Some i"
| "int_of_json (JBool b) = Some (if b then 1 else 0)"
| "int_of_json (JFloat s) = map_option truncate_rat (decimal_of_string s)"
| "int_of_json (JString s) = read_signed s"
| "int_of_json _ = None"

text \<open>\<open>v == i\<close> for a JSON value and an integer.\<close>

fun json_equals_int :: "json \<Rightarrow> int \<Rightarrow> bool" where
  "json_equals_int (JInt i) v = (i = v)"
| "json_equals_int (JBool b) v = ((if b then 1 else 0) = v)"
| "json_equals_int (JFloat s) v = (decimal_of_string s = Some (of_int v))"
| "json_equals_int _ v = False"

text \<open>\<open>int(s, 0)\<close>: sign, radix prefix, and no leading zero on a non-zero decimal.\<close>

definition read_radix :: "string \<Rightarrow> nat option" where
  "read_radix s =
     (if take 2 s = ''0x'' \<or> take 2 s = ''0X'' then read_nat 16 (drop 2 s)
      else if take 2 s = ''0o'' \<or> take 2 s = ''0O'' then read_nat 8 (drop 2 s)
      else if take 2 s = ''0b'' \<or> take 2 s = ''0B'' then read_nat 2 (drop 2 s)
      else if take 1 s = ''0'' \<and> list_ex (\<lambda>c. c \<noteq> CHR ''0'') s then None
      else read_nat 10 s)"

definition int_base0 :: "string \<Rightarrow> int option" where
  "int_base0 s = (let (sign, r) = read_sign s in map_option (\<lambda>n. sign * int n) (read_radix r))"

text \<open>A number of a parsed document, a \<open>bool\<close> as 0 or 1, and \<open>d.get(k, fallback)\<close>.\<close>

fun json_number :: "json \<Rightarrow> rat option" where
  "json_number (JInt i) = Some (of_int i)"
| "json_number (JBool b) = Some (if b then 1 else 0)"
| "json_number (JFloat s) = decimal_of_string s"
| "json_number _ = None"

definition get_default :: "jobject \<Rightarrow> string \<Rightarrow> json \<Rightarrow> json" where
  "get_default d k fallback = (if has_key d k then get d k else fallback)"

section \<open>The context\<close>

function digit_count :: "int \<Rightarrow> int" where
  "digit_count n = (if n < 10 then 1 else digit_count (n div 10) + 1)"
  by auto
termination by (relation "measure nat") auto

declare digit_count.simps [simp del]

definition half_even :: "rat \<Rightarrow> int" where
  "half_even q =
     (let f = \<lfloor>q\<rfloor>; r = q - of_int f
      in if r < 1 / 2 then f else if r > 1 / 2 then f + 1 else if even f then f else f + 1)"

definition round28 :: "rat \<Rightarrow> rat" where
  "round28 x =
     (let m = \<bar>x\<bar>; (n, d) = quotient_of m;
          e = digit_count n - digit_count d - 28;
          e = (if scale10 m (- e) < 10 ^ 28 then e else e + 1);
          r = scale10 (of_int (half_even (scale10 m (- e)))) e
      in if x < 0 then - r else r)"

section \<open>Rounding\<close>

text \<open>\<open>int(x.to_integral_value(rounding=ROUND_HALF_UP))\<close>: nearest, ties away from zero.\<close>

definition half_up :: "rat \<Rightarrow> int" where
  "half_up x = (if x < 0 then - \<lfloor>- x + 1 / 2\<rfloor> else \<lfloor>x + 1 / 2\<rfloor>)"

lemma half_up_nearest: "\<bar>of_int (half_up x) - x\<bar> \<le> 1 / 2"
proof (cases "x < 0")
  case True
  have "of_int \<lfloor>- x + 1 / 2\<rfloor> \<le> - x + 1 / 2" "- x + 1 / 2 < of_int \<lfloor>- x + 1 / 2\<rfloor> + 1"
    by linarith+
  moreover have "half_up x = - \<lfloor>- x + 1 / 2\<rfloor>" using True by (simp add: half_up_def)
  ultimately show ?thesis by linarith
next
  case False
  have "of_int \<lfloor>x + 1 / 2\<rfloor> \<le> x + 1 / 2" "x + 1 / 2 < of_int \<lfloor>x + 1 / 2\<rfloor> + 1"
    by linarith+
  moreover have "half_up x = \<lfloor>x + 1 / 2\<rfloor>" using False by (simp add: half_up_def)
  ultimately show ?thesis by linarith
qed

lemma half_up_mono: "x \<le> y \<Longrightarrow> half_up x \<le> half_up y"
proof -
  assume xy: "x \<le> y"
  show ?thesis
  proof (cases "x < 0"; cases "y < 0")
    assume "x < 0" "y < 0"
    moreover have "\<lfloor>- y + 1 / 2\<rfloor> \<le> \<lfloor>- x + 1 / 2\<rfloor>" using xy by (intro floor_mono) simp
    ultimately show ?thesis by (simp add: half_up_def)
  next
    assume c: "x < 0" "\<not> y < 0"
    have "0 \<le> \<lfloor>- x + 1 / 2\<rfloor>" "0 \<le> \<lfloor>y + 1 / 2\<rfloor>"
      using c by (simp_all only: zero_le_floor)
    moreover have "half_up x = - \<lfloor>- x + 1 / 2\<rfloor>" "half_up y = \<lfloor>y + 1 / 2\<rfloor>"
      using c by (simp_all add: half_up_def)
    ultimately show ?thesis by linarith
  next
    assume "\<not> x < 0" "\<not> y < 0"
    then show ?thesis using xy by (simp add: half_up_def floor_mono)
  qed (use xy in simp)
qed

lemma half_up_of_int [simp]: "half_up (of_int i) = i"
proof -
  have "\<lfloor>(of_int i :: rat) + 1 / 2\<rfloor> = i" "\<lfloor>- (of_int i :: rat) + 1 / 2\<rfloor> = - i"
    by (simp_all add: floor_unique)
  then show ?thesis by (simp add: half_up_def)
qed

end
