(* ===== verification/Dsp.thy ===== *)
theory Dsp
  imports Decimals Hashing
begin

text \<open>
  The bit-accurate model of the DSP chain in \<open>host/dsp_model/qcrate_dsp.py\<close>: fixed-point
  helpers, the numerically controlled oscillator, the noise register, the mixer front end, the
  decimating FIR with its accumulator check, the packed output, the hex tables and the
  configuration checks.  NumPy vectors are lists of integers; each store into a 16- or 32-bit
  array is of a saturated value, so no truncation is written out.  The floating-point
  comparison model (\<open>_run_float\<close>, the Kaiser design) is outside the development.
\<close>

unbundle bit_operations_syntax

section \<open>Constants\<close>

definition SAMPLE_RATE_HZ :: int where "SAMPLE_RATE_HZ = 200000000"
definition DECIMATION :: nat where "DECIMATION = 16"
definition PHASE_BITS :: nat where "PHASE_BITS = 32"
definition PHASE_MODULUS :: int where "PHASE_MODULUS = 2 ^ 32"
definition QUARTER_PHASE :: int where "QUARTER_PHASE = PHASE_MODULUS div 4"
definition LUT_ADDR_BITS :: nat where "LUT_ADDR_BITS = 12"
definition QUARTER_LUT_BITS :: nat where "QUARTER_LUT_BITS = 10"
definition QUARTER_LUT_SIZE :: nat where "QUARTER_LUT_SIZE = 1025"
definition ADC_BITS :: nat where "ADC_BITS = 16"
definition ADC_FRAC_BITS :: nat where "ADC_FRAC_BITS = 15"
definition MIXER_BITS :: nat where "MIXER_BITS = 18"
definition MIXER_FRAC_BITS :: nat where "MIXER_FRAC_BITS = 17"
definition COEFFICIENT_BITS :: nat where "COEFFICIENT_BITS = 18"
definition COEFFICIENT_FRAC_BITS :: nat where "COEFFICIENT_FRAC_BITS = 17"
definition FIR_ACCUMULATOR_BITS :: nat where "FIR_ACCUMULATOR_BITS = 48"
definition OUTPUT_BITS :: nat where "OUTPUT_BITS = 16"
definition OUTPUT_FRAC_BITS :: nat where "OUTPUT_FRAC_BITS = 15"
definition FIR_TAPS :: nat where "FIR_TAPS = 217"

lemmas dsp_constants =
  SAMPLE_RATE_HZ_def DECIMATION_def PHASE_BITS_def PHASE_MODULUS_def QUARTER_PHASE_def
  LUT_ADDR_BITS_def QUARTER_LUT_BITS_def QUARTER_LUT_SIZE_def ADC_BITS_def ADC_FRAC_BITS_def
  MIXER_BITS_def MIXER_FRAC_BITS_def COEFFICIENT_BITS_def COEFFICIENT_FRAC_BITS_def
  FIR_ACCUMULATOR_BITS_def OUTPUT_BITS_def OUTPUT_FRAC_BITS_def FIR_TAPS_def

datatype dsp_error =
    DspDuplicateKey string
  | FrozenContract
  | FrameLength
  | FrameCount
  | OutputWords
  | FrequencyRange string
  | AmplitudeRange string
  | AmplitudeSum
  | NoiseSeed
  | MalformedResolved
  | DecimalSyntax
  | NotAMapping
  | ActiveMismatch string json int
  | RootNotObject
  | ConfigKeys "string list" "string list"
  | ConfigFormat
  | FieldNotInteger string
  | DecimalArgument string
  | LfsrSeed
  | LutSize
  | SampleCountPositive
  | SampleCountExceeds
  | VectorLengths
  | ShortFirInput
  | AccumulatorI
  | AccumulatorQ
  | HexRange nat
  | HexSyntax nat
  | HexLength nat nat
  | OutputCount int

section \<open>Fixed point\<close>

definition saturate :: "int \<Rightarrow> nat \<Rightarrow> int" where
  "saturate value bits =
     (let minimum = - (2 ^ (bits - 1)); maximum = 2 ^ (bits - 1) - 1
      in min maximum (max minimum value))"

definition round_shift :: "int \<Rightarrow> int \<Rightarrow> int" where
  "round_shift value shift =
     (if shift < 0 then push_bit (nat (- shift)) value
      else if shift = 0 then value
      else
        let magnitude = \<bar>value\<bar>;
            rounded = drop_bit (nat shift) (magnitude + push_bit (nat shift - 1) 1)
        in if value \<ge> 0 then rounded else - rounded)"

definition decimal_to_fixed :: "rat \<Rightarrow> nat \<Rightarrow> nat \<Rightarrow> int" where
  "decimal_to_fixed value bits fractional_bits = saturate (half_up (round28 (value * 2 ^ fractional_bits))) bits"

definition frequency_to_phase_word :: "rat \<Rightarrow> int \<Rightarrow> int" where
  "frequency_to_phase_word frequency_hz sample_rate_hz =
     half_up (round28 (round28 (frequency_hz * of_int PHASE_MODULUS) / of_int sample_rate_hz)) AND (PHASE_MODULUS - 1)"

definition turns_to_phase_word :: "rat \<Rightarrow> int" where
  "turns_to_phase_word turns = half_up (round28 (turns * of_int PHASE_MODULUS)) AND (PHASE_MODULUS - 1)"

section \<open>Oscillator and noise\<close>

definition nco_lookup :: "int \<Rightarrow> int list \<Rightarrow> dsp_error + int" where
  "nco_lookup phase_word quarter_lut =
     (if length quarter_lut \<noteq> QUARTER_LUT_SIZE then Inl LutSize
      else
        let full_index = drop_bit (PHASE_BITS - LUT_ADDR_BITS) (phase_word AND (PHASE_MODULUS - 1));
            quadrant = drop_bit QUARTER_LUT_BITS full_index;
            offset = full_index AND (push_bit QUARTER_LUT_BITS 1 - 1);
            mirrored = nat (push_bit QUARTER_LUT_BITS 1 - offset)
        in if quadrant = 0 then Inr (quarter_lut ! nat offset)
           else if quadrant = 1 then Inr (quarter_lut ! mirrored)
           else if quadrant = 2 then Inr (- quarter_lut ! nat offset)
           else Inr (- quarter_lut ! mirrored))"

definition lfsr_next :: "int \<Rightarrow> int" where
  "lfsr_next state =
     (let lsb = state AND 1; state = drop_bit 1 state
      in if lsb \<noteq> 0 then state XOR 0xB400 else state)"

fun lfsr_samples :: "nat \<Rightarrow> int \<Rightarrow> int list" where
  "lfsr_samples 0 state = []"
| "lfsr_samples (Suc n) state = (lfsr_next state - 0x8000) # lfsr_samples n (lfsr_next state)"

definition lfsr16_noise :: "nat \<Rightarrow> int \<Rightarrow> dsp_error + int list" where
  "lfsr16_noise count seed =
     (if \<not> (1 \<le> seed \<and> seed \<le> 0xFFFF) then Inl LfsrSeed else Inr (lfsr_samples count seed))"

section \<open>Configuration\<close>

record dsp_config =
  c_sample_rate_hz :: int
  c_decimation :: int
  c_frame_length :: int
  c_frame_count :: int
  c_signal_frequency_hz :: rat
  c_lo_frequency_hz :: rat
  c_signal_amplitude :: rat
  c_signal_phase_turns :: rat
  c_lo_phase_turns :: rat
  c_noise_amplitude :: rat
  c_noise_seed :: int

definition output_samples :: "dsp_config \<Rightarrow> int" where
  "output_samples c = c_frame_length c * c_frame_count c"

definition validate_config :: "dsp_config \<Rightarrow> dsp_error + dsp_config" where
  "validate_config c =
     (let nyquist = of_int (c_sample_rate_hz c) / 2 in
      if c_sample_rate_hz c \<noteq> SAMPLE_RATE_HZ \<or> c_decimation c \<noteq> int DECIMATION then Inl FrozenContract
      else if \<not> (1 \<le> c_frame_length c \<and> c_frame_length c \<le> 262144) then Inl FrameLength
      else if \<not> (1 \<le> c_frame_count c \<and> c_frame_count c \<le> 255) then Inl FrameCount
      else if output_samples c > 1000000 then Inl OutputWords
      else if c_signal_frequency_hz c < 0 \<or> c_signal_frequency_hz c \<ge> nyquist
      then Inl (FrequencyRange ''signal_frequency_hz'')
      else if c_lo_frequency_hz c < 0 \<or> c_lo_frequency_hz c \<ge> nyquist
      then Inl (FrequencyRange ''lo_frequency_hz'')
      else if c_signal_amplitude c < 0 \<or> c_signal_amplitude c > 1
      then Inl (AmplitudeRange ''signal_amplitude'')
      else if c_noise_amplitude c < 0 \<or> c_noise_amplitude c > 1
      then Inl (AmplitudeRange ''noise_amplitude'')
      else if round28 (c_signal_amplitude c + c_noise_amplitude c) > 1 then Inl AmplitudeSum
      else if \<not> (1 \<le> c_noise_seed c \<and> c_noise_seed c \<le> 0xFFFF) then Inl NoiseSeed
      else Inr c)"

definition item :: "json \<Rightarrow> string \<Rightarrow> dsp_error + json" where
  "item v k =
     (case v of
        JObject d \<Rightarrow> if has_key d k then Inr (get d k) else Inl MalformedResolved
      | _ \<Rightarrow> Inl MalformedResolved)"

definition item_int :: "json \<Rightarrow> string \<Rightarrow> dsp_error + int" where
  "item_int v k =
     bind_res (item v k) (\<lambda>x.
       case int_of_json x of Some i \<Rightarrow> Inr i | None \<Rightarrow> Inl MalformedResolved)"

text \<open>
  \<open>Decimal(...)\<close> inside the \<open>try\<close> of the resolved profile: a \<open>TypeError\<close> is caught there, but
  \<open>InvalidOperation\<close> is an \<open>ArithmeticError\<close> and is not.
\<close>

definition item_decimal :: "json \<Rightarrow> string \<Rightarrow> dsp_error + rat" where
  "item_decimal v k =
     bind_res (item v k) (\<lambda>x.
       case decimal_of x of
         DecimalValue q \<Rightarrow> Inr q | DecimalInvalid \<Rightarrow> Inl DecimalSyntax
       | DecimalType \<Rightarrow> Inl MalformedResolved)"

definition expected_active :: "dsp_config \<Rightarrow> (string \<times> int) list" where
  "expected_active c =
     [(''SIGNAL_PHASE_INCREMENT'', frequency_to_phase_word (c_signal_frequency_hz c) (c_sample_rate_hz c)),
      (''SIGNAL_PHASE_INITIAL'', turns_to_phase_word (c_signal_phase_turns c)),
      (''SIGNAL_AMPLITUDE_Q1_15'', decimal_to_fixed (c_signal_amplitude c) ADC_BITS ADC_FRAC_BITS),
      (''NOISE_AMPLITUDE_Q1_15'', decimal_to_fixed (c_noise_amplitude c) ADC_BITS ADC_FRAC_BITS),
      (''NOISE_SEED'', c_noise_seed c),
      (''LO_PHASE_INCREMENT'', frequency_to_phase_word (c_lo_frequency_hz c) (c_sample_rate_hz c)),
      (''LO_PHASE_INITIAL'', turns_to_phase_word (c_lo_phase_turns c))]"

fun check_active :: "json \<Rightarrow> (string \<times> int) list \<Rightarrow> dsp_error + unit" where
  "check_active active [] = Inr ()"
| "check_active active ((name, value) # rest) =
     (case active of
        JObject d \<Rightarrow>
          if json_equals_int (get d name) value then check_active active rest
          else Inl (ActiveMismatch name (get d name) value)
      | _ \<Rightarrow> Inl NotAMapping)"

definition config_from_resolved_document :: "jobject \<Rightarrow> dsp_error + dsp_config" where
  "config_from_resolved_document document =
     (let doc = JObject document in
      bind_res (item doc ''format'') (\<lambda>fmt.
      bind_res (ensure (fmt = JString ''qcrate-experiment-resolved-v1'') MalformedResolved) (\<lambda>_.
      bind_res (item doc ''numerical_contract'') (\<lambda>contract.
      bind_res (item doc ''dsp'') (\<lambda>dsp.
      bind_res (item dsp ''requested'') (\<lambda>requested.
      bind_res (item dsp ''active'') (\<lambda>active.
      bind_res (item doc ''acquisition'') (\<lambda>acquisition.
      bind_res (item_int contract ''sample_rate_hz'') (\<lambda>sample_rate_hz.
      bind_res (item_int contract ''decimation'') (\<lambda>decimation.
      bind_res (item_int acquisition ''frame_length_words'') (\<lambda>frame_length.
      bind_res (item_int acquisition ''frame_count'') (\<lambda>frame_count.
      bind_res (item_decimal requested ''signal_frequency_hz'') (\<lambda>signal_frequency_hz.
      bind_res (item_decimal requested ''lo_frequency_hz'') (\<lambda>lo_frequency_hz.
      bind_res (item_decimal requested ''signal_amplitude'') (\<lambda>signal_amplitude.
      bind_res (item_decimal requested ''signal_phase_turns'') (\<lambda>signal_phase_turns.
      bind_res (item_decimal requested ''lo_phase_turns'') (\<lambda>lo_phase_turns.
      bind_res (item_decimal requested ''noise_amplitude'') (\<lambda>noise_amplitude.
      bind_res (item_int requested ''noise_seed'') (\<lambda>noise_seed.
      bind_res (validate_config
        \<lparr>c_sample_rate_hz = sample_rate_hz, c_decimation = decimation,
         c_frame_length = frame_length, c_frame_count = frame_count,
         c_signal_frequency_hz = signal_frequency_hz, c_lo_frequency_hz = lo_frequency_hz,
         c_signal_amplitude = signal_amplitude, c_signal_phase_turns = signal_phase_turns,
         c_lo_phase_turns = lo_phase_turns, c_noise_amplitude = noise_amplitude,
         c_noise_seed = noise_seed\<rparr>) (\<lambda>config.
      bind_res (check_active active (expected_active config)) (\<lambda>_.
      Inr config)))))))))))))))))))))"

definition config_keys :: "string list" where
  "config_keys =
     [''format'', ''sample_rate_hz'', ''decimation'', ''frame_length'', ''frame_count'',
      ''signal_frequency_hz'', ''lo_frequency_hz'', ''signal_amplitude'', ''signal_phase_turns'',
      ''lo_phase_turns'', ''noise_amplitude'', ''noise_seed'']"

definition integer_fields :: "string list" where
  "integer_fields = [''sample_rate_hz'', ''decimation'', ''frame_length'', ''frame_count'', ''noise_seed'']"

text \<open>\<open>Decimal(document[k])\<close> outside any \<open>try\<close>: both exceptions leave \<open>load_config\<close>.\<close>

definition config_decimal :: "jobject \<Rightarrow> string \<Rightarrow> dsp_error + rat" where
  "config_decimal d k =
     (case decimal_of (get d k) of
        DecimalValue q \<Rightarrow> Inr q | DecimalInvalid \<Rightarrow> Inl DecimalSyntax
      | DecimalType \<Rightarrow> Inl (DecimalArgument k))"

definition reject_duplicate_keys :: "jobject \<Rightarrow> dsp_error + jobject" where
  "reject_duplicate_keys pairs = unique_keys DspDuplicateKey [] pairs"

definition document_config :: "jobject \<Rightarrow> dsp_error + dsp_config" where
  "document_config document =
     bind_res (fold_res (\<lambda>f _. ensure (is_JInt (get document f)) (FieldNotInteger f))
       integer_fields ()) (\<lambda>_.
     bind_res (config_decimal document ''signal_frequency_hz'') (\<lambda>signal_frequency_hz.
     bind_res (config_decimal document ''lo_frequency_hz'') (\<lambda>lo_frequency_hz.
     bind_res (config_decimal document ''signal_amplitude'') (\<lambda>signal_amplitude.
     bind_res (config_decimal document ''signal_phase_turns'') (\<lambda>signal_phase_turns.
     bind_res (config_decimal document ''lo_phase_turns'') (\<lambda>lo_phase_turns.
     bind_res (config_decimal document ''noise_amplitude'') (\<lambda>noise_amplitude.
     validate_config
       \<lparr>c_sample_rate_hz = jint (get document ''sample_rate_hz''),
        c_decimation = jint (get document ''decimation''),
        c_frame_length = jint (get document ''frame_length''),
        c_frame_count = jint (get document ''frame_count''),
        c_signal_frequency_hz = signal_frequency_hz, c_lo_frequency_hz = lo_frequency_hz,
        c_signal_amplitude = signal_amplitude, c_signal_phase_turns = signal_phase_turns,
        c_lo_phase_turns = lo_phase_turns, c_noise_amplitude = noise_amplitude,
        c_noise_seed = jint (get document ''noise_seed'')\<rparr>)))))))"

definition load_config :: "json \<Rightarrow> dsp_error + dsp_config" where
  "load_config parsed =
     bind_res (hook DspDuplicateKey parsed) (\<lambda>root. case root of
        JObject document \<Rightarrow>
          (if get document ''format'' = JString ''qcrate-experiment-resolved-v1''
          then config_from_resolved_document document
          else
            let unknown = filter (\<lambda>k. k \<notin> set config_keys) (keys_of document);
                missing = filter (\<lambda>k. k \<notin> set (keys_of document)) config_keys
            in if unknown \<noteq> [] \<or> missing \<noteq> []
               then Inl (ConfigKeys (sorted_keys missing) (sorted_keys unknown))
               else if get document ''format'' \<noteq> JString ''qcrate-dsp-v1'' then Inl ConfigFormat
               else document_config document)
      | _ \<Rightarrow> Inl RootNotObject)"

section \<open>Front end\<close>

record frontend_sample =
  fs_adc :: int
  fs_lo_sin :: int
  fs_lo_cos :: int
  fs_mixed_i :: int
  fs_mixed_q :: int

record frontend_trace =
  ft_samples :: "frontend_sample list"
  ft_signal_phase_word :: int
  ft_signal_phase_initial :: int
  ft_lo_phase_word :: int
  ft_lo_phase_initial :: int

text \<open>The tuning of the loop: phase increments and the two quantised amplitudes.\<close>

record frontend_tuning =
  tu_signal_word :: int
  tu_lo_word :: int
  tu_amplitude :: int
  tu_noise_amplitude :: int

definition frontend_step ::
    "int list \<Rightarrow> frontend_tuning \<Rightarrow> int \<Rightarrow> int \<Rightarrow> int \<Rightarrow> dsp_error + frontend_sample" where
  "frontend_step lut tu signal_phase lo_phase noise_q15 =
     bind_res (nco_lookup (signal_phase + QUARTER_PHASE) lut) (\<lambda>source_cos.
     bind_res (nco_lookup (lo_phase + QUARTER_PHASE) lut) (\<lambda>lo_cos.
     bind_res (nco_lookup lo_phase lut) (\<lambda>lo_sin.
       let source = saturate (round_shift (source_cos * tu_amplitude tu) (int ADC_FRAC_BITS)) ADC_BITS;
           noise = saturate (round_shift (noise_q15 * tu_noise_amplitude tu) (int ADC_FRAC_BITS)) ADC_BITS;
           adc = saturate (source + noise) ADC_BITS;
           shift = 2 * int ADC_FRAC_BITS - int MIXER_FRAC_BITS
       in Inr \<lparr>fs_adc = adc, fs_lo_sin = lo_sin, fs_lo_cos = lo_cos,
               fs_mixed_i = saturate (round_shift (adc * lo_cos) shift) MIXER_BITS,
               fs_mixed_q = saturate (round_shift (- adc * lo_sin) shift) MIXER_BITS\<rparr>)))"

fun frontend_loop ::
    "int list \<Rightarrow> frontend_tuning \<Rightarrow> int list \<Rightarrow> int \<Rightarrow> int \<Rightarrow> dsp_error + frontend_sample list" where
  "frontend_loop lut tu [] signal_phase lo_phase = Inr []"
| "frontend_loop lut tu (noise # rest) signal_phase lo_phase =
     bind_res (frontend_step lut tu signal_phase lo_phase noise) (\<lambda>x.
     bind_res (frontend_loop lut tu rest
       ((signal_phase + tu_signal_word tu) AND (PHASE_MODULUS - 1))
       ((lo_phase + tu_lo_word tu) AND (PHASE_MODULUS - 1))) (\<lambda>xs.
     Inr (x # xs)))"

definition tuning_of :: "dsp_config \<Rightarrow> frontend_tuning" where
  "tuning_of c =
     \<lparr>tu_signal_word = frequency_to_phase_word (c_signal_frequency_hz c) SAMPLE_RATE_HZ,
      tu_lo_word = frequency_to_phase_word (c_lo_frequency_hz c) SAMPLE_RATE_HZ,
      tu_amplitude = decimal_to_fixed (c_signal_amplitude c) ADC_BITS ADC_FRAC_BITS,
      tu_noise_amplitude = decimal_to_fixed (c_noise_amplitude c) ADC_BITS ADC_FRAC_BITS\<rparr>"

definition run_fixed_frontend_on ::
    "dsp_config \<Rightarrow> int list \<Rightarrow> int list \<Rightarrow> dsp_error + frontend_trace" where
  "run_fixed_frontend_on c lut noise_q15 =
     (let tu = tuning_of c;
          signal_initial = turns_to_phase_word (c_signal_phase_turns c);
          lo_initial = turns_to_phase_word (c_lo_phase_turns c)
      in bind_res (frontend_loop lut tu noise_q15 signal_initial lo_initial) (\<lambda>samples.
         Inr \<lparr>ft_samples = samples, ft_signal_phase_word = tu_signal_word tu,
              ft_signal_phase_initial = signal_initial, ft_lo_phase_word = tu_lo_word tu,
              ft_lo_phase_initial = lo_initial\<rparr>))"

definition run_fixed_frontend ::
    "dsp_config \<Rightarrow> int \<Rightarrow> int list \<Rightarrow> dsp_error + frontend_trace" where
  "run_fixed_frontend c sample_count lut =
     (if sample_count < 1 then Inl SampleCountPositive
      else if sample_count > output_samples c * c_decimation c then Inl SampleCountExceeds
      else bind_res (lfsr16_noise (nat sample_count) (c_noise_seed c))
             (run_fixed_frontend_on c lut))"

section \<open>Decimating filter\<close>

record fir_output =
  fo_accumulator_i :: int
  fo_accumulator_q :: int
  fo_output_i :: int
  fo_output_q :: int

text \<open>\<open>np.dot\<close> of 64-bit vectors; the products and their sum stay far below 63 bits.\<close>

definition dot :: "int list \<Rightarrow> int list \<Rightarrow> int" where
  "dot xs ys = sum_list (map2 (*) xs ys)"

definition fir_window :: "int list \<Rightarrow> nat \<Rightarrow> nat \<Rightarrow> int list" where
  "fir_window mixed input_index valid_taps =
     rev (take valid_taps (drop (input_index + 1 - valid_taps) mixed))"

definition fir_at :: "int list \<Rightarrow> int list \<Rightarrow> int list \<Rightarrow> nat \<Rightarrow> dsp_error + fir_output" where
  "fir_at mixed_i mixed_q fir_coefficients output_index =
     (let input_index = (output_index + 1) * DECIMATION - 1;
          valid_taps = min FIR_TAPS (input_index + 1);
          coefficients = take valid_taps fir_coefficients;
          sum_i = dot (fir_window mixed_i input_index valid_taps) coefficients;
          sum_q = dot (fir_window mixed_q input_index valid_taps) coefficients;
          output_shift = int MIXER_FRAC_BITS + int COEFFICIENT_FRAC_BITS - int OUTPUT_FRAC_BITS;
          accumulator_limit = push_bit (FIR_ACCUMULATOR_BITS - 1) 1
      in if \<not> (- accumulator_limit \<le> sum_i \<and> sum_i < accumulator_limit) then Inl AccumulatorI
         else if \<not> (- accumulator_limit \<le> sum_q \<and> sum_q < accumulator_limit) then Inl AccumulatorQ
         else Inr \<lparr>fo_accumulator_i = sum_i, fo_accumulator_q = sum_q,
                   fo_output_i = saturate (round_shift sum_i output_shift) OUTPUT_BITS,
                   fo_output_q = saturate (round_shift sum_q output_shift) OUTPUT_BITS\<rparr>)"

definition run_fixed_fir :: "int list \<Rightarrow> int list \<Rightarrow> int list \<Rightarrow> dsp_error + fir_output list" where
  "run_fixed_fir mixed_i mixed_q fir_coefficients =
     (if length mixed_i \<noteq> length mixed_q then Inl VectorLengths
      else if length mixed_i < DECIMATION then Inl ShortFirInput
      else map_res (fir_at mixed_i mixed_q fir_coefficients) [0..<length mixed_i div DECIMATION])"

section \<open>The fixed-point result\<close>

definition pack_word :: "int \<Rightarrow> int \<Rightarrow> int" where
  "pack_word i q = push_bit 16 (q AND 0xFFFF) OR (i AND 0xFFFF)"

definition pack_iq_words :: "int list \<Rightarrow> int list \<Rightarrow> dsp_error + int list" where
  "pack_iq_words i_samples q_samples =
     (if length i_samples \<noteq> length q_samples then Inl VectorLengths
      else Inr (map2 pack_word i_samples q_samples))"

record dsp_result =
  dr_fixed_i :: "int list"
  dr_fixed_q :: "int list"
  dr_packed_words :: "int list"
  dr_tlast :: "bool list"
  dr_signal_phase_word :: int
  dr_lo_phase_word :: int

definition run_fixed :: "dsp_config \<Rightarrow> int list \<Rightarrow> int list \<Rightarrow> int list \<Rightarrow> dsp_error + fir_output list" where
  "run_fixed c lut fir_coefficients noise_q15 =
     bind_res (run_fixed_frontend_on c lut noise_q15) (\<lambda>frontend.
     run_fixed_fir (map fs_mixed_i (ft_samples frontend)) (map fs_mixed_q (ft_samples frontend))
       fir_coefficients)"

definition tlast_flags :: "dsp_config \<Rightarrow> bool list" where
  "tlast_flags c =
     map (\<lambda>k. int k mod c_frame_length c = c_frame_length c - 1) [0..<nat (output_samples c)]"

definition run_model :: "dsp_config \<Rightarrow> int list \<Rightarrow> int list \<Rightarrow> dsp_error + dsp_result" where
  "run_model c lut fir_coefficients =
     bind_res (lfsr16_noise (nat (output_samples c * c_decimation c)) (c_noise_seed c)) (\<lambda>noise.
     bind_res (run_fixed c lut fir_coefficients noise) (\<lambda>outs.
     bind_res (pack_iq_words (map fo_output_i outs) (map fo_output_q outs)) (\<lambda>words.
     Inr \<lparr>dr_fixed_i = map fo_output_i outs, dr_fixed_q = map fo_output_q outs,
          dr_packed_words = words, dr_tlast = tlast_flags c,
          dr_signal_phase_word = frequency_to_phase_word (c_signal_frequency_hz c) SAMPLE_RATE_HZ,
          dr_lo_phase_word = frequency_to_phase_word (c_lo_frequency_hz c) SAMPLE_RATE_HZ\<rparr>)))"

definition result_sha256 :: "dsp_result \<Rightarrow> bytes" where
  "result_sha256 r = sha256 (concat (map (le_bytes 4) (dr_packed_words r)))"

definition result_frames :: "dsp_result \<Rightarrow> nat" where
  "result_frames r = length (filter id (dr_tlast r))"

section \<open>Hex tables and vectors\<close>

definition newline :: char where "newline = char_of (10 :: nat)"

definition is_space :: "char \<Rightarrow> bool" where
  "is_space c = (of_char c \<in> {9, 10, 11, 12, 13, 32 :: nat})"

definition strip :: "string \<Rightarrow> string" where
  "strip s = rev (dropWhile is_space (rev (dropWhile is_space s)))"

fun split_lines :: "string \<Rightarrow> string \<Rightarrow> string list" where
  "split_lines acc [] = (if acc = [] then [] else [rev acc])"
| "split_lines acc (c # cs) =
     (if c = newline then rev acc # split_lines [] cs else split_lines (c # acc) cs)"

text \<open>\<open>int(text, 16)\<close>: an optional sign and \<open>0x\<close> prefix, then hexadecimal digits.\<close>

definition drop_0x :: "string \<Rightarrow> string" where
  "drop_0x s = (if take 2 s = ''0x'' \<or> take 2 s = ''0X'' then drop 2 s else s)"

definition read_hex :: "string \<Rightarrow> int option" where
  "read_hex s =
     (let (sign, r) = read_sign s in map_option (\<lambda>n. sign * int n) (read_nat 16 (drop_0x r)))"

definition render_value :: "nat \<Rightarrow> int \<Rightarrow> string" where
  "render_value bits value =
     zfill ((bits + 3) div 4) (hex (nat (value AND (push_bit bits 1 - 1)))) @ [newline]"

definition render_hex :: "int list \<Rightarrow> nat \<Rightarrow> string" where
  "render_hex values bits = concat (map (render_value bits) values)"

fun hex_lines :: "nat \<Rightarrow> nat \<Rightarrow> string list \<Rightarrow> dsp_error + int list" where
  "hex_lines bits line_number [] = Inr []"
| "hex_lines bits line_number (line # rest) =
     (let txt = strip line in
      if txt = [] then hex_lines bits (Suc line_number) rest
      else case read_hex txt of
        None \<Rightarrow> Inl (HexSyntax line_number)
      | Some raw \<Rightarrow>
          if raw \<ge> push_bit bits 1 then Inl (HexRange line_number)
          else bind_res (hex_lines bits (Suc line_number) rest) (\<lambda>values.
            Inr ((if raw AND push_bit (bits - 1) 1 \<noteq> 0 then raw - push_bit bits 1 else raw) # values)))"

definition load_hex :: "string \<Rightarrow> nat \<Rightarrow> nat \<Rightarrow> dsp_error + int list" where
  "load_hex contents bits expected_length =
     bind_res (hex_lines bits 1 (split_lines [] contents)) (\<lambda>values.
       if length values \<noteq> expected_length then Inl (HexLength (length values) expected_length)
       else Inr values)"

definition load_default_tables :: "string \<Rightarrow> string \<Rightarrow> dsp_error + int list \<times> int list" where
  "load_default_tables sine_table fir_table =
     bind_res (load_hex sine_table ADC_BITS QUARTER_LUT_SIZE) (\<lambda>sine.
     bind_res (load_hex fir_table COEFFICIENT_BITS FIR_TAPS) (\<lambda>fir.
     Inr (sine, fir)))"

definition rtl_vectors :: "dsp_config \<Rightarrow> int list \<Rightarrow> int \<Rightarrow> dsp_error + (string \<times> string) list" where
  "rtl_vectors c lut sample_count =
     bind_res (run_fixed_frontend c sample_count lut) (\<lambda>trace.
       let xs = ft_samples trace in
       Inr [(''adc_q1_15.hex'', render_hex (map fs_adc xs) ADC_BITS),
            (''lo_sin_q1_15.hex'', render_hex (map fs_lo_sin xs) ADC_BITS),
            (''lo_cos_q1_15.hex'', render_hex (map fs_lo_cos xs) ADC_BITS),
            (''mixed_i_q1_17.hex'', render_hex (map fs_mixed_i xs) MIXER_BITS),
            (''mixed_q_q1_17.hex'', render_hex (map fs_mixed_q xs) MIXER_BITS)])"

definition fir_vectors ::
    "dsp_config \<Rightarrow> int list \<Rightarrow> int list \<Rightarrow> int \<Rightarrow> dsp_error + (string \<times> string) list" where
  "fir_vectors c lut fir_coefficients output_count =
     (if \<not> (1 \<le> output_count \<and> output_count \<le> output_samples c) then Inl (OutputCount (output_samples c))
      else
        bind_res (run_fixed_frontend c (output_count * int DECIMATION) lut) (\<lambda>frontend.
          let mixed_i = map fs_mixed_i (ft_samples frontend);
              mixed_q = map fs_mixed_q (ft_samples frontend)
          in bind_res (run_fixed_fir mixed_i mixed_q fir_coefficients) (\<lambda>fir.
             bind_res (pack_iq_words (map fo_output_i fir) (map fo_output_q fir)) (\<lambda>words.
             Inr [(''fir_input_i_q1_17.hex'', render_hex mixed_i MIXER_BITS),
                  (''fir_input_q_q1_17.hex'', render_hex mixed_q MIXER_BITS),
                  (''fir_accumulator_i.hex'', render_hex (map fo_accumulator_i fir) 36),
                  (''fir_accumulator_q.hex'', render_hex (map fo_accumulator_q fir) 36),
                  (''fir_output_i_q1_15.hex'', render_hex (map fo_output_i fir) OUTPUT_BITS),
                  (''fir_output_q_q1_15.hex'', render_hex (map fo_output_q fir) OUTPUT_BITS),
                  (''fir_output_words.hex'', render_hex words 32)]))))"

end
