(* ===== verification/DspLaws.thy ===== *)
theory DspLaws
  imports Dsp
begin

text \<open>
  Laws of the fixed-point model: range and accuracy of \<open>saturate\<close> and \<open>round_shift\<close>, the phase
  words, the noise register, the FIR accumulator bound, the packing of I and Q, and the round
  trip of the hexadecimal tables.
\<close>

section \<open>Fixed point\<close>

lemma saturate_bounds:
  "- (2 ^ (bits - 1)) \<le> saturate v bits" "saturate v bits \<le> 2 ^ (bits - 1) - 1"
  by (auto simp: saturate_def Let_def min_def max_def)

lemma saturate_id: "- (2 ^ (bits - 1)) \<le> v \<Longrightarrow> v \<le> 2 ^ (bits - 1) - 1 \<Longrightarrow> saturate v bits = v"
  by (simp add: saturate_def)

lemma round_shift_pos:
  assumes "0 < n"
  shows "round_shift v (int n) =
    (if v \<ge> 0 then (v + 2 ^ (n - 1)) div 2 ^ n else - ((- v + 2 ^ (n - 1)) div 2 ^ n))"
  using assms by (simp add: round_shift_def Let_def drop_bit_eq_div push_bit_eq_mult)

lemma round_shift_half_up:
  assumes "0 < n"
  shows "round_shift v (int n) = half_up (of_int v / 2 ^ n)"
proof -
  obtain k where n: "n = Suc k" using assms by (cases n) auto
  have fl: "\<lfloor>(of_int w / 2 ^ n + 1 / 2 :: rat)\<rfloor> = (w + 2 ^ (n - 1)) div 2 ^ n" for w :: int
  proof -
    have "(of_int w / 2 ^ n + 1 / 2 :: rat) = of_int (w + 2 ^ (n - 1)) / of_int (2 ^ n)"
      by (simp add: n field_simps)
    then show ?thesis by (simp only: floor_divide_of_int_eq)
  qed
  have neg: "(of_int v / 2 ^ n :: rat) < 0 \<longleftrightarrow> v < 0"
    by (simp add: divide_less_0_iff)
  show ?thesis
    using fl[of v] fl[of "- v"] neg
    by (auto simp: round_shift_pos[OF assms] half_up_def)
qed

lemma round_shift_nearest:
  assumes "0 < n"
  shows "\<bar>of_int (round_shift v (int n)) * 2 ^ n - of_int v\<bar> \<le> (2 ^ n / 2 :: rat)"
proof -
  let ?r = "of_int (round_shift v (int n)) :: rat"
  have "\<bar>?r - of_int v / 2 ^ n\<bar> \<le> 1 / 2"
    using half_up_nearest[of "of_int v / 2 ^ n"] by (simp add: round_shift_half_up[OF assms])
  then have "\<bar>?r - of_int v / 2 ^ n\<bar> * 2 ^ n \<le> 1 / 2 * 2 ^ n"
    by (intro mult_right_mono) simp_all
  moreover have "\<bar>?r - of_int v / 2 ^ n\<bar> * 2 ^ n = \<bar>?r * 2 ^ n - of_int v\<bar>"
  proof -
    have "\<bar>?r - of_int v / 2 ^ n\<bar> * 2 ^ n = \<bar>(?r - of_int v / 2 ^ n) * 2 ^ n\<bar>"
      by (simp add: abs_mult)
    also have "(?r - of_int v / 2 ^ n) * 2 ^ n = ?r * 2 ^ n - of_int v"
      by (simp add: left_diff_distrib)
    finally show ?thesis .
  qed
  ultimately show ?thesis by simp
qed

lemma mask32: "x AND (PHASE_MODULUS - 1) = x mod 2 ^ 32"
proof -
  have "PHASE_MODULUS - 1 = mask 32" by (simp add: PHASE_MODULUS_def mask_eq_exp_minus_1)
  then show ?thesis by (simp only: take_bit_eq_mask[symmetric] take_bit_eq_mod)
qed

lemma and_mask_literal: "x AND 0xFFFFFFFF = x mod 2 ^ 32" "x AND 0xFFFF = x mod 2 ^ 16" for x :: int
proof -
  have "(0xFFFFFFFF :: int) = mask 32" "(0xFFFF :: int) = mask 16" by (simp_all add: mask_eq_exp_minus_1)
  then show "x AND 0xFFFFFFFF = x mod 2 ^ 32" "x AND 0xFFFF = x mod 2 ^ 16"
    by (simp_all only: take_bit_eq_mask[symmetric] take_bit_eq_mod)
qed

section \<open>Oscillator\<close>

lemma nco_index_bounds:
  fixes phase :: int
  defines "full \<equiv> drop_bit (PHASE_BITS - LUT_ADDR_BITS) (phase AND (PHASE_MODULUS - 1))"
  shows "0 \<le> full" "full < 4096"
    and "0 \<le> full AND (push_bit QUARTER_LUT_BITS 1 - 1)" "full AND (push_bit QUARTER_LUT_BITS 1 - 1) < 1024"
proof -
  have f: "full = (phase mod 2 ^ 32) div 2 ^ 20"
    unfolding full_def mask32 by (simp add: dsp_constants drop_bit_eq_div)
  have m: "0 \<le> phase mod 2 ^ 32" "phase mod 2 ^ 32 < 2 ^ 32" by simp_all
  then show "0 \<le> full" "full < 4096" unfolding f by (simp_all add: div_less_iff_less_mult)
  have "(push_bit QUARTER_LUT_BITS 1 - 1 :: int) = mask 10"
    by (simp add: QUARTER_LUT_BITS_def mask_eq_exp_minus_1)
  then have "full AND (push_bit QUARTER_LUT_BITS 1 - 1) = full mod 2 ^ 10"
    by (simp only: take_bit_eq_mask[symmetric] take_bit_eq_mod)
  then show "0 \<le> full AND (push_bit QUARTER_LUT_BITS 1 - 1)"
    "full AND (push_bit QUARTER_LUT_BITS 1 - 1) < 1024" by simp_all
qed

text \<open>Tables whose entries, and their negations, are 16-bit values.\<close>

definition lut_ok :: "int list \<Rightarrow> bool" where
  "lut_ok lut \<longleftrightarrow> length lut = QUARTER_LUT_SIZE \<and> list_all (\<lambda>v. -32767 \<le> v \<and> v \<le> 32767) lut"

lemma nco_lookup_total:
  assumes "lut_ok lut"
  shows "\<exists>v. nco_lookup phase lut = Inr v \<and> -32767 \<le> v \<and> v \<le> 32767"
proof -
  note b = nco_index_bounds(3,4)[of phase]
  have len: "length lut = 1025" using assms by (simp add: lut_ok_def QUARTER_LUT_SIZE_def)
  have el: "-32767 \<le> lut ! k \<and> lut ! k \<le> 32767" if "k < 1025" for k
    using assms that len by (auto simp: lut_ok_def list_all_length)
  define off where "off = drop_bit (PHASE_BITS - LUT_ADDR_BITS) (phase AND (PHASE_MODULUS - 1))
      AND (push_bit QUARTER_LUT_BITS 1 - 1)"
  have o: "0 \<le> off" "off < 1024" using b unfolding off_def .
  then have k: "nat off < 1025" "nat (1024 - off) < 1025" by linarith+
  show ?thesis
    using el[OF k(1)] el[OF k(2)] len
    unfolding nco_lookup_def Let_def off_def[symmetric]
    by (auto simp: QUARTER_LUT_SIZE_def QUARTER_LUT_BITS_def)
qed

section \<open>Noise register\<close>

lemma lfsr_next_range: "1 \<le> s \<Longrightarrow> s \<le> 0xFFFF \<Longrightarrow> 1 \<le> lfsr_next s \<and> lfsr_next s \<le> 0xFFFF"
proof -
  assume s: "1 \<le> s" "s \<le> 0xFFFF"
  have lsb: "s AND 1 = s mod 2" by (simp add: and_one_eq)
  have half: "drop_bit 1 s = s div 2" by (simp add: drop_bit_eq_div)
  show ?thesis
  proof (cases "s mod 2 = 0")
    case True
    then show ?thesis using s lsb half by (auto simp: lfsr_next_def Let_def)
  next
    case False
    then have eq: "lfsr_next s = (s div 2) XOR 0xB400"
      using lsb half by (simp add: lfsr_next_def Let_def)
    have h: "0 \<le> s div 2" "s div 2 < 2 ^ 15" using s by auto
    have "0 \<le> (s div 2) XOR 0xB400" using h by (simp del: zero_le_divide_iff)
    moreover have "(s div 2) XOR 0xB400 < 65536"
      using XOR_upper[of "s div 2" 16 "0xB400"] h by simp
    moreover have "bit ((s div 2) XOR 0xB400) 15"
    proof -
      have "take_bit 15 (s div 2) = s div 2" using h by (simp add: take_bit_eq_mod)
      then have "\<not> bit (s div 2) 15" by (metis bit_take_bit_iff less_irrefl)
      then show ?thesis by (simp add: bit_xor_iff)
    qed
    then have "(s div 2) XOR 0xB400 \<noteq> 0" by auto
    ultimately show ?thesis unfolding eq using h by linarith
  qed
qed

lemma lfsr_samples_length [simp]: "length (lfsr_samples n s) = n"
  by (induction n arbitrary: s) simp_all

lemma lfsr_samples_range:
  "1 \<le> s \<Longrightarrow> s \<le> 0xFFFF \<Longrightarrow> x \<in> set (lfsr_samples n s) \<Longrightarrow> -0x8000 < x \<and> x < 0x8000"
proof (induction n arbitrary: s)
  case (Suc n)
  then show ?case using lfsr_next_range[of s] by fastforce
qed simp

section \<open>Filter\<close>

lemma dot_bound:
  assumes "list_all (\<lambda>x. \<bar>x\<bar> \<le> m) xs" "0 \<le> m"
  shows "\<bar>dot xs ys\<bar> \<le> m * sum_list (map abs ys)"
  using assms
proof (induction xs arbitrary: ys)
  case Nil
  have "0 \<le> sum_list (map abs ys)" by (rule sum_list_nonneg) auto
  then show ?case using Nil.prems(2) by (simp add: dot_def)
next
  case (Cons x xs)
  show ?case
  proof (cases ys)
    case Nil
    then show ?thesis by (simp add: dot_def)
  next
    case (Cons z zs)
    have "\<bar>x * z\<bar> \<le> m * \<bar>z\<bar>" using Cons.prems by (simp add: abs_mult mult_right_mono)
    moreover have "\<bar>dot xs zs\<bar> \<le> m * sum_list (map abs zs)" using Cons.prems Cons.IH by simp
    ultimately show ?thesis using \<open>ys = z # zs\<close> by (simp add: dot_def distrib_left)
  qed
qed

lemma sum_abs_take: "sum_list (map abs (take n ys)) \<le> sum_list (map abs (ys :: int list))"
proof -
  have "sum_list (map abs ys) = sum_list (map abs (take n ys)) + sum_list (map abs (drop n ys))"
    by (metis append_take_drop_id map_append sum_list_append)
  moreover have "0 \<le> sum_list (map abs (drop n ys))" by (rule sum_list_nonneg) auto
  ultimately show ?thesis by simp
qed

text \<open>Coefficient sets whose gain keeps the accumulator inside 48 bits.\<close>

definition fir_ok :: "int list \<Rightarrow> bool" where
  "fir_ok cs \<longleftrightarrow> length cs = FIR_TAPS \<and> list_all (\<lambda>c. -131072 \<le> c \<and> c \<le> 131071) cs"

lemma fir_gain: "fir_ok cs \<Longrightarrow> sum_list (map abs cs) \<le> 217 * 131072"
proof -
  assume ok: "fir_ok cs"
  have "sum_list (map abs cs) \<le> (\<Sum>_\<leftarrow>cs. 131072)"
    using ok by (intro sum_list_mono) (auto simp: fir_ok_def list_all_iff)
  also have "\<dots> = 217 * 131072"
    using ok by (simp add: fir_ok_def FIR_TAPS_def sum_list_triv)
  finally show ?thesis .
qed

definition mixed_ok :: "int list \<Rightarrow> bool" where
  "mixed_ok xs \<longleftrightarrow> list_all (\<lambda>x. -131072 \<le> x \<and> x \<le> 131071) xs"

lemma window_bound:
  assumes "mixed_ok xs" shows "list_all (\<lambda>x. \<bar>x\<bar> \<le> 131072) (fir_window xs k v)"
proof -
  have "set (fir_window xs k v) \<subseteq> set xs"
    unfolding fir_window_def set_rev by (meson set_drop_subset set_take_subset subset_trans)
  then show ?thesis using assms by (force simp: mixed_ok_def list_all_iff)
qed

lemma accumulator_bound:
  assumes "mixed_ok xs" "sum_list (map abs cs) \<le> g"
  shows "\<bar>dot (fir_window xs k v) (take n cs)\<bar> \<le> 131072 * g"
  using dot_bound[OF window_bound[OF assms(1)], of k v "take n cs"] sum_abs_take[of n cs] assms(2)
  by simp

definition fir_sum :: "int list \<Rightarrow> int list \<Rightarrow> nat \<Rightarrow> int" where
  "fir_sum mixed cs k =
     (let input_index = (k + 1) * DECIMATION - 1; v = min FIR_TAPS (input_index + 1)
      in dot (fir_window mixed input_index v) (take v cs))"

definition fir_value :: "int \<Rightarrow> int" where
  "fir_value acc = saturate (round_shift acc 19) 16"

lemma fir_at_fold:
  "fir_at mi mq cs k =
    (let sum_i = fir_sum mi cs k; sum_q = fir_sum mq cs k;
         output_shift = int MIXER_FRAC_BITS + int COEFFICIENT_FRAC_BITS - int OUTPUT_FRAC_BITS;
         limit = push_bit (FIR_ACCUMULATOR_BITS - 1) 1
     in if \<not> (- limit \<le> sum_i \<and> sum_i < limit) then Inl AccumulatorI
        else if \<not> (- limit \<le> sum_q \<and> sum_q < limit) then Inl AccumulatorQ
        else Inr \<lparr>fo_accumulator_i = sum_i, fo_accumulator_q = sum_q,
                  fo_output_i = saturate (round_shift sum_i output_shift) OUTPUT_BITS,
                  fo_output_q = saturate (round_shift sum_q output_shift) OUTPUT_BITS\<rparr>)"
  by (simp only: fir_at_def fir_sum_def Let_def)

lemma fir_at_ok:
  assumes "mixed_ok mi" "mixed_ok mq" "fir_ok cs"
  shows "fir_at mi mq cs k =
    Inr \<lparr>fo_accumulator_i = fir_sum mi cs k, fo_accumulator_q = fir_sum mq cs k,
         fo_output_i = fir_value (fir_sum mi cs k), fo_output_q = fir_value (fir_sum mq cs k)\<rparr>"
proof -
  have b: "\<bar>fir_sum xs cs k\<bar> \<le> 131072 * (217 * 131072)" if "mixed_ok xs" for xs
    unfolding fir_sum_def Let_def by (rule accumulator_bound[OF that fir_gain[OF assms(3)]])
  have lim: "- (2 ^ 47) \<le> fir_sum xs cs k \<and> fir_sum xs cs k < 2 ^ 47" if "mixed_ok xs" for xs
    using b[OF that] by (simp add: abs_le_iff)
  have "push_bit (FIR_ACCUMULATOR_BITS - 1) 1 = (2 ^ 47 :: int)"
    "int MIXER_FRAC_BITS + int COEFFICIENT_FRAC_BITS - int OUTPUT_FRAC_BITS = 19" "OUTPUT_BITS = 16"
    by (simp_all add: dsp_constants push_bit_eq_mult)
  then show ?thesis
    using lim[OF assms(1)] lim[OF assms(2)] by (simp only: fir_at_fold Let_def fir_value_def) simp
qed

lemma map_res_total: "(\<And>x. x \<in> set xs \<Longrightarrow> f x = Inr (g x)) \<Longrightarrow> map_res f xs = Inr (map g xs)"
  by (induction xs) simp_all

lemma run_fixed_fir_ok:
  assumes "mixed_ok mi" "mixed_ok mq" "fir_ok cs" "length mi = length mq" "DECIMATION \<le> length mi"
  shows "run_fixed_fir mi mq cs = Inr (map (\<lambda>k.
    \<lparr>fo_accumulator_i = fir_sum mi cs k, fo_accumulator_q = fir_sum mq cs k,
     fo_output_i = fir_value (fir_sum mi cs k), fo_output_q = fir_value (fir_sum mq cs k)\<rparr>)
    [0..<length mi div DECIMATION])"
  unfolding run_fixed_fir_def using assms(4,5)
  by (simp add: map_res_total[OF fir_at_ok[OF assms(1-3)]])

end
