(* ===== verification/DspRun.thy ===== *)
theory DspRun
  imports DspLaws
begin

text \<open>
  The fixed-point run as a whole: on valid tables and a validated configuration neither the
  oscillator nor the accumulator check can fail, and the shape of the result follows.
\<close>

section \<open>The front end never fails\<close>

definition nco :: "int list \<Rightarrow> int \<Rightarrow> int" where
  "nco lut phase =
     (let full = (phase mod 2 ^ 32) div 2 ^ 20; off = nat (full mod 1024); back = nat (1024 - full mod 1024)
      in if full div 1024 = 0 then lut ! off else if full div 1024 = 1 then lut ! back
         else if full div 1024 = 2 then - lut ! off else - lut ! back)"

lemma nco_lookup_eq: "length lut = QUARTER_LUT_SIZE \<Longrightarrow> nco_lookup phase lut = Inr (nco lut phase)"
proof -
  assume len: "length lut = QUARTER_LUT_SIZE"
  have m: "(1023 :: int) = mask 10" by (simp add: mask_eq_exp_minus_1)
  have a: "x AND 1023 = x mod 1024" for x :: int
    unfolding m by (simp add: take_bit_eq_mask[symmetric] take_bit_eq_mod)
  have b: "drop_bit (PHASE_BITS - LUT_ADDR_BITS) x = x div 2 ^ 20" "drop_bit QUARTER_LUT_BITS x = x div 1024"
    "(push_bit QUARTER_LUT_BITS 1 :: int) = 1024" for x :: int
    by (simp_all add: dsp_constants drop_bit_eq_div push_bit_eq_mult)
  have c: "(1024 :: int) - 1 = 1023" by simp
  show ?thesis
    by (simp only: nco_lookup_def nco_def Let_def a b c mask32 len not_True_eq_False simp_thms if_False if_distrib[of Inr])
qed

lemma nco_range: "lut_ok lut \<Longrightarrow> -32767 \<le> nco lut phase \<and> nco lut phase \<le> 32767"
  using nco_lookup_total[of lut phase] nco_lookup_eq[of lut phase] by (auto simp: lut_ok_def)

definition front_value :: "int list \<Rightarrow> frontend_tuning \<Rightarrow> int \<Rightarrow> int \<Rightarrow> int \<Rightarrow> frontend_sample" where
  "front_value lut tu sp lp noise =
     (let adc = saturate (saturate (round_shift (nco lut (sp + 2 ^ 30) * tu_amplitude tu) 15) 16 +
                          saturate (round_shift (noise * tu_noise_amplitude tu) 15) 16) 16
      in \<lparr>fs_adc = adc, fs_lo_sin = nco lut lp, fs_lo_cos = nco lut (lp + 2 ^ 30),
          fs_mixed_i = saturate (round_shift (adc * nco lut (lp + 2 ^ 30)) 13) 18,
          fs_mixed_q = saturate (round_shift (- adc * nco lut lp) 13) 18\<rparr>)"

lemma quarter_phase: "QUARTER_PHASE = 2 ^ 30"
  by (simp add: QUARTER_PHASE_def PHASE_MODULUS_def)

lemma frontend_step_eq:
  "length lut = QUARTER_LUT_SIZE \<Longrightarrow> frontend_step lut tu sp lp noise = Inr (front_value lut tu sp lp noise)"
  by (simp add: frontend_step_def front_value_def nco_lookup_eq quarter_phase Let_def
    ADC_BITS_def ADC_FRAC_BITS_def MIXER_BITS_def MIXER_FRAC_BITS_def)

lemma front_value_mixed:
  "-131072 \<le> fs_mixed_i (front_value lut tu sp lp noise)" "fs_mixed_i (front_value lut tu sp lp noise) \<le> 131071"
  "-131072 \<le> fs_mixed_q (front_value lut tu sp lp noise)" "fs_mixed_q (front_value lut tu sp lp noise) \<le> 131071"
  using saturate_bounds[where bits=18] by (simp_all add: front_value_def Let_def)

fun front_values :: "int list \<Rightarrow> frontend_tuning \<Rightarrow> int list \<Rightarrow> int \<Rightarrow> int \<Rightarrow> frontend_sample list" where
  "front_values lut tu [] sp lp = []"
| "front_values lut tu (x # xs) sp lp =
     front_value lut tu sp lp x #
     front_values lut tu xs ((sp + tu_signal_word tu) mod 2 ^ 32) ((lp + tu_lo_word tu) mod 2 ^ 32)"

lemma frontend_loop_eq:
  "length lut = QUARTER_LUT_SIZE \<Longrightarrow> frontend_loop lut tu xs sp lp = Inr (front_values lut tu xs sp lp)"
  by (induction lut tu xs sp lp rule: front_values.induct) (simp_all add: frontend_step_eq mask32)

lemma front_values_length [simp]: "length (front_values lut tu xs sp lp) = length xs"
  by (induction lut tu xs sp lp rule: front_values.induct) simp_all

lemma front_values_mixed:
  "mixed_ok (map fs_mixed_i (front_values lut tu xs sp lp)) \<and> mixed_ok (map fs_mixed_q (front_values lut tu xs sp lp))"
  by (induction lut tu xs sp lp rule: front_values.induct) (simp_all add: mixed_ok_def front_value_mixed)

text \<open>The samples the configured run feeds to the filter.\<close>

definition front_of :: "dsp_config \<Rightarrow> int list \<Rightarrow> int list \<Rightarrow> frontend_sample list" where
  "front_of c lut noise =
     front_values lut (tuning_of c) noise
       (turns_to_phase_word (c_signal_phase_turns c)) (turns_to_phase_word (c_lo_phase_turns c))"

lemma run_fixed_frontend_on_eq:
  "length lut = QUARTER_LUT_SIZE \<Longrightarrow> \<exists>t. run_fixed_frontend_on c lut noise = Inr t \<and> ft_samples t = front_of c lut noise"
  by (simp add: run_fixed_frontend_on_def Let_def frontend_loop_eq front_of_def)

section \<open>The whole run\<close>

definition fir_values :: "int list \<Rightarrow> int list \<Rightarrow> int list" where
  "fir_values mixed cs = map (\<lambda>k. fir_value (fir_sum mixed cs k)) [0..<length mixed div DECIMATION]"

definition model_i :: "dsp_config \<Rightarrow> int list \<Rightarrow> int list \<Rightarrow> int list" where
  "model_i c lut cs = fir_values (map fs_mixed_i (front_of c lut
     (lfsr_samples (nat (output_samples c * c_decimation c)) (c_noise_seed c)))) cs"

definition model_q :: "dsp_config \<Rightarrow> int list \<Rightarrow> int list \<Rightarrow> int list" where
  "model_q c lut cs = fir_values (map fs_mixed_q (front_of c lut
     (lfsr_samples (nat (output_samples c * c_decimation c)) (c_noise_seed c)))) cs"

lemma validate_config_Inr:
  "validate_config c = Inr d \<longleftrightarrow> d = c \<and> c_sample_rate_hz c = 200000000 \<and> c_decimation c = 16 \<and>
     1 \<le> c_frame_length c \<and> c_frame_length c \<le> 262144 \<and> 1 \<le> c_frame_count c \<and> c_frame_count c \<le> 255 \<and>
     output_samples c \<le> 1000000 \<and>
     0 \<le> c_signal_frequency_hz c \<and> c_signal_frequency_hz c < 100000000 \<and>
     0 \<le> c_lo_frequency_hz c \<and> c_lo_frequency_hz c < 100000000 \<and>
     0 \<le> c_signal_amplitude c \<and> 0 \<le> c_noise_amplitude c \<and>
     c_signal_amplitude c \<le> 1 \<and> c_noise_amplitude c \<le> 1 \<and>
     round28 (c_signal_amplitude c + c_noise_amplitude c) \<le> 1 \<and> 1 \<le> c_noise_seed c \<and> c_noise_seed c \<le> 65535"
  unfolding validate_config_def Let_def SAMPLE_RATE_HZ_def DECIMATION_def
  by (auto simp: not_le not_less split: if_splits)

lemma output_samples_pos: "validate_config c = Inr c \<Longrightarrow> 1 \<le> output_samples c"
  unfolding validate_config_Inr output_samples_def by (metis mult_mono' mult_1 zero_le_one)

lemma run_model_eq:
  assumes "validate_config c = Inr c" "lut_ok lut" "fir_ok cs"
  shows "run_model c lut cs = Inr
    \<lparr>dr_fixed_i = model_i c lut cs, dr_fixed_q = model_q c lut cs,
     dr_packed_words = map2 pack_word (model_i c lut cs) (model_q c lut cs), dr_tlast = tlast_flags c,
     dr_signal_phase_word = frequency_to_phase_word (c_signal_frequency_hz c) SAMPLE_RATE_HZ,
     dr_lo_phase_word = frequency_to_phase_word (c_lo_frequency_hz c) SAMPLE_RATE_HZ\<rparr>"
proof -
  let ?n = "nat (output_samples c * c_decimation c)"
  let ?noise = "lfsr_samples ?n (c_noise_seed c)"
  let ?f = "front_of c lut ?noise"
  have len: "length lut = QUARTER_LUT_SIZE" using assms(2) by (simp add: lut_ok_def)
  obtain t where t: "run_fixed_frontend_on c lut ?noise = Inr t" "ft_samples t = ?f"
    using run_fixed_frontend_on_eq[OF len] by blast
  have mi: "mixed_ok (map fs_mixed_i ?f)" "mixed_ok (map fs_mixed_q ?f)"
    using front_values_mixed by (simp_all add: front_of_def)
  have ln: "length ?f = ?n" by (simp add: front_of_def)
  have c: "c_decimation c = 16" "1 \<le> c_noise_seed c" "c_noise_seed c \<le> 65535"
    using assms(1) by (simp_all add: validate_config_Inr)
  have big: "DECIMATION \<le> ?n" using output_samples_pos[OF assms(1)] c by (simp add: DECIMATION_def)
  have fir: "run_fixed c lut cs ?noise = Inr (map (\<lambda>k.
      \<lparr>fo_accumulator_i = fir_sum (map fs_mixed_i ?f) cs k, fo_accumulator_q = fir_sum (map fs_mixed_q ?f) cs k,
       fo_output_i = fir_value (fir_sum (map fs_mixed_i ?f) cs k),
       fo_output_q = fir_value (fir_sum (map fs_mixed_q ?f) cs k)\<rparr>) [0..<?n div DECIMATION])"
    using run_fixed_fir_ok[OF mi assms(3)] t big ln by (simp add: run_fixed_def)
  show ?thesis
    using c ln fir by (simp add: run_model_def lfsr16_noise_def pack_iq_words_def comp_def
      model_i_def model_q_def fir_values_def)
qed

lemma model_length:
  assumes "validate_config c = Inr c"
  shows "length (model_i c lut cs) = nat (output_samples c)" "length (model_q c lut cs) = nat (output_samples c)"
proof -
  have "nat (output_samples c * c_decimation c) div DECIMATION = nat (output_samples c)"
    using assms by (simp add: validate_config_Inr DECIMATION_def nat_mult_distrib mult.commute)
  then show "length (model_i c lut cs) = nat (output_samples c)" "length (model_q c lut cs) = nat (output_samples c)"
    by (simp_all add: model_i_def model_q_def fir_values_def front_of_def)
qed

section \<open>Words and frame ends\<close>

lemma pack_word_sum: "pack_word i q = (q mod 65536) * 65536 + i mod 65536"
proof -
  have z: "push_bit 16 (q mod 65536) AND (i mod 65536) = 0"
  proof (rule bit_eqI)
    fix n
    have "i mod 65536 = take_bit 16 i" by (simp add: take_bit_eq_mod)
    then show "bit (push_bit 16 (q mod 65536) AND (i mod 65536)) n \<longleftrightarrow> bit (0 :: int) n"
      by (auto simp: bit_and_iff bit_push_bit_iff bit_take_bit_iff)
  qed
  have "pack_word i q = push_bit 16 (q mod 65536) OR (i mod 65536)"
    using and_mask_literal(2)[of q] and_mask_literal(2)[of i] by (simp add: pack_word_def)
  also have "\<dots> = push_bit 16 (q mod 65536) + i mod 65536"
    using z by (rule disjunctive_add_eq_or[symmetric])
  finally show ?thesis by (simp add: push_bit_eq_mult)
qed

lemma pack_word_range: "0 \<le> pack_word i q \<and> pack_word i q < 4294967296"
proof -
  have "0 \<le> q mod 65536" "q mod 65536 \<le> 65535" "0 \<le> i mod 65536" "i mod 65536 \<le> 65535" by simp_all
  then show ?thesis unfolding pack_word_sum by linarith
qed

lemma every_last:
  assumes "0 < m"
  shows "filter (\<lambda>k. k mod m = m - 1) [0..<n * m] = map (\<lambda>k. (k + 1) * m - 1) [0..<n]"
proof (induction n)
  case (Suc n)
  obtain l where l: "m = Suc l" using assms by (cases m) auto
  have "filter (\<lambda>i. i mod m = l) [0..<l] = []" by (simp add: filter_empty_conv l)
  then have block: "filter (\<lambda>i. i mod m = m - 1) [0..<m] = [l]" by (simp add: l)
  have "[n * m..<n * m + m] = map (\<lambda>i. n * m + i) [0..<m]" by (simp add: map_add_upt add.commute)
  then have "filter (\<lambda>k. k mod m = m - 1) [n * m..<n * m + m] = [n * m + l]"
    by (simp add: filter_map comp_def block del: One_nat_def)
  moreover have "[0..<Suc n * m] = [0..<n * m] @ [n * m..<n * m + m]"
    by (metis add.commute mult_Suc upt_add_eq_append zero_le)
  ultimately have "filter (\<lambda>k. k mod m = m - 1) [0..<Suc n * m] =
      map (\<lambda>k. (k + 1) * m - 1) [0..<n] @ [n * m + l]"
    by (simp only: filter_append Suc.IH)
  moreover have "(n + 1) * m - 1 = n * m + l" by (simp add: l)
  ultimately show ?case by (simp only: upt_Suc map_append) simp
qed simp

lemma tlast_count:
  assumes "validate_config c = Inr c"
  shows "int (length (filter id (tlast_flags c))) = c_frame_count c"
proof -
  define m where "m = nat (c_frame_length c)"
  define n where "n = nat (c_frame_count c)"
  have pos: "1 \<le> c_frame_length c" "1 \<le> c_frame_count c" using assms by (simp_all add: validate_config_Inr)
  have mn: "c_frame_length c = int m" "c_frame_count c = int n" "0 < m" using pos by (simp_all add: m_def n_def)
  have total: "nat (output_samples c) = n * m"
    by (simp add: output_samples_def mn mult.commute flip: of_nat_mult)
  have last: "(int k mod int m = int m - 1) = (k mod m = m - 1)" for k
    using mn(3) by (metis of_nat_diff of_nat_1 of_nat_eq_iff of_nat_mod Suc_leI One_nat_def)
  have "length (filter id (tlast_flags c)) = length (filter (\<lambda>k. k mod m = m - 1) [0..<n * m])"
    by (simp add: tlast_flags_def total mn last filter_map comp_def del: One_nat_def)
  then show ?thesis by (simp add: every_last[OF mn(3)] mn(2) del: One_nat_def)
qed

end
