(* ===== verification/DspTables.thy ===== *)
theory DspTables
  imports DspLaws
begin

text \<open>
  The \<open>readmemh\<close> tables: \<open>load_hex\<close> inverts \<open>render_hex\<close> on every list of values of the width.
\<close>

section \<open>Digit strings\<close>

abbreviation hex_digits :: string where "hex_digits \<equiv> ''0123456789abcdef''"

lemma digit_char_hex: "d < 16 \<Longrightarrow> digit_char d \<in> set hex_digits"
  unfolding digit_char_def by (rule nth_mem) simp

lemma digits_chars:
  assumes "\<And>d. d < 16 \<Longrightarrow> digit_char d \<in> H" "2 \<le> b" "b \<le> 16"
  shows "set (digits b n) \<subseteq> H"
  using assms(2,3)
proof (induction b n rule: digits.induct)
  case (1 b n)
  have "n mod b < 16" using 1(2,3) mod_less_divisor[of b n] by linarith
  then show ?case using 1 assms(1) by (subst digits.simps) simp
qed

lemma digits_hex: "2 \<le> b \<Longrightarrow> b \<le> 16 \<Longrightarrow> set (digits b n) \<subseteq> set hex_digits"
  by (rule digits_chars[OF digit_char_hex])

lemma zfill_hex: "set s \<subseteq> set hex_digits \<Longrightarrow> set (zfill w s) \<subseteq> set hex_digits"
  by (auto simp: zfill_def)

lemma zfill_Nil_iff [simp]: "zfill w s = [] \<longleftrightarrow> w = 0 \<and> s = []"
  by (cases s) (simp_all add: zfill_def)

text \<open>No hexadecimal digit is a blank, a line end, a sign or the \<open>x\<close> of a prefix.\<close>

lemma hex_digit_plain:
  assumes "c \<in> set hex_digits"
  shows "\<not> is_space c" "c \<noteq> newline" "c \<noteq> CHR ''-''" "c \<noteq> CHR ''+''" "c \<noteq> CHR ''x''" "c \<noteq> CHR ''X''"
proof -
  have "list_all (\<lambda>c. \<not> is_space c \<and> c \<noteq> newline \<and> c \<noteq> CHR ''-'' \<and> c \<noteq> CHR ''+'' \<and>
      c \<noteq> CHR ''x'' \<and> c \<noteq> CHR ''X'') hex_digits"
    by code_simp
  with assms show "\<not> is_space c" "c \<noteq> newline" "c \<noteq> CHR ''-''" "c \<noteq> CHR ''+''" "c \<noteq> CHR ''x''" "c \<noteq> CHR ''X''"
    unfolding list_all_iff by blast+
qed

lemma dropWhile_none: "(\<And>x. x \<in> set xs \<Longrightarrow> \<not> P x) \<Longrightarrow> dropWhile P xs = xs"
  by (cases xs) simp_all

lemma strip_plain: "(\<And>c. c \<in> set s \<Longrightarrow> \<not> is_space c) \<Longrightarrow> strip s = s"
  using dropWhile_none[of s is_space] dropWhile_none[of "rev s" is_space] by (simp add: strip_def)

lemma read_sign_hex: "set s \<subseteq> set hex_digits \<Longrightarrow> read_sign s = (1, s)"
  using hex_digit_plain(3,4) by (cases s) (auto simp: read_sign_def)

lemma drop_0x_hex: "set s \<subseteq> set hex_digits \<Longrightarrow> drop_0x s = s"
proof -
  assume s: "set s \<subseteq> set hex_digits"
  have x: "y \<noteq> CHR ''x'' \<and> y \<noteq> CHR ''X''" if "y \<in> set (take 2 s)" for y
    using that s hex_digit_plain(5,6)[of y] set_take_subset[of 2 s] by blast
  have "take 2 s \<noteq> ''0x''" "take 2 s \<noteq> ''0X''"
    using x[of "CHR ''x''"] x[of "CHR ''X''"] by (metis list.set_intros)+
  then show ?thesis by (simp add: drop_0x_def)
qed

lemma read_hex_hex: "set s \<subseteq> set hex_digits \<Longrightarrow> read_hex s = map_option int (read_nat 16 s)"
  by (simp add: read_hex_def read_sign_hex drop_0x_hex)

lemma split_lines_plain:
  "newline \<notin> set s \<Longrightarrow> split_lines acc (s @ newline # rest) = (rev acc @ s) # split_lines [] rest"
  by (induction s arbitrary: acc) auto

section \<open>Signed values of a width\<close>

definition in_bits :: "nat \<Rightarrow> int \<Rightarrow> bool" where
  "in_bits bits v \<longleftrightarrow> - (2 ^ (bits - 1)) \<le> v \<and> v < 2 ^ (bits - 1)"

definition hex_line :: "nat \<Rightarrow> int \<Rightarrow> string" where
  "hex_line bits v = zfill ((bits + 3) div 4) (hex (nat (v mod 2 ^ bits)))"

lemma render_value_line: "render_value bits v = hex_line bits v @ [newline]"
proof -
  have "v AND (push_bit bits 1 - 1) = v mod 2 ^ bits"
    by (simp add: push_bit_eq_mult mask_eq_exp_minus_1[symmetric] take_bit_eq_mask[symmetric] take_bit_eq_mod)
  then show ?thesis by (simp only: render_value_def hex_line_def)
qed

lemma hex_line_hex: "set (hex_line bits v) \<subseteq> set hex_digits"
  unfolding hex_line_def by (intro zfill_hex digits_hex) simp_all

lemma hex_line_read: "read_hex (hex_line bits v) = Some (v mod 2 ^ bits)"
proof -
  have "read_nat 16 (hex_line bits v) = Some (nat (v mod 2 ^ bits))"
    unfolding hex_line_def by (rule read_nat_zfill) simp_all
  then show ?thesis by (simp add: read_hex_hex[OF hex_line_hex])
qed

lemma hex_line_Nil [simp]: "hex_line bits v \<noteq> []"
  by (simp add: hex_line_def)

lemma strip_hex_line [simp]: "strip (hex_line bits v) = hex_line bits v"
  using hex_line_hex hex_digit_plain(1) by (intro strip_plain) blast

lemma newline_hex_line: "newline \<notin> set (hex_line bits v)"
  using hex_line_hex[of bits v] hex_digit_plain(2) by blast

lemma and_power: "(x::int) AND 2 ^ n \<noteq> 0 \<longleftrightarrow> odd (x div 2 ^ n)"
  by (simp add: and_bit_nonzero bit_iff_odd)

lemma sign_fold:
  assumes "0 < bits" "in_bits bits v"
  shows "(let raw = v mod 2 ^ bits in
    if raw AND push_bit (bits - 1) 1 \<noteq> 0 then raw - push_bit bits 1 else raw) = v"
proof -
  obtain n where n: "bits = Suc n" using assms(1) by (cases bits) auto
  let ?h = "2 ^ n :: int"
  have b: "- ?h \<le> v" "v < ?h" using assms(2) by (simp_all add: in_bits_def n)
  show ?thesis
  proof (cases "0 \<le> v")
    case True
    then have "v mod 2 ^ bits = v" using b by (simp add: n mod_pos_pos_trivial)
    moreover have "v div ?h = 0" using True b by (simp add: div_pos_pos_trivial)
    ultimately show ?thesis by (simp add: Let_def push_bit_eq_mult n and_power)
  next
    case False
    have r: "v mod 2 ^ bits = v + 2 * ?h"
    proof -
      have "(v + 2 * ?h) mod (2 * ?h) = v + 2 * ?h"
        using False b by (intro mod_pos_pos_trivial) linarith+
      then show ?thesis by (simp add: n)
    qed
    have "(v + 2 * ?h) div ?h = 1"
      using False b by (intro int_div_pos_eq[of _ _ _ "v + ?h"]) (simp_all add: algebra_simps)
    then have "(v + 2 * ?h) AND ?h \<noteq> 0" by (simp only: and_power) simp
    then show ?thesis unfolding r by (simp add: Let_def push_bit_eq_mult n)
  qed
qed

lemma split_render:
  "split_lines [] (render_hex vs bits) = map (hex_line bits) vs"
  by (induction vs) (simp_all add: render_hex_def render_value_line split_lines_plain newline_hex_line)

lemma hex_lines_map:
  "0 < bits \<Longrightarrow> list_all (in_bits bits) vs \<Longrightarrow> hex_lines bits k (map (hex_line bits) vs) = Inr vs"
proof (induction vs arbitrary: k)
  case (Cons v vs)
  have "v mod 2 ^ bits < (2::int) ^ bits" by simp
  then show ?case
    using Cons sign_fold[of bits v]
    by (simp add: hex_line_read Let_def push_bit_eq_mult not_le)
qed simp

lemma load_render:
  "0 < bits \<Longrightarrow> list_all (in_bits bits) vs \<Longrightarrow> load_hex (render_hex vs bits) bits (length vs) = Inr vs"
  by (simp add: load_hex_def split_render hex_lines_map)

lemma load_default_tables_render:
  assumes "lut_ok lut" "fir_ok cs"
  shows "load_default_tables (render_hex lut 16) (render_hex cs 18) = Inr (lut, cs)"
proof -
  have "list_all (in_bits 16) lut" "list_all (in_bits 18) cs"
    using assms by (auto simp: lut_ok_def fir_ok_def in_bits_def list_all_iff)
  then have "load_hex (render_hex lut 16) 16 (length lut) = Inr lut"
    "load_hex (render_hex cs 18) 18 (length cs) = Inr cs"
    by (simp_all add: load_render)
  then show ?thesis using assms
    by (simp add: load_default_tables_def ADC_BITS_def COEFFICIENT_BITS_def lut_ok_def fir_ok_def)
qed

text \<open>
  A signed line passes the range test, which bounds the value from above only, and the sign fold
  then moves it out of the width: a one-line table \<open>-5\<close> loads as -65541.
\<close>

lemma load_hex_accepts_negative: "load_hex (CHR ''-'' # ''5'' @ [newline]) 16 1 = Inr [-65541]"
  by code_simp



end
