(* ===== verification/DspReference.thy ===== *)
theory DspReference
  imports DspRun DspTables
begin

text \<open>
  The standard-library reference \<open>host/dsp_model/qcrate_dsp_reference.py\<close>: its own arithmetic,
  its own configuration and table readers and one streaming loop that keeps every mixed sample
  and emits a word on each sixteenth input.  It shares no code with \<open>qcrate_dsp.py\<close>; the theory
  DspAgreement shows that the two produce the same words.  The parsed document is the value
  of \<open>json.loads\<close>, whose objects have one value per key.
\<close>

unbundle bit_operations_syntax

section \<open>Arithmetic\<close>

datatype ref_error =
    RefCount
  | RefNotMapping
  | RefMissingKey string
  | RefNotInteger string
  | RefNotDecimal string
  | RefDivision
  | RefActive string json int
  | RefFrozen
  | RefHexSyntax
  | RefHexCount nat nat

definition ref_saturate :: "int \<Rightarrow> nat \<Rightarrow> int" where
  "ref_saturate value bits = min (max value (- push_bit (bits - 1) 1)) (push_bit (bits - 1) 1 - 1)"

definition ref_round_shift :: "int \<Rightarrow> nat \<Rightarrow> int" where
  "ref_round_shift value shift =
     (let magnitude = \<bar>value\<bar>; rounded = drop_bit shift (magnitude + push_bit (shift - 1) 1)
      in if value \<ge> 0 then rounded else - rounded)"

definition ref_frequency_to_phase_word :: "rat \<Rightarrow> int \<Rightarrow> ref_error + int" where
  "ref_frequency_to_phase_word frequency_hz sample_rate_hz =
     (if sample_rate_hz = 0 then Inl RefDivision
      else Inr (half_up (round28 (round28 (frequency_hz * of_int PHASE_MODULUS) / of_int sample_rate_hz)) AND 0xFFFFFFFF))"

definition ref_phase :: "rat \<Rightarrow> int" where
  "ref_phase turns = half_up (round28 (turns * of_int PHASE_MODULUS)) AND 0xFFFFFFFF"

definition decimal_to_q1_15 :: "rat \<Rightarrow> int" where
  "decimal_to_q1_15 value = ref_saturate (half_up (round28 (value * 2 ^ 15))) 16"

definition ref_nco_lookup :: "int \<Rightarrow> int list \<Rightarrow> int" where
  "ref_nco_lookup phase_word quarter_lut =
     (let full_index = drop_bit (32 - 12) (phase_word AND 0xFFFFFFFF);
          quadrant = drop_bit 10 full_index;
          offset = full_index AND (push_bit 10 1 - 1);
          mirrored = nat (push_bit 10 1 - offset)
      in if quadrant = 0 then quarter_lut ! nat offset
         else if quadrant = 1 then quarter_lut ! mirrored
         else if quadrant = 2 then - quarter_lut ! nat offset
         else - quarter_lut ! mirrored)"

definition lfsr_step :: "int \<Rightarrow> int" where
  "lfsr_step state =
     (let shifted = drop_bit 1 state
      in if state AND 1 \<noteq> 0 then shifted XOR 0xB400 else shifted)"

section \<open>Readers\<close>

text \<open>\<open>str.splitlines()\<close>: the line boundaries below 256, with a final unterminated line.\<close>

definition line_boundary :: "char \<Rightarrow> bool" where
  "line_boundary c = (of_char c \<in> {10, 11, 12, 13, 28, 29, 30, 133 :: nat})"

fun splitlines :: "string \<Rightarrow> string \<Rightarrow> string list" where
  "splitlines acc [] = (if acc = [] then [] else [rev acc])"
| "splitlines acc (c # cs) =
     (if line_boundary c then rev acc # splitlines [] cs else splitlines (c # acc) cs)"

fun masked_values :: "nat \<Rightarrow> string list \<Rightarrow> ref_error + int list" where
  "masked_values bits [] = Inr []"
| "masked_values bits (line # rest) =
     (case read_hex (strip line) of
        None \<Rightarrow> Inl RefHexSyntax
      | Some v \<Rightarrow>
          bind_res (masked_values bits rest) (\<lambda>vs. Inr ((v AND (push_bit bits 1 - 1)) # vs)))"

definition load_signed_hex :: "string \<Rightarrow> nat \<Rightarrow> nat \<Rightarrow> ref_error + int list" where
  "load_signed_hex contents bits expected_count =
     bind_res (masked_values bits (filter (\<lambda>line. line \<noteq> []) (splitlines [] contents))) (\<lambda>values.
       if length values \<noteq> expected_count then Inl (RefHexCount (length values) expected_count)
       else Inr (map (\<lambda>v. if v AND push_bit (bits - 1) 1 \<noteq> 0 then v - push_bit bits 1 else v) values))"

definition ref_item :: "json \<Rightarrow> string \<Rightarrow> ref_error + json" where
  "ref_item v k =
     (case v of
        JObject d \<Rightarrow> if has_key d k then Inr (get d k) else Inl (RefMissingKey k)
      | _ \<Rightarrow> Inl RefNotMapping)"

definition ref_int :: "json \<Rightarrow> string \<Rightarrow> ref_error + int" where
  "ref_int v k =
     bind_res (ref_item v k) (\<lambda>x.
       case int_of_json x of Some i \<Rightarrow> Inr i | None \<Rightarrow> Inl (RefNotInteger k))"

definition ref_decimal :: "json \<Rightarrow> string \<Rightarrow> ref_error + rat" where
  "ref_decimal v k =
     bind_res (ref_item v k) (\<lambda>x.
       case decimal_of x of DecimalValue q \<Rightarrow> Inr q | _ \<Rightarrow> Inl (RefNotDecimal k))"

section \<open>Settings of a run\<close>

record ref_settings =
  rs_sample_rate_hz :: int
  rs_decimation :: int
  rs_signal_increment :: int
  rs_lo_increment :: int
  rs_signal_phase :: int
  rs_lo_phase :: int
  rs_signal_amplitude :: int
  rs_noise_amplitude :: int
  rs_lfsr :: int

text \<open>Both branches of \<open>generate_words\<close> read the same fields, in the same order.\<close>

definition read_settings :: "json \<Rightarrow> json \<Rightarrow> ref_error + ref_settings" where
  "read_settings contract requested =
     bind_res (ref_int contract ''sample_rate_hz'') (\<lambda>sample_rate_hz.
     bind_res (ref_int contract ''decimation'') (\<lambda>decimation.
     bind_res (ref_decimal requested ''signal_frequency_hz'') (\<lambda>signal_frequency.
     bind_res (ref_frequency_to_phase_word signal_frequency sample_rate_hz) (\<lambda>signal_increment.
     bind_res (ref_decimal requested ''lo_frequency_hz'') (\<lambda>lo_frequency.
     bind_res (ref_frequency_to_phase_word lo_frequency sample_rate_hz) (\<lambda>lo_increment.
     bind_res (ref_decimal requested ''signal_phase_turns'') (\<lambda>signal_phase.
     bind_res (ref_decimal requested ''lo_phase_turns'') (\<lambda>lo_phase.
     bind_res (ref_decimal requested ''signal_amplitude'') (\<lambda>signal_amplitude.
     bind_res (ref_decimal requested ''noise_amplitude'') (\<lambda>noise_amplitude.
     bind_res (ref_int requested ''noise_seed'') (\<lambda>lfsr.
     Inr \<lparr>rs_sample_rate_hz = sample_rate_hz, rs_decimation = decimation,
          rs_signal_increment = signal_increment, rs_lo_increment = lo_increment,
          rs_signal_phase = ref_phase signal_phase, rs_lo_phase = ref_phase lo_phase,
          rs_signal_amplitude = decimal_to_q1_15 signal_amplitude,
          rs_noise_amplitude = decimal_to_q1_15 noise_amplitude, rs_lfsr = lfsr\<rparr>)))))))))))"

definition ref_expected_active :: "ref_settings \<Rightarrow> (string \<times> int) list" where
  "ref_expected_active s =
     [(''SIGNAL_PHASE_INCREMENT'', rs_signal_increment s),
      (''SIGNAL_PHASE_INITIAL'', rs_signal_phase s),
      (''SIGNAL_AMPLITUDE_Q1_15'', rs_signal_amplitude s),
      (''NOISE_AMPLITUDE_Q1_15'', rs_noise_amplitude s),
      (''NOISE_SEED'', rs_lfsr s),
      (''LO_PHASE_INCREMENT'', rs_lo_increment s),
      (''LO_PHASE_INITIAL'', rs_lo_phase s)]"

fun ref_check_active :: "json \<Rightarrow> (string \<times> int) list \<Rightarrow> ref_error + unit" where
  "ref_check_active active [] = Inr ()"
| "ref_check_active active ((name, value) # rest) =
     (case active of
        JObject d \<Rightarrow>
          if json_equals_int (get d name) value then ref_check_active active rest
          else Inl (RefActive name (get d name) value)
      | _ \<Rightarrow> Inl RefNotMapping)"

definition ref_configure :: "json \<Rightarrow> ref_error + ref_settings" where
  "ref_configure config =
     (case config of
        JObject d \<Rightarrow>
          bind_res
            (if get d ''format'' = JString ''qcrate-experiment-resolved-v1''
             then
               bind_res (ref_item config ''numerical_contract'') (\<lambda>contract.
               bind_res (ref_item config ''dsp'') (\<lambda>dsp.
               bind_res (ref_item dsp ''requested'') (\<lambda>requested.
               bind_res (ref_item dsp ''active'') (\<lambda>active.
               bind_res (read_settings contract requested) (\<lambda>s.
               bind_res (ref_check_active active (ref_expected_active s)) (\<lambda>_. Inr s))))))
             else read_settings config config)
            (\<lambda>s. if rs_sample_rate_hz s \<noteq> 200000000 \<or> rs_decimation s \<noteq> 16 then Inl RefFrozen else Inr s)
      | _ \<Rightarrow> Inl RefNotMapping)"

section \<open>The streaming loop\<close>

record ref_state =
  rf_lfsr :: int
  rf_signal_phase :: int
  rf_lo_phase :: int
  rf_mixed_i :: "int list"
  rf_mixed_q :: "int list"
  rf_words :: "int list"

definition ref_sum :: "int list \<Rightarrow> int list \<Rightarrow> nat \<Rightarrow> int" where
  "ref_sum mixed coefficients input_index =
     (let valid_taps = min 217 (input_index + 1)
      in sum_list (map (\<lambda>tap. mixed ! (input_index - tap) * coefficients ! tap) [0..<valid_taps]))"

definition ref_word :: "int list \<Rightarrow> int list \<Rightarrow> int list \<Rightarrow> nat \<Rightarrow> int" where
  "ref_word mixed_i mixed_q coefficients input_index =
     (let output_i = ref_saturate (ref_round_shift (ref_sum mixed_i coefficients input_index) 19) 16;
          output_q = ref_saturate (ref_round_shift (ref_sum mixed_q coefficients input_index) 19) 16
      in push_bit 16 (output_q AND 0xFFFF) OR (output_i AND 0xFFFF))"

definition ref_step ::
    "ref_settings \<Rightarrow> int list \<Rightarrow> int list \<Rightarrow> nat \<Rightarrow> ref_state \<Rightarrow> ref_state" where
  "ref_step s sine_lut coefficients input_index st =
     (let lfsr = lfsr_step (rf_lfsr st);
          noise_q1_15 = lfsr - 0x8000;
          source_cosine = ref_nco_lookup (rf_signal_phase st + push_bit 30 1) sine_lut;
          lo_cosine = ref_nco_lookup (rf_lo_phase st + push_bit 30 1) sine_lut;
          lo_sine = ref_nco_lookup (rf_lo_phase st) sine_lut;
          source = ref_saturate (ref_round_shift (source_cosine * rs_signal_amplitude s) 15) 16;
          noise = ref_saturate (ref_round_shift (noise_q1_15 * rs_noise_amplitude s) 15) 16;
          adc = ref_saturate (source + noise) 16;
          mixed_i = rf_mixed_i st @ [ref_saturate (ref_round_shift (adc * lo_cosine) 13) 18];
          mixed_q = rf_mixed_q st @ [ref_saturate (ref_round_shift (- adc * lo_sine) 13) 18]
      in \<lparr>rf_lfsr = lfsr,
          rf_signal_phase = (rf_signal_phase st + rs_signal_increment s) AND 0xFFFFFFFF,
          rf_lo_phase = (rf_lo_phase st + rs_lo_increment s) AND 0xFFFFFFFF,
          rf_mixed_i = mixed_i, rf_mixed_q = mixed_q,
          rf_words = rf_words st @
            (if input_index mod 16 = 15 then [ref_word mixed_i mixed_q coefficients input_index] else [])\<rparr>)"

definition generate_words :: "json \<Rightarrow> string \<Rightarrow> string \<Rightarrow> int \<Rightarrow> ref_error + int list" where
  "generate_words config sine_table fir_table output_count =
     (if output_count < 1 then Inl RefCount
      else
        bind_res (ref_configure config) (\<lambda>s.
        bind_res (load_signed_hex sine_table 16 1025) (\<lambda>sine_lut.
        bind_res (load_signed_hex fir_table 18 217) (\<lambda>coefficients.
        Inr (rf_words (fold (ref_step s sine_lut coefficients) [0..<nat output_count * 16]
          \<lparr>rf_lfsr = rs_lfsr s, rf_signal_phase = rs_signal_phase s, rf_lo_phase = rs_lo_phase s,
           rf_mixed_i = [], rf_mixed_q = [], rf_words = []\<rparr>))))))"

end
