(* ===== verification/DspAgreement.thy ===== *)
theory DspAgreement
  imports DspReference
begin

text \<open>
  The reference of \<open>qcrate_dsp_reference.py\<close> and the model of \<open>qcrate_dsp.py\<close> agree: the same
  settings are read from an accepted configuration, the same values from the tables, and the
  streaming loop emits the words the vectorised model computes.
\<close>

section \<open>Arithmetic\<close>

lemma ref_saturate_eq: "0 < bits \<Longrightarrow> ref_saturate v bits = saturate v bits"
proof -
  have "(1::int) \<le> 2 ^ (bits - 1)" by simp
  then show ?thesis
    by (simp only: ref_saturate_def saturate_def Let_def push_bit_eq_mult mult_1) linarith
qed

lemma ref_round_shift_eq: "0 < n \<Longrightarrow> ref_round_shift v n = round_shift v (int n)"
  by (simp add: ref_round_shift_def round_shift_def Let_def)

lemma ref_round_shift_numeral: "ref_round_shift v (numeral k) = round_shift v (numeral k)"
  using ref_round_shift_eq[of "numeral k" v] by simp

lemma ref_nco_eq: "ref_nco_lookup phase lut = nco lut phase"
proof -
  have m: "(1023 :: int) = mask 10" by (simp add: mask_eq_exp_minus_1)
  have a: "x AND 1023 = x mod 1024" for x :: int
    unfolding m by (simp add: take_bit_eq_mask[symmetric] take_bit_eq_mod)
  have b: "drop_bit (32 - 12) x = x div 2 ^ 20" "drop_bit 10 x = x div 1024"
    "(push_bit 10 1 :: int) = 1024" "(1024 :: int) - 1 = 1023" for x :: int
    by (simp_all add: drop_bit_eq_div push_bit_eq_mult)
  show ?thesis by (simp only: ref_nco_lookup_def nco_def Let_def a b and_mask_literal)
qed

lemma lfsr_step_eq: "lfsr_step s = lfsr_next s"
  by (simp add: lfsr_step_def lfsr_next_def Let_def)

section \<open>The streaming loop\<close>

definition tuning_from :: "ref_settings \<Rightarrow> frontend_tuning" where
  "tuning_from s = \<lparr>tu_signal_word = rs_signal_increment s, tu_lo_word = rs_lo_increment s,
     tu_amplitude = rs_signal_amplitude s, tu_noise_amplitude = rs_noise_amplitude s\<rparr>"

lemma fir_window_nth:
  assumes "v \<le> i + 1" "i < length mixed" "t < v"
  shows "fir_window mixed i v ! t = mixed ! (i - t)"
proof -
  have "i + 1 - v + (v - Suc t) = i - t" using assms by linarith
  then show ?thesis using assms by (simp add: fir_window_def rev_nth)
qed

lemma fir_window_length: "v \<le> i + 1 \<Longrightarrow> i < length mixed \<Longrightarrow> length (fir_window mixed i v) = v"
  by (simp add: fir_window_def)

lemma ref_sum_fir_sum:
  assumes "length cs = FIR_TAPS" "k < length mixed div 16"
  shows "ref_sum mixed cs ((k + 1) * 16 - 1) = fir_sum mixed cs k"
proof -
  define i where "i = (k + 1) * 16 - 1"
  define v where "v = min 217 (i + 1)"
  have i: "i < length mixed" "v \<le> i + 1" using assms(2) by (auto simp: i_def v_def)
  have v: "v \<le> length cs" using assms(1) by (simp add: v_def FIR_TAPS_def)
  have "map2 (*) (fir_window mixed i v) (take v cs) = map (\<lambda>t. mixed ! (i - t) * cs ! t) [0..<v]"
    using fir_window_nth[OF i(2,1)] fir_window_length[OF i(2,1)] v
    by (intro nth_equalityI) simp_all
  then show ?thesis
    unfolding ref_sum_def fir_sum_def dot_def Let_def FIR_TAPS_def DECIMATION_def
      i_def[symmetric] v_def[symmetric] by (simp only:)
qed

lemma ref_sum_prefix: "k < length xs \<Longrightarrow> ref_sum (xs @ ys) cs k = ref_sum xs cs k"
  unfolding ref_sum_def Let_def by (intro arg_cong[of _ _ sum_list] map_cong) (auto simp: nth_append)

lemma ref_word_prefix:
  "k < length xs \<Longrightarrow> k < length zs \<Longrightarrow> ref_word (xs @ ys) (zs @ ws) cs k = ref_word xs zs cs k"
  by (simp add: ref_word_def ref_sum_prefix)

lemma ref_step_fields:
  fixes s lut cs a st
  defines "x \<equiv> front_value lut (tuning_from s) (rf_signal_phase st) (rf_lo_phase st) (lfsr_next (rf_lfsr st) - 0x8000)"
  shows "ref_step s lut cs a st =
    \<lparr>rf_lfsr = lfsr_next (rf_lfsr st),
     rf_signal_phase = (rf_signal_phase st + rs_signal_increment s) mod 2 ^ 32,
     rf_lo_phase = (rf_lo_phase st + rs_lo_increment s) mod 2 ^ 32,
     rf_mixed_i = rf_mixed_i st @ [fs_mixed_i x], rf_mixed_q = rf_mixed_q st @ [fs_mixed_q x],
     rf_words = rf_words st @ (if a mod 16 = 15
       then [ref_word (rf_mixed_i st @ [fs_mixed_i x]) (rf_mixed_q st @ [fs_mixed_q x]) cs a] else [])\<rparr>"
proof -
  have p: "(push_bit 30 1 :: int) = 2 ^ 30" by (simp add: push_bit_eq_mult)
  show ?thesis
    unfolding x_def ref_step_def Let_def ref_nco_eq lfsr_step_eq p and_mask_literal front_value_def tuning_from_def
    by (simp add: ref_saturate_eq ref_round_shift_numeral)
qed

lemma ref_loop:
  assumes "length (rf_mixed_i st) = a" "length (rf_mixed_q st) = a"
  shows "let xs = front_values lut (tuning_from s) (lfsr_samples n (rf_lfsr st)) (rf_signal_phase st) (rf_lo_phase st);
             mi = rf_mixed_i st @ map fs_mixed_i xs; mq = rf_mixed_q st @ map fs_mixed_q xs
         in rf_words (fold (ref_step s lut cs) [a..<a + n] st) =
            rf_words st @ map (ref_word mi mq cs) (filter (\<lambda>k. k mod 16 = 15) [a..<a + n])"
  using assms
proof (induction n arbitrary: a st)
  case 0
  then show ?case by simp
next
  case (Suc n)
  let ?st = "ref_step s lut cs a st"
  let ?x = "front_value lut (tuning_from s) (rf_signal_phase st) (rf_lo_phase st) (lfsr_next (rf_lfsr st) - 0x8000)"
  let ?ys = "front_values lut (tuning_from s) (lfsr_samples n (rf_lfsr ?st)) (rf_signal_phase ?st) (rf_lo_phase ?st)"
  have xs: "front_values lut (tuning_from s) (lfsr_samples (Suc n) (rf_lfsr st)) (rf_signal_phase st) (rf_lo_phase st)
      = ?x # ?ys"
    by (simp add: ref_step_fields tuning_from_def)
  have up: "[a..<a + Suc n] = a # [Suc a..<Suc a + n]" by (simp add: upt_rec)
  have len: "length (rf_mixed_i ?st) = Suc a" "length (rf_mixed_q ?st) = Suc a"
    using Suc.prems by (simp_all add: ref_step_fields)
  have mix: "rf_mixed_i st @ map fs_mixed_i (?x # ?ys) = rf_mixed_i ?st @ map fs_mixed_i ?ys"
    "rf_mixed_q st @ map fs_mixed_q (?x # ?ys) = rf_mixed_q ?st @ map fs_mixed_q ?ys"
    by (simp_all add: ref_step_fields)
  have w: "rf_words ?st = rf_words st @ map (ref_word (rf_mixed_i ?st @ map fs_mixed_i ?ys)
      (rf_mixed_q ?st @ map fs_mixed_q ?ys) cs) (filter (\<lambda>k. k mod 16 = 15) [a])"
    using ref_word_prefix[of a "rf_mixed_i ?st" "rf_mixed_q ?st" "map fs_mixed_i ?ys" "map fs_mixed_q ?ys" cs] len
    by (simp add: ref_step_fields)
  show ?case
    using Suc.IH[OF len] unfolding Let_def xs mix up by (simp add: w)
qed

lemma ref_word_pack:
  assumes "length cs = FIR_TAPS" "k < length mi div 16" "length mq = length mi"
  shows "ref_word mi mq cs (15 + k * 16) = pack_word (fir_value (fir_sum mi cs k)) (fir_value (fir_sum mq cs k))"
  using ref_sum_fir_sum[OF assms(1,2)] ref_sum_fir_sum[OF assms(1), of k mq] assms(2,3)
  unfolding ref_word_def Let_def pack_word_def fir_value_def
  by (simp add: ref_saturate_eq ref_round_shift_numeral)

text \<open>The emitted words, from the start of a run.\<close>

lemma ref_words_eq:
  fixes s lut cs n
  defines "xs \<equiv> front_values lut (tuning_from s) (lfsr_samples (n * 16) (rs_lfsr s)) (rs_signal_phase s) (rs_lo_phase s)"
  assumes "length cs = FIR_TAPS"
  shows "rf_words (fold (ref_step s lut cs) [0..<n * 16]
      \<lparr>rf_lfsr = rs_lfsr s, rf_signal_phase = rs_signal_phase s, rf_lo_phase = rs_lo_phase s,
       rf_mixed_i = [], rf_mixed_q = [], rf_words = []\<rparr>) =
    map2 pack_word (fir_values (map fs_mixed_i xs) cs) (fir_values (map fs_mixed_q xs) cs)"
proof -
  let ?mi = "map fs_mixed_i xs" and ?mq = "map fs_mixed_q xs"
  have lx: "length xs = n * 16" by (simp add: xs_def)
  then have len: "length ?mi = n * 16" "length ?mq = n * 16" by simp_all
  have "rf_words (fold (ref_step s lut cs) [0..<n * 16]
      \<lparr>rf_lfsr = rs_lfsr s, rf_signal_phase = rs_signal_phase s, rf_lo_phase = rs_lo_phase s,
       rf_mixed_i = [], rf_mixed_q = [], rf_words = []\<rparr>) =
      map (ref_word ?mi ?mq cs) (map (\<lambda>k. (k + 1) * 16 - 1) [0..<n])"
    using ref_loop[of "\<lparr>rf_lfsr = rs_lfsr s, rf_signal_phase = rs_signal_phase s, rf_lo_phase = rs_lo_phase s,
       rf_mixed_i = [], rf_mixed_q = [], rf_words = []\<rparr>" 0 lut s "n * 16" cs]
    by (simp add: Let_def every_last[of 16, simplified] xs_def)
  also have "\<dots> = map2 pack_word (fir_values ?mi cs) (fir_values ?mq cs)"
    unfolding fir_values_def DECIMATION_def len
    by (rule nth_equalityI) (simp_all add: ref_word_pack[OF assms(2)] lx)
  finally show ?thesis .
qed

section \<open>Configuration\<close>

definition settings_of :: "dsp_config \<Rightarrow> ref_settings" where
  "settings_of c =
     \<lparr>rs_sample_rate_hz = c_sample_rate_hz c, rs_decimation = c_decimation c,
      rs_signal_increment = frequency_to_phase_word (c_signal_frequency_hz c) (c_sample_rate_hz c),
      rs_lo_increment = frequency_to_phase_word (c_lo_frequency_hz c) (c_sample_rate_hz c),
      rs_signal_phase = turns_to_phase_word (c_signal_phase_turns c),
      rs_lo_phase = turns_to_phase_word (c_lo_phase_turns c),
      rs_signal_amplitude = decimal_to_fixed (c_signal_amplitude c) ADC_BITS ADC_FRAC_BITS,
      rs_noise_amplitude = decimal_to_fixed (c_noise_amplitude c) ADC_BITS ADC_FRAC_BITS,
      rs_lfsr = c_noise_seed c\<rparr>"

lemma ref_phase_eq: "ref_phase t = turns_to_phase_word t"
  by (simp add: ref_phase_def turns_to_phase_word_def mask32 and_mask_literal)

lemma ref_frequency_eq: "r \<noteq> 0 \<Longrightarrow> ref_frequency_to_phase_word f r = Inr (frequency_to_phase_word f r)"
  by (simp add: ref_frequency_to_phase_word_def frequency_to_phase_word_def mask32 and_mask_literal)

lemma decimal_to_q1_15_eq: "decimal_to_q1_15 v = decimal_to_fixed v ADC_BITS ADC_FRAC_BITS"
  by (simp add: decimal_to_q1_15_def decimal_to_fixed_def ref_saturate_eq ADC_BITS_def ADC_FRAC_BITS_def)

lemma ref_item_eq: "item v k = Inr x \<Longrightarrow> ref_item v k = Inr x"
  by (auto simp: item_def ref_item_def split: json.splits if_splits)

lemma ref_int_eq: "item_int v k = Inr x \<Longrightarrow> ref_int v k = Inr x"
  using ref_item_eq[of v k] by (auto simp: item_int_def ref_int_def result_iff split: option.splits)

lemma ref_decimal_eq: "item_decimal v k = Inr x \<Longrightarrow> ref_decimal v k = Inr x"
  using ref_item_eq[of v k] by (auto simp: item_decimal_def ref_decimal_def result_iff split: decimal_result.splits)

lemma ref_check_active_eq: "check_active v xs = Inr u \<Longrightarrow> ref_check_active v xs = Inr u"
  by (induction v xs rule: check_active.induct) (auto split: json.splits if_splits)

lemma read_settings_eq:
  assumes "ref_int a ''sample_rate_hz'' = Inr (c_sample_rate_hz c)" "ref_int a ''decimation'' = Inr (c_decimation c)"
    "ref_decimal b ''signal_frequency_hz'' = Inr (c_signal_frequency_hz c)"
    "ref_decimal b ''lo_frequency_hz'' = Inr (c_lo_frequency_hz c)"
    "ref_decimal b ''signal_phase_turns'' = Inr (c_signal_phase_turns c)"
    "ref_decimal b ''lo_phase_turns'' = Inr (c_lo_phase_turns c)"
    "ref_decimal b ''signal_amplitude'' = Inr (c_signal_amplitude c)"
    "ref_decimal b ''noise_amplitude'' = Inr (c_noise_amplitude c)"
    "ref_int b ''noise_seed'' = Inr (c_noise_seed c)" "c_sample_rate_hz c \<noteq> 0"
  shows "read_settings a b = Inr (settings_of c)"
  unfolding read_settings_def settings_of_def
  by (simp add: assms ref_frequency_eq ref_phase_eq decimal_to_q1_15_eq)

lemma expected_active_eq: "ref_expected_active (settings_of c) = expected_active c"
  by (simp add: ref_expected_active_def settings_of_def expected_active_def)

lemma configured_resolved:
  assumes "config_from_resolved_document d = Inr c" "get d ''format'' = JString ''qcrate-experiment-resolved-v1''"
  shows "ref_configure (JObject d) = Inr (settings_of c) \<and> validate_config c = Inr c"
proof -
  from assms(1) obtain contract dsp requested active acquisition u where
    i: "item (JObject d) ''numerical_contract'' = Inr contract" "item (JObject d) ''dsp'' = Inr dsp"
      "item dsp ''requested'' = Inr requested" "item dsp ''active'' = Inr active" and
    v: "item_int contract ''sample_rate_hz'' = Inr (c_sample_rate_hz c)"
      "item_int contract ''decimation'' = Inr (c_decimation c)"
      "item_decimal requested ''signal_frequency_hz'' = Inr (c_signal_frequency_hz c)"
      "item_decimal requested ''lo_frequency_hz'' = Inr (c_lo_frequency_hz c)"
      "item_decimal requested ''signal_phase_turns'' = Inr (c_signal_phase_turns c)"
      "item_decimal requested ''lo_phase_turns'' = Inr (c_lo_phase_turns c)"
      "item_decimal requested ''signal_amplitude'' = Inr (c_signal_amplitude c)"
      "item_decimal requested ''noise_amplitude'' = Inr (c_noise_amplitude c)"
      "item_int requested ''noise_seed'' = Inr (c_noise_seed c)" and
    ok: "validate_config c = Inr c" and act: "check_active active (expected_active c) = Inr u"
    unfolding config_from_resolved_document_def Let_def
    by (auto simp: result_iff validate_config_Inr)
  have rate: "c_sample_rate_hz c = 200000000" "c_decimation c = 16"
    using ok by (simp_all add: validate_config_Inr)
  have "read_settings contract requested = Inr (settings_of c)"
    using v rate(1) by (intro read_settings_eq ref_int_eq ref_decimal_eq) simp_all
  moreover have "ref_check_active active (ref_expected_active (settings_of c)) = Inr u"
    using ref_check_active_eq[OF act] by (simp add: expected_active_eq)
  ultimately show ?thesis
    using assms(2) ok rate i[THEN ref_item_eq] by (simp add: ref_configure_def settings_of_def)
qed

lemma ref_decimal_config:
  "config_decimal d k = Inr q \<Longrightarrow> has_key d k \<Longrightarrow> ref_decimal (JObject d) k = Inr q"
  by (auto simp: config_decimal_def ref_decimal_def ref_item_def split: decimal_result.splits)

lemma ref_int_config: "is_JInt (get d k) \<Longrightarrow> has_key d k \<Longrightarrow> ref_int (JObject d) k = Inr (jint (get d k))"
  by (cases "get d k") (auto simp: ref_int_def ref_item_def)

lemma integer_fields_ok:
  "fold_res (\<lambda>f _. ensure (is_JInt (get d f)) (FieldNotInteger f)) fs () = Inr u \<Longrightarrow> f \<in> set fs \<Longrightarrow> is_JInt (get d f)"
  by (induction fs) (auto simp: result_iff)

lemma load_config_settings:
  assumes "load_config parsed = Inr c"
  shows "ref_configure parsed = Inr (settings_of c) \<and> validate_config c = Inr c"
proof -
  from assms obtain root where root: "hook DspDuplicateKey parsed = Inr root"
    by (auto simp: load_config_def result_iff)
  then have same: "root = parsed" by (rule hook_same(1))
  note body = assms[unfolded load_config_def root bind_res_simps same]
  then obtain d where d: "parsed = JObject d" by (cases parsed) simp_all
  show ?thesis
  proof (cases "get d ''format'' = JString ''qcrate-experiment-resolved-v1''")
    case True
    then have "config_from_resolved_document d = Inr c"
      using body d by simp
    then show ?thesis using configured_resolved True d by simp
  next
    case False
    note a = body[unfolded d json.case if_not_P[OF False] Let_def if_Inl_Inr_iff]
    have missing: "filter (\<lambda>k. k \<notin> set (keys_of d)) config_keys = []"
      using a by blast
    have has: "has_key d k" if "k \<in> set config_keys" for k
      using missing that by (auto simp: filter_empty_conv has_key_iff)
    from a have "document_config d = Inr c" by blast
    then obtain u sf lf sa sp lp na where
      ints: "fold_res (\<lambda>f _. ensure (is_JInt (get d f)) (FieldNotInteger f)) integer_fields () = Inr u" and
      decs: "config_decimal d ''signal_frequency_hz'' = Inr sf" "config_decimal d ''lo_frequency_hz'' = Inr lf"
        "config_decimal d ''signal_amplitude'' = Inr sa" "config_decimal d ''signal_phase_turns'' = Inr sp"
        "config_decimal d ''lo_phase_turns'' = Inr lp" "config_decimal d ''noise_amplitude'' = Inr na" and
      val: "validate_config
        \<lparr>c_sample_rate_hz = jint (get d ''sample_rate_hz''), c_decimation = jint (get d ''decimation''),
         c_frame_length = jint (get d ''frame_length''), c_frame_count = jint (get d ''frame_count''),
         c_signal_frequency_hz = sf, c_lo_frequency_hz = lf, c_signal_amplitude = sa,
         c_signal_phase_turns = sp, c_lo_phase_turns = lp, c_noise_amplitude = na,
         c_noise_seed = jint (get d ''noise_seed'')\<rparr> = Inr c"
      unfolding document_config_def bind_res_Inr_iff by (elim exE conjE) (rule that, assumption+)
    have c: "c = \<lparr>c_sample_rate_hz = jint (get d ''sample_rate_hz''), c_decimation = jint (get d ''decimation''),
         c_frame_length = jint (get d ''frame_length''), c_frame_count = jint (get d ''frame_count''),
         c_signal_frequency_hz = sf, c_lo_frequency_hz = lf, c_signal_amplitude = sa,
         c_signal_phase_turns = sp, c_lo_phase_turns = lp, c_noise_amplitude = na,
         c_noise_seed = jint (get d ''noise_seed'')\<rparr>"
      by (rule val[unfolded validate_config_Inr, THEN conjunct1])
    have ok: "validate_config c = Inr c" by (rule val[folded c])
    have int: "ref_int (JObject d) f = Inr (jint (get d f))" if "f \<in> set integer_fields" for f
    proof (rule ref_int_config[OF integer_fields_ok[OF ints that]])
      have "set integer_fields \<subseteq> set config_keys" by code_simp
      then show "has_key d f" using has that by blast
    qed
    have rate: "c_sample_rate_hz c = 200000000" "c_decimation c = 16"
      using ok by (simp_all add: validate_config_Inr)
    have "read_settings (JObject d) (JObject d) = Inr (settings_of c)"
      using decs int rate(1) has
      by (intro read_settings_eq ref_decimal_config) (simp_all add: integer_fields_def config_keys_def c)
    then show ?thesis
      using False ok rate d by (simp add: ref_configure_def settings_of_def)
  qed
qed

section \<open>Tables\<close>

lemma hex_digit_no_boundary: "c \<in> set hex_digits \<Longrightarrow> \<not> line_boundary c"
proof -
  have "list_all (\<lambda>c. \<not> line_boundary c) hex_digits" by code_simp
  then show "c \<in> set hex_digits \<Longrightarrow> \<not> line_boundary c" unfolding list_all_iff by blast
qed

lemma splitlines_plain:
  "(\<And>c. c \<in> set s \<Longrightarrow> \<not> line_boundary c) \<Longrightarrow>
   splitlines acc (s @ newline # rest) = (rev acc @ s) # splitlines [] rest"
proof (induction s arbitrary: acc)
  case Nil
  have "line_boundary newline" by (simp add: line_boundary_def newline_def)
  then show ?case by simp
qed simp

lemma splitlines_render: "splitlines [] (render_hex vs bits) = map (hex_line bits) vs"
proof (induction vs)
  case (Cons v vs)
  have "\<not> line_boundary c" if "c \<in> set (hex_line bits v)" for c
    using that hex_line_hex hex_digit_no_boundary by blast
  then show ?case using Cons by (simp add: render_hex_def render_value_line splitlines_plain)
qed (simp add: render_hex_def)

lemma masked_values_map: "masked_values bits (map (hex_line bits) vs) = Inr (map (\<lambda>v. v mod 2 ^ bits) vs)"
proof (induction vs)
  case (Cons v vs)
  have "v mod 2 ^ bits AND (push_bit bits 1 - 1) = v mod 2 ^ bits"
    by (simp add: push_bit_eq_mult mask_eq_exp_minus_1[symmetric] take_bit_eq_mask[symmetric] take_bit_eq_mod)
  then show ?case using Cons by (simp add: hex_line_read)
qed simp

lemma load_signed_hex_render:
  assumes "0 < bits" "list_all (in_bits bits) vs"
  shows "load_signed_hex (render_hex vs bits) bits (length vs) = Inr vs"
proof -
  have "map (\<lambda>v. if v AND push_bit (bits - 1) 1 \<noteq> 0 then v - push_bit bits 1 else v) (map (\<lambda>v. v mod 2 ^ bits) vs) = vs"
    using assms(2) sign_fold[OF assms(1)] by (induction vs) (simp_all add: Let_def)
  moreover have "filter (\<lambda>line. line \<noteq> []) (map (hex_line bits) vs) = map (hex_line bits) vs"
    by (simp add: filter_id_conv)
  ultimately show ?thesis
    by (simp only: load_signed_hex_def splitlines_render masked_values_map bind_res_simps length_map) simp
qed

section \<open>Agreement\<close>

lemma lfsr_samples_take: "n \<le> m \<Longrightarrow> take n (lfsr_samples m s) = lfsr_samples n s"
proof (induction m arbitrary: n s)
  case (Suc m)
  then show ?case by (cases n) simp_all
qed simp

lemma front_values_take: "take n (front_values lut tu xs sp lp) = front_values lut tu (take n xs) sp lp"
  by (induction lut tu xs sp lp arbitrary: n rule: front_values.induct) (simp_all add: take_Cons')

lemma fir_values_take:
  assumes "length cs = FIR_TAPS" "n \<le> length mixed div 16"
  shows "fir_values (take (n * 16) mixed) cs = take n (fir_values mixed cs)"
proof -
  have len: "length (take (n * 16) mixed) div 16 = n" using assms(2) by simp
  have "fir_sum (take (n * 16) mixed) cs k = fir_sum mixed cs k" if "k < n" for k
  proof -
    have k: "k < length mixed div 16" "k < length (take (n * 16) mixed) div 16"
      using that assms(2) len by linarith+
    have "(k + 1) * 16 - 1 < length (take (n * 16) mixed)" using that assms(2) by simp
    then have "ref_sum mixed cs ((k + 1) * 16 - 1) = ref_sum (take (n * 16) mixed) cs ((k + 1) * 16 - 1)"
      by (metis append_take_drop_id ref_sum_prefix)
    then show ?thesis using ref_sum_fir_sum[OF assms(1) k(1)] ref_sum_fir_sum[OF assms(1) k(2)] by simp
  qed
  then show ?thesis
    using assms(2) by (simp add: fir_values_def DECIMATION_def take_map len min_absorb1)
qed

lemma tuning_from_settings: "c_sample_rate_hz c = 200000000 \<Longrightarrow> tuning_from (settings_of c) = tuning_of c"
  by (simp add: tuning_from_def settings_of_def tuning_of_def SAMPLE_RATE_HZ_def)

lemma generate_words_eq:
  assumes "ref_configure parsed = Inr (settings_of c)" "validate_config c = Inr c" "lut_ok lut" "fir_ok cs"
    and "1 \<le> n" "n \<le> output_samples c"
  shows "generate_words parsed (render_hex lut 16) (render_hex cs 18) n =
    Inr (take (nat n) (map2 pack_word (model_i c lut cs) (model_q c lut cs)))"
proof -
  let ?N = "nat (output_samples c) * 16"
  let ?s = "settings_of c"
  let ?full = "front_of c lut (lfsr_samples ?N (c_noise_seed c))"
  have rate: "c_sample_rate_hz c = 200000000" "c_decimation c = 16" using assms(2) by (simp_all add: validate_config_Inr)
  have N: "nat (output_samples c * c_decimation c) = ?N" using rate by (simp add: nat_mult_distrib)
  have cl: "length cs = FIR_TAPS" using assms(4) by (simp add: fir_ok_def)
  have tabs: "load_signed_hex (render_hex lut 16) 16 1025 = Inr lut" "load_signed_hex (render_hex cs 18) 18 217 = Inr cs"
  proof -
    have "list_all (in_bits 16) lut" "list_all (in_bits 18) cs"
      using assms(3,4) by (auto simp: lut_ok_def fir_ok_def in_bits_def list_all_iff)
    then show "load_signed_hex (render_hex lut 16) 16 1025 = Inr lut" "load_signed_hex (render_hex cs 18) 18 217 = Inr cs"
      using load_signed_hex_render[of 16 lut] load_signed_hex_render[of 18 cs] assms(3,4)
      by (simp_all add: lut_ok_def fir_ok_def FIR_TAPS_def QUARTER_LUT_SIZE_def)
  qed
  have pre: "front_values lut (tuning_from ?s) (lfsr_samples (nat n * 16) (rs_lfsr ?s)) (rs_signal_phase ?s) (rs_lo_phase ?s)
      = take (nat n * 16) ?full"
    using assms(5,6) rate(1)
    by (simp add: front_of_def front_values_take lfsr_samples_take tuning_from_settings) (simp add: settings_of_def)
  have le: "nat n \<le> length (map f ?full) div 16" for f :: "frontend_sample \<Rightarrow> int"
    using assms(5,6) by (simp add: front_of_def)
  have "generate_words parsed (render_hex lut 16) (render_hex cs 18) n =
      Inr (map2 pack_word (fir_values (map fs_mixed_i (take (nat n * 16) ?full)) cs)
        (fir_values (map fs_mixed_q (take (nat n * 16) ?full)) cs))"
    using assms(1,5) ref_words_eq[OF cl, of ?s lut "nat n"] unfolding pre
    by (simp add: generate_words_def tabs)
  also have "\<dots> = Inr (map2 pack_word (take (nat n) (model_i c lut cs)) (take (nat n) (model_q c lut cs)))"
    unfolding take_map[symmetric] fir_values_take[OF cl le] model_i_def model_q_def N ..
  finally show ?thesis by (simp add: take_map take_zip)
qed

lemma reference_run:
  assumes "load_config parsed = Inr c" "lut_ok lut" "fir_ok cs" "1 \<le> n" "n \<le> output_samples c"
  shows "\<exists>r. run_model c lut cs = Inr r \<and>
    generate_words parsed (render_hex lut 16) (render_hex cs 18) n = Inr (take (nat n) (dr_packed_words r))"
  using generate_words_eq[OF load_config_settings[OF assms(1), THEN conjunct1]
      load_config_settings[OF assms(1), THEN conjunct2] assms(2-5)]
    run_model_eq[OF load_config_settings[OF assms(1), THEN conjunct2] assms(2,3)]
  by simp

text \<open>A configuration and tables on which the hypotheses below hold.\<close>

definition sample_document :: json where
  "sample_document = JObject
     [(''format'', JString ''qcrate-dsp-v1''), (''sample_rate_hz'', JInt 200000000), (''decimation'', JInt 16),
      (''frame_length'', JInt 4), (''frame_count'', JInt 2), (''signal_frequency_hz'', JInt 1000000),
      (''lo_frequency_hz'', JInt 900000), (''signal_amplitude'', JInt 1), (''signal_phase_turns'', JInt 0),
      (''lo_phase_turns'', JInt 0), (''noise_amplitude'', JInt 0), (''noise_seed'', JInt 1)]"

definition sample_config :: dsp_config where
  "sample_config =
     \<lparr>c_sample_rate_hz = 200000000, c_decimation = 16, c_frame_length = 4, c_frame_count = 2,
      c_signal_frequency_hz = 1000000, c_lo_frequency_hz = 900000, c_signal_amplitude = 1,
      c_signal_phase_turns = 0, c_lo_phase_turns = 0, c_noise_amplitude = 0, c_noise_seed = 1\<rparr>"

lemma load_sample_document: "load_config sample_document = Inr sample_config"
  by code_simp

lemma sample_tables: "lut_ok (replicate 1025 32767)" "fir_ok (replicate 217 604)"
  by (simp_all add: lut_ok_def fir_ok_def QUARTER_LUT_SIZE_def FIR_TAPS_def list_all_iff)

text \<open>
  C18. On valid tables an accepted configuration always runs to completion: the 48-bit accumulator
  check cannot fire, every output word fits 32 bits, there is one word and one TLAST flag per
  configured output sample, and each frame ends exactly once.
\<close>

theorem run_model_completes:
  assumes "load_config parsed = Inr c" "lut_ok lut" "fir_ok cs"
  shows "\<exists>r. run_model c lut cs = Inr r \<and>
    length (dr_packed_words r) = nat (output_samples c) \<and> length (dr_tlast r) = nat (output_samples c) \<and>
    list_all (\<lambda>w. 0 \<le> w \<and> w < 2 ^ 32) (dr_packed_words r) \<and>
    int (result_frames r) = c_frame_count c"
proof -
  have v: "validate_config c = Inr c" by (rule load_config_settings[OF assms(1), THEN conjunct2])
  show ?thesis
    using run_model_eq[OF v assms(2,3)] tlast_count[OF v] model_length[OF v]
    by (auto simp: result_frames_def tlast_flags_def list_all_iff set_zip pack_word_range)
qed

theorem run_model_completes_witness:
  "\<exists>r. run_model sample_config (replicate 1025 32767) (replicate 217 604) = Inr r \<and>
    length (dr_packed_words r) = nat (output_samples sample_config) \<and>
    length (dr_tlast r) = nat (output_samples sample_config) \<and>
    list_all (\<lambda>w. 0 \<le> w \<and> w < 2 ^ 32) (dr_packed_words r) \<and>
    int (result_frames r) = c_frame_count sample_config"
  by (rule run_model_completes[OF load_sample_document sample_tables])

text \<open>
  C19. The independent reference computes the same stream: for every configuration the model
  accepts and every pair of valid table files, the first n words of \<open>generate_words\<close> are the
  first n packed words of \<open>run_model\<close>, for every n up to the configured output.
\<close>

theorem reference_agrees:
  assumes "load_config parsed = Inr c" "lut_ok lut" "fir_ok cs" "1 \<le> n" "n \<le> output_samples c"
  shows "\<exists>r. run_model c lut cs = Inr r \<and>
    generate_words parsed (render_hex lut 16) (render_hex cs 18) n = Inr (take (nat n) (dr_packed_words r))"
  by (rule reference_run[OF assms])

theorem reference_agrees_witness:
  "\<exists>r. run_model sample_config (replicate 1025 32767) (replicate 217 604) = Inr r \<and>
    generate_words sample_document (render_hex (replicate 1025 32767) 16) (render_hex (replicate 217 604) 18) 3 =
    Inr (take (nat 3) (dr_packed_words r))"
proof (rule reference_agrees[OF load_sample_document sample_tables])
  show "(1 :: int) \<le> 3" "(3 :: int) \<le> output_samples sample_config"
    by (simp_all add: output_samples_def sample_config_def)
qed

end
