(* ===== verification/RunRecord.thy ===== *)
theory RunRecord
  imports ByteCodec
begin

text \<open>
  The fixed-width QIDX shot record of \<open>host/analyzer/qcrate_run.py\<close>: its constants, the
  enumerations, \<open>ShotRecord.decode\<close> with every rejection, and the characterisation of the
  accepted records as exactly the byte images of well-formed records.
\<close>

unbundle bit_operations_syntax

section \<open>Constants and errors\<close>

definition QIDX_MAGIC :: int where "QIDX_MAGIC = 0x51494458"
definition QIDX_VERSION :: int where "QIDX_VERSION = 1"
definition QIDX_HEADER_BYTES :: nat where "QIDX_HEADER_BYTES = 32"
definition QIDX_RECORD_BYTES :: nat where "QIDX_RECORD_BYTES = 128"
definition QIDX_HEADER :: "fld list" where
  "QIDX_HEADER = [FUint 4, FUint 2, FUint 2, FUint 2, FPad 6, FUint 8, FUint 4, FPad 4]"
definition UINT64_MAX :: int where "UINT64_MAX = 2 ^ 64 - 1"

datatype run_error =
    RecordLength
  | RecordReservedBytes
  | UnsupportedState int
  | UnknownIssues int
  | InvalidComplete
  | ExposedIncomplete
  | ReceiveBackwards
  | ReportFormat string
  | ReportRunId string
  | ReportStreamId string
  | ReportNumber string
  | ReportSyntax string
  | NoSampleRate
  | ShotIncomplete int
  | ExtentTruncated int
  | IndexHeaderTruncated
  | SamplesMissing
  | SamplesNotFound
  | IndexUnpack
  | UnsupportedIndex
  | UnsupportedSizes
  | HeaderReservedBytes
  | FinalRecordTruncated
  | IdsNotIncreasing
  | ExceedsSamples int
  | OverlapsPrior int
  | CacheLimit
  | RangeOutside
  | RangeChanged
  | OrdinalOutside
  | IdentityChanged
  | IndexShrank
  | HeaderChanged

section \<open>Enumerations\<close>

datatype shot_state = COMPLETE | INCOMPLETE

fun state_value :: "shot_state \<Rightarrow> int" where
  "state_value COMPLETE = 1"
| "state_value INCOMPLETE = 2"

definition shot_state_of :: "int \<Rightarrow> shot_state option" where
  "shot_state_of v = (if v = 1 then Some COMPLETE else if v = 2 then Some INCOMPLETE else None)"

text \<open>The flags of \<open>ShotIssue\<close> in definition order, with their lower-case names.\<close>

definition shot_issues :: "(string \<times> int) list" where
  "shot_issues =
     [(''protocol'', push_bit 0 1), (''missing'', push_bit 1 1), (''conflict'', push_bit 2 1),
      (''frame'', push_bit 3 1), (''crc'', push_bit 4 1), (''sender'', push_bit 5 1),
      (''timestamp'', push_bit 6 1), (''continuity'', push_bit 7 1)]"

section \<open>Fields\<close>

definition field_at :: "nat \<Rightarrow> bytes \<Rightarrow> nat \<Rightarrow> int" where
  "field_at n data offset = be_int (take n (drop offset data))"

definition u16 :: "bytes \<Rightarrow> nat \<Rightarrow> int" where "u16 data offset = field_at 2 data offset"
definition u32 :: "bytes \<Rightarrow> nat \<Rightarrow> int" where "u32 data offset = field_at 4 data offset"
definition u64 :: "bytes \<Rightarrow> nat \<Rightarrow> int" where "u64 data offset = field_at 8 data offset"

record shot_record =
  sr_shot_id :: int
  sr_state :: shot_state
  sr_issues :: int
  sr_first_packet_sequence :: int
  sr_last_packet_sequence :: int
  sr_first_sample_timestamp :: int
  sr_first_receive_ns :: int
  sr_last_receive_ns :: int
  sr_sample_offset :: int
  sr_sample_bytes :: int
  sr_frame_count :: int
  sr_frame_samples :: int
  sr_data_packets :: int
  sr_datagrams :: int
  sr_duplicate_packets :: int
  sr_reordered_packets :: int
  sr_missing_packets :: int
  sr_payload_crc32 :: int
  sr_source_flags :: int
  sr_payload_format :: int
  sr_sample_bytes_per_word :: int
  sr_config_id :: int

definition shot_complete :: "shot_record \<Rightarrow> bool" where
  "shot_complete r = (sr_state r = COMPLETE)"

definition issue_names :: "shot_record \<Rightarrow> string list" where
  "issue_names r = map fst (filter (\<lambda>(name, flag). sr_issues r AND flag \<noteq> 0) shot_issues)"

text \<open>The checks after the fields are read.\<close>

definition check_record :: "shot_record \<Rightarrow> run_error + shot_record" where
  "check_record r =
     (if shot_complete r \<and> (sr_issues r \<noteq> 0 \<or> sr_sample_offset r = UINT64_MAX \<or> sr_sample_bytes r = 0)
      then Inl InvalidComplete
      else if \<not> shot_complete r \<and> (sr_sample_offset r \<noteq> UINT64_MAX \<or> sr_sample_bytes r \<noteq> 0)
      then Inl ExposedIncomplete
      else if sr_last_receive_ns r < sr_first_receive_ns r then Inl ReceiveBackwards
      else Inr r)"

definition shot_decode :: "bytes \<Rightarrow> run_error + shot_record" where
  "shot_decode data =
     (if length data \<noteq> QIDX_RECORD_BYTES then Inl RecordLength
      else if \<exists>b \<in> set (take 8 (drop 120 data)). b \<noteq> 0 then Inl RecordReservedBytes
      else case shot_state_of (u32 data 8) of
        None \<Rightarrow> Inl (UnsupportedState (u32 data 8))
      | Some state \<Rightarrow>
          let known_issues = sum_list (map snd shot_issues);
              issue_value = u32 data 12
          in if issue_value AND NOT known_issues \<noteq> 0 then Inl (UnknownIssues issue_value)
             else check_record
               \<lparr>sr_shot_id = u64 data 0, sr_state = state, sr_issues = issue_value,
                sr_first_packet_sequence = u64 data 16, sr_last_packet_sequence = u64 data 24,
                sr_first_sample_timestamp = u64 data 32, sr_first_receive_ns = u64 data 40,
                sr_last_receive_ns = u64 data 48, sr_sample_offset = u64 data 56,
                sr_sample_bytes = u64 data 64, sr_frame_count = u32 data 72,
                sr_frame_samples = u32 data 76, sr_data_packets = u32 data 80,
                sr_datagrams = u32 data 84, sr_duplicate_packets = u32 data 88,
                sr_reordered_packets = u32 data 92, sr_missing_packets = u32 data 96,
                sr_payload_crc32 = u32 data 100, sr_source_flags = u32 data 104,
                sr_payload_format = u16 data 108, sr_sample_bytes_per_word = u16 data 110,
                sr_config_id = u64 data 112\<rparr>)"

section \<open>Consecutive fields\<close>

text \<open>Reading fields of the given sizes one after another inverts writing them.\<close>

fun read_fields :: "nat \<Rightarrow> nat list \<Rightarrow> bytes \<Rightarrow> int list" where
  "read_fields offset [] data = []"
| "read_fields offset (n # ns) data = field_at n data offset # read_fields (offset + n) ns data"

definition write_fields :: "nat list \<Rightarrow> int list \<Rightarrow> bytes" where
  "write_fields ns vs = concat (map2 be_bytes ns vs)"

definition fields_ok :: "nat list \<Rightarrow> int list \<Rightarrow> bool" where
  "fields_ok ns vs = list_all2 (\<lambda>n v. 0 \<le> v \<and> v < 256 ^ n) ns vs"

lemma write_read_fields:
  "offset + sum_list ns \<le> length data \<Longrightarrow>
   write_fields ns (read_fields offset ns data) = take (sum_list ns) (drop offset data)"
proof (induction ns arbitrary: offset)
  case (Cons n ns)
  have "length (take n (drop offset data)) = n" using Cons.prems by simp
  then have "be_bytes n (field_at n data offset) = take n (drop offset data)"
    unfolding field_at_def by (metis be.enc_dec)
  then show ?case
    using Cons.IH[of "offset + n"] Cons.prems
    by (simp add: write_fields_def take_add add.commute)
qed (simp add: write_fields_def)

lemma read_fields_ok: "offset + sum_list ns \<le> length data \<Longrightarrow> fields_ok ns (read_fields offset ns data)"
proof (induction ns arbitrary: offset)
  case (Cons n ns)
  have "length (take n (drop offset data)) = n" using Cons.prems by simp
  then have "0 \<le> field_at n data offset" "field_at n data offset < 256 ^ n"
    unfolding field_at_def using be.dec_nonneg be.dec_bound by metis+
  then show ?case using Cons by (simp add: fields_ok_def)
qed (simp add: fields_ok_def)

lemma write_fields_length: "fields_ok ns vs \<Longrightarrow> length (write_fields ns vs) = sum_list ns"
  unfolding fields_ok_def
  by (induction ns vs rule: list_all2_induct) (simp_all add: write_fields_def be.enc_length)

lemma read_write_fields:
  "fields_ok ns vs \<Longrightarrow> offset = length pre \<Longrightarrow> read_fields offset ns (pre @ write_fields ns vs @ post) = vs"
  unfolding fields_ok_def
proof (induction ns vs arbitrary: offset pre rule: list_all2_induct)
  case (Cons n ns v vs)
  have "read_fields (offset + n) ns ((pre @ be_bytes n v) @ write_fields ns vs @ post) = vs"
    by (rule Cons(3)) (simp add: Cons(4) be.enc_length)
  then show ?case
    using Cons(1,4) by (simp add: write_fields_def field_at_def be.enc_length be.dec_enc)
qed simp

section \<open>The accepted records\<close>

definition record_sizes :: "nat list" where
  "record_sizes = [8, 4, 4, 8, 8, 8, 8, 8, 8, 8, 4, 4, 4, 4, 4, 4, 4, 4, 4, 2, 2, 8]"

definition record_values :: "shot_record \<Rightarrow> int list" where
  "record_values r =
     [sr_shot_id r, state_value (sr_state r), sr_issues r, sr_first_packet_sequence r,
      sr_last_packet_sequence r, sr_first_sample_timestamp r, sr_first_receive_ns r,
      sr_last_receive_ns r, sr_sample_offset r, sr_sample_bytes r, sr_frame_count r,
      sr_frame_samples r, sr_data_packets r, sr_datagrams r, sr_duplicate_packets r,
      sr_reordered_packets r, sr_missing_packets r, sr_payload_crc32 r, sr_source_flags r,
      sr_payload_format r, sr_sample_bytes_per_word r, sr_config_id r]"

text \<open>The 128-byte image the format document describes, and the records it may hold.\<close>

definition record_image :: "shot_record \<Rightarrow> bytes" where
  "record_image r = write_fields record_sizes (record_values r) @ replicate 8 0"

definition record_valid :: "shot_record \<Rightarrow> bool" where
  "record_valid r \<longleftrightarrow> fields_ok record_sizes (record_values r) \<and> sr_issues r < 256 \<and>
     sr_first_receive_ns r \<le> sr_last_receive_ns r \<and>
     (case sr_state r of
        COMPLETE \<Rightarrow> sr_issues r = 0 \<and> sr_sample_offset r \<noteq> 2 ^ 64 - 1 \<and> 0 < sr_sample_bytes r
      | INCOMPLETE \<Rightarrow> sr_sample_offset r = 2 ^ 64 - 1 \<and> sr_sample_bytes r = 0)"

lemma known_issues: "sum_list (map snd shot_issues) = 255"
  by (simp add: shot_issues_def push_bit_eq_mult)

lemma mask_parts: "(v AND NOT m) + (v AND m) = (v :: int)"
proof -
  have "(v AND NOT m) AND (v AND m) = 0"
    by (rule bit_eqI) (auto simp: bit_and_iff bit_not_iff)
  then have "(v AND NOT m) + (v AND m) = (v AND NOT m) OR (v AND m)"
    by (rule disjunctive_add_eq_or)
  also have "\<dots> = v" by (rule bit_eqI) (auto simp: bit_or_iff bit_and_iff bit_not_iff)
  finally show ?thesis .
qed

lemma issue_mask: "0 \<le> v \<Longrightarrow> v AND NOT 255 = 0 \<longleftrightarrow> v < (256 :: int)"
proof -
  assume v: "0 \<le> v"
  note split = mask_parts[of v 255]
  have "(255 :: int) = mask 8" by (simp add: mask_eq_exp_minus_1)
  then have m: "v AND 255 = v mod 256" by (simp only: take_bit_eq_mask[symmetric] take_bit_eq_mod) simp
  show ?thesis
  proof
    assume "v AND NOT 255 = 0"
    then have "v = v mod 256" using split m by linarith
    then show "v < 256" by (metis pos_mod_bound zero_less_numeral)
  next
    assume "v < 256"
    then have "v mod 256 = v" using v by simp
    then show "v AND NOT 255 = 0" using split m by linarith
  qed
qed

lemma state_value_eq [simp]: "state_value s = state_value t \<longleftrightarrow> s = t"
  by (cases s; cases t) simp_all

lemma state_value_of: "shot_state_of v = Some s \<longleftrightarrow> v = state_value s"
  by (cases s) (auto simp: shot_state_of_def)

text \<open>The record the code builds from the fields.\<close>

definition record_of_data :: "shot_state \<Rightarrow> bytes \<Rightarrow> shot_record" where
  "record_of_data state data =
     \<lparr>sr_shot_id = u64 data 0, sr_state = state, sr_issues = u32 data 12,
      sr_first_packet_sequence = u64 data 16, sr_last_packet_sequence = u64 data 24,
      sr_first_sample_timestamp = u64 data 32, sr_first_receive_ns = u64 data 40,
      sr_last_receive_ns = u64 data 48, sr_sample_offset = u64 data 56,
      sr_sample_bytes = u64 data 64, sr_frame_count = u32 data 72,
      sr_frame_samples = u32 data 76, sr_data_packets = u32 data 80,
      sr_datagrams = u32 data 84, sr_duplicate_packets = u32 data 88,
      sr_reordered_packets = u32 data 92, sr_missing_packets = u32 data 96,
      sr_payload_crc32 = u32 data 100, sr_source_flags = u32 data 104,
      sr_payload_format = u16 data 108, sr_sample_bytes_per_word = u16 data 110,
      sr_config_id = u64 data 112\<rparr>"

lemma record_fields: "read_fields 0 record_sizes data =
   [u64 data 0, u32 data 8, u32 data 12, u64 data 16, u64 data 24, u64 data 32, u64 data 40,
    u64 data 48, u64 data 56, u64 data 64, u32 data 72, u32 data 76, u32 data 80, u32 data 84,
    u32 data 88, u32 data 92, u32 data 96, u32 data 100, u32 data 104, u16 data 108, u16 data 110,
    u64 data 112]"
  by (simp add: record_sizes_def u16_def u32_def u64_def)

lemma record_values_data: "u32 data 8 = state_value s \<Longrightarrow> record_values (record_of_data s data) = read_fields 0 record_sizes data"
  by (simp add: record_fields record_values_def record_of_data_def)

lemma record_values_inj: "record_values r = record_values q \<Longrightarrow> r = q"
  by (cases r; cases q; cases "sr_state r"; cases "sr_state q") (simp_all add: record_values_def)

lemma check_record_Inr:
  assumes "fields_ok record_sizes (record_values r)" "sr_issues r < 256"
  shows "check_record r = Inr q \<longleftrightarrow> q = r \<and> record_valid r"
proof -
  have "0 \<le> sr_sample_bytes r"
    using assms(1) by (simp add: fields_ok_def record_sizes_def record_values_def)
  then show ?thesis using assms
    by (cases "sr_state r")
       (auto simp: check_record_def record_valid_def shot_complete_def UINT64_MAX_def not_less)
qed

lemma all_equal_replicate: "(\<forall>b \<in> set xs. b = a) \<longleftrightarrow> xs = replicate (length xs) a"
  by (induction xs) auto

lemma shot_decode_unfold:
  "shot_decode data = Inr r \<longleftrightarrow>
     length data = 128 \<and> drop 120 data = replicate 8 0 \<and>
     (\<exists>s. u32 data 8 = state_value s \<and> u32 data 12 AND NOT 255 = 0 \<and> check_record (record_of_data s data) = Inr r)"
proof -
  have z: "(\<forall>b \<in> set (take 8 (drop 120 data)). b = 0) \<longleftrightarrow> drop 120 data = replicate 8 0" if "length data = 128"
  proof -
    have "take 8 (drop 120 data) = drop 120 data" "length (drop 120 data) = 8" using that by simp_all
    then show ?thesis using all_equal_replicate[of "drop 120 data" 0] by (simp only:)
  qed
  show ?thesis
  proof (cases "length data = 128 \<and> drop 120 data = replicate 8 0")
    case False
    have "shot_decode data \<noteq> Inr r"
    proof (cases "length data = 128")
      case True
      then have "(\<exists>b \<in> set (take 8 (drop 120 data)). b \<noteq> 0) = True" using False z by blast
      then show ?thesis using True
        by (simp only: shot_decode_def QIDX_RECORD_BYTES_def if_True simp_thms if_False) simp
    qed (simp add: shot_decode_def QIDX_RECORD_BYTES_def)
    then show ?thesis using False by blast
  next
    case True
    then have "(\<exists>b \<in> set (take 8 (drop 120 data)). b \<noteq> 0) = False" using z by blast
    then have eq: "shot_decode data = (case shot_state_of (u32 data 8) of
        None \<Rightarrow> Inl (UnsupportedState (u32 data 8))
      | Some s \<Rightarrow> if u32 data 12 AND NOT 255 \<noteq> 0 then Inl (UnknownIssues (u32 data 12))
          else check_record (record_of_data s data))"
      using True unfolding shot_decode_def known_issues QIDX_RECORD_BYTES_def Let_def record_of_data_def
      by (simp only: if_False simp_thms)
    show ?thesis
    proof (cases "shot_state_of (u32 data 8)")
      case None
      then show ?thesis using eq state_value_of[of "u32 data 8"] by auto
    next
      case (Some s)
      then have "u32 data 8 = state_value t \<longleftrightarrow> t = s" for t using state_value_of[of "u32 data 8"] by auto
      then show ?thesis using eq Some True by simp
    qed
  qed
qed

lemma shot_decode_exact: "shot_decode data = Inr r \<longleftrightarrow> record_valid r \<and> data = record_image r"
proof
  assume "shot_decode data = Inr r"
  then obtain s where s: "length data = 128" "drop 120 data = replicate 8 0" "u32 data 8 = state_value s"
      "u32 data 12 AND NOT 255 = 0" "check_record (record_of_data s data) = Inr r"
    unfolding shot_decode_unfold by blast
  have sum: "sum_list record_sizes = 120" by (simp add: record_sizes_def)
  have ok: "fields_ok record_sizes (record_values (record_of_data s data))"
    using read_fields_ok[of 0 record_sizes data] s(1,3) sum by (simp add: record_values_data)
  have "0 \<le> u32 data 12"
    using ok by (simp add: fields_ok_def record_sizes_def record_values_def record_of_data_def)
  then have "sr_issues (record_of_data s data) < 256"
    using s(4) issue_mask[of "u32 data 12"] by (simp add: record_of_data_def)
  then have r: "r = record_of_data s data" "record_valid r"
    using s(5) check_record_Inr[OF ok] by auto
  have "write_fields record_sizes (record_values r) = take 120 data"
    using write_read_fields[of 0 record_sizes data] s(1,3) sum by (simp add: r(1) record_values_data)
  then show "record_valid r \<and> data = record_image r"
    using r(2) s(2) by (metis append_take_drop_id record_image_def)
next
  assume "record_valid r \<and> data = record_image r"
  then have v: "record_valid r" and d: "data = record_image r" by auto
  have ok: "fields_ok record_sizes (record_values r)" using v by (simp add: record_valid_def)
  have sum: "sum_list record_sizes = 120" by (simp add: record_sizes_def)
  have len: "length data = 128" "drop 120 data = replicate 8 0"
    using write_fields_length[OF ok] sum by (simp_all add: d record_image_def)
  have vals: "read_fields 0 record_sizes data = record_values r"
    using read_write_fields[OF ok, of 0 "[]" "replicate 8 0"] by (simp add: d record_image_def)
  then have st: "u32 data 8 = state_value (sr_state r)" and iss: "u32 data 12 = sr_issues r"
    by (simp_all add: record_fields record_values_def)
  have r: "record_of_data (sr_state r) data = r"
    using record_values_data[OF st] vals by (intro record_values_inj) simp
  have "0 \<le> sr_issues r" "sr_issues r < 256"
    using v by (simp_all add: record_valid_def fields_ok_def record_sizes_def record_values_def)
  then have "u32 data 12 AND NOT 255 = 0" using issue_mask[of "u32 data 12"] iss by simp
  moreover have "check_record (record_of_data (sr_state r) data) = Inr r"
    using check_record_Inr[OF ok \<open>sr_issues r < 256\<close>] v by (simp add: r)
  ultimately show "shot_decode data = Inr r" unfolding shot_decode_unfold using len st by blast
qed

text \<open>
  C20. \<open>ShotRecord.decode\<close> accepts exactly the 128-byte images of valid records and returns the
  record imaged: the format document's layout is the one read, no field is lost or confused with
  another, and every violation (size, reserved bytes, state, issue bits, complete or incomplete
  sample fields, receive times) is rejected.
\<close>

theorem qidx_record_exact:
  "shot_decode data = Inr r \<longleftrightarrow> record_valid r \<and> data = record_image r"
  by (rule shot_decode_exact)

end
