(* ===== verification/RunBundle.thy ===== *)
theory RunBundle
  imports RunRecord Decimals
begin

text \<open>
  \<open>RunBundle\<close> and \<open>RunHealth\<close> of \<open>host/analyzer/qcrate_run.py\<close>: the strict whole-run reader, the
  JSON reports beside the index, and the health summary.  The files of a run are a record of
  their contents at the time of the call.  Floating-point quantities (durations, rates) are
  exact rationals; their rounding to doubles is not modelled.
\<close>

unbundle bit_operations_syntax

section \<open>Files and reports\<close>

text \<open>A report file: its \<open>stat\<close> signature and its parsed text, \<open>None\<close> when it is not JSON.\<close>

record report_file =
  rp_signature :: "int \<times> int \<times> int"
  rp_parsed :: "json option"

record run_files =
  rf_index :: bytes
  rf_samples :: "bytes option"
  rf_run_json :: "report_file option"
  rf_sender_json :: "report_file option"

text \<open>\<open>int(str(v), 0)\<close>: no other JSON value prints as an integer literal.\<close>

fun report_number :: "json \<Rightarrow> int option" where
  "report_number (JInt i) = Some i"
| "report_number (JString s) = int_base0 s"
| "report_number _ = None"

definition report_identity ::
    "jobject \<Rightarrow> string \<Rightarrow> string \<Rightarrow> int \<Rightarrow> (string \<Rightarrow> run_error) \<Rightarrow> run_error + unit" where
  "report_identity parsed name key expected differ =
     (case report_number (get_default parsed key (JString ''0'')) of
        None \<Rightarrow> Inl (ReportNumber name)
      | Some v \<Rightarrow> ensure (v = expected) (differ name))"

definition load_json_report ::
    "string \<Rightarrow> report_file option \<Rightarrow> string \<Rightarrow> int \<Rightarrow> int \<Rightarrow> run_error + jobject option" where
  "load_json_report name file expected_format run_id stream_id =
     (case file of
        None \<Rightarrow> Inr None
      | Some f \<Rightarrow>
          (case rp_parsed f of
             None \<Rightarrow> Inl (ReportSyntax name)
           | Some (JObject parsed) \<Rightarrow>
               if get parsed ''format'' \<noteq> JString expected_format then Inl (ReportFormat name)
               else
                 bind_res (report_identity parsed name ''run_id'' run_id ReportRunId) (\<lambda>_.
                 bind_res (report_identity parsed name ''stream_id'' stream_id ReportStreamId) (\<lambda>_.
                 Inr (Some parsed)))
           | Some _ \<Rightarrow> Inl (ReportFormat name)))"

section \<open>Numbers of a report\<close>

definition mapping_number :: "json \<Rightarrow> string \<Rightarrow> rat \<Rightarrow> rat" where
  "mapping_number mapping key fallback =
     (case mapping of
        JObject d \<Rightarrow>
          (if has_key d key
           then (case json_number (get d key) of Some q \<Rightarrow> q | None \<Rightarrow> fallback)
           else fallback)
      | _ \<Rightarrow> fallback)"

definition manifest_integer :: "jobject option \<Rightarrow> string \<Rightarrow> int" where
  "manifest_integer manifest key =
     (case manifest of
        None \<Rightarrow> 0
      | Some d \<Rightarrow> (case json_number (get d key) of Some q \<Rightarrow> truncate_rat q | None \<Rightarrow> 0))"

text \<open>\<open>bool(v)\<close> of a JSON value.\<close>

fun truthy :: "json \<Rightarrow> bool" where
  "truthy JNull = False"
| "truthy (JBool b) = b"
| "truthy (JInt i) = (i \<noteq> 0)"
| "truthy (JFloat s) = (decimal_of_string s \<noteq> Some 0)"
| "truthy (JString s) = (s \<noteq> [])"
| "truthy (JArray xs) = (xs \<noteq> [])"
| "truthy (JObject d) = (d \<noteq> [])"

text \<open>\<open>m.get(k) if m else None\<close>: an empty object counts as absent.\<close>

definition section_of :: "jobject option \<Rightarrow> string \<Rightarrow> json" where
  "section_of m k = (case m of Some d \<Rightarrow> if d = [] then JNull else get d k | None \<Rightarrow> JNull)"

section \<open>Health\<close>

datatype run_state = Recording | Accepted | Failed

record run_health =
  rh_state :: run_state
  rh_duration_seconds :: rat
  rh_duration_from_recorder :: bool
  rh_complete_shots :: int
  rh_incomplete_shots :: int
  rh_skipped_shot_ids :: int
  rh_shot_rate_hz :: rat
  rh_sample_payload_mbps :: rat
  rh_udp_payload_mbps :: "rat option"
  rh_datagrams :: int
  rh_duplicate_packets :: int
  rh_reordered_packets :: int
  rh_missing_packets :: int
  rh_malformed_packets :: int
  rh_conflicting_packets :: int
  rh_foreign_packets :: int
  rh_late_packets :: int
  rh_preselection_overflow :: int
  rh_kernel_receive_drops :: int
  rh_continuity_errors :: int
  rh_token_queue_high_water :: "int option"
  rh_dma_ready_high_water :: "int option"
  rh_dma_stall_cycles :: "int option"
  rh_missed_triggers :: "int option"
  rh_starvation_events :: "int option"
  rh_skipped_triggers :: "int option"
  rh_dma_error_events :: "int option"
  rh_recorder_cpu_percent :: "rat option"
  rh_sender_cpu_percent :: "rat option"
  rh_sender_complete :: "bool option"

definition record_integrity_ok :: "run_health \<Rightarrow> bool" where
  "record_integrity_ok h =
     (\<not> list_ex (\<lambda>n. n \<noteq> 0)
        [rh_incomplete_shots h, rh_skipped_shot_ids h, rh_missing_packets h, rh_malformed_packets h,
         rh_conflicting_packets h, rh_kernel_receive_drops h, rh_continuity_errors h])"

definition or_zero :: "int option \<Rightarrow> int" where
  "or_zero n = (case n of Some v \<Rightarrow> v | None \<Rightarrow> 0)"

definition acquisition_integrity_ok :: "run_health \<Rightarrow> bool" where
  "acquisition_integrity_ok h =
     (\<not> list_ex (\<lambda>n. n \<noteq> 0)
        [or_zero (rh_skipped_triggers h), or_zero (rh_dma_error_events h), or_zero (rh_missed_triggers h)])"

definition integrity_ok :: "run_health \<Rightarrow> bool" where
  "integrity_ok h = (record_integrity_ok h \<and> acquisition_integrity_ok h \<and> rh_sender_complete h \<noteq> Some False)"

text \<open>The totals both readers hand to \<open>_build_health\<close>.\<close>

record run_totals =
  rt_measured_duration :: rat
  rt_complete_shots :: int
  rt_incomplete_shots :: int
  rt_skipped_shot_ids :: int
  rt_sample_bytes :: int
  rt_datagrams :: int
  rt_duplicate_packets :: int
  rt_reordered_packets :: int
  rt_missing_packets :: int

definition or_else :: "int \<Rightarrow> int \<Rightarrow> int" where
  "or_else a b = (if a \<noteq> 0 then a else b)"

definition sender_counter :: "json \<Rightarrow> string \<Rightarrow> int option" where
  "sender_counter sender_health key =
     (if is_JObject sender_health then Some (truncate_rat (mapping_number sender_health key 0)) else None)"

definition non_negative :: "rat \<Rightarrow> rat option" where
  "non_negative q = (if q \<ge> 0 then Some q else None)"

definition run_complete :: "jobject option \<Rightarrow> bool option" where
  "run_complete manifest =
     (case manifest of
        None \<Rightarrow> None
      | Some d \<Rightarrow> Some (truthy (get_default d ''complete'' (JBool False))))"

definition decide_state :: "run_health \<Rightarrow> bool option \<Rightarrow> run_state" where
  "decide_state h finished =
     (if \<not> integrity_ok h then Failed
      else case finished of
        None \<Rightarrow> Recording
      | Some c \<Rightarrow> if c \<and> rh_sender_complete h \<noteq> Some False then Accepted else Failed)"

definition build_health :: "jobject option \<Rightarrow> jobject option \<Rightarrow> run_totals \<Rightarrow> run_health" where
  "build_health manifest sender_report totals =
     (let timing = section_of manifest ''timing'';
          manifest_duration = mapping_number timing ''duration_seconds'' 0;
          duration = (if manifest_duration \<noteq> 0 then manifest_duration else rt_measured_duration totals);
          performance = section_of manifest ''performance'';
          sample_mbps0 = mapping_number performance ''sample_payload_mbps'' 0;
          sample_mbps = (if sample_mbps0 = 0 \<and> duration > 0
            then of_int (rt_sample_bytes totals) * 8 / duration / 1000000 else sample_mbps0);
          shot_rate0 = mapping_number performance ''shot_rate_hz'' 0;
          shot_rate = (if shot_rate0 = 0 \<and> duration > 0
            then of_int (rt_complete_shots totals) / duration else shot_rate0);
          sender_health = section_of sender_report ''health'';
          sender_timing = section_of sender_report ''timing'';
          sender_complete = (case sender_report of
            Some d \<Rightarrow> if d = [] then None else Some (truthy (get d ''complete'')) | None \<Rightarrow> None);
          health =
            \<lparr>rh_state = Recording, rh_duration_seconds = duration,
             rh_duration_from_recorder = (manifest_duration \<noteq> 0),
             rh_complete_shots = rt_complete_shots totals,
             rh_incomplete_shots = rt_incomplete_shots totals,
             rh_skipped_shot_ids = rt_skipped_shot_ids totals,
             rh_shot_rate_hz = shot_rate, rh_sample_payload_mbps = sample_mbps,
             rh_udp_payload_mbps = non_negative (mapping_number performance ''udp_payload_mbps'' (-1)),
             rh_datagrams = or_else (manifest_integer manifest ''datagrams_journaled'') (rt_datagrams totals),
             rh_duplicate_packets =
               or_else (manifest_integer manifest ''duplicate_packets'') (rt_duplicate_packets totals),
             rh_reordered_packets =
               or_else (manifest_integer manifest ''reordered_packets'') (rt_reordered_packets totals),
             rh_missing_packets = rt_missing_packets totals,
             rh_malformed_packets = manifest_integer manifest ''malformed_packets'',
             rh_conflicting_packets = manifest_integer manifest ''conflicting_packets'',
             rh_foreign_packets = manifest_integer manifest ''foreign_packets'',
             rh_late_packets = manifest_integer manifest ''late_packets'',
             rh_preselection_overflow = manifest_integer manifest ''preselection_overflow'',
             rh_kernel_receive_drops = manifest_integer manifest ''kernel_receive_drops'',
             rh_continuity_errors =
               (if truthy (section_of manifest ''run_continuity_error'') then 1 else 0),
             rh_token_queue_high_water = sender_counter sender_health ''token_queue_high_water'',
             rh_dma_ready_high_water = sender_counter sender_health ''dma_ready_high_water'',
             rh_dma_stall_cycles = sender_counter sender_health ''dma_stall_cycles'',
             rh_missed_triggers = sender_counter sender_health ''missed_triggers'',
             rh_starvation_events = sender_counter sender_health ''starvation_events'',
             rh_skipped_triggers = sender_counter sender_health ''skipped_triggers'',
             rh_dma_error_events = sender_counter sender_health ''dma_error_events'',
             rh_recorder_cpu_percent = non_negative (mapping_number timing ''process_cpu_percent'' (-1)),
             rh_sender_cpu_percent = non_negative (mapping_number sender_timing ''process_cpu_percent'' (-1)),
             rh_sender_complete = sender_complete\<rparr>
      in health\<lparr>rh_state := decide_state health (run_complete manifest)\<rparr>)"

section \<open>The whole-run reader\<close>

record run_bundle =
  rb_run_id :: int
  rb_stream_id :: int
  rb_shots :: "shot_record list"
  rb_manifest :: "jobject option"
  rb_sender_report :: "jobject option"

definition complete_shots :: "run_bundle \<Rightarrow> shot_record list" where
  "complete_shots b = filter shot_complete (rb_shots b)"

definition incomplete_shots :: "run_bundle \<Rightarrow> shot_record list" where
  "incomplete_shots b = filter (\<lambda>s. \<not> shot_complete s) (rb_shots b)"

datatype rate_source = RunMetadata | Fallback

definition sample_rate_hz :: "jobject option \<Rightarrow> rat option \<Rightarrow> run_error + rat \<times> rate_source" where
  "sample_rate_hz manifest fallback =
     (let last_resort = (case fallback of
            None \<Rightarrow> Inl NoSampleRate
          | Some q \<Rightarrow> if q \<le> 0 then Inl NoSampleRate else Inr (q, Fallback));
          whole = (\<lambda>v. case v of JInt i \<Rightarrow> Some i | JBool b \<Rightarrow> Some (if b then 1 else 0) | _ \<Rightarrow> None)
      in case section_of manifest ''stream'' of
           JObject stream \<Rightarrow>
             (case (whole (get stream ''sample_rate_numerator''), whole (get stream ''sample_rate_denominator'')) of
                (Some numerator, Some denominator) \<Rightarrow>
                  if denominator \<noteq> 0 then Inr (of_int numerator / of_int denominator, RunMetadata)
                  else last_resort
              | _ \<Rightarrow> last_resort)
         | _ \<Rightarrow> last_resort)"

text \<open>\<open>seek\<close> and \<open>read\<close>, or \<open>os.pread\<close>: what the file holds from the offset on.\<close>

definition pread :: "bytes \<Rightarrow> int \<Rightarrow> int \<Rightarrow> bytes" where
  "pread contents count offset = take (nat count) (drop (nat offset) contents)"

definition read_samples :: "bytes \<Rightarrow> shot_record \<Rightarrow> run_error + bytes" where
  "read_samples samples shot =
     (if \<not> shot_complete shot then Inl (ShotIncomplete (sr_shot_id shot))
      else
        let payload = pread samples (sr_sample_bytes shot) (sr_sample_offset shot)
        in if int (length payload) \<noteq> sr_sample_bytes shot then Inl (ExtentTruncated (sr_shot_id shot))
           else Inr payload)"

definition skipped_ids :: "shot_record list \<Rightarrow> int" where
  "skipped_ids shots =
     sum_list (map2 (\<lambda>left right. max 0 (sr_shot_id right - sr_shot_id left - 1)) shots (tl shots))"

definition min_default :: "int list \<Rightarrow> int" where
  "min_default xs = (if xs = [] then 0 else Min (set xs))"

definition max_default :: "int list \<Rightarrow> int" where
  "max_default xs = (if xs = [] then 0 else Max (set xs))"

definition measured_duration :: "int \<Rightarrow> int \<Rightarrow> rat" where
  "measured_duration first_receive last_receive =
     (if last_receive \<ge> first_receive \<and> first_receive \<noteq> 0
      then of_int (last_receive - first_receive) / 1000000000 else 0)"

definition total_of :: "(shot_record \<Rightarrow> int) \<Rightarrow> shot_record list \<Rightarrow> int" where
  "total_of f shots = sum_list (map f shots)"

definition bundle_totals :: "run_bundle \<Rightarrow> run_totals" where
  "bundle_totals b =
     (let shots = rb_shots b in
      \<lparr>rt_measured_duration = measured_duration
         (min_default (map sr_first_receive_ns shots)) (max_default (map sr_last_receive_ns shots)),
       rt_complete_shots = int (length (complete_shots b)),
       rt_incomplete_shots = int (length (incomplete_shots b)),
       rt_skipped_shot_ids = skipped_ids shots,
       rt_sample_bytes = total_of sr_sample_bytes (complete_shots b),
       rt_datagrams = total_of sr_datagrams shots,
       rt_duplicate_packets = total_of sr_duplicate_packets shots,
       rt_reordered_packets = total_of sr_reordered_packets shots,
       rt_missing_packets = total_of sr_missing_packets shots\<rparr>)"

definition bundle_health :: "run_bundle \<Rightarrow> run_health" where
  "bundle_health b = build_health (rb_manifest b) (rb_sender_report b) (bundle_totals b)"

text \<open>The header fields after the checks both readers make: run and stream identity.\<close>

definition header_identity :: "bytes \<Rightarrow> run_error + int \<times> int" where
  "header_identity raw =
     (case struct_unpack_from be_int QIDX_HEADER raw 0 of
        Some [magic, version, header_bytes, record_bytes, run_id, stream_id] \<Rightarrow>
          if ival magic \<noteq> QIDX_MAGIC \<or> ival version \<noteq> QIDX_VERSION then Inl UnsupportedIndex
          else if ival header_bytes \<noteq> int QIDX_HEADER_BYTES \<or> ival record_bytes \<noteq> int QIDX_RECORD_BYTES
          then Inl UnsupportedSizes
          else if (\<exists>b \<in> set (take 6 (drop 10 raw)). b \<noteq> 0) \<or> (\<exists>b \<in> set (take 4 (drop 28 raw)). b \<noteq> 0)
          then Inl HeaderReservedBytes
          else Inr (ival run_id, ival stream_id)
      | _ \<Rightarrow> Inl IndexUnpack)"

definition record_slices :: "bytes \<Rightarrow> bytes list" where
  "record_slices raw =
     map (\<lambda>k. take QIDX_RECORD_BYTES (drop (k * QIDX_RECORD_BYTES) raw))
       [0..<(length raw + (QIDX_RECORD_BYTES - 1)) div QIDX_RECORD_BYTES]"

text \<open>The loop over the shots: strictly increasing identifiers, extents in order and in the file.\<close>

fun check_shots :: "int \<Rightarrow> int \<Rightarrow> int option \<Rightarrow> shot_record list \<Rightarrow> run_error + unit" where
  "check_shots sample_file_bytes previous_end previous_shot_id [] = Inr ()"
| "check_shots sample_file_bytes previous_end previous_shot_id (shot # rest) =
     (if (case previous_shot_id of Some p \<Rightarrow> sr_shot_id shot \<le> p | None \<Rightarrow> False) then Inl IdsNotIncreasing
      else if \<not> shot_complete shot
      then check_shots sample_file_bytes previous_end (Some (sr_shot_id shot)) rest
      else
        let finish = sr_sample_offset shot + sr_sample_bytes shot
        in if finish > sample_file_bytes then Inl (ExceedsSamples (sr_shot_id shot))
           else if sr_sample_offset shot < previous_end then Inl (OverlapsPrior (sr_shot_id shot))
           else check_shots sample_file_bytes finish (Some (sr_shot_id shot)) rest)"

definition bundle_open :: "run_files \<Rightarrow> bool \<Rightarrow> run_error + run_bundle" where
  "bundle_open files allow_in_progress =
     (let raw = rf_index files in
      if length raw < QIDX_HEADER_BYTES
      then (if \<not> allow_in_progress then Inl IndexHeaderTruncated
            else if rf_samples files = None then Inl SamplesMissing
            else Inr \<lparr>rb_run_id = 0, rb_stream_id = 0, rb_shots = [], rb_manifest = None, rb_sender_report = None\<rparr>)
      else
        bind_res (header_identity raw) (\<lambda>(run_id, stream_id).
        let records_raw = drop QIDX_HEADER_BYTES raw;
            remainder = length records_raw mod QIDX_RECORD_BYTES
        in
        bind_res (ensure (remainder = 0 \<or> allow_in_progress) FinalRecordTruncated) (\<lambda>_.
        let records_raw = (if remainder \<noteq> 0 then take (length records_raw - remainder) records_raw else records_raw)
        in
        bind_res (map_res shot_decode (record_slices records_raw)) (\<lambda>shots.
        bind_res (case rf_samples files of Some s \<Rightarrow> Inr s | None \<Rightarrow> Inl SamplesNotFound) (\<lambda>samples.
        bind_res (check_shots (int (length samples)) 0 None shots) (\<lambda>_.
        bind_res (load_json_report ''run.json'' (rf_run_json files) ''qcrate-run-v1'' run_id stream_id) (\<lambda>manifest.
        bind_res (load_json_report ''sender.json'' (rf_sender_json files) ''qcrate-sender-report-v1'' run_id stream_id)
          (\<lambda>sender_report.
        Inr \<lparr>rb_run_id = run_id, rb_stream_id = stream_id, rb_shots = shots,
             rb_manifest = manifest, rb_sender_report = sender_report\<rparr>))))))))"

end
