(* ===== verification/RunIndex.thy ===== *)
theory RunIndex
  imports RunBundle
begin

text \<open>
  \<open>RunIndex\<close> of \<open>host/analyzer/qcrate_run.py\<close>: the catalog that follows a growing run.  Its
  methods change the object before they may raise, so an operation returns its result (an error
  or a value) together with the object it leaves behind.  The descriptors stay open between calls;
  each call sees the contents the files have at that time.
\<close>

section \<open>State\<close>

record run_index =
  ri_cache_limit :: nat
  ri_cache :: "(int \<times> shot_record) list"
  ri_run_id :: int
  ri_stream_id :: int
  ri_record_count :: int
  ri_scanned_count :: int
  ri_complete_count :: int
  ri_incomplete_count :: int
  ri_manifest :: "jobject option"
  ri_sender_report :: "jobject option"
  ri_report_signatures :: "string \<rightharpoonup> (int \<times> int \<times> int) option"
  ri_previous_shot_id :: "int option"
  ri_previous_sample_end :: int
  ri_first_receive_ns :: int
  ri_last_receive_ns :: int
  ri_skipped_shot_ids :: int
  ri_sample_bytes :: int
  ri_datagrams :: int
  ri_duplicate_packets :: int
  ri_reordered_packets :: int
  ri_missing_packets :: int

type_synonym 'a index_step = "run_index \<Rightarrow> (run_error + 'a) \<times> run_index"

definition bind_step :: "('s \<Rightarrow> ('e + 'a) \<times> 's) \<Rightarrow> ('a \<Rightarrow> 's \<Rightarrow> ('e + 'b) \<times> 's) \<Rightarrow> 's \<Rightarrow> ('e + 'b) \<times> 's" where
  "bind_step m f s = (case m s of (Inl e, t) \<Rightarrow> (Inl e, t) | (Inr x, t) \<Rightarrow> f x t)"

lemma bind_step_simps [simp]:
  "m s = (Inl e, t) \<Longrightarrow> bind_step m f s = (Inl e, t)"
  "m s = (Inr x, t) \<Longrightarrow> bind_step m f s = f x t"
  by (simp_all add: bind_step_def)

definition index_init :: "run_files \<Rightarrow> int \<Rightarrow> run_error + run_index" where
  "index_init files cache_records =
     (if cache_records < 1 then Inl CacheLimit
      else if rf_samples files = None then Inl SamplesMissing
      else Inr
        \<lparr>ri_cache_limit = nat cache_records, ri_cache = [], ri_run_id = 0, ri_stream_id = 0,
         ri_record_count = 0, ri_scanned_count = 0, ri_complete_count = 0, ri_incomplete_count = 0,
         ri_manifest = None, ri_sender_report = None, ri_report_signatures = Map.empty,
         ri_previous_shot_id = None, ri_previous_sample_end = 0, ri_first_receive_ns = 0,
         ri_last_receive_ns = 0, ri_skipped_shot_ids = 0, ri_sample_bytes = 0, ri_datagrams = 0,
         ri_duplicate_packets = 0, ri_reordered_packets = 0, ri_missing_packets = 0\<rparr>)"

section \<open>The record cache\<close>

text \<open>An \<open>OrderedDict\<close> as its items, oldest first.\<close>

definition cache_store :: "'k \<Rightarrow> 'v \<Rightarrow> ('k \<times> 'v) list \<Rightarrow> ('k \<times> 'v) list" where
  "cache_store k v c = filter (\<lambda>(j, _). j \<noteq> k) c @ [(k, v)]"

definition move_to_end :: "'k \<Rightarrow> ('k \<times> 'v) list \<Rightarrow> ('k \<times> 'v) list" where
  "move_to_end k c = (case map_of c k of Some v \<Rightarrow> cache_store k v c | None \<Rightarrow> c)"

definition evict_oldest :: "nat \<Rightarrow> ('k \<times> 'v) list \<Rightarrow> ('k \<times> 'v) list" where
  "evict_oldest limit c = drop (length c - limit) c"

definition cache_record :: "int \<Rightarrow> shot_record \<Rightarrow> run_index \<Rightarrow> run_index" where
  "cache_record ordinal shot st =
     st\<lparr>ri_cache := evict_oldest (ri_cache_limit st) (cache_store ordinal shot (ri_cache st))\<rparr>"

definition cache_entries :: "run_index \<Rightarrow> nat" where
  "cache_entries st = length (ri_cache st)"

fun cache_all :: "int \<Rightarrow> shot_record list \<Rightarrow> run_index \<Rightarrow> run_index" where
  "cache_all ordinal [] st = st"
| "cache_all ordinal (shot # rest) st = cache_all (ordinal + 1) rest (cache_record ordinal shot st)"

section \<open>Access\<close>

definition decode_range :: "run_files \<Rightarrow> int \<Rightarrow> int \<Rightarrow> shot_record list index_step" where
  "decode_range files start stop st =
     (if start < 0 \<or> stop < start \<or> stop > ri_record_count st then (Inl RangeOutside, st)
      else
        let count = stop - start in
        if count = 0 then (Inr [], st)
        else
          let offset = int QIDX_HEADER_BYTES + start * int QIDX_RECORD_BYTES;
              raw = pread (rf_index files) (count * int QIDX_RECORD_BYTES) offset
          in if int (length raw) \<noteq> count * int QIDX_RECORD_BYTES then (Inl RangeChanged, st)
             else case map_res shot_decode (record_slices raw) of
                 Inl e \<Rightarrow> (Inl e, st)
               | Inr records \<Rightarrow> (Inr records, cache_all start records st))"

definition record_at :: "run_files \<Rightarrow> int \<Rightarrow> shot_record index_step" where
  "record_at files ordinal st =
     (if ordinal < 0 \<or> ordinal \<ge> ri_record_count st then (Inl OrdinalOutside, st)
      else case map_of (ri_cache st) ordinal of
          Some shot \<Rightarrow> (Inr shot, st\<lparr>ri_cache := move_to_end ordinal (ri_cache st)\<rparr>)
        | None \<Rightarrow>
            bind_step (decode_range files ordinal (ordinal + 1)) (\<lambda>records t.
              case records of shot # _ \<Rightarrow> (Inr shot, t) | [] \<Rightarrow> (Inl RangeOutside, t)) st)"

definition index_records :: "run_files \<Rightarrow> int \<Rightarrow> int \<Rightarrow> shot_record list index_step" where
  "index_records files start stop = decode_range files start stop"

text \<open>The bisection of \<open>find_shot_id\<close>, over any probe that may raise and change the state.\<close>

function bisect :: "(int \<Rightarrow> 's \<Rightarrow> ('e + int) \<times> 's) \<Rightarrow> int \<Rightarrow> int \<Rightarrow> int \<Rightarrow> 's \<Rightarrow> ('e + int) \<times> 's" where
  "bisect probe key low high st =
     (if low < high then
        let middle = (low + high) div 2 in
        case probe middle st of
          (Inl e, t) \<Rightarrow> (Inl e, t)
        | (Inr current, t) \<Rightarrow>
            if current < key then bisect probe key (middle + 1) high t
            else bisect probe key low middle t
      else (Inr low, st))"
  by pat_completeness auto
termination by (relation "measure (\<lambda>(probe, key, low, high, st). nat (high - low))") auto

declare bisect.simps [simp del]

definition shot_id_at :: "run_files \<Rightarrow> int \<Rightarrow> int index_step" where
  "shot_id_at files ordinal = bind_step (record_at files ordinal) (\<lambda>shot t. (Inr (sr_shot_id shot), t))"

definition find_shot_id :: "run_files \<Rightarrow> int \<Rightarrow> int option index_step" where
  "find_shot_id files shot_id st =
     bind_step (bisect (shot_id_at files) shot_id 0 (ri_record_count st)) (\<lambda>low t.
       if low < ri_record_count t
       then bind_step (shot_id_at files low) (\<lambda>i u.
              (Inr (if i = shot_id then Some low else None), u)) t
       else (Inr None, t)) st"

section \<open>Refresh\<close>

definition validate_header :: "bytes \<Rightarrow> unit index_step" where
  "validate_header raw st =
     (case header_identity raw of
        Inl e \<Rightarrow> (Inl e, st)
      | Inr (run_id, stream_id) \<Rightarrow>
          if ri_run_id st \<noteq> 0 \<and> (run_id \<noteq> ri_run_id st \<or> stream_id \<noteq> ri_stream_id st)
          then (Inl IdentityChanged, st)
          else (Inr (), st\<lparr>ri_run_id := run_id, ri_stream_id := stream_id\<rparr>))"

text \<open>What \<open>_accumulate\<close> updates before it looks at the extent.\<close>

definition note_shot :: "shot_record \<Rightarrow> run_index \<Rightarrow> run_index" where
  "note_shot shot st =
     st\<lparr>ri_skipped_shot_ids := (case ri_previous_shot_id st of
            Some p \<Rightarrow> ri_skipped_shot_ids st + max 0 (sr_shot_id shot - p - 1)
          | None \<Rightarrow> ri_skipped_shot_ids st),
        ri_previous_shot_id := Some (sr_shot_id shot),
        ri_first_receive_ns := (if ri_first_receive_ns st = 0 then sr_first_receive_ns shot
          else ri_first_receive_ns st),
        ri_last_receive_ns := max (ri_last_receive_ns st) (sr_last_receive_ns shot),
        ri_datagrams := ri_datagrams st + sr_datagrams shot,
        ri_duplicate_packets := ri_duplicate_packets st + sr_duplicate_packets shot,
        ri_reordered_packets := ri_reordered_packets st + sr_reordered_packets shot,
        ri_missing_packets := ri_missing_packets st + sr_missing_packets shot\<rparr>"

definition accumulate :: "shot_record \<Rightarrow> int \<Rightarrow> unit index_step" where
  "accumulate shot sample_file_bytes st =
     (if (case ri_previous_shot_id st of Some p \<Rightarrow> sr_shot_id shot \<le> p | None \<Rightarrow> False)
      then (Inl IdsNotIncreasing, st)
      else
        let t = note_shot shot st in
        if shot_complete shot then
          let finish = sr_sample_offset shot + sr_sample_bytes shot in
          if finish > sample_file_bytes then (Inl (ExceedsSamples (sr_shot_id shot)), t)
          else if sr_sample_offset shot < ri_previous_sample_end t
          then (Inl (OverlapsPrior (sr_shot_id shot)), t)
          else (Inr (), t\<lparr>ri_previous_sample_end := finish,
                 ri_sample_bytes := ri_sample_bytes t + sr_sample_bytes shot,
                 ri_complete_count := ri_complete_count t + 1\<rparr>)
        else (Inr (), t\<lparr>ri_incomplete_count := ri_incomplete_count t + 1\<rparr>))"

fun accumulate_all :: "shot_record list \<Rightarrow> int \<Rightarrow> unit index_step" where
  "accumulate_all [] sample_file_bytes st = (Inr (), st)"
| "accumulate_all (shot # rest) sample_file_bytes st =
     bind_step (accumulate shot sample_file_bytes) (\<lambda>_. accumulate_all rest sample_file_bytes) st"

text \<open>The scan of the records appended since, 4096 at a time.\<close>

function scan_records :: "run_files \<Rightarrow> int \<Rightarrow> int \<Rightarrow> unit index_step" where
  "scan_records files sample_file_bytes available st =
     (if ri_scanned_count st < available then
        let stop = min available (ri_scanned_count st + 4096) in
        case bind_step (decode_range files (ri_scanned_count st) stop)
               (\<lambda>records. accumulate_all records sample_file_bytes) st of
          (Inl e, t) \<Rightarrow> (Inl e, t)
        | (Inr _, t) \<Rightarrow> scan_records files sample_file_bytes available (t\<lparr>ri_scanned_count := stop\<rparr>)
      else (Inr (), st))"
  by pat_completeness auto
termination
  by (relation "measure (\<lambda>(files, size, available, st). nat (available - ri_scanned_count st))") auto

declare scan_records.simps [simp del]

definition refresh_report :: "string \<Rightarrow> report_file option \<Rightarrow> string \<Rightarrow> bool index_step" where
  "refresh_report name file expected_format st =
     (let signature = map_option rp_signature file in
      if (case ri_report_signatures st name of Some s \<Rightarrow> s | None \<Rightarrow> None) = signature then (Inr False, st)
      else
        case load_json_report name file expected_format (ri_run_id st) (ri_stream_id st) of
          Inl e \<Rightarrow> (Inl e, st)
        | Inr report \<Rightarrow>
            (Inr True,
             (if name = ''run.json'' then st\<lparr>ri_manifest := report\<rparr> else st\<lparr>ri_sender_report := report\<rparr>)
             \<lparr>ri_report_signatures := (ri_report_signatures st)(name \<mapsto> signature)\<rparr>))"

definition samples_of :: "run_files \<Rightarrow> bytes" where
  "samples_of files = (case rf_samples files of Some s \<Rightarrow> s | None \<Rightarrow> [])"

definition refresh_reports :: "run_files \<Rightarrow> bool \<Rightarrow> bool index_step" where
  "refresh_reports files changed st =
     (if ri_run_id st \<noteq> 0 then
        bind_step (refresh_report ''run.json'' (rf_run_json files) ''qcrate-run-v1'') (\<lambda>a.
        bind_step (refresh_report ''sender.json'' (rf_sender_json files) ''qcrate-sender-report-v1'') (\<lambda>b t.
        (Inr (changed \<or> a \<or> b), t))) st
      else (Inr changed, st))"

definition refresh :: "run_files \<Rightarrow> bool index_step" where
  "refresh files st =
     (let file_bytes = length (rf_index files) in
      if file_bytes < QIDX_HEADER_BYTES
      then (if ri_run_id st \<noteq> 0 then Inl IndexShrank else Inr False, st)
      else
        let header = pread (rf_index files) (int QIDX_HEADER_BYTES) 0 in
        if length header \<noteq> QIDX_HEADER_BYTES then (Inl HeaderChanged, st)
        else bind_step (validate_header header) (\<lambda>_ t.
        let available = int ((file_bytes - QIDX_HEADER_BYTES) div QIDX_RECORD_BYTES);
            trailing_bytes = (file_bytes - QIDX_HEADER_BYTES) mod QIDX_RECORD_BYTES
        in if available < ri_record_count t then (Inl IndexShrank, t)
           else
             let changed = (available \<noteq> ri_record_count t) in
             bind_step (scan_records files (int (length (samples_of files))) available) (\<lambda>_.
             bind_step (refresh_reports files changed) (\<lambda>changed u.
               if run_complete (ri_manifest u) = Some True \<and> trailing_bytes \<noteq> 0
               then (Inl FinalRecordTruncated, u) else (Inr changed, u)))
             (t\<lparr>ri_record_count := available\<rparr>)) st)"

definition index_open :: "run_files \<Rightarrow> int \<Rightarrow> run_error + run_index" where
  "index_open files cache_records =
     bind_res (index_init files cache_records) (\<lambda>catalog.
       case refresh files catalog of (Inl e, _) \<Rightarrow> Inl e | (Inr _, t) \<Rightarrow> Inr t)"

section \<open>Health\<close>

definition index_totals :: "run_index \<Rightarrow> run_totals" where
  "index_totals st =
     \<lparr>rt_measured_duration = measured_duration (ri_first_receive_ns st) (ri_last_receive_ns st),
      rt_complete_shots = ri_complete_count st, rt_incomplete_shots = ri_incomplete_count st,
      rt_skipped_shot_ids = ri_skipped_shot_ids st, rt_sample_bytes = ri_sample_bytes st,
      rt_datagrams = ri_datagrams st, rt_duplicate_packets = ri_duplicate_packets st,
      rt_reordered_packets = ri_reordered_packets st, rt_missing_packets = ri_missing_packets st\<rparr>"

definition index_health :: "run_index \<Rightarrow> run_health" where
  "index_health st = build_health (ri_manifest st) (ri_sender_report st) (index_totals st)"

definition index_run_complete :: "run_index \<Rightarrow> bool option" where
  "index_run_complete st = run_complete (ri_manifest st)"

definition index_sample_rate :: "run_index \<Rightarrow> rat option \<Rightarrow> run_error + rat \<times> rate_source" where
  "index_sample_rate st fallback = sample_rate_hz (ri_manifest st) fallback"

definition index_read_samples :: "run_files \<Rightarrow> shot_record \<Rightarrow> run_error + bytes" where
  "index_read_samples files shot = read_samples (samples_of files) shot"

end
