(* ===== verification/RunCache.thy ===== *)
theory RunCache
  imports RunIndex
begin

text \<open>
  Reading through the catalog: the bounded cache as an interface with its laws, the records a
  catalog serves, and the bisection over any probe that returns the keys of an increasing list.
  Every access returns the record of the file whatever the cache holds, and keeps the cache
  coherent and within its limit.
\<close>

section \<open>The interface of a bounded cache\<close>

locale bounded_cache =
  fixes store :: "'k \<Rightarrow> 'v \<Rightarrow> 'c \<Rightarrow> 'c"
    and touch :: "'k \<Rightarrow> 'c \<Rightarrow> 'c"
    and evict :: "nat \<Rightarrow> 'c \<Rightarrow> 'c"
    and find_entry :: "'c \<Rightarrow> 'k \<Rightarrow> 'v option"
    and entries :: "'c \<Rightarrow> nat"
    and wf :: "'c \<Rightarrow> bool"
  assumes store_wf: "wf c \<Longrightarrow> wf (store k v c)"
    and touch_wf: "wf c \<Longrightarrow> wf (touch k c)"
    and evict_wf: "wf c \<Longrightarrow> wf (evict n c)"
    and store_find: "wf c \<Longrightarrow> find_entry (store k v c) j = (if j = k then Some v else find_entry c j)"
    and touch_find: "wf c \<Longrightarrow> find_entry (touch k c) = find_entry c"
    and evict_find: "wf c \<Longrightarrow> find_entry (evict n c) j = Some v \<Longrightarrow> find_entry c j = Some v"
    and touch_entries: "wf c \<Longrightarrow> entries (touch k c) = entries c"
    and evict_entries: "entries (evict n c) \<le> n"
begin

text \<open>A cache is coherent with the partial function it remembers, through every operation.\<close>

lemma coherent_insert:
  assumes "wf c" "\<And>j v. find_entry c j = Some v \<Longrightarrow> f j = Some v" "f k = Some v"
    and "find_entry (evict n (store k v c)) j = Some w"
  shows "f j = Some w"
  using evict_find[OF store_wf[OF assms(1)] assms(4)] assms(1-3)
  by (auto simp: store_find split: if_splits)

lemma coherent_touch:
  "wf c \<Longrightarrow> (\<And>j v. find_entry c j = Some v \<Longrightarrow> f j = Some v) \<Longrightarrow>
   find_entry (touch k c) j = Some w \<Longrightarrow> f j = Some w"
  by (simp add: touch_find)

end

definition cache_wf :: "('k \<times> 'v) list \<Rightarrow> bool" where
  "cache_wf c \<longleftrightarrow> distinct (map fst c)"

lemma map_of_filter_other: "map_of (filter (\<lambda>(j, _). j \<noteq> k) c) j = (if j = k then None else map_of c j)"
  by (induction c) auto

lemma cache_store_find: "map_of (cache_store k v c) j = (if j = k then Some v else map_of c j)"
  by (auto simp: cache_store_def map_add_def map_of_filter_other split: option.splits)

lemma cache_store_wf: "cache_wf c \<Longrightarrow> cache_wf (cache_store k v c)"
  by (auto simp: cache_store_def cache_wf_def distinct_map_filter)

lemma drop_map_of: "distinct (map fst c) \<Longrightarrow> map_of (drop n c) j = Some v \<Longrightarrow> map_of c j = Some v"
  by (metis distinct_map in_set_dropD map_of_SomeD map_of_is_SomeI)

lemma filter_key_length:
  "distinct (map fst c) \<Longrightarrow> map_of c k = Some v \<Longrightarrow> length (filter (\<lambda>(j, _). j \<noteq> k) c) = length c - 1"
proof (induction c)
  case (Cons p c)
  obtain j w where p: "p = (j, w)" by (cases p)
  show ?case
  proof (cases "j = k")
    case True
    then have "k \<notin> fst ` set c" using Cons.prems(1) p by auto
    then have "filter (\<lambda>(j, _). j \<noteq> k) c = c" by (force simp: filter_id_conv)
    then show ?thesis using p True by simp
  next
    case False
    then have "map_of c k = Some v" using Cons.prems(2) p by simp
    moreover from this have "c \<noteq> []" by auto
    ultimately show ?thesis using Cons p False by (cases c) auto
  qed
qed simp

interpretation lru: bounded_cache cache_store move_to_end evict_oldest map_of length cache_wf
proof
  fix c :: "('k \<times> 'v) list" and k :: 'k and v :: 'v and n :: nat and j :: 'k
  show "cache_wf c \<Longrightarrow> cache_wf (cache_store k v c)" by (rule cache_store_wf)
  show "cache_wf c \<Longrightarrow> cache_wf (move_to_end k c)"
    by (auto simp: move_to_end_def cache_store_wf split: option.splits)
  show "cache_wf c \<Longrightarrow> cache_wf (evict_oldest n c)"
    by (simp add: cache_wf_def evict_oldest_def drop_map[symmetric] distinct_drop)
  show "cache_wf c \<Longrightarrow> map_of (cache_store k v c) j = (if j = k then Some v else map_of c j)"
    by (rule cache_store_find)
  show "cache_wf c \<Longrightarrow> map_of (move_to_end k c) = map_of c"
    by (auto simp: move_to_end_def cache_store_find fun_eq_iff split: option.splits)
  show "cache_wf c \<Longrightarrow> map_of (evict_oldest n c) j = Some v \<Longrightarrow> map_of c j = Some v"
    by (simp add: evict_oldest_def cache_wf_def drop_map_of)
  show "cache_wf c \<Longrightarrow> length (move_to_end k c) = length c"
  proof (cases "map_of c k")
    case (Some w)
    assume "cache_wf c"
    moreover have "c \<noteq> []" using Some by auto
    ultimately show ?thesis
      using filter_key_length[of c k w] Some by (cases c) (auto simp: move_to_end_def cache_store_def cache_wf_def)
  qed (simp add: move_to_end_def)
  show "length (evict_oldest n c) \<le> n" by (simp add: evict_oldest_def)
qed

section \<open>The bisection\<close>

locale probed_keys =
  fixes probe :: "int \<Rightarrow> 's \<Rightarrow> ('e + int) \<times> 's"
    and good :: "'s \<Rightarrow> bool"
    and keys :: "int list"
  assumes increasing: "good s \<Longrightarrow> sorted_wrt (<) keys"
    and probe_ok: "good s \<Longrightarrow> 0 \<le> k \<Longrightarrow> k < int (length keys) \<Longrightarrow>
      \<exists>t. probe k s = (Inr (keys ! nat k), t) \<and> good t"
begin

lemma keys_mono: "good s \<Longrightarrow> i \<le> j \<Longrightarrow> j < length keys \<Longrightarrow> keys ! i \<le> keys ! j"
  using increasing sorted_wrt_nth_less[of "(<)" keys i j] by (cases "i = j") auto

text \<open>The bisection returns the position that separates the smaller keys from the others.\<close>

lemma bisect_position:
  assumes "good s" "0 \<le> low" "low \<le> high" "high \<le> int (length keys)"
    and "\<forall>i. int i < low \<longrightarrow> keys ! i < key" "\<forall>i < length keys. high \<le> int i \<longrightarrow> key \<le> keys ! i"
  shows "\<exists>p t. bisect probe key low high s = (Inr p, t) \<and> good t \<and> low \<le> p \<and> p \<le> high \<and>
    (\<forall>i. int i < p \<longrightarrow> keys ! i < key) \<and> (\<forall>i < length keys. p \<le> int i \<longrightarrow> key \<le> keys ! i)"
  using assms
proof (induction "nat (high - low)" arbitrary: low high s rule: less_induct)
  case less
  show ?case
  proof (cases "low < high")
    case False
    then have "bisect probe key low high s = (Inr low, s)" by (subst bisect.simps) simp
    then show ?thesis using less.prems False by auto
  next
    case True
    define m where "m = (low + high) div 2"
    have m: "low \<le> m" "m < high" using True by (simp_all add: m_def)
    obtain t where t: "probe m s = (Inr (keys ! nat m), t)" "good t"
      using probe_ok[OF less.prems(1), of m] m less.prems(2,4) by force
    have step: "bisect probe key low high s =
        (if keys ! nat m < key then bisect probe key (m + 1) high t else bisect probe key low m t)"
      using True t(1) by (subst bisect.simps) (simp add: Let_def m_def)
    show ?thesis
    proof (cases "keys ! nat m < key")
      case True
      have "keys ! i < key" if "int i < m + 1" for i
        using keys_mono[OF t(2), of i "nat m"] that True m less.prems(2,4) by force
      then have "\<exists>p u. bisect probe key (m + 1) high t = (Inr p, u) \<and> good u \<and> m + 1 \<le> p \<and> p \<le> high \<and>
          (\<forall>i. int i < p \<longrightarrow> keys ! i < key) \<and> (\<forall>i < length keys. p \<le> int i \<longrightarrow> key \<le> keys ! i)"
        using m less.prems t(2) by (intro less.hyps) auto
      then show ?thesis using True m unfolding step by force
    next
      case False
      have "key \<le> keys ! i" if "i < length keys" "m \<le> int i" for i
        using keys_mono[OF t(2), of "nat m" i] that False m less.prems(2) by force
      then have "\<exists>p u. bisect probe key low m t = (Inr p, u) \<and> good u \<and> low \<le> p \<and> p \<le> m \<and>
          (\<forall>i. int i < p \<longrightarrow> keys ! i < key) \<and> (\<forall>i < length keys. p \<le> int i \<longrightarrow> key \<le> keys ! i)"
        using m less.prems t(2) by (intro less.hyps) auto
      then show ?thesis using False m unfolding step by force
    qed
  qed
qed

end

section \<open>Records of the file\<close>

definition record_slice :: "run_files \<Rightarrow> nat \<Rightarrow> bytes" where
  "record_slice files k = take 128 (drop (32 + k * 128) (rf_index files))"

text \<open>The index file holds these shots, from its first record on.\<close>

definition holds_shots :: "run_files \<Rightarrow> shot_record list \<Rightarrow> bool" where
  "holds_shots files shots \<longleftrightarrow>
     (shots \<noteq> [] \<longrightarrow> 32 + length shots * 128 \<le> length (rf_index files)) \<and>
     (\<forall>k < length shots. shot_decode (record_slice files k) = Inr (shots ! k))"

definition shot_at :: "shot_record list \<Rightarrow> int \<Rightarrow> shot_record option" where
  "shot_at shots j = (if 0 \<le> j \<and> j < int (length shots) then Some (shots ! nat j) else None)"

definition cache_good :: "shot_record list \<Rightarrow> run_index \<Rightarrow> bool" where
  "cache_good shots st \<longleftrightarrow>
     cache_wf (ri_cache st) \<and> cache_entries st \<le> ri_cache_limit st \<and>
     (\<forall>j v. map_of (ri_cache st) j = Some v \<longrightarrow> shot_at shots j = Some v)"

text \<open>Everything but the cache is as it was.\<close>

definition only_cache :: "run_index \<Rightarrow> run_index \<Rightarrow> bool" where
  "only_cache st t \<longleftrightarrow> t = st\<lparr>ri_cache := ri_cache t\<rparr>"

lemma only_cache_refl [simp]: "only_cache st st"
  by (simp add: only_cache_def)

lemma only_cache_trans: "only_cache st t \<Longrightarrow> only_cache t u \<Longrightarrow> only_cache st u"
  unfolding only_cache_def by (metis run_index.surjective run_index.update_convs(2))

lemma cache_record_good:
  assumes "cache_good shots st" "shot_at shots k = Some shot"
  shows "cache_good shots (cache_record k shot st) \<and> only_cache st (cache_record k shot st)"
proof -
  have "shot_at shots j = Some v" if "map_of (ri_cache (cache_record k shot st)) j = Some v" for j v
    using lru.coherent_insert[of "ri_cache st" "shot_at shots" k shot _ j v] assms that
    by (simp add: cache_good_def cache_record_def)
  moreover have "cache_wf (ri_cache (cache_record k shot st))"
    using assms(1) by (simp add: cache_good_def cache_record_def lru.store_wf lru.evict_wf)
  ultimately show ?thesis
    using lru.evict_entries by (simp add: cache_good_def cache_entries_def cache_record_def only_cache_def)
qed

lemma cache_all_good:
  assumes "cache_good shots st" "0 \<le> a" "rs = take (length rs) (drop (nat a) shots)"
    and "nat a + length rs \<le> length shots"
  shows "cache_good shots (cache_all a rs st) \<and> only_cache st (cache_all a rs st)"
  using assms
proof (induction rs arbitrary: a st)
  case (Cons r rs)
  have d: "drop (nat a) shots = shots ! nat a # drop (Suc (nat a)) shots"
    using Cons.prems(4) by (intro Cons_nth_drop_Suc[symmetric]) simp
  then have r: "r = shots ! nat a" "rs = take (length rs) (drop (nat (a + 1)) shots)"
    using Cons.prems(2,3) by (simp_all add: nat_add_distrib)
  have at: "shot_at shots a = Some r" using Cons.prems(2,4) r(1) by (simp add: shot_at_def)
  note g = cache_record_good[OF Cons.prems(1) at]
  have "cache_good shots (cache_all (a + 1) rs (cache_record a r st)) \<and>
      only_cache (cache_record a r st) (cache_all (a + 1) rs (cache_record a r st))"
    using Cons.prems(2,4) r(2) g by (intro Cons.IH) (simp_all add: nat_add_distrib)
  then show ?case using g only_cache_trans by auto
qed simp

lemma record_slices_exact:
  assumes "length raw = n * 128"
  shows "record_slices raw = map (\<lambda>k. take 128 (drop (k * 128) raw)) [0..<n]"
proof -
  have "(length raw + (QIDX_RECORD_BYTES - 1)) div QIDX_RECORD_BYTES = n"
    using assms by (simp add: QIDX_RECORD_BYTES_def)
  then show ?thesis by (simp only: record_slices_def) (simp add: QIDX_RECORD_BYTES_def)
qed

lemma decode_slices:
  assumes "holds_shots files shots" "a + n \<le> length shots" "0 < n"
  defines "raw \<equiv> take (n * 128) (drop (32 + a * 128) (rf_index files))"
  shows "length raw = n * 128" "map_res shot_decode (record_slices raw) = Inr (take n (drop a shots))"
proof -
  have size: "32 + (a + n) * 128 \<le> length (rf_index files)"
    using assms(1-3) mult_le_mono1[OF assms(2), of 128] unfolding holds_shots_def by fastforce
  then show len: "length raw = n * 128" by (simp add: raw_def)
  have slice: "take 128 (drop (k * 128) raw) = record_slice files (a + k)" if "k < n" for k
  proof -
    have "128 \<le> n * 128 - k * 128" using that by simp
    moreover have "k * 128 + (32 + a * 128) = 32 + (a + k) * 128" by simp
    ultimately show ?thesis
      by (simp only: raw_def record_slice_def drop_take drop_drop take_take min_absorb1)
  qed
  have "map_res shot_decode (map (\<lambda>k. record_slice files (a + k)) [0..<n]) = Inr (take n (drop a shots))"
    using assms(1,2) by (auto simp: map_res_Inr_iff holds_shots_def list_all2_conv_all_nth)
  moreover have "record_slices raw = map (\<lambda>k. record_slice files (a + k)) [0..<n]"
    unfolding record_slices_exact[OF len] by (rule map_cong) (simp_all add: slice)
  ultimately show "map_res shot_decode (record_slices raw) = Inr (take n (drop a shots))" by simp
qed

text \<open>A range of a catalog that follows the file decodes to the shots of the range.\<close>

lemma decode_range_ok:
  assumes "holds_shots files shots" "cache_good shots st" "int (length shots) \<le> ri_record_count st"
    and "0 \<le> start" "start \<le> stop" "stop \<le> int (length shots)"
  shows "\<exists>t. decode_range files start stop st = (Inr (take (nat (stop - start)) (drop (nat start) shots)), t) \<and>
    cache_good shots t \<and> only_cache st t"
proof (cases "stop = start")
  case True
  then show ?thesis using assms by (auto simp: decode_range_def)
next
  case False
  define a where "a = nat start"
  define n where "n = nat (stop - start)"
  have an: "start = int a" "stop = int a + int n" "a + n \<le> length shots" "0 < n"
    using assms(4-6) False by (simp_all add: a_def n_def)
  let ?raw = "take (n * 128) (drop (32 + a * 128) (rf_index files))"
  have raw: "pread (rf_index files) (int n * int QIDX_RECORD_BYTES)
      (int QIDX_HEADER_BYTES + int a * int QIDX_RECORD_BYTES) = ?raw"
    by (simp add: pread_def QIDX_RECORD_BYTES_def QIDX_HEADER_BYTES_def nat_mult_distrib nat_add_distrib)
  note d = decode_slices[OF assms(1) an(3,4)]
  let ?rs = "take n (drop a shots)"
  have rl: "length ?rs = n" using an(3) by simp
  have c: "cache_good shots (cache_all (int a) ?rs st) \<and> only_cache st (cache_all (int a) ?rs st)"
    using an(3) by (intro cache_all_good[OF assms(2)]) (simp_all add: rl)
  have "decode_range files (int a) (int a + int n) st = (Inr ?rs, cache_all (int a) ?rs st)"
    using assms(3) an(3,4)
    by (simp only: decode_range_def Let_def add_diff_cancel_left' raw d) (simp add: QIDX_RECORD_BYTES_def)
  moreover have "nat (stop - start) = n" "nat start = a" using an by simp_all
  ultimately show ?thesis using c an(1,2) by auto
qed

section \<open>Looking shots up\<close>

definition serving :: "run_files \<Rightarrow> shot_record list \<Rightarrow> run_index \<Rightarrow> bool" where
  "serving files shots st \<longleftrightarrow>
     holds_shots files shots \<and> sorted_wrt (<) (map sr_shot_id shots) \<and>
     ri_record_count st = int (length shots) \<and> cache_good shots st"

lemma record_at_ok:
  assumes "serving files shots st" "0 \<le> k" "k < int (length shots)"
  shows "\<exists>t. record_at files k st = (Inr (shots ! nat k), t) \<and> serving files shots t \<and> only_cache st t"
proof (cases "map_of (ri_cache st) k")
  case (Some shot)
  have g: "cache_good shots st" using assms(1) by (simp add: serving_def)
  let ?t = "st\<lparr>ri_cache := move_to_end k (ri_cache st)\<rparr>"
  have "shot_at shots k = Some shot" using g Some by (auto simp: cache_good_def)
  then have "shot = shots ! nat k" using assms(2,3) by (simp add: shot_at_def)
  moreover have "cache_good shots ?t"
    using g by (simp add: cache_good_def cache_entries_def lru.touch_wf lru.touch_find lru.touch_entries)
  ultimately show ?thesis
    using assms Some by (auto simp: record_at_def serving_def only_cache_def)
next
  case None
  obtain t where t: "decode_range files k (k + 1) st = (Inr (take 1 (drop (nat k) shots)), t)"
      "cache_good shots t" "only_cache st t"
    using decode_range_ok[of files shots st k "k + 1"] assms by (auto simp: serving_def)
  have "nat k < length shots" using assms(2,3) by linarith
  then have one: "take 1 (drop (nat k) shots) = [shots ! nat k]"
    by (simp add: Cons_nth_drop_Suc[symmetric])
  have "ri_record_count t = ri_record_count st"
    using t(3) unfolding only_cache_def by (metis run_index.simps run_index.surjective)
  then show ?thesis
    using t one assms None by (simp add: record_at_def serving_def)
qed

lemma shot_id_at_ok:
  assumes "serving files shots st" "0 \<le> k" "k < int (length shots)"
  shows "\<exists>t. shot_id_at files k st = (Inr (map sr_shot_id shots ! nat k), t) \<and> serving files shots t"
  using record_at_ok[OF assms] assms(2,3) by (auto simp: shot_id_at_def)

interpretation catalog: probed_keys "shot_id_at files" "serving files shots" "map sr_shot_id shots"
  for files shots
  using shot_id_at_ok by unfold_locales (simp_all add: serving_def)

lemma find_shot_id_ok:
  assumes "serving files shots st"
  shows "\<exists>r t. find_shot_id files key st = (Inr r, t) \<and> serving files shots t \<and>
    (case r of
       None \<Rightarrow> key \<notin> set (map sr_shot_id shots)
     | Some k \<Rightarrow> 0 \<le> k \<and> k < int (length shots) \<and> sr_shot_id (shots ! nat k) = key)"
proof -
  let ?ids = "map sr_shot_id shots"
  obtain p t where p: "bisect (shot_id_at files) key 0 (int (length shots)) st = (Inr p, t)" "serving files shots t"
      "0 \<le> p" "p \<le> int (length shots)" "\<forall>i. int i < p \<longrightarrow> ?ids ! i < key"
      "\<forall>i < length shots. p \<le> int i \<longrightarrow> key \<le> ?ids ! i"
    using catalog.bisect_position[OF assms, of 0 "int (length shots)" key] by auto
  have count: "ri_record_count st = int (length shots)" "ri_record_count t = int (length shots)"
    using assms p(2) by (simp_all add: serving_def)
  have absent: "key \<notin> set ?ids" if "p = int (length shots) \<or> ?ids ! nat p \<noteq> key"
  proof
    assume "key \<in> set ?ids"
    then obtain i where i: "i < length shots" "?ids ! i = key" by (auto simp: in_set_conv_nth)
    then have pi: "p \<le> int i" using p(5) by (metis less_irrefl not_le)
    then have "nat p < length shots" "p \<noteq> int (length shots)" using i(1) p(3) by linarith+
    then have "?ids ! nat p \<noteq> key" "key \<le> ?ids ! nat p" using that p(3,6) by auto
    moreover have "?ids ! nat p \<le> ?ids ! i"
      using catalog.keys_mono[OF p(2), of "nat p" i] pi i(1) p(3) by simp
    ultimately show False using i(2) by simp
  qed
  show ?thesis
  proof (cases "p < int (length shots)")
    case False
    then have "find_shot_id files key st = (Inr None, t)"
      using p(1) count by (simp add: find_shot_id_def)
    then show ?thesis using absent False p(2,4) by auto
  next
    case True
    obtain u where u: "shot_id_at files p t = (Inr (?ids ! nat p), u)" "serving files shots u"
      using shot_id_at_ok[OF p(2,3) True] by blast
    then have "find_shot_id files key st = (Inr (if ?ids ! nat p = key then Some p else None), u)"
      using p(1) count True by (simp add: find_shot_id_def)
    then show ?thesis using absent True u(2) p(3) by auto
  qed
qed

end
