(* ===== verification/RunRefresh.thy ===== *)
theory RunRefresh
  imports RunCache "HOL-Library.Sublist"
begin

text \<open>
  The incremental catalog against the whole-run reader: however the files grew between refreshes,
  a catalog that refreshed at every accepted snapshot has the shots, the reports and the health
  totals the strict reader computes from the last one.
\<close>

section \<open>Accumulating shots\<close>

text \<open>The effect of an accepted shot.\<close>

definition acc_shot :: "shot_record \<Rightarrow> run_index \<Rightarrow> run_index" where
  "acc_shot shot st =
     (let t = note_shot shot st in
      if shot_complete shot
      then t\<lparr>ri_previous_sample_end := sr_sample_offset shot + sr_sample_bytes shot,
             ri_sample_bytes := ri_sample_bytes t + sr_sample_bytes shot,
             ri_complete_count := ri_complete_count t + 1\<rparr>
      else t\<lparr>ri_incomplete_count := ri_incomplete_count t + 1\<rparr>)"

lemma acc_shot_previous [simp]:
  "ri_previous_shot_id (acc_shot shot st) = Some (sr_shot_id shot)"
  "ri_previous_sample_end (acc_shot shot st) =
     (if shot_complete shot then sr_sample_offset shot + sr_sample_bytes shot else ri_previous_sample_end st)"
  by (simp_all add: acc_shot_def note_shot_def Let_def)

lemma acc_shot_other [simp]:
  "ri_scanned_count (acc_shot shot st) = ri_scanned_count st" "ri_cache (acc_shot shot st) = ri_cache st"
  "ri_cache_limit (acc_shot shot st) = ri_cache_limit st" "ri_record_count (acc_shot shot st) = ri_record_count st"
  "ri_run_id (acc_shot shot st) = ri_run_id st" "ri_stream_id (acc_shot shot st) = ri_stream_id st"
  "ri_manifest (acc_shot shot st) = ri_manifest st" "ri_sender_report (acc_shot shot st) = ri_sender_report st"
  "ri_report_signatures (acc_shot shot st) = ri_report_signatures st"
  by (simp_all add: acc_shot_def note_shot_def Let_def)

lemma fold_acc_other [simp]:
  "ri_scanned_count (fold acc_shot xs st) = ri_scanned_count st" "ri_cache (fold acc_shot xs st) = ri_cache st"
  "ri_cache_limit (fold acc_shot xs st) = ri_cache_limit st" "ri_record_count (fold acc_shot xs st) = ri_record_count st"
  "ri_run_id (fold acc_shot xs st) = ri_run_id st" "ri_stream_id (fold acc_shot xs st) = ri_stream_id st"
  "ri_manifest (fold acc_shot xs st) = ri_manifest st" "ri_sender_report (fold acc_shot xs st) = ri_sender_report st"
  "ri_report_signatures (fold acc_shot xs st) = ri_report_signatures st"
  by (induction xs arbitrary: st) simp_all

lemma accumulate_all_ok:
  "check_shots bytes_held (ri_previous_sample_end st) (ri_previous_shot_id st) xs = Inr () \<Longrightarrow>
   accumulate_all xs bytes_held st = (Inr (), fold acc_shot xs st)"
proof (induction xs arbitrary: st)
  case (Cons x xs)
  have acc: "accumulate x bytes_held st = (Inr (), acc_shot x st)"
    using Cons.prems
    by (auto simp: accumulate_def acc_shot_def note_shot_def Let_def split: if_splits option.splits)
  have "check_shots bytes_held (ri_previous_sample_end (acc_shot x st)) (ri_previous_shot_id (acc_shot x st)) xs = Inr ()"
    using Cons.prems by (auto simp: Let_def split: if_splits)
  then show ?case using Cons.IH acc by simp
qed simp

lemma check_shots_append:
  "check_shots bytes_held (ri_previous_sample_end st) (ri_previous_shot_id st) (xs @ ys) = Inr () \<Longrightarrow>
   check_shots bytes_held (ri_previous_sample_end st) (ri_previous_shot_id st) xs = Inr () \<and>
   check_shots bytes_held (ri_previous_sample_end (fold acc_shot xs st)) (ri_previous_shot_id (fold acc_shot xs st)) ys = Inr ()"
proof (induction xs arbitrary: st)
  case (Cons x xs)
  have "check_shots bytes_held (ri_previous_sample_end (acc_shot x st)) (ri_previous_shot_id (acc_shot x st)) (xs @ ys) = Inr ()"
    using Cons.prems by (auto simp: Let_def split: if_splits)
  from Cons.IH[OF this] show ?case
    using Cons.prems by (auto simp: Let_def split: if_splits)
qed simp

section \<open>What a catalog counts\<close>

definition counts :: "run_index \<Rightarrow> int option \<times> int \<times> int \<times> int \<times> int \<times> int \<times> int \<times> int \<times> int \<times> int \<times> int \<times> int" where
  "counts st =
     (ri_previous_shot_id st, ri_previous_sample_end st, ri_first_receive_ns st, ri_last_receive_ns st,
      ri_skipped_shot_ids st, ri_sample_bytes st, ri_datagrams st, ri_duplicate_packets st,
      ri_reordered_packets st, ri_missing_packets st, ri_complete_count st, ri_incomplete_count st)"

lemma counts_acc: "counts st = counts t \<Longrightarrow> counts (acc_shot shot st) = counts (acc_shot shot t)"
  by (auto simp: counts_def acc_shot_def note_shot_def Let_def split: option.splits)

lemma counts_fold: "counts st = counts t \<Longrightarrow> counts (fold acc_shot xs st) = counts (fold acc_shot xs t)"
proof (induction xs arbitrary: st t)
  case (Cons x xs)
  show ?case using Cons.IH[OF counts_acc[OF Cons.prems]] by simp
qed simp

lemma counts_cache [simp]:
  "counts (st\<lparr>ri_cache := c\<rparr>) = counts st" "counts (st\<lparr>ri_scanned_count := n\<rparr>) = counts st"
  "counts (st\<lparr>ri_record_count := n\<rparr>) = counts st"
  "counts (st\<lparr>ri_run_id := n, ri_stream_id := m\<rparr>) = counts st"
  "counts (st\<lparr>ri_manifest := x\<rparr>) = counts st" "counts (st\<lparr>ri_sender_report := x\<rparr>) = counts st"
  "counts (st\<lparr>ri_report_signatures := y\<rparr>) = counts st"
  by (simp_all add: counts_def)

text \<open>The scan from a counted prefix to the end of the index.\<close>

definition same_reports :: "run_index \<Rightarrow> run_index \<Rightarrow> bool" where
  "same_reports st t \<longleftrightarrow>
     ri_cache_limit t = ri_cache_limit st \<and> ri_record_count t = ri_record_count st \<and>
     ri_run_id t = ri_run_id st \<and> ri_stream_id t = ri_stream_id st \<and> ri_manifest t = ri_manifest st \<and>
     ri_sender_report t = ri_sender_report st \<and> ri_report_signatures t = ri_report_signatures st"

lemma only_cache_same: "only_cache st t \<Longrightarrow> same_reports st t \<and> counts t = counts st \<and> ri_scanned_count t = ri_scanned_count st"
proof -
  assume "only_cache st t"
  then have t: "t = st\<lparr>ri_cache := ri_cache t\<rparr>" by (simp add: only_cache_def)
  show ?thesis by (subst t, subst t, subst t) (simp add: same_reports_def counts_def)
qed

lemma scan_records_ok:
  assumes "holds_shots files shots" "cache_good shots st" "ri_record_count st = int (length shots)"
    and "ri_scanned_count st = int m" "m \<le> length shots"
    and "check_shots bytes_held (ri_previous_sample_end st) (ri_previous_shot_id st) (drop m shots) = Inr ()"
  shows "\<exists>t. scan_records files bytes_held (int (length shots)) st = (Inr (), t) \<and> cache_good shots t \<and>
    same_reports st t \<and> ri_scanned_count t = int (length shots) \<and> counts t = counts (fold acc_shot (drop m shots) st)"
  using assms
proof (induction "length shots - m" arbitrary: m st rule: less_induct)
  case less
  show ?case
  proof (cases "m < length shots")
    case False
    then show ?thesis
      using less.prems by (subst scan_records.simps) (auto simp: same_reports_def)
  next
    case True
    define n where "n = min (length shots) (m + 4096)"
    have n: "m < n" "n \<le> length shots" using True by (auto simp: n_def)
    have stop: "min (int (length shots)) (int m + 4096) = int n" by (simp add: n_def)
    let ?xs = "take (n - m) (drop m shots)"
    have parts: "drop m shots = ?xs @ drop n shots"
      using n by (metis append_take_drop_id drop_drop le_add_diff_inverse2 less_imp_le)
    obtain t where t: "decode_range files (int m) (int n) st = (Inr ?xs, t)" "cache_good shots t" "only_cache st t"
      using decode_range_ok[OF less.prems(1,2), of "int m" "int n"] less.prems(3) n
      by (auto simp: nat_diff_distrib)
    note same = only_cache_same[OF t(3)]
    have prev: "ri_previous_sample_end t = ri_previous_sample_end st" "ri_previous_shot_id t = ri_previous_shot_id st"
      using same by (simp_all add: counts_def)
    have chk: "check_shots bytes_held (ri_previous_sample_end t) (ri_previous_shot_id t) ?xs = Inr ()"
      "check_shots bytes_held (ri_previous_sample_end (fold acc_shot ?xs t)) (ri_previous_shot_id (fold acc_shot ?xs t))
        (drop n shots) = Inr ()"
      using check_shots_append[of bytes_held t ?xs "drop n shots"] less.prems(6) prev parts by simp_all
    define u where "u = (fold acc_shot ?xs t)\<lparr>ri_scanned_count := int n\<rparr>"
    have u: "cache_good shots u" "ri_record_count u = int (length shots)" "ri_scanned_count u = int n"
      "same_reports st u"
      using t(2) less.prems(3) same by (simp_all add: u_def cache_good_def cache_entries_def same_reports_def)
    have "check_shots bytes_held (ri_previous_sample_end u) (ri_previous_shot_id u) (drop n shots) = Inr ()"
      using chk(2) by (simp add: u_def)
    then obtain v where v: "scan_records files bytes_held (int (length shots)) u = (Inr (), v)" "cache_good shots v"
        "same_reports u v" "ri_scanned_count v = int (length shots)" "counts v = counts (fold acc_shot (drop n shots) u)"
      using less.hyps[of n u] less.prems(1) u n diff_less_mono2[of m n "length shots"] by auto
    have "counts u = counts (fold acc_shot ?xs st)"
      using counts_fold[of t st ?xs] same by (simp add: u_def)
    then have "counts v = counts (fold acc_shot (drop m shots) st)"
      using counts_fold[of u "fold acc_shot ?xs st" "drop n shots"] v(5) parts
      by (metis comp_apply fold_append)
    moreover have "scan_records files bytes_held (int (length shots)) st = (Inr (), v)"
      using True less.prems(4) t(1) accumulate_all_ok[OF chk(1)] v(1)
      by (subst scan_records.simps) (simp add: Let_def stop u_def[symmetric])
    moreover have "same_reports st v" using u(4) v(3) by (simp add: same_reports_def)
    ultimately show ?thesis using v by auto
  qed
qed

section \<open>What the whole-run reader establishes\<close>

lemma check_shots_increasing:
  "check_shots sb pe pid shots = Inr u \<Longrightarrow>
   sorted_wrt (<) (map sr_shot_id shots) \<and> (\<forall>p. pid = Some p \<longrightarrow> (\<forall>s \<in> set shots. p < sr_shot_id s))"
proof (induction shots arbitrary: pe pid)
  case (Cons x xs)
  from Cons.prems obtain pe' where "check_shots sb pe' (Some (sr_shot_id x)) xs = Inr u"
    by (auto simp: Let_def split: if_splits)
  from Cons.IH[OF this] show ?case
    using Cons.prems by (fastforce split: if_splits option.splits)
qed simp

lemma slices_hold:
  assumes "map_res shot_decode (record_slices (take (n * 128) (drop 32 (rf_index files)))) = Inr shots"
    and "32 + n * 128 \<le> length (rf_index files)"
  shows "length shots = n \<and> holds_shots files shots"
proof -
  let ?raw = "take (n * 128) (drop 32 (rf_index files))"
  have len: "length ?raw = n * 128" using assms(2) by simp
  have slice: "take 128 (drop (k * 128) ?raw) = record_slice files k" if "k < n" for k
  proof -
    have "128 \<le> n * 128 - k * 128" using that by simp
    then show ?thesis by (simp only: record_slice_def drop_take drop_drop take_take min_absorb1 add.commute)
  qed
  have "list_all2 (\<lambda>k s. shot_decode (take 128 (drop (k * 128) ?raw)) = Inr s) [0..<n] shots"
    using assms(1) unfolding record_slices_exact[OF len] map_res_Inr_iff by (simp add: list_all2_map1)
  then show ?thesis
    using assms(2) slice by (auto simp: list_all2_conv_all_nth holds_shots_def)
qed

lemma trim_records:
  "(if length r mod 128 \<noteq> 0 then take (length r - length r mod 128) r else r) = take (length r div 128 * 128) r"
  by (simp only: minus_mod_eq_div_mult[symmetric]) simp

definition samples_length :: "run_files \<Rightarrow> int" where
  "samples_length files = int (length (samples_of files))"

lemma bundle_open_facts:
  assumes "bundle_open files partial = Inr b" "32 \<le> length (rf_index files)"
  shows "header_identity (rf_index files) = Inr (rb_run_id b, rb_stream_id b)"
    and "length (rb_shots b) = (length (rf_index files) - 32) div 128"
    and "holds_shots files (rb_shots b)"
    and "check_shots (samples_length files) 0 None (rb_shots b) = Inr ()"
    and "load_json_report ''run.json'' (rf_run_json files) ''qcrate-run-v1'' (rb_run_id b) (rb_stream_id b) = Inr (rb_manifest b)"
    and "load_json_report ''sender.json'' (rf_sender_json files) ''qcrate-sender-report-v1''
      (rb_run_id b) (rb_stream_id b) = Inr (rb_sender_report b)"
    and "\<not> partial \<Longrightarrow> (length (rf_index files) - 32) mod 128 = 0"
    and "rf_samples files \<noteq> None"
proof -
  let ?n = "(length (rf_index files) - 32) div 128"
  let ?rest = "drop 32 (rf_index files)"
  have trim: "(if length ?rest mod 128 \<noteq> 0 then take (length ?rest - length ?rest mod 128) ?rest else ?rest)
      = take (?n * 128) ?rest"
    using trim_records[of ?rest] by (simp only: length_drop)
  from assms obtain ids where ids: "header_identity (rf_index files) = Inr ids"
    by (cases "header_identity (rf_index files)") (simp_all add: bundle_open_def QIDX_HEADER_BYTES_def)
  obtain r q where rq: "ids = (r, q)" by (cases ids)
  have long: "\<not> length (rf_index files) < QIDX_HEADER_BYTES" using assms(2) by (simp add: QIDX_HEADER_BYTES_def)
  from assms(1)[unfolded bundle_open_def Let_def ids bind_res_simps rq prod.case if_not_P[OF long]]
  obtain samples where s: "rf_samples files = Some samples"
      "length ?rest mod 128 = 0 \<or> partial" "rb_run_id b = r" "rb_stream_id b = q"
      "map_res shot_decode (record_slices (take (?n * 128) ?rest)) = Inr (rb_shots b)"
      "check_shots (int (length samples)) 0 None (rb_shots b) = Inr ()"
      "load_json_report ''run.json'' (rf_run_json files) ''qcrate-run-v1'' r q = Inr (rb_manifest b)"
      "load_json_report ''sender.json'' (rf_sender_json files) ''qcrate-sender-report-v1'' r q = Inr (rb_sender_report b)"
    unfolding QIDX_HEADER_BYTES_def QIDX_RECORD_BYTES_def trim bind_res_Inr_iff ensure_Inr_iff
    by (elim exE conjE) (auto split: option.splits)
  have "32 + ?n * 128 \<le> length (rf_index files)"
    using assms(2) div_times_less_eq_dividend[of "length (rf_index files) - 32" 128] by linarith
  note h = slices_hold[OF s(5) this]
  show "header_identity (rf_index files) = Inr (rb_run_id b, rb_stream_id b)" using ids rq s(3,4) by simp
  show "length (rb_shots b) = ?n" "holds_shots files (rb_shots b)" using h by simp_all
  show "check_shots (samples_length files) 0 None (rb_shots b) = Inr ()"
    using s(1,6) by (simp add: samples_length_def samples_of_def)
  show "load_json_report ''run.json'' (rf_run_json files) ''qcrate-run-v1'' (rb_run_id b) (rb_stream_id b) = Inr (rb_manifest b)"
    using s(3,4,7) by simp
  show "load_json_report ''sender.json'' (rf_sender_json files) ''qcrate-sender-report-v1''
      (rb_run_id b) (rb_stream_id b) = Inr (rb_sender_report b)" using s(3,4,8) by simp
  show "\<not> partial \<Longrightarrow> (length (rf_index files) - 32) mod 128 = 0" using s(2) by simp
  show "rf_samples files \<noteq> None" using s(1) by simp
qed

lemma bundle_open_short:
  "length (rf_index files) < 32 \<Longrightarrow> bundle_open files partial = Inr b \<Longrightarrow>
   b = \<lparr>rb_run_id = 0, rb_stream_id = 0, rb_shots = [], rb_manifest = None, rb_sender_report = None\<rparr>"
  by (auto simp: bundle_open_def Let_def QIDX_HEADER_BYTES_def split: if_splits)

lemma header_prefix:
  assumes "32 \<le> length raw"
  shows "header_identity (take 32 raw) = header_identity raw"
proof -
  have "struct_unpack_from be_int QIDX_HEADER (take 32 raw) 0 = struct_unpack_from be_int QIDX_HEADER raw 0"
    using assms by (simp add: struct_unpack_from_def QIDX_HEADER_def)
  moreover have "take 6 (drop 10 (take 32 raw)) = take 6 (drop 10 raw)"
    "take 4 (drop 28 (take 32 raw)) = take 4 (drop 28 raw)"
    by (simp_all add: drop_take min_def)
  ultimately show ?thesis by (simp only: header_identity_def)
qed

end
