(* ===== verification/RunFollow.thy ===== *)
theory RunFollow
  imports RunRefresh
begin

text \<open>
  The simulation between \<open>RunIndex.refresh\<close> and \<open>RunBundle.open\<close>: a catalog follows a snapshot
  of the files when it serves the shots the whole-run reader returns, with its reports and
  counts; one refresh carries it from an accepted snapshot to any later accepted one.
\<close>

section \<open>Following a snapshot\<close>

definition noted :: "run_index \<Rightarrow> string \<Rightarrow> (int \<times> int \<times> int) option" where
  "noted st name = (case ri_report_signatures st name of Some s \<Rightarrow> s | None \<Rightarrow> None)"

abbreviation signature_of :: "report_file option \<Rightarrow> (int \<times> int \<times> int) option" where
  "signature_of file \<equiv> map_option rp_signature file"

definition blank :: run_index where
  "blank =
     \<lparr>ri_cache_limit = 1, ri_cache = [], ri_run_id = 0, ri_stream_id = 0,
      ri_record_count = 0, ri_scanned_count = 0, ri_complete_count = 0, ri_incomplete_count = 0,
      ri_manifest = None, ri_sender_report = None, ri_report_signatures = Map.empty,
      ri_previous_shot_id = None, ri_previous_sample_end = 0, ri_first_receive_ns = 0,
      ri_last_receive_ns = 0, ri_skipped_shot_ids = 0, ri_sample_bytes = 0, ri_datagrams = 0,
      ri_duplicate_packets = 0, ri_reordered_packets = 0, ri_missing_packets = 0\<rparr>"

definition follows :: "run_files \<Rightarrow> run_bundle \<Rightarrow> run_index \<Rightarrow> bool" where
  "follows files b st \<longleftrightarrow>
     serving files (rb_shots b) st \<and> ri_scanned_count st = int (length (rb_shots b)) \<and>
     ri_run_id st = rb_run_id b \<and> ri_stream_id st = rb_stream_id b \<and>
     ri_manifest st = rb_manifest b \<and> ri_sender_report st = rb_sender_report b \<and>
     noted st ''run.json'' = (if rb_run_id b = 0 then None else signature_of (rf_run_json files)) \<and>
     noted st ''sender.json'' = (if rb_run_id b = 0 then None else signature_of (rf_sender_json files)) \<and>
     counts st = counts (fold acc_shot (rb_shots b) blank)"

text \<open>
  A snapshot the in-progress reader accepts: the run has an identity once its header is written,
  and a run declared complete has no partial record.
\<close>

definition accepted :: "run_files \<Rightarrow> run_bundle \<Rightarrow> bool" where
  "accepted files b \<longleftrightarrow>
     bundle_open files True = Inr b \<and> (32 \<le> length (rf_index files) \<longrightarrow> rb_run_id b \<noteq> 0) \<and>
     (run_complete (rb_manifest b) = Some True \<longrightarrow> (length (rf_index files) - 32) mod 128 = 0)"

text \<open>The index only grows, and a report file with an unchanged signature is unchanged.\<close>

definition grows :: "run_files \<Rightarrow> run_files \<Rightarrow> bool" where
  "grows f g \<longleftrightarrow> prefix (rf_index f) (rf_index g) \<and>
     (signature_of (rf_run_json f) = signature_of (rf_run_json g) \<longrightarrow> rf_run_json f = rf_run_json g) \<and>
     (signature_of (rf_sender_json f) = signature_of (rf_sender_json g) \<longrightarrow> rf_sender_json f = rf_sender_json g)"

section \<open>Parts of a refresh\<close>

lemma refresh_run_json:
  assumes "load_json_report ''run.json'' file format (ri_run_id st) (ri_stream_id st) = Inr r"
    and "noted st ''run.json'' = signature_of file \<Longrightarrow> ri_manifest st = r"
  shows "\<exists>c t. refresh_report ''run.json'' file format st = (Inr c, t) \<and> ri_manifest t = r \<and>
    noted t ''run.json'' = signature_of file \<and> noted t ''sender.json'' = noted st ''sender.json'' \<and>
    (\<exists>sigs. t = st\<lparr>ri_manifest := r, ri_report_signatures := sigs\<rparr>)"
proof (cases "noted st ''run.json'' = signature_of file")
  case True
  then have "refresh_report ''run.json'' file format st = (Inr False, st)"
    by (simp add: refresh_report_def noted_def)
  moreover have "st = st\<lparr>ri_manifest := r, ri_report_signatures := ri_report_signatures st\<rparr>"
    using assms(2)[OF True] by (cases st) simp
  ultimately show ?thesis using assms(2)[OF True] True by blast
next
  case False
  then show ?thesis
    using assms(1) by (fastforce simp: refresh_report_def noted_def)
qed

lemma refresh_sender_json:
  assumes "load_json_report ''sender.json'' file format (ri_run_id st) (ri_stream_id st) = Inr r"
    and "noted st ''sender.json'' = signature_of file \<Longrightarrow> ri_sender_report st = r"
  shows "\<exists>c t. refresh_report ''sender.json'' file format st = (Inr c, t) \<and> ri_sender_report t = r \<and>
    noted t ''sender.json'' = signature_of file \<and> noted t ''run.json'' = noted st ''run.json'' \<and>
    (\<exists>sigs. t = st\<lparr>ri_sender_report := r, ri_report_signatures := sigs\<rparr>)"
proof (cases "noted st ''sender.json'' = signature_of file")
  case True
  then have "refresh_report ''sender.json'' file format st = (Inr False, st)"
    by (simp add: refresh_report_def noted_def)
  moreover have "st = st\<lparr>ri_sender_report := r, ri_report_signatures := ri_report_signatures st\<rparr>"
    using assms(2)[OF True] by (cases st) simp
  ultimately show ?thesis using assms(2)[OF True] True by blast
next
  case False
  then show ?thesis
    using assms(1) by (fastforce simp: refresh_report_def noted_def)
qed

lemma holds_extends:
  assumes "holds_shots f xs" "holds_shots g ys" "prefix (rf_index f) (rf_index g)" "length xs \<le> length ys"
  shows "xs = take (length xs) ys"
proof (rule nth_equalityI)
  fix k assume k: "k < length xs"
  have "32 + length xs * 128 \<le> length (rf_index f)" using assms(1) k by (auto simp: holds_shots_def)
  moreover have "k * 128 + 128 \<le> length xs * 128" using mult_le_mono1[of "Suc k" "length xs" 128] k by simp
  moreover obtain r where "rf_index g = rf_index f @ r" using assms(3) by (auto simp: prefix_def)
  ultimately have "record_slice g k = record_slice f k" by (simp add: record_slice_def)
  then have "Inr (xs ! k) = (Inr (ys ! k) :: run_error + shot_record)"
    using assms(1,2,4) k unfolding holds_shots_def by (metis order_less_le_trans)
  then show "xs ! k = take (length xs) ys ! k" using k by simp
qed (use assms(4) in simp)

lemma cache_good_extends:
  assumes "cache_good xs st" "xs = take (length xs) ys" "length xs \<le> length ys"
    and "ri_cache t = ri_cache st" "ri_cache_limit t = ri_cache_limit st"
  shows "cache_good ys t"
proof -
  have "shot_at ys j = Some v" if "shot_at xs j = Some v" for j v
  proof -
    have "0 \<le> j" "j < int (length xs)" "xs ! nat j = v" using that by (auto simp: shot_at_def split: if_splits)
    moreover have "xs ! nat j = ys ! nat j"
      using assms(2) calculation(1,2) by (metis nat_less_iff nth_take)
    ultimately show ?thesis using assms(3) by (simp add: shot_at_def)
  qed
  then show ?thesis using assms(1,4,5) by (simp add: cache_good_def cache_entries_def)
qed

section \<open>One refresh\<close>

lemma accepted_short:
  "accepted f b \<Longrightarrow> rb_run_id b = 0 \<Longrightarrow>
   length (rf_index f) < 32 \<and> rb_shots b = [] \<and> rb_manifest b = None \<and> rb_sender_report b = None"
  using bundle_open_short[of f True b] by (auto simp: accepted_def not_le[symmetric])

lemma accepted_report:
  assumes "accepted f b" "accepted g c" "grows f g" "32 \<le> length (rf_index g)"
    and "rb_run_id b \<noteq> 0 \<Longrightarrow> rb_run_id b = rb_run_id c \<and> rb_stream_id b = rb_stream_id c"
  shows "(if rb_run_id b = 0 then None else signature_of (rf_run_json f)) = signature_of (rf_run_json g) \<Longrightarrow>
      rb_manifest b = rb_manifest c"
    and "(if rb_run_id b = 0 then None else signature_of (rf_sender_json f)) = signature_of (rf_sender_json g) \<Longrightarrow>
      rb_sender_report b = rb_sender_report c"
proof -
  have gl: "bundle_open g True = Inr c" and fl: "bundle_open f True = Inr b"
    using assms(1,2) by (simp_all add: accepted_def)
  note lg = bundle_open_facts(5,6)[OF gl assms(4)]
  {
    assume z: "rb_run_id b = 0"
    then have n: "rb_manifest b = None" "rb_sender_report b = None" using accepted_short[OF assms(1)] by auto
    have "rf_run_json g = None \<Longrightarrow> rb_manifest c = None" using lg(1) by (simp add: load_json_report_def)
    moreover have "rf_sender_json g = None \<Longrightarrow> rb_sender_report c = None" using lg(2) by (simp add: load_json_report_def)
    ultimately have "None = signature_of (rf_run_json g) \<longrightarrow> rb_manifest b = rb_manifest c"
      "None = signature_of (rf_sender_json g) \<longrightarrow> rb_sender_report b = rb_sender_report c"
      using n by auto
  } note zero = this
  {
    assume z: "rb_run_id b \<noteq> 0"
    then have "32 \<le> length (rf_index f)" using bundle_open_short[OF _ fl] by force
    note lf = bundle_open_facts(5,6)[OF fl this]
    have "signature_of (rf_run_json f) = signature_of (rf_run_json g) \<longrightarrow> rb_manifest b = rb_manifest c"
      "signature_of (rf_sender_json f) = signature_of (rf_sender_json g) \<longrightarrow> rb_sender_report b = rb_sender_report c"
      using lf lg assms(3) assms(5)[OF z] by (auto simp: grows_def)
  } note id = this
  show "(if rb_run_id b = 0 then None else signature_of (rf_run_json f)) = signature_of (rf_run_json g) \<Longrightarrow>
      rb_manifest b = rb_manifest c"
    using zero(1) id(1) by (cases "rb_run_id b = 0") simp_all
  show "(if rb_run_id b = 0 then None else signature_of (rf_sender_json f)) = signature_of (rf_sender_json g) \<Longrightarrow>
      rb_sender_report b = rb_sender_report c"
    using zero(2) id(2) by (cases "rb_run_id b = 0") simp_all
qed

text \<open>The header and the scan of a refresh at a later snapshot.\<close>

lemma refresh_scan:
  assumes "follows f b st" "accepted f b" "accepted g c" "grows f g" "32 \<le> length (rf_index g)"
  defines "st1 \<equiv> st\<lparr>ri_run_id := rb_run_id c, ri_stream_id := rb_stream_id c\<rparr>"
  shows "validate_header (pread (rf_index g) (int QIDX_HEADER_BYTES) 0) st = (Inr (), st1)"
    and "rb_run_id b \<noteq> 0 \<Longrightarrow> rb_run_id b = rb_run_id c \<and> rb_stream_id b = rb_stream_id c"
    and "ri_record_count st \<le> int (length (rb_shots c))"
    and "\<exists>t. scan_records g (samples_length g) (int (length (rb_shots c)))
          (st1\<lparr>ri_record_count := int (length (rb_shots c))\<rparr>) = (Inr (), t) \<and>
        serving g (rb_shots c) t \<and> same_reports (st1\<lparr>ri_record_count := int (length (rb_shots c))\<rparr>) t \<and>
        ri_scanned_count t = int (length (rb_shots c)) \<and> counts t = counts (fold acc_shot (rb_shots c) blank)"
proof -
  have gl: "bundle_open g True = Inr c" and fl: "bundle_open f True = Inr b"
    using assms(2,3) by (simp_all add: accepted_def)
  note fg = bundle_open_facts[OF gl assms(5)]
  have pre: "prefix (rf_index f) (rf_index g)" using assms(4) by (simp add: grows_def)
  have srv: "serving f (rb_shots b) st" and ids: "ri_run_id st = rb_run_id b" "ri_stream_id st = rb_stream_id b"
    and cnt: "counts st = counts (fold acc_shot (rb_shots b) blank)"
    and scn: "ri_scanned_count st = int (length (rb_shots b))"
    using assms(1) by (simp_all add: follows_def)
  have le: "length (rb_shots b) \<le> length (rb_shots c)"
  proof (cases "32 \<le> length (rf_index f)")
    case True
    show ?thesis using bundle_open_facts(2)[OF fl True] fg(2) prefix_length_le[OF pre] by (simp add: div_le_mono)
  qed (use bundle_open_short[OF _ fl] in simp)
  show same: "rb_run_id b = rb_run_id c \<and> rb_stream_id b = rb_stream_id c" if "rb_run_id b \<noteq> 0"
  proof -
    have l: "32 \<le> length (rf_index f)" using that bundle_open_short[OF _ fl] by force
    have "take 32 (rf_index g) = take 32 (rf_index f)" using pre l by (auto simp: prefix_def)
    then have "header_identity (rf_index f) = header_identity (rf_index g)"
      using header_prefix[OF l] header_prefix[OF assms(5)] by simp
    then show ?thesis using bundle_open_facts(1)[OF fl l] fg(1) by simp
  qed
  have head: "pread (rf_index g) (int QIDX_HEADER_BYTES) 0 = take 32 (rf_index g)"
    by (simp add: pread_def QIDX_HEADER_BYTES_def)
  show "validate_header (pread (rf_index g) (int QIDX_HEADER_BYTES) 0) st = (Inr (), st1)"
    using fg(1) same ids header_prefix[OF assms(5)] unfolding head st1_def by (auto simp: validate_header_def)
  show "ri_record_count st \<le> int (length (rb_shots c))" using srv le by (simp add: serving_def)
  let ?st2 = "st1\<lparr>ri_record_count := int (length (rb_shots c))\<rparr>"
  let ?m = "length (rb_shots b)"
  have tk: "rb_shots b = take ?m (rb_shots c)"
    using holds_extends[OF _ fg(3) pre le] srv by (simp add: serving_def)
  have good: "cache_good (rb_shots c) ?st2"
    using srv by (intro cache_good_extends[OF _ tk le]) (simp_all add: serving_def st1_def)
  have c2: "counts ?st2 = counts (fold acc_shot (take ?m (rb_shots c)) blank)"
    using cnt tk by (simp add: st1_def counts_def)
  have "check_shots (samples_length g) (ri_previous_sample_end blank) (ri_previous_shot_id blank)
      (take ?m (rb_shots c) @ drop ?m (rb_shots c)) = Inr ()"
    using fg(4) by (simp add: blank_def)
  from check_shots_append[OF this]
  have chk: "check_shots (samples_length g) (ri_previous_sample_end ?st2) (ri_previous_shot_id ?st2)
      (drop ?m (rb_shots c)) = Inr ()"
    using c2 by (simp add: counts_def)
  obtain t where t: "scan_records g (samples_length g) (int (length (rb_shots c))) ?st2 = (Inr (), t)"
      "cache_good (rb_shots c) t" "same_reports ?st2 t" "ri_scanned_count t = int (length (rb_shots c))"
      "counts t = counts (fold acc_shot (drop ?m (rb_shots c)) ?st2)"
    using scan_records_ok[OF fg(3) good _ _ le chk] scn by (auto simp: st1_def)
  have "counts t = counts (fold acc_shot (take ?m (rb_shots c) @ drop ?m (rb_shots c)) blank)"
    using t(5) counts_fold[OF c2] by (simp only: fold_append comp_apply)
  then have "counts t = counts (fold acc_shot (rb_shots c) blank)" by (simp only: append_take_drop_id)
  moreover have "serving g (rb_shots c) t"
    using t(2,3) fg(3) check_shots_increasing[OF fg(4)] by (simp add: serving_def same_reports_def)
  ultimately show "\<exists>t. scan_records g (samples_length g) (int (length (rb_shots c))) ?st2 = (Inr (), t) \<and>
      serving g (rb_shots c) t \<and> same_reports ?st2 t \<and>
      ri_scanned_count t = int (length (rb_shots c)) \<and> counts t = counts (fold acc_shot (rb_shots c) blank)"
    using t by blast
qed

lemma serving_reports:
  "serving g xs t \<Longrightarrow> serving g xs (t\<lparr>ri_manifest := r, ri_report_signatures := s\<rparr>)"
  "serving g xs t \<Longrightarrow> serving g xs (t\<lparr>ri_sender_report := r, ri_report_signatures := s\<rparr>)"
  by (simp_all add: serving_def cache_good_def cache_entries_def)

lemma refresh_step:
  assumes "follows f b st" "accepted f b" "accepted g c" "grows f g"
  shows "\<exists>changed t. refresh g st = (Inr changed, t) \<and> follows g c t \<and> ri_cache_limit t = ri_cache_limit st"
proof (cases "32 \<le> length (rf_index g)")
  case False
  then have "length (rf_index f) < 32" using assms(4) prefix_length_le by (fastforce simp: grows_def)
  then have "b = c" using False bundle_open_short assms(2,3) unfolding accepted_def by (metis not_le)
  moreover have z: "rb_run_id c = 0" "rb_shots c = []"
    using False bundle_open_short[of g True c] assms(3) by (simp_all add: accepted_def)
  ultimately have "follows g c st" using assms(1) by (simp add: follows_def serving_def holds_shots_def)
  moreover have "refresh g st = (Inr False, st)"
    using False assms(1) z \<open>b = c\<close> by (simp add: refresh_def follows_def QIDX_HEADER_BYTES_def)
  ultimately show ?thesis by blast
next
  case True
  note scan = refresh_scan[OF assms True]
  have gl: "bundle_open g True = Inr c" using assms(3) by (simp add: accepted_def)
  note fg = bundle_open_facts[OF gl True]
  have rid: "rb_run_id c \<noteq> 0" using assms(3) True by (simp add: accepted_def)
  let ?st2 = "st\<lparr>ri_run_id := rb_run_id c, ri_stream_id := rb_stream_id c, ri_record_count := int (length (rb_shots c))\<rparr>"
  obtain t where t: "scan_records g (samples_length g) (int (length (rb_shots c))) ?st2 = (Inr (), t)"
      "serving g (rb_shots c) t" "same_reports ?st2 t" "ri_scanned_count t = int (length (rb_shots c))"
      "counts t = counts (fold acc_shot (rb_shots c) blank)"
    using scan(4) by auto
  have tf: "ri_run_id t = rb_run_id c" "ri_stream_id t = rb_stream_id c" "ri_manifest t = rb_manifest b"
    "ri_sender_report t = rb_sender_report b" "ri_cache_limit t = ri_cache_limit st"
    "ri_report_signatures t = ri_report_signatures st"
    using t(3) assms(1) by (simp_all add: same_reports_def follows_def)
  have noted: "noted t ''run.json'' = (if rb_run_id b = 0 then None else signature_of (rf_run_json f))"
    "noted t ''sender.json'' = (if rb_run_id b = 0 then None else signature_of (rf_sender_json f))"
    using assms(1) tf(6) by (simp_all add: follows_def noted_def)
  note same = accepted_report[OF assms(2,3,4) True scan(2)]
  obtain a u where u: "refresh_report ''run.json'' (rf_run_json g) ''qcrate-run-v1'' t = (Inr a, u)"
      "ri_manifest u = rb_manifest c" "noted u ''run.json'' = signature_of (rf_run_json g)"
      "noted u ''sender.json'' = noted t ''sender.json''"
      "\<exists>sigs. u = t\<lparr>ri_manifest := rb_manifest c, ri_report_signatures := sigs\<rparr>"
    using refresh_run_json[of "rf_run_json g" "''qcrate-run-v1''" t "rb_manifest c"] fg(5) tf noted same(1) by auto
  have uf: "ri_run_id u = rb_run_id c" "ri_stream_id u = rb_stream_id c" "ri_sender_report u = rb_sender_report b"
    "serving g (rb_shots c) u" "ri_scanned_count u = ri_scanned_count t" "counts u = counts t"
    "ri_cache_limit u = ri_cache_limit t"
    using u(5) tf t(2) serving_reports(1) by (auto simp: counts_def)
  obtain e v where v: "refresh_report ''sender.json'' (rf_sender_json g) ''qcrate-sender-report-v1'' u = (Inr e, v)"
      "ri_sender_report v = rb_sender_report c" "noted v ''sender.json'' = signature_of (rf_sender_json g)"
      "noted v ''run.json'' = noted u ''run.json''"
      "\<exists>sigs. v = u\<lparr>ri_sender_report := rb_sender_report c, ri_report_signatures := sigs\<rparr>"
    using refresh_sender_json[of "rf_sender_json g" "''qcrate-sender-report-v1''" u "rb_sender_report c"]
      fg(6) uf u(4) noted(2) same(2) by auto
  have vf: "ri_run_id v = rb_run_id c" "ri_stream_id v = rb_stream_id c" "ri_manifest v = rb_manifest c"
    "serving g (rb_shots c) v" "ri_scanned_count v = ri_scanned_count t" "counts v = counts t"
    "ri_cache_limit v = ri_cache_limit t"
    using v(5) uf u(2) serving_reports(2) by (auto simp: counts_def)
  have fol: "follows g c v"
    unfolding follows_def using vf v u t(4,5) rid by simp
  have long: "\<not> length (rf_index g) < QIDX_HEADER_BYTES" using True by (simp add: QIDX_HEADER_BYTES_def)
  have trailing: "\<not> (run_complete (rb_manifest c) = Some True \<and> (length (rf_index g) - 32) mod 128 \<noteq> 0)"
    using assms(3) by (auto simp: accepted_def)
  then have trail: "\<not> (run_complete (rb_manifest c) = Some True \<and>
      (length (rf_index g) - QIDX_HEADER_BYTES) mod QIDX_RECORD_BYTES \<noteq> 0)"
    by (simp add: QIDX_HEADER_BYTES_def QIDX_RECORD_BYTES_def)
  have head: "length (pread (rf_index g) (int QIDX_HEADER_BYTES) 0) = QIDX_HEADER_BYTES"
    using True by (simp add: pread_def QIDX_HEADER_BYTES_def)
  let ?ch = "int (length (rb_shots c)) \<noteq> ri_record_count st"
  have reps: "refresh_reports g ?ch t = (Inr (?ch \<or> a \<or> e), v)"
    using rid tf(1) u(1) v(1) by (simp add: refresh_reports_def)
  have avail: "int ((length (rf_index g) - QIDX_HEADER_BYTES) div QIDX_RECORD_BYTES) = int (length (rb_shots c))"
    using fg(2) by (simp add: QIDX_HEADER_BYTES_def QIDX_RECORD_BYTES_def)
  have "refresh g st = (Inr (?ch \<or> a \<or> e), v)"
    using scan(3) trail long vf(3) t(1) reps
    unfolding refresh_def Let_def avail
    by (simp add: head scan(1) samples_length_def)
  then show ?thesis using fol vf(7) tf(5) by auto
qed

end
