(* ===== verification/RunCatalog.thy ===== *)
theory RunCatalog
  imports RunFollow
begin

text \<open>
  The run readers as a whole: the totals of an accumulated catalog, the trace of refreshes over a
  growing run, lookups in any number, the sample extents of an accepted run and the health verdict.
\<close>

section \<open>Totals\<close>

lemma skipped_ids_Cons2:
  "skipped_ids (x # y # zs) = max 0 (sr_shot_id y - sr_shot_id x - 1) + skipped_ids (y # zs)"
  by (simp add: skipped_ids_def)

lemma skipped_ids_snoc:
  "skipped_ids (xs @ [x, y]) = skipped_ids (xs @ [x]) + max 0 (sr_shot_id y - sr_shot_id x - 1)"
proof (induction xs)
  case (Cons a xs)
  then show ?case by (cases xs) (simp_all add: skipped_ids_Cons2)
qed (simp add: skipped_ids_def)

lemma fold_acc_counts:
  "ri_complete_count (fold acc_shot xs blank) = int (length (filter shot_complete xs))"
  "ri_incomplete_count (fold acc_shot xs blank) = int (length (filter (\<lambda>s. \<not> shot_complete s) xs))"
  "ri_sample_bytes (fold acc_shot xs blank) = total_of sr_sample_bytes (filter shot_complete xs)"
  "ri_datagrams (fold acc_shot xs blank) = total_of sr_datagrams xs"
  "ri_duplicate_packets (fold acc_shot xs blank) = total_of sr_duplicate_packets xs"
  "ri_reordered_packets (fold acc_shot xs blank) = total_of sr_reordered_packets xs"
  "ri_missing_packets (fold acc_shot xs blank) = total_of sr_missing_packets xs"
  by (induction xs rule: rev_induct; simp add: blank_def acc_shot_def note_shot_def Let_def total_of_def)+

lemma fold_acc_previous:
  "ri_previous_shot_id (fold acc_shot xs blank) = (if xs = [] then None else Some (sr_shot_id (last xs)))"
  by (induction xs rule: rev_induct) (simp_all add: blank_def)

lemma fold_acc_skipped: "ri_skipped_shot_ids (fold acc_shot xs blank) = skipped_ids xs"
proof (induction xs rule: rev_induct)
  case (snoc y xs)
  have step: "ri_skipped_shot_ids (acc_shot y st) = (case ri_previous_shot_id st of
      Some p \<Rightarrow> ri_skipped_shot_ids st + max 0 (sr_shot_id y - p - 1) | None \<Rightarrow> ri_skipped_shot_ids st)" for st
    by (simp add: acc_shot_def note_shot_def Let_def)
  show ?case
  proof (cases xs rule: rev_cases)
    case (snoc ys x)
    have f: "fold acc_shot (xs @ [y]) blank = acc_shot y (fold acc_shot xs blank)" by simp
    have p: "ri_previous_shot_id (fold acc_shot xs blank) = Some (sr_shot_id x)"
      using snoc by (simp only: fold_acc_previous) simp
    have "ri_skipped_shot_ids (fold acc_shot (xs @ [y]) blank) = skipped_ids xs + max 0 (sr_shot_id y - sr_shot_id x - 1)"
      by (simp only: f step p snoc.IH option.case)
    also have "\<dots> = skipped_ids (xs @ [y])" using skipped_ids_snoc[of ys x y] snoc by simp
    finally show ?thesis .
  qed (use snoc.IH in \<open>simp add: step blank_def skipped_ids_def\<close>)
qed (simp add: blank_def skipped_ids_def)

text \<open>Shots in order of their first datagram, with a running monotonic clock.\<close>

definition receive_ordered :: "shot_record list \<Rightarrow> bool" where
  "receive_ordered shots \<longleftrightarrow>
     sorted (map sr_first_receive_ns shots) \<and> (\<forall>s \<in> set shots. 0 < sr_first_receive_ns s)"

lemma fold_acc_first:
  "(\<forall>s \<in> set xs. 0 < sr_first_receive_ns s) \<Longrightarrow>
   ri_first_receive_ns (fold acc_shot xs blank) = (if xs = [] then 0 else sr_first_receive_ns (hd xs))"
proof (induction xs rule: rev_induct)
  case (snoc y xs)
  have step: "ri_first_receive_ns (acc_shot y st) =
      (if ri_first_receive_ns st = 0 then sr_first_receive_ns y else ri_first_receive_ns st)" for st
    by (simp add: acc_shot_def note_shot_def Let_def)
  have "0 \<noteq> sr_first_receive_ns (hd xs)" if "xs \<noteq> []" using snoc.prems hd_in_set[OF that] by force
  then show ?case using snoc by (auto simp: step)
qed (simp add: blank_def)

lemma fold_acc_last:
  "(\<forall>s \<in> set xs. 0 \<le> sr_last_receive_ns s) \<Longrightarrow>
   ri_last_receive_ns (fold acc_shot xs blank) = max_default (map sr_last_receive_ns xs)"
proof (induction xs rule: rev_induct)
  case (snoc y xs)
  have step: "ri_last_receive_ns (acc_shot y st) = max (ri_last_receive_ns st) (sr_last_receive_ns y)" for st
    by (simp add: acc_shot_def note_shot_def Let_def)
  show ?case
  proof (cases "xs = []")
    case False
    then have "Max (insert (sr_last_receive_ns y) (sr_last_receive_ns ` set xs)) =
        max (sr_last_receive_ns y) (Max (sr_last_receive_ns ` set xs))"
      by (intro Max_insert) simp_all
    then show ?thesis using snoc False by (simp add: step max_default_def max.commute)
  qed (use snoc.prems in \<open>simp add: step max_default_def blank_def\<close>)
qed (simp add: blank_def max_default_def)

lemma sorted_min_default: "sorted xs \<Longrightarrow> min_default xs = (if xs = [] then 0 else hd xs)"
proof (cases xs)
  case (Cons a r)
  assume "sorted xs"
  then have "Min (insert a (set r)) = a" using Cons by (intro Min_eqI) auto
  then show ?thesis using Cons by (simp add: min_default_def)
qed (simp add: min_default_def)

lemma index_totals_eq:
  assumes "counts st = counts (fold acc_shot (rb_shots b) blank)" "holds_shots f (rb_shots b)"
    and "receive_ordered (rb_shots b)"
  shows "index_totals st = bundle_totals b"
proof -
  have pos: "\<forall>s \<in> set (rb_shots b). 0 < sr_first_receive_ns s" using assms(3) by (simp add: receive_ordered_def)
  moreover have "sr_first_receive_ns s \<le> sr_last_receive_ns s" if "s \<in> set (rb_shots b)" for s
  proof -
    obtain k where "k < length (rb_shots b)" "rb_shots b ! k = s" using \<open>s \<in> _\<close> by (auto simp: in_set_conv_nth)
    then have "shot_decode (record_slice f k) = Inr s" using assms(2) by (auto simp: holds_shots_def)
    then show ?thesis by (simp add: shot_decode_exact record_valid_def)
  qed
  ultimately have last_nn: "\<forall>s \<in> set (rb_shots b). 0 \<le> sr_last_receive_ns s" by fastforce
  have "hd (map sr_first_receive_ns (rb_shots b)) = sr_first_receive_ns (hd (rb_shots b))" if "rb_shots b \<noteq> []"
    using that by (simp add: hd_map)
  then have first: "ri_first_receive_ns (fold acc_shot (rb_shots b) blank) = min_default (map sr_first_receive_ns (rb_shots b))"
    using fold_acc_first[OF pos] sorted_min_default[of "map sr_first_receive_ns (rb_shots b)"] assms(3)
    by (simp add: receive_ordered_def)
  show ?thesis
    using assms(1) first fold_acc_last[OF last_nn] fold_acc_counts[of "rb_shots b"] fold_acc_skipped[of "rb_shots b"]
    by (simp add: index_totals_def bundle_totals_def counts_def complete_shots_def incomplete_shots_def Let_def)
qed

lemma follows_health:
  assumes "follows f b st" "receive_ordered (rb_shots b)"
  shows "index_health st = bundle_health b"
proof -
  have "holds_shots f (rb_shots b)" "counts st = counts (fold acc_shot (rb_shots b) blank)"
    using assms(1) by (simp_all add: follows_def serving_def)
  from index_totals_eq[OF this(2,1) assms(2)] show ?thesis
    using assms(1) by (simp add: index_health_def bundle_health_def follows_def)
qed

section \<open>Refreshing through a run\<close>

fun refresh_all :: "run_files list \<Rightarrow> unit index_step" where
  "refresh_all [] st = (Inr (), st)"
| "refresh_all (f # fs) st = bind_step (refresh f) (\<lambda>_. refresh_all fs) st"

text \<open>A blank catalog follows the empty run.\<close>

definition no_files :: run_files where
  "no_files = \<lparr>rf_index = [], rf_samples = Some [], rf_run_json = None, rf_sender_json = None\<rparr>"

definition no_bundle :: run_bundle where
  "no_bundle = \<lparr>rb_run_id = 0, rb_stream_id = 0, rb_shots = [], rb_manifest = None, rb_sender_report = None\<rparr>"

lemma index_init_follows:
  assumes "1 \<le> limit" "rf_samples f \<noteq> None"
  shows "\<exists>st. index_init f limit = Inr st \<and> follows no_files no_bundle st \<and> ri_cache_limit st = nat limit"
  using assms
  by (simp add: index_init_def follows_def serving_def holds_shots_def cache_good_def cache_wf_def
      cache_entries_def noted_def counts_def blank_def no_bundle_def)

lemma grows_from_nothing: "grows no_files g"
  by (cases "rf_run_json g"; cases "rf_sender_json g") (simp_all add: grows_def no_files_def)

lemma accepted_nothing: "accepted no_files no_bundle"
  by (simp add: accepted_def bundle_open_def no_files_def no_bundle_def QIDX_HEADER_BYTES_def run_complete_def)

lemma refresh_all_follows:
  "list_all2 accepted fs bs \<Longrightarrow> follows f b st \<Longrightarrow> accepted f b \<Longrightarrow> successively grows (f # fs) \<Longrightarrow>
   \<exists>t. refresh_all fs st = (Inr (), t) \<and> follows (last (f # fs)) (last (b # bs)) t \<and> ri_cache_limit t = ri_cache_limit st"
proof (induction fs bs arbitrary: f b st rule: list_all2_induct)
  case (Cons g gs c cs)
  obtain ch t where t: "refresh g st = (Inr ch, t)" "follows g c t" "ri_cache_limit t = ri_cache_limit st"
    using refresh_step[OF Cons.prems(1,2) Cons(1)] Cons.prems(3) by auto
  obtain u where u: "refresh_all gs t = (Inr (), u)" "follows (last (g # gs)) (last (c # cs)) u"
      "ri_cache_limit u = ri_cache_limit t"
    using Cons(3)[OF t(2) Cons(1)] Cons.prems(3) by auto
  show ?case using t u by simp
qed simp

lemma opened_follows:
  assumes "list_all2 accepted fs bs" "fs \<noteq> []" "successively grows fs" "1 \<le> limit" "rf_samples (hd fs) \<noteq> None"
  shows "\<exists>st t. index_init (hd fs) limit = Inr st \<and> refresh_all fs st = (Inr (), t) \<and>
    follows (last fs) (last bs) t \<and> ri_cache_limit t = nat limit"
proof -
  obtain st where st: "index_init (hd fs) limit = Inr st" "follows no_files no_bundle st" "ri_cache_limit st = nat limit"
    using index_init_follows[OF assms(4,5)] by blast
  have "successively grows (no_files # fs)" using assms(2,3) grows_from_nothing by (cases fs) simp_all
  from refresh_all_follows[OF assms(1) st(2) accepted_nothing this] st
  show ?thesis using assms(1,2) by (cases bs) auto
qed

section \<open>Any number of lookups\<close>

fun find_all :: "run_files \<Rightarrow> int list \<Rightarrow> int option list index_step" where
  "find_all files [] st = (Inr [], st)"
| "find_all files (key # keys) st =
     bind_step (find_shot_id files key) (\<lambda>r. bind_step (find_all files keys) (\<lambda>rs t. (Inr (r # rs), t))) st"

text \<open>The ordinal of the shot with an identifier, by scanning the list.\<close>

definition ordinal_of :: "shot_record list \<Rightarrow> int \<Rightarrow> int option" where
  "ordinal_of shots key =
     (case filter (\<lambda>k. sr_shot_id (shots ! k) = key) [0..<length shots] of k # _ \<Rightarrow> Some (int k) | [] \<Rightarrow> None)"

lemma ordinal_of_absent: "key \<notin> set (map sr_shot_id shots) \<Longrightarrow> ordinal_of shots key = None"
proof -
  assume "key \<notin> set (map sr_shot_id shots)"
  then have "filter (\<lambda>k. sr_shot_id (shots ! k) = key) [0..<length shots] = []"
    by (auto simp: filter_empty_conv)
  then show ?thesis by (simp add: ordinal_of_def)
qed

lemma ordinal_of_present:
  assumes "sorted_wrt (<) (map sr_shot_id shots)" "k < length shots" "sr_shot_id (shots ! k) = key"
  shows "ordinal_of shots key = Some (int k)"
proof -
  let ?xs = "filter (\<lambda>k. sr_shot_id (shots ! k) = key) [0..<length shots]"
  have "distinct (map sr_shot_id shots)" using assms(1) strict_sorted_iff by blast
  then have inj: "j = k" if "j < length shots" "sr_shot_id (shots ! j) = key" for j
    using that assms(2,3) by (metis length_map nth_eq_iff_index_eq nth_map)
  have k: "k \<in> set ?xs" using assms(2,3) by simp
  then obtain j r where j: "?xs = j # r" by (cases ?xs) auto
  then have "j \<in> set ?xs" by (metis list.set_intros(1))
  then have "j = k" using inj by simp
  then show ?thesis using j by (simp add: ordinal_of_def)
qed

lemma find_shot_id_ordinal:
  assumes "serving files shots st"
  shows "\<exists>t. find_shot_id files key st = (Inr (ordinal_of shots key), t) \<and> serving files shots t"
proof -
  obtain r t where r: "find_shot_id files key st = (Inr r, t)" "serving files shots t"
      "case r of None \<Rightarrow> key \<notin> set (map sr_shot_id shots)
       | Some k \<Rightarrow> 0 \<le> k \<and> k < int (length shots) \<and> sr_shot_id (shots ! nat k) = key"
    using find_shot_id_ok[OF assms] by blast
  have "r = ordinal_of shots key"
  proof (cases r)
    case None
    then show ?thesis using r(3) ordinal_of_absent by simp
  next
    case (Some k)
    then have k: "0 \<le> k" "nat k < length shots" "sr_shot_id (shots ! nat k) = key" using r(3) by auto
    show ?thesis
      using ordinal_of_present[OF _ k(2,3)] assms Some k(1) by (simp add: serving_def)
  qed
  then show ?thesis using r by blast
qed

lemma find_all_ordinals:
  "serving files shots st \<Longrightarrow>
   \<exists>t. find_all files keys st = (Inr (map (ordinal_of shots) keys), t) \<and> serving files shots t"
proof (induction keys arbitrary: st)
  case (Cons key keys)
  obtain t where t: "find_shot_id files key st = (Inr (ordinal_of shots key), t)" "serving files shots t"
    using find_shot_id_ordinal[OF Cons.prems] by blast
  obtain u where "find_all files keys t = (Inr (map (ordinal_of shots) keys), u)" "serving files shots u"
    using Cons.IH[OF t(2)] by blast
  then show ?case using t(1) by simp
qed simp

section \<open>Sample extents\<close>

lemma check_shots_extents:
  "check_shots held pe pid shots = Inr u \<Longrightarrow> (\<forall>s \<in> set shots. 0 \<le> sr_sample_bytes s) \<Longrightarrow>
   (\<forall>s \<in> set (filter shot_complete shots). pe \<le> sr_sample_offset s \<and> sr_sample_offset s + sr_sample_bytes s \<le> held) \<and>
   sorted_wrt (\<lambda>s t. sr_sample_offset s + sr_sample_bytes s \<le> sr_sample_offset t) (filter shot_complete shots)"
proof (induction shots arbitrary: pe pid)
  case (Cons x xs)
  show ?case
  proof (cases "shot_complete x")
    case False
    then have "check_shots held pe (Some (sr_shot_id x)) xs = Inr u"
      using Cons.prems(1) by (auto split: if_splits)
    from Cons.IH[OF this] show ?thesis using Cons.prems(2) False by auto
  next
    case True
    then have c: "check_shots held (sr_sample_offset x + sr_sample_bytes x) (Some (sr_shot_id x)) xs = Inr u"
      "sr_sample_offset x + sr_sample_bytes x \<le> held" "pe \<le> sr_sample_offset x"
      using Cons.prems(1) by (auto simp: Let_def split: if_splits)
    have "0 \<le> sr_sample_bytes x" using Cons.prems(2) by simp
    then show ?thesis using Cons.IH[OF c(1)] Cons.prems(2) c(2,3) True by fastforce
  qed
qed simp

lemma opened_shots_valid:
  assumes "bundle_open files partial = Inr b" "s \<in> set (rb_shots b)"
  shows "record_valid s"
proof -
  have "32 \<le> length (rf_index files)" using bundle_open_short[OF _ assms(1)] assms(2) by force
  then have "holds_shots files (rb_shots b)" by (rule bundle_open_facts(3)[OF assms(1)])
  then obtain d where "shot_decode d = Inr s" using assms(2) unfolding holds_shots_def by (metis in_set_conv_nth)
  then show ?thesis by (simp add: shot_decode_exact)
qed

lemma record_valid_extent:
  "record_valid s \<Longrightarrow> 0 \<le> sr_sample_offset s \<and> 0 \<le> sr_sample_bytes s \<and> (shot_complete s \<longrightarrow> 0 < sr_sample_bytes s)"
  by (cases "sr_state s")
     (simp_all add: record_valid_def shot_complete_def fields_ok_def record_sizes_def record_values_def)

lemma opened_extents:
  assumes "bundle_open files partial = Inr b"
  shows "sorted_wrt (\<lambda>s t. sr_sample_offset s + sr_sample_bytes s \<le> sr_sample_offset t) (complete_shots b)"
    and "s \<in> set (complete_shots b) \<Longrightarrow>
      \<exists>payload. read_samples (samples_of files) s = Inr payload \<and> int (length payload) = sr_sample_bytes s \<and> payload \<noteq> []"
proof -
  have *: "sorted_wrt (\<lambda>s t. sr_sample_offset s + sr_sample_bytes s \<le> sr_sample_offset t) (complete_shots b) \<and>
      (\<forall>s \<in> set (complete_shots b). sr_sample_offset s + sr_sample_bytes s \<le> samples_length files)"
  proof (cases "32 \<le> length (rf_index files)")
    case True
    have "\<forall>s \<in> set (rb_shots b). 0 \<le> sr_sample_bytes s"
      using opened_shots_valid[OF assms] record_valid_extent by blast
    from check_shots_extents[OF bundle_open_facts(4)[OF assms True] this] show ?thesis
      by (simp add: complete_shots_def)
  next
    case False
    then show ?thesis using bundle_open_short[OF _ assms] by (simp add: complete_shots_def)
  qed
  then show "sorted_wrt (\<lambda>s t. sr_sample_offset s + sr_sample_bytes s \<le> sr_sample_offset t) (complete_shots b)" by blast
  assume s: "s \<in> set (complete_shots b)"
  then have c: "shot_complete s" "s \<in> set (rb_shots b)" by (auto simp: complete_shots_def)
  have e: "0 \<le> sr_sample_offset s" "0 < sr_sample_bytes s"
    using record_valid_extent[OF opened_shots_valid[OF assms c(2)]] c(1) by auto
  have "sr_sample_offset s + sr_sample_bytes s \<le> int (length (samples_of files))"
    using * s by (simp add: samples_length_def)
  then have len: "length (pread (samples_of files) (sr_sample_bytes s) (sr_sample_offset s)) = nat (sr_sample_bytes s)"
    using e by (simp add: pread_def)
  then have "pread (samples_of files) (sr_sample_bytes s) (sr_sample_offset s) \<noteq> []" using e(2) by force
  then show "\<exists>payload. read_samples (samples_of files) s = Inr payload \<and> int (length payload) = sr_sample_bytes s \<and> payload \<noteq> []"
    using c(1) len e by (simp add: read_samples_def)
qed

end
