(* ===== verification/RunReaders.thy ===== *)
theory RunReaders
  imports RunCatalog
begin

text \<open>
  The properties of the run readers, with a small growing run on which their hypotheses hold:
  a first snapshot with one complete shot and part of the next record, a second with both shots.
\<close>

section \<open>A growing run\<close>

definition shot_one :: shot_record where
  "shot_one =
     \<lparr>sr_shot_id = 5, sr_state = COMPLETE, sr_issues = 0, sr_first_packet_sequence = 0,
      sr_last_packet_sequence = 2, sr_first_sample_timestamp = 0, sr_first_receive_ns = 100,
      sr_last_receive_ns = 200, sr_sample_offset = 0, sr_sample_bytes = 4, sr_frame_count = 1,
      sr_frame_samples = 1, sr_data_packets = 1, sr_datagrams = 3, sr_duplicate_packets = 0,
      sr_reordered_packets = 0, sr_missing_packets = 0, sr_payload_crc32 = 0, sr_source_flags = 0,
      sr_payload_format = 1, sr_sample_bytes_per_word = 4, sr_config_id = 9\<rparr>"

definition shot_two :: shot_record where
  "shot_two = shot_one\<lparr>sr_shot_id := 7, sr_state := INCOMPLETE, sr_issues := 2, sr_first_receive_ns := 300,
     sr_last_receive_ns := 300, sr_sample_offset := 18446744073709551615, sr_sample_bytes := 0,
     sr_missing_packets := 1\<rparr>"

definition sample_header :: bytes where
  "sample_header = write_fields [4, 2, 2, 2, 6, 8, 4, 4] [0x51494458, 1, 32, 128, 0, 3, 1, 0]"

definition sample_manifest :: json where
  "sample_manifest = JObject
     [(''format'', JString ''qcrate-run-v1''), (''run_id'', JString ''0x3''), (''stream_id'', JInt 1),
      (''complete'', JBool False)]"

definition early_files :: run_files where
  "early_files = \<lparr>rf_index = sample_header @ record_image shot_one @ [0, 0, 0], rf_samples = Some [1, 2, 3, 4],
     rf_run_json = None, rf_sender_json = None\<rparr>"

definition late_files :: run_files where
  "late_files = \<lparr>rf_index = sample_header @ record_image shot_one @ record_image shot_two,
     rf_samples = Some [1, 2, 3, 4],
     rf_run_json = Some \<lparr>rp_signature = (1, 2, 3), rp_parsed = Some sample_manifest\<rparr>,
     rf_sender_json = None\<rparr>"

definition early_bundle :: run_bundle where
  "early_bundle = \<lparr>rb_run_id = 3, rb_stream_id = 1, rb_shots = [shot_one], rb_manifest = None,
     rb_sender_report = None\<rparr>"

definition late_bundle :: run_bundle where
  "late_bundle = \<lparr>rb_run_id = 3, rb_stream_id = 1, rb_shots = [shot_one, shot_two],
     rb_manifest = (case sample_manifest of JObject d \<Rightarrow> Some d), rb_sender_report = None\<rparr>"

lemma open_early: "bundle_open early_files True = Inr early_bundle"
  by code_simp

lemma open_late: "bundle_open late_files True = Inr late_bundle"
  by code_simp

lemma sample_run_accepted: "list_all2 accepted [early_files, late_files] [early_bundle, late_bundle]"
proof -
  have "length (rf_index early_files) = 163" "length (rf_index late_files) = 288" by code_simp+
  moreover have "run_complete (rb_manifest early_bundle) = None" "run_complete (rb_manifest late_bundle) = Some False"
    by code_simp+
  ultimately show ?thesis
    using open_early open_late by (simp add: accepted_def early_bundle_def late_bundle_def)
qed

lemma sample_run_grows: "successively grows [early_files, late_files]"
proof -
  have "rf_index late_files = rf_index early_files @ drop 163 (rf_index late_files)" by code_simp
  then have "prefix (rf_index early_files) (rf_index late_files)" by (metis prefixI)
  then show ?thesis by (simp add: grows_def early_files_def late_files_def)
qed

section \<open>Properties\<close>



text \<open>
  C22. Lookups through the bounded cache are exact: after any number of refreshes, any sequence of
  \<open>find_shot_id\<close> calls returns for each identifier the ordinal of its record in the file, or
  nothing exactly when no record has it, and the cache never exceeds its configured size.
\<close>

theorem lookups_exact:
  assumes "list_all2 accepted fs bs" "fs \<noteq> []" "successively grows fs" "1 \<le> limit" "rf_samples (hd fs) \<noteq> None"
  shows "\<exists>st t u. index_init (hd fs) limit = Inr st \<and> refresh_all fs st = (Inr (), t) \<and>
    find_all (last fs) keys t = (Inr (map (ordinal_of (rb_shots (last bs))) keys), u) \<and>
    int (cache_entries t) \<le> limit"
proof -
  obtain st t where t: "index_init (hd fs) limit = Inr st" "refresh_all fs st = (Inr (), t)"
      "follows (last fs) (last bs) t" "ri_cache_limit t = nat limit"
    using opened_follows[OF assms] by blast
  then have "serving (last fs) (rb_shots (last bs)) t" by (simp add: follows_def)
  moreover from this have "cache_entries t \<le> nat limit" using t(4) by (simp add: serving_def cache_good_def)
  ultimately show ?thesis using t find_all_ordinals assms(4) by (metis le_nat_iff order_trans zero_le_one)
qed

theorem lookups_exact_witness:
  "\<exists>st t u. index_init (hd [early_files, late_files]) 1 = Inr st \<and>
    refresh_all [early_files, late_files] st = (Inr (), t) \<and>
    find_all (last [early_files, late_files]) [7, 6, 5] t =
      (Inr (map (ordinal_of (rb_shots (last [early_bundle, late_bundle]))) [7, 6, 5]), u) \<and>
    int (cache_entries t) \<le> 1"
  by (rule lookups_exact[OF sample_run_accepted _ sample_run_grows]) (simp_all add: early_files_def)

text \<open>
  C23. An accepted run owns its samples: identifiers increase strictly, the extents of the complete
  shots follow each other without overlap, and every complete shot reads back a non-empty payload
  of exactly its declared size.
\<close>

theorem accepted_run_extents:
  assumes "bundle_open files partial = Inr b"
  shows "sorted_wrt (\<lambda>s t. sr_sample_offset s + sr_sample_bytes s \<le> sr_sample_offset t) (complete_shots b) \<and>
    sorted_wrt (<) (map sr_shot_id (rb_shots b)) \<and>
    list_all (\<lambda>s. case read_samples (samples_of files) s of
      Inr payload \<Rightarrow> int (length payload) = sr_sample_bytes s \<and> payload \<noteq> [] | Inl _ \<Rightarrow> False) (complete_shots b)"
proof -
  have "sorted_wrt (<) (map sr_shot_id (rb_shots b))"
  proof (cases "32 \<le> length (rf_index files)")
    case True
    from check_shots_increasing[OF bundle_open_facts(4)[OF assms True]] show ?thesis by blast
  qed (use bundle_open_short[OF _ assms] in simp)
  moreover have "case read_samples (samples_of files) s of
      Inr payload \<Rightarrow> int (length payload) = sr_sample_bytes s \<and> payload \<noteq> [] | Inl _ \<Rightarrow> False"
    if "s \<in> set (complete_shots b)" for s
    using opened_extents(2)[OF assms that] by auto
  ultimately show ?thesis using opened_extents(1)[OF assms] by (simp add: list_all_iff)
qed

theorem accepted_run_extents_witness:
  "sorted_wrt (\<lambda>s t. sr_sample_offset s + sr_sample_bytes s \<le> sr_sample_offset t) (complete_shots late_bundle) \<and>
    sorted_wrt (<) (map sr_shot_id (rb_shots late_bundle)) \<and>
    list_all (\<lambda>s. case read_samples (samples_of late_files) s of
      Inr payload \<Rightarrow> int (length payload) = sr_sample_bytes s \<and> payload \<noteq> [] | Inl _ \<Rightarrow> False) (complete_shots late_bundle)"
  by (rule accepted_run_extents[OF open_late])

text \<open>
  The verdict "accepted" means what it says: it is given exactly to a run whose manifest is
  complete, whose sender did not report failure, and that has no incomplete shot, no identifier
  gap, no missing, malformed or conflicting packet, no kernel drop, no continuity error and, where
  the sender reported them, no skipped or missed trigger and no DMA error.
\<close>

theorem accepted_verdict:
  "rh_state (build_health manifest sender totals) = Accepted \<longleftrightarrow>
     run_complete manifest = Some True \<and>
     rh_sender_complete (build_health manifest sender totals) \<noteq> Some False \<and>
     rt_incomplete_shots totals = 0 \<and> rt_skipped_shot_ids totals = 0 \<and> rt_missing_packets totals = 0 \<and>
     manifest_integer manifest ''malformed_packets'' = 0 \<and> manifest_integer manifest ''conflicting_packets'' = 0 \<and>
     manifest_integer manifest ''kernel_receive_drops'' = 0 \<and>
     \<not> truthy (section_of manifest ''run_continuity_error'') \<and>
     (let counter = sender_counter (section_of sender ''health'') in
      or_zero (counter ''skipped_triggers'') = 0 \<and> or_zero (counter ''missed_triggers'') = 0 \<and>
      or_zero (counter ''dma_error_events'') = 0)"
  by (auto simp: build_health_def Let_def decide_state_def integrity_ok_def record_integrity_ok_def
      acquisition_integrity_ok_def split: option.splits)

end
