(* ===== verification/DecimalText.thy ===== *)
theory DecimalText
  imports Decimals DspTables
begin

text \<open>
  \<open>decimal.Decimal\<close> values with their sign, coefficient and exponent, as far as the profile
  compiler prints them: reading a literal, \<open>format(value, "f")\<close>, the removal of trailing zeros, and
  the rounding of a division to the 28 digits of the default context.
\<close>

section \<open>Values\<close>

datatype decimal = Dec (dec_negative: bool) (dec_coefficient: nat) (dec_exponent: int)

definition dec_value :: "decimal \<Rightarrow> rat" where
  "dec_value d = (if dec_negative d then -1 else 1) * scale10 (of_nat (dec_coefficient d)) (dec_exponent d)"

definition parse_decimal :: "string \<Rightarrow> decimal option" where
  "parse_decimal s =
     (let (sign, r) = read_sign s;
          mantissa = takeWhile (\<lambda>c. \<not> is_exponent_mark c) r;
          exponent = dropWhile (\<lambda>c. \<not> is_exponent_mark c) r;
          whole = takeWhile (\<lambda>c. c \<noteq> CHR ''.'') mantissa;
          fraction = tl (dropWhile (\<lambda>c. c \<noteq> CHR ''.'') mantissa)
      in Option.bind (read_nat 10 (whole @ fraction)) (\<lambda>n.
         Option.bind (if exponent = [] then Some 0 else read_signed (tl exponent)) (\<lambda>e.
         Some (Dec (sign < 0) n (e - int (length fraction))))))"

text \<open>\<open>Decimal(v)\<close> of a JSON integer or float.\<close>

fun decimal_of_number :: "json \<Rightarrow> decimal option" where
  "decimal_of_number (JInt i) = Some (Dec (i < 0) (nat \<bar>i\<bar>) 0)"
| "decimal_of_number (JFloat s) = parse_decimal s"
| "decimal_of_number _ = None"

lemma scale10_split:
  fixes n k :: nat
  shows "scale10 (of_nat n / 10 ^ k) e = scale10 (of_nat n) (e - int k)"
proof -
  consider "e < 0" | "0 \<le> e" "e < int k" | "int k \<le> e" by linarith
  then show ?thesis
  proof cases
    case 1
    then have "nat (- (e - int k)) = nat (- e) + k" by linarith
    then show ?thesis using 1 by (simp add: scale10_def power_add)
  next
    case 2
    then have "k = nat e + nat (- (e - int k))" by linarith
    then have "(10 :: rat) ^ k = 10 ^ nat e * 10 ^ nat (- (e - int k))" by (metis power_add)
    then show ?thesis using 2 by (simp add: scale10_def)
  next
    case 3
    then have "nat e = nat (e - int k) + k" by linarith
    then have "(10 :: rat) ^ nat e = 10 ^ nat (e - int k) * 10 ^ k" by (metis power_add)
    then show ?thesis using 3 by (simp add: scale10_def)
  qed
qed

lemma read_sign_cases: "fst (read_sign s) = 1 \<or> fst (read_sign s) = -1"
  by (auto simp: read_sign_def split: list.splits)

lemma parse_decimal_value: "map_option dec_value (parse_decimal s) = decimal_of_string s"
proof -
  obtain sign r where r: "read_sign s = (sign, r)" by (cases "read_sign s")
  then have sg: "of_int sign = (if sign < 0 then - 1 else (1 :: rat))" using read_sign_cases[of s] by auto
  define m where "m = takeWhile (\<lambda>c. \<not> is_exponent_mark c) r"
  define x where "x = dropWhile (\<lambda>c. \<not> is_exponent_mark c) r"
  define w where "w = takeWhile (\<lambda>c. c \<noteq> CHR ''.'') m"
  define f where "f = tl (dropWhile (\<lambda>c. c \<noteq> CHR ''.'') m)"
  define e where "e = (if x = [] then Some 0 else read_signed (tl x))"
  have "parse_decimal s = Option.bind (read_nat 10 (w @ f)) (\<lambda>n. Option.bind e (\<lambda>e.
      Some (Dec (sign < 0) n (e - int (length f)))))"
    unfolding parse_decimal_def Let_def r prod.case m_def w_def f_def x_def e_def ..
  moreover have "decimal_of_string s = Option.bind (map_option (\<lambda>n. of_nat n / 10 ^ length f) (read_nat 10 (w @ f)))
      (\<lambda>m. Option.bind e (\<lambda>e. Some (of_int sign * scale10 m e)))"
    unfolding decimal_of_string_def read_mantissa_def Let_def r prod.case m_def w_def f_def x_def e_def ..
  ultimately show ?thesis
    by (cases "read_nat 10 (w @ f)"; cases e) (simp_all add: dec_value_def scale10_split sg)
qed

lemma decimal_of_number_value: "map_option dec_value (decimal_of_number v) =
    (case v of JInt i \<Rightarrow> Some (of_int i) | JFloat s \<Rightarrow> decimal_of_string s | _ \<Rightarrow> None)"
proof (cases v)
  case (JInt i)
  have "(of_nat (nat \<bar>i\<bar>) :: rat) = (if i < 0 then - of_int i else of_int i)" by simp
  then show ?thesis using JInt by (simp add: dec_value_def scale10_def)
qed (simp_all add: parse_decimal_value)

section \<open>Printing\<close>

definition format_f :: "decimal \<Rightarrow> string" where
  "format_f d =
     (let c = dec_coefficient d; e = dec_exponent d;
          body = (if e \<ge> 0 then (if c = 0 then ''0'' else dec c @ replicate (nat e) (CHR ''0''))
            else
              let k = nat (- e); t = zfill (k + 1) (dec c)
              in take (length t - k) t @ CHR ''.'' # drop (length t - k) t)
      in if dec_negative d then CHR ''-'' # body else body)"

definition rstrip :: "char \<Rightarrow> string \<Rightarrow> string" where
  "rstrip c s = rev (dropWhile (\<lambda>x. x = c) (rev s))"

definition decimal_string :: "decimal \<Rightarrow> string" where
  "decimal_string d =
     (let t = format_f d;
          t = (if CHR ''.'' \<in> set t then rstrip (CHR ''.'') (rstrip (CHR ''0'') t) else t)
      in if t = [] then ''0'' else t)"

text \<open>Reading back what is printed.\<close>

abbreviation dec_digits :: string where "dec_digits \<equiv> ''0123456789''"

lemma digit_char_dec: "d < 10 \<Longrightarrow> digit_char d \<in> set dec_digits"
proof -
  assume "d < 10"
  then have "d \<in> set [0..<10]" by simp
  moreover have "list_all (\<lambda>d. digit_char d \<in> set dec_digits) [0..<10]" by code_simp
  ultimately show ?thesis unfolding list_all_iff by blast
qed

lemma dec_digits_chars: "set (dec n) \<subseteq> set dec_digits"
proof (induction n rule: less_induct)
  case (less n)
  have d: "digit_char (n mod 10) \<in> set dec_digits" by (rule digit_char_dec) simp
  show ?case
  proof (cases "n < 10")
    case True
    then show ?thesis using digit_char_dec[of n] by (subst digits.simps) auto
  next
    case False
    then show ?thesis using less[of "n div 10"] d by (subst digits.simps) simp
  qed
qed

lemma dec_digit_plain:
  assumes "c \<in> set dec_digits"
  shows "c \<noteq> CHR ''.''" "\<not> is_exponent_mark c" "c \<noteq> CHR ''-''" "c \<noteq> CHR ''+''"
proof -
  have "list_all (\<lambda>c. c \<noteq> CHR ''.'' \<and> \<not> is_exponent_mark c \<and> c \<noteq> CHR ''-'' \<and> c \<noteq> CHR ''+'') dec_digits"
    by code_simp
  with assms show "c \<noteq> CHR ''.''" "\<not> is_exponent_mark c" "c \<noteq> CHR ''-''" "c \<noteq> CHR ''+''"
    unfolding list_all_iff by blast+
qed

lemma takeWhile_all: "(\<And>x. x \<in> set xs \<Longrightarrow> P x) \<Longrightarrow> takeWhile P xs = xs"
  by (simp add: takeWhile_eq_all_conv)

lemma dropWhile_all: "(\<And>x. x \<in> set xs \<Longrightarrow> P x) \<Longrightarrow> dropWhile P xs = []"
  by (simp add: dropWhile_eq_Nil_conv)

text \<open>A signed text of digits with an optional fraction.\<close>

lemma decimal_of_plain:
  assumes "set w \<subseteq> set dec_digits" "set f \<subseteq> set dec_digits" "read_nat 10 (w @ f) = Some n" "w \<noteq> []"
    and "t = w \<and> f = [] \<or> t = w @ CHR ''.'' # f"
  shows "decimal_of_string (if neg then CHR ''-'' # t else t) =
    Some ((if neg then - 1 else 1) * (of_nat n / 10 ^ length f))"
proof -
  have dot: "\<And>c. c \<in> set w \<Longrightarrow> c \<noteq> CHR ''.''" "\<And>c. c \<in> set f \<Longrightarrow> c \<noteq> CHR ''.''"
    and em: "\<And>c. c \<in> set w \<union> set f \<Longrightarrow> \<not> is_exponent_mark c"
    using assms(1,2) dec_digit_plain(1,2) by blast+
  have em': "\<not> is_exponent_mark c" if "c \<in> set t" for c
  proof -
    have "c \<in> set w \<union> set f \<or> c = CHR ''.''" using that assms(5) by auto
    moreover have "\<not> is_exponent_mark (CHR ''.'')" by (simp add: is_exponent_mark_def)
    ultimately show ?thesis using em by blast
  qed
  obtain c r where cr: "t = c # r" "c \<in> set w" using assms(4,5) by (cases w) auto
  then have "c \<noteq> CHR ''-''" "c \<noteq> CHR ''+''" using assms(1) dec_digit_plain(3,4) by blast+
  then have sign: "read_sign (if neg then CHR ''-'' # t else t) = (if neg then -1 else 1, t)"
    using cr(1) by (simp add: read_sign_def)
  have parts: "takeWhile (\<lambda>c. \<not> is_exponent_mark c) t = t" "dropWhile (\<lambda>c. \<not> is_exponent_mark c) t = []"
    by (rule takeWhile_all, erule em') (rule dropWhile_all, erule em')
  have "takeWhile (\<lambda>c. c \<noteq> CHR ''.'') t = w \<and> tl (dropWhile (\<lambda>c. c \<noteq> CHR ''.'') t) = f"
  proof (rule disjE[OF assms(5)])
    assume t: "t = w \<and> f = []"
    then have eqs: "t = w" "f = []" by simp_all
    have "takeWhile (\<lambda>c. c \<noteq> CHR ''.'') w = w" by (rule takeWhile_all, erule dot(1))
    moreover have "dropWhile (\<lambda>c. c \<noteq> CHR ''.'') w = []" by (rule dropWhile_all, erule dot(1))
    ultimately show ?thesis unfolding eqs by (simp only: list.sel simp_thms)
  next
    assume t: "t = w @ CHR ''.'' # f"
    let ?P = "\<lambda>c. c \<noteq> CHR ''.''"
    have "takeWhile ?P t = w @ takeWhile ?P (CHR ''.'' # f)" "dropWhile ?P t = dropWhile ?P (CHR ''.'' # f)"
      unfolding t using dot(1) takeWhile_append2[of w ?P] dropWhile_append2[of w ?P] by blast+
    then show ?thesis by simp
  qed
  then have "read_mantissa t = Some (of_nat n / 10 ^ length f)"
    using assms(3) by (simp add: read_mantissa_def)
  then show ?thesis
    unfolding decimal_of_string_def sign parts Let_def prod.case by (simp add: scale10_def)
qed

lemma read_digits_zeros_after: "read_digits 10 a (replicate k (CHR ''0'')) = Some (a * 10 ^ k)"
  by (induction k arbitrary: a) (simp_all add: digit_value_def)

lemma read_nat_trailing:
  assumes "read_nat 10 (s @ replicate k (CHR ''0'')) = Some m" "s \<noteq> []"
  shows "\<exists>n. read_nat 10 s = Some n \<and> m = n * 10 ^ k"
proof -
  have "Option.bind (read_digits 10 0 s) (\<lambda>a. Some (a * 10 ^ k)) = Some m"
    using assms by (simp add: read_nat_def read_digits_append read_digits_zeros_after)
  then show ?thesis using assms(2) by (auto simp: read_nat_def bind_eq_Some_conv)
qed

lemma rstrip_split: "\<exists>k. s = rstrip c s @ replicate k c \<and> (rstrip c s \<noteq> [] \<longrightarrow> last (rstrip c s) \<noteq> c)"
proof -
  let ?t = "takeWhile (\<lambda>x. x = c) (rev s)"
  have "s = rev (dropWhile (\<lambda>x. x = c) (rev s)) @ rev ?t"
    by (metis rev_append rev_rev_ident takeWhile_dropWhile_id)
  moreover have "rev ?t = replicate (length ?t) c"
    by (rule replicate_eqI) (auto dest: set_takeWhileD)
  moreover have "rstrip c s \<noteq> [] \<longrightarrow> last (rstrip c s) \<noteq> c"
    unfolding rstrip_def last_rev using hd_dropWhile[of "\<lambda>x. x = c" "rev s"] by simp
  ultimately show ?thesis by (metis rstrip_def)
qed

lemma zfill_read: "read_nat 10 (zfill k (dec c)) = Some c"
  by (rule read_nat_zfill) simp_all

lemma zfill_chars: "set s \<subseteq> set dec_digits \<Longrightarrow> set (zfill k s) \<subseteq> set dec_digits"
  by (auto simp: zfill_def)

lemma zfill_length: "k \<le> length (zfill k s)"
  by (simp add: zfill_def)

text \<open>What \<open>format(value, "f")\<close> prints after its sign: digits, and a fraction for a negative exponent.\<close>

lemma format_f_shape:
  obtains w f where "format_f d = (if dec_negative d then CHR ''-'' # (if f = [] then w else w @ CHR ''.'' # f)
        else if f = [] then w else w @ CHR ''.'' # f)"
    and "set w \<subseteq> set dec_digits" "set f \<subseteq> set dec_digits" "w \<noteq> []"
    and "\<exists>n. read_nat 10 (w @ f) = Some n \<and>
      scale10 (of_nat (dec_coefficient d)) (dec_exponent d) = of_nat n / 10 ^ length f"
proof (cases "0 \<le> dec_exponent d")
  case True
  let ?c = "dec_coefficient d" and ?e = "nat (dec_exponent d)"
  let ?w = "if ?c = 0 then ''0'' else dec ?c @ replicate ?e (CHR ''0'')"
  have z: "read_nat 10 ''0'' = Some 0" by (simp add: read_nat_def digit_value_def)
  have "read_nat 10 (dec ?c @ replicate ?e (CHR ''0'')) = Some (?c * 10 ^ ?e)"
    by (simp add: read_nat_def read_digits_append read_digits_digits read_digits_zeros_after)
  then have "\<exists>n. read_nat 10 (?w @ []) = Some n \<and>
      scale10 (of_nat ?c) (dec_exponent d) = of_nat n / 10 ^ length ([] :: string)"
    using True z by (simp add: scale10_def)
  moreover have "set ?w \<subseteq> set dec_digits" using dec_digits_chars[of ?c] by auto
  moreover have "?w \<noteq> []" by simp
  moreover have "format_f d = (if dec_negative d then CHR ''-'' # ?w else ?w)"
    using True by (simp add: format_f_def)
  ultimately show ?thesis using that[of "[]" ?w] by simp
next
  case False
  let ?c = "dec_coefficient d" and ?k = "nat (- dec_exponent d)"
  let ?t = "zfill (?k + 1) (dec ?c)"
  let ?w = "take (length ?t - ?k) ?t" and ?f = "drop (length ?t - ?k) ?t"
  have l: "?k + 1 \<le> length ?t" by (rule zfill_length)
  have ch: "set ?t \<subseteq> set dec_digits" by (rule zfill_chars) (rule dec_digits_chars)
  have "length ?f = ?k" using l by simp
  moreover have "?f \<noteq> []" using l False by simp
  moreover have "?w \<noteq> []" using l by auto
  moreover have "set ?w \<subseteq> set dec_digits" "set ?f \<subseteq> set dec_digits"
    using ch by (meson order_trans set_take_subset, meson order_trans set_drop_subset)
  moreover have "read_nat 10 (?w @ ?f) = Some ?c" using zfill_read by (metis append_take_drop_id)
  moreover have "scale10 (of_nat ?c) (dec_exponent d) = of_nat ?c / 10 ^ ?k" using False by (simp add: scale10_def)
  moreover have "format_f d = (if dec_negative d then CHR ''-'' # ?w @ CHR ''.'' # ?f else ?w @ CHR ''.'' # ?f)"
    using False by (simp add: format_f_def Let_def)
  ultimately show ?thesis using that[of ?f ?w] by simp
qed

lemma rstrip_replicate [simp]: "rstrip c (s @ replicate k c) = rstrip c s"
proof -
  have "dropWhile (\<lambda>x. x = c) (replicate k c @ r) = dropWhile (\<lambda>x. x = c) r" for r
    by (induction k) simp_all
  then show ?thesis by (simp add: rstrip_def)
qed

lemma rstrip_id: "s \<noteq> [] \<Longrightarrow> last s \<noteq> c \<Longrightarrow> rstrip c s = s"
  by (cases s rule: rev_cases) (simp_all add: rstrip_def)

text \<open>Printing a decimal and reading the text back gives its value.\<close>

lemma decimal_string_reads: "decimal_of_string (decimal_string d) = Some (dec_value d)"
proof -
  obtain w f n where t: "format_f d = (if dec_negative d then CHR ''-'' # (if f = [] then w else w @ CHR ''.'' # f)
        else if f = [] then w else w @ CHR ''.'' # f)"
    and w: "set w \<subseteq> set dec_digits" "set f \<subseteq> set dec_digits" "w \<noteq> []"
    and n: "read_nat 10 (w @ f) = Some n"
      "scale10 (of_nat (dec_coefficient d)) (dec_exponent d) = of_nat n / 10 ^ length f"
    by (rule format_f_shape[of d]) blast
  let ?sgn = "\<lambda>s. if dec_negative d then CHR ''-'' # s else s"
  have val: "dec_value d = (if dec_negative d then - 1 else 1) * (of_nat n / 10 ^ length f)"
    by (simp add: dec_value_def n(2))
  have nd: "CHR ''.'' \<notin> set w" using w(1) dec_digit_plain(1) by blast
  have lastw: "last w \<noteq> CHR ''.''" using nd w(3) last_in_set[of w] by metis
  show ?thesis
  proof (cases "f = []")
    case True
    then have "decimal_string d = ?sgn w" using t nd w(3) by (simp add: decimal_string_def)
    then show ?thesis using decimal_of_plain[OF w(1), of "[]" n w "dec_negative d"] n(1) w(3) True
      by (simp add: val)
  next
    case False
    obtain g k where g: "f = g @ replicate k (CHR ''0'')" "g \<noteq> [] \<longrightarrow> last g \<noteq> CHR ''0''"
      using rstrip_split[of f "CHR ''0''"] by blast
    have dg: "set g \<subseteq> set dec_digits" using w(2) g(1) by auto
    obtain m where m: "read_nat 10 (w @ g) = Some m" "n = m * 10 ^ k"
      using read_nat_trailing[of "w @ g" k n] n(1) w(3) g(1) by auto
    have v: "dec_value d = (if dec_negative d then - 1 else 1) * (of_nat m / 10 ^ length g)"
      by (simp add: val m(2) g(1) power_add)
    have step: "rstrip (CHR ''0'') (format_f d) = rstrip (CHR ''0'') (?sgn (w @ CHR ''.'' # g))"
    proof -
      have "format_f d = ?sgn (w @ CHR ''.'' # g) @ replicate k (CHR ''0'')"
        unfolding t using False by (simp only: if_False g(1)[symmetric] append_assoc append_Cons if_distrib) (simp add: g(1))
      then show ?thesis by (simp only: rstrip_replicate)
    qed
    have dot: "CHR ''.'' \<in> set (format_f d)" using t False by simp
    have zero: "rstrip (CHR ''0'') (?sgn (w @ CHR ''.'' # g)) = ?sgn (w @ CHR ''.'' # g)"
      using g(2) by (intro rstrip_id) auto
    show ?thesis
    proof (cases "g = []")
      case True
      have "rstrip (CHR ''.'') (?sgn (w @ CHR ''.'' # g)) = rstrip (CHR ''.'') (?sgn w)"
        using rstrip_replicate[of "CHR ''.''" "?sgn w" 1] True
        by (cases "dec_negative d") simp_all
      also have "\<dots> = ?sgn w" using w(3) lastw by (intro rstrip_id) auto
      finally have "decimal_string d = ?sgn w" using dot step zero w(3) by (simp add: decimal_string_def)
      then show ?thesis using decimal_of_plain[OF w(1), of "[]" m w "dec_negative d"] m(1) w(3) True
        by (simp add: v)
    next
      case False
      have "last g \<noteq> CHR ''.''" using dg False last_in_set dec_digit_plain(1) by blast
      then have "rstrip (CHR ''.'') (?sgn (w @ CHR ''.'' # g)) = ?sgn (w @ CHR ''.'' # g)"
        using False by (intro rstrip_id) auto
      then have "decimal_string d = ?sgn (w @ CHR ''.'' # g)" using dot step zero by (simp add: decimal_string_def)
      then show ?thesis
        using decimal_of_plain[OF w(1) dg m(1) w(3), of "w @ CHR ''.'' # g" "dec_negative d"] by (simp add: v)
    qed
  qed
qed

section \<open>Results of the context\<close>

text \<open>
  A result of the arithmetic as a decimal: the fewest fraction digits that hold its value.  The
  context may keep more trailing zeros, but its results here have no positive exponent, so
  \<open>decimal_string\<close> prints the same text.
\<close>

fun fraction_digits :: "nat \<Rightarrow> rat \<Rightarrow> nat" where
  "fraction_digits 0 x = 0"
| "fraction_digits (Suc n) x = (if x = of_int \<lfloor>x\<rfloor> then 0 else Suc (fraction_digits n (10 * x)))"

definition decimal_of_rat :: "rat \<Rightarrow> decimal" where
  "decimal_of_rat x =
     (let k = fraction_digits 100 x in Dec (x < 0) (nat \<lfloor>\<bar>x\<bar> * 10 ^ k\<rfloor>) (- int k))"

end
