(* ===== verification/JsonText.thy ===== *)
theory JsonText
  imports DecimalText Hashing
begin

text \<open>
  The JSON values a program builds and compares: \<open>json.dumps\<close> in the canonical form (sorted keys,
  no blanks, ASCII), \<open>==\<close> of parsed values, hexadecimal digests and \<open>int(text, 0)\<close>.  A character is
  a code point below 256.
\<close>

section \<open>Canonical text\<close>

text \<open>\<open>json.dumps(s)\<close> with \<open>ensure_ascii\<close>: short escapes, then \<open>\u00xx\<close> outside the printable range.\<close>

definition escape_char :: "char \<Rightarrow> string" where
  "escape_char c =
     (let n = of_char c :: nat; escaped = (\<lambda>e. [CHR 0x5C, e])
      in if n = 0x22 \<or> n = 0x5C then escaped c
         else if n = 8 then escaped (CHR ''b'') else if n = 9 then escaped (CHR ''t'')
         else if n = 10 then escaped (CHR ''n'') else if n = 12 then escaped (CHR ''f'')
         else if n = 13 then escaped (CHR ''r'')
         else if 32 \<le> n \<and> n \<le> 126 then [c]
         else escaped (CHR ''u'') @ zfill 4 (hex n))"

definition quoted :: "string \<Rightarrow> string" where
  "quoted s = CHR 0x22 # concat (map escape_char s) @ [CHR 0x22]"

fun joined :: "string \<Rightarrow> string list \<Rightarrow> string" where
  "joined sep [] = []"
| "joined sep [x] = x"
| "joined sep (x # y # zs) = x @ sep @ joined sep (y # zs)"

text \<open>A \<open>Decimal\<close> anywhere in the value is a \<open>TypeError\<close>, here \<open>None\<close>.\<close>

fun json_text :: "json \<Rightarrow> string option"
  and json_texts :: "json list \<Rightarrow> string list option"
  and json_members :: "jobject \<Rightarrow> (string \<times> string) list option"
where
  "json_text JNull = Some ''null''"
| "json_text (JBool b) = Some (if b then ''true'' else ''false'')"
| "json_text (JInt i) = Some (str_int i)"
| "json_text (JFloat s) = None"
| "json_text (JString s) = Some (quoted s)"
| "json_text (JArray xs) = map_option (\<lambda>ts. ''['' @ joined '','' ts @ '']'') (json_texts xs)"
| "json_text (JObject d) =
     map_option (\<lambda>ms. ''{'' @ joined '','' (map (\<lambda>(k, t). quoted k @ '':'' @ t) (sort_key fst ms)) @ ''}'')
       (json_members d)"
| "json_texts [] = Some []"
| "json_texts (x # xs) =
     Option.bind (json_text x) (\<lambda>t. map_option (Cons t) (json_texts xs))"
| "json_members [] = Some []"
| "json_members ((k, v) # d) =
     Option.bind (json_text v) (\<lambda>t. map_option (Cons (k, t)) (json_members d))"

definition ascii :: "string \<Rightarrow> bytes" where "ascii s = map of_char s"

section \<open>Equality of parsed values\<close>

text \<open>Numbers compare by value, a \<open>bool\<close> as 0 or 1; objects by keys whatever their order.\<close>

fun py_eq :: "json \<Rightarrow> json \<Rightarrow> bool"
  and py_eq_list :: "json list \<Rightarrow> json list \<Rightarrow> bool"
  and py_eq_members :: "jobject \<Rightarrow> jobject \<Rightarrow> bool"
where
  "py_eq JNull w = (w = JNull)"
| "py_eq (JString s) w = (w = JString s)"
| "py_eq (JBool b) w = (json_number w = Some (if b then 1 else 0))"
| "py_eq (JInt i) w = (json_number w = Some (of_int i))"
| "py_eq (JFloat s) w = (decimal_of_string s \<noteq> None \<and> json_number w = decimal_of_string s)"
| "py_eq (JArray xs) w = (case w of JArray ys \<Rightarrow> py_eq_list xs ys | _ \<Rightarrow> False)"
| "py_eq (JObject d) w =
     (case w of JObject e \<Rightarrow> length d = length e \<and> py_eq_members d e | _ \<Rightarrow> False)"
| "py_eq_list [] ys = (ys = [])"
| "py_eq_list (x # xs) ys = (case ys of [] \<Rightarrow> False | y # zs \<Rightarrow> py_eq x y \<and> py_eq_list xs zs)"
| "py_eq_members [] e = True"
| "py_eq_members ((k, v) # d) e =
     ((case map_of e k of Some w \<Rightarrow> py_eq v w | None \<Rightarrow> False) \<and> py_eq_members d e)"

text \<open>A value that has a canonical text and no repeated key equals itself.\<close>

lemma py_eq_members_weaken:
  "py_eq_members d e \<Longrightarrow> k \<notin> set (keys_of d) \<Longrightarrow> py_eq_members d ((k, v) # e)"
  by (induction d) (auto split: option.splits)

lemma py_eq_refl:
  "hook dup v = Inr v' \<Longrightarrow> json_text v \<noteq> None \<Longrightarrow> py_eq v v"
  "hook_list dup vs = Inr vs' \<Longrightarrow> json_texts vs \<noteq> None \<Longrightarrow> py_eq_list vs vs"
  "hook_pairs dup kvs = Inr kvs' \<Longrightarrow> json_members kvs \<noteq> None \<Longrightarrow> distinct (keys_of kvs) \<Longrightarrow>
     py_eq_members kvs kvs"
proof (induction dup v and dup vs and dup kvs arbitrary: v' and vs' and kvs'
    rule: hook_hook_list_hook_pairs.induct)
  case (1 dup kvs)
  then show ?case using hook_same(3)[of dup kvs] by (auto simp: result_iff unique_keys_Inr)
next
  case (11 dup k v kvs)
  obtain w r where w: "hook dup v = Inr w" "hook_pairs dup kvs = Inr r"
    using "11.prems"(1) by (auto simp: result_iff)
  have "py_eq v v" using "11.IH"(1)[OF w(1)] "11.prems"(2) by (auto simp: bind_eq_Some_conv)
  moreover have "py_eq_members kvs kvs"
    using "11.IH"(2)[OF w(2)] "11.prems"(2,3) by (auto simp: bind_eq_Some_conv)
  ultimately show ?case using "11.prems"(3) by (auto intro: py_eq_members_weaken)
qed (auto simp: result_iff bind_eq_Some_conv)

section \<open>Digests\<close>

definition hexdigest :: "bytes \<Rightarrow> string" where
  "hexdigest bs = concat (map (\<lambda>b. zfill 2 (hex (unat b))) bs)"

lemma hex_byte_length: "length (zfill 2 (hex (unat (b :: byte)))) = 2"
proof -
  have u: "unat b < 256" using unsigned_less[of b] by simp
  show ?thesis
  proof (cases "unat b < 16")
    case True
    then show ?thesis by (subst digits.simps) (simp add: zfill_def)
  next
    case False
    then have "digits 16 (unat b div 16) = [digit_char (unat b div 16)]" using u by (subst digits.simps) simp
    then show ?thesis using False by (subst digits.simps) (simp add: zfill_def)
  qed
qed

lemma hexdigest_length [simp]: "length (hexdigest bs) = 2 * length bs"
  by (induction bs) (simp_all add: hexdigest_def hex_byte_length)

section \<open>Reading integers\<close>

lemma int_base0_hex: "int_base0 (''0x'' @ zfill w (hex n)) = Some (int n)"
  using read_nat_zfill[of 16 w n] by (simp add: int_base0_def read_sign_def read_radix_def)

lemma read_digits_bound: "read_digits b acc s = Some n \<Longrightarrow> n < (acc + 1) * b ^ length s"
proof (induction b acc s rule: read_digits.induct)
  case (2 b acc c cs)
  then obtain d where d: "digit_value c = Some d" "d < b" "read_digits b (b * acc + d) cs = Some n"
    by (auto split: option.splits if_splits)
  have "n < (b * acc + d + 1) * b ^ length cs" using 2(1)[OF d(1,2,3)] .
  also have "\<dots> \<le> (b * acc + b) * b ^ length cs" using d(2) by (intro mult_right_mono) auto
  finally show ?case by (simp add: algebra_simps)
qed simp

lemma read_nat_bound: "read_nat b s = Some n \<Longrightarrow> n < b ^ length s"
  using read_digits_bound[of b 0 s n] by (simp add: read_nat_def split: if_splits)

end
