(* ===== verification/Profile.thy ===== *)
theory Profile
  imports JsonText Dsp Sequence
begin

text \<open>
  \<open>host/experiment_profiles/qcrate_profile.py\<close>: an experiment profile is resolved into exact
  hardware integers, two identities and the register writes, and a resolved profile is checked by
  recomputing all of them.  The files of the repository are parameters: \<open>repo\<close> gives what a
  sequence path names, \<open>tables\<close> and \<open>registers\<close> are the parsed DSP table manifest and register
  contract.
\<close>

section \<open>Errors\<close>

datatype profile_error =
    ProfileDuplicateKey string
  | ProfileRoot
  | ContextNotObject string
  | ContextKeys string "string list" "string list"
  | ContextNotInteger string
  | ContextRange string
  | ContextNotNumber string
  | ProfileFormat
  | ProfileName
  | ProfileAmplitudeSum
  | ProfileWords
  | ProfileStreamMode
  | SourceText
  | SourceOutside
  | SourceMissing
  | SourceInvalid seq_error
  | TableFormat
  | TableSampleRate
  | TableDecimation
  | RegisterFormat
  | RegisterRange string
  | ResolvedFormat
  | ContractDiffers
  | RequestedMalformed
  | FrequenciesOutside
  | PhasesOutside
  | AmplitudesOutside
  | ActiveDiffers
  | RealizedDiffers
  | GeometryInvalid
  | ConfigIdMalformed
  | ConfigIdRange
  | DspIdentityDiffers
  | ProfileIdentityDiffers
  | WritesDiffer
  | BundleMalformed
  | BundleNotInteger nat
  | BundleRange nat
  | MissingKey string  \<comment> \<open>\<open>KeyError\<close>\<close>
  | WrongType          \<comment> \<open>\<open>TypeError\<close>\<close>
  | NegativeShift      \<comment> \<open>\<open>ValueError\<close> of \<open><<\<close>\<close>

section \<open>Constants\<close>

definition PROFILE_FORMAT :: string where "PROFILE_FORMAT = ''qcrate-experiment-profile-v1''"
definition RESOLVED_FORMAT :: string where "RESOLVED_FORMAT = ''qcrate-experiment-resolved-v1''"
definition DSP_IDENTITY_FORMAT :: string where "DSP_IDENTITY_FORMAT = ''qcrate-dsp-config-identity-v1''"
definition PROFILE_IDENTITY_FORMAT :: string where "PROFILE_IDENTITY_FORMAT = ''qcrate-experiment-identity-v1''"

section \<open>Field checks\<close>

definition profile_unique_keys :: "jobject \<Rightarrow> profile_error + jobject" where
  "profile_unique_keys pairs = unique_keys ProfileDuplicateKey [] pairs"

definition profile_load_json :: "json \<Rightarrow> profile_error + jobject" where
  "profile_load_json parsed =
     bind_res (hook ProfileDuplicateKey parsed) (\<lambda>document.
       case document of JObject d \<Rightarrow> Inr d | _ \<Rightarrow> Inl ProfileRoot)"

definition check_object :: "json \<Rightarrow> string list \<Rightarrow> string \<Rightarrow> profile_error + jobject" where
  "check_object v required context =
     (case v of
        JObject d \<Rightarrow>
          (let missing = sorted_keys (filter (\<lambda>k. k \<notin> set (keys_of d)) required);
               unknown = sorted_keys (filter (\<lambda>k. k \<notin> set required) (keys_of d))
           in if missing \<noteq> [] \<or> unknown \<noteq> [] then Inl (ContextKeys context missing unknown) else Inr d)
      | _ \<Rightarrow> Inl (ContextNotObject context))"

fun check_integer :: "json \<Rightarrow> int \<Rightarrow> int \<Rightarrow> string \<Rightarrow> profile_error + int" where
  "check_integer (JInt v) minimum maximum context =
     (if minimum \<le> v \<and> v \<le> maximum then Inr v else Inl (ContextRange context))"
| "check_integer _ minimum maximum context = Inl (ContextNotInteger context)"

definition check_decimal :: "json \<Rightarrow> rat \<Rightarrow> rat \<Rightarrow> bool \<Rightarrow> string \<Rightarrow> profile_error + decimal" where
  "check_decimal v minimum maximum maximum_inclusive context =
     (case decimal_of_number v of
        None \<Rightarrow> Inl (ContextNotNumber context)
      | Some d \<Rightarrow>
          (let r = dec_value d; upper_ok = (if maximum_inclusive then r \<le> maximum else r < maximum)
           in if r < minimum \<or> \<not> upper_ok then Inl (ContextRange context) else Inr d))"

definition phase_word :: "rat \<Rightarrow> int \<Rightarrow> int" where
  "phase_word v scale =
     (let scaled = round28 (round28 (v * of_int PHASE_MODULUS) / of_int scale)
      in half_up scaled AND 0xFFFFFFFF)"

definition q1_15 :: "rat \<Rightarrow> int" where
  "q1_15 v = (let scaled = half_up (round28 (v * 2 ^ 15)) in min (max scaled (- 0x8000)) 0x7FFF)"

definition canonical_bytes :: "json \<Rightarrow> profile_error + bytes" where
  "canonical_bytes v = (case json_text v of Some t \<Rightarrow> Inr (ascii t) | None \<Rightarrow> Inl WrongType)"

definition json_sha256 :: "json \<Rightarrow> profile_error + string" where
  "json_sha256 v = bind_res (canonical_bytes v) (\<lambda>bs. Inr (hexdigest (sha256 bs)))"

text \<open>\<open>int(digest[:16], 16)\<close>; a digest has only hexadecimal digits.\<close>

definition digest_id :: "string \<Rightarrow> int" where
  "digest_id digest = (case read_nat 16 (take 16 digest) of Some n \<Rightarrow> int n | None \<Rightarrow> 0)"

section \<open>Repository contracts\<close>

text \<open>What a repository path names after \<open>resolve()\<close>.\<close>

datatype source_file = OutsideRepository | NotAFile | ParsedFile json

definition resolve_sequence :: "(string \<Rightarrow> source_file) \<Rightarrow> string \<Rightarrow> profile_error + jobject" where
  "resolve_sequence repo source =
     (case repo source of
        OutsideRepository \<Rightarrow> Inl SourceOutside
      | NotAFile \<Rightarrow> Inl SourceMissing
      | ParsedFile parsed \<Rightarrow>
          (case bind_res (load_json parsed) (\<lambda>d. bind_res (compile_document d) (\<lambda>events.
              bind_res (encode_sequence events) (\<lambda>img. Inr (events, img)))) of
             Inl e \<Rightarrow> Inl (SourceInvalid e)
           | Inr (events, img) \<Rightarrow>
               let payload = drop (calcsize SEQ_HEADER) img in
               Inr [(''source'', JString source),
                    (''image_sha256'', JString (hexdigest (sha256 img))),
                    (''payload_crc32'', JInt (crc32 payload AND 0xFFFFFFFF)),
                    (''event_count'', JInt (int (length events))),
                    (''tick_hz'', JInt TICK_HZ)]))"

definition load_contracts :: "json \<Rightarrow> json \<Rightarrow> profile_error + jobject \<times> jobject" where
  "load_contracts tables registers =
     bind_res (profile_load_json tables) (\<lambda>t.
     bind_res (profile_load_json registers) (\<lambda>r.
     if \<not> py_eq (get t ''format'') (JString ''qcrate-dsp-tables-v1'') then Inl TableFormat
     else if \<not> json_equals_int (get t ''sample_rate_hz'') SAMPLE_RATE_HZ then Inl TableSampleRate
     else if \<not> json_equals_int (get t ''decimation'') (int DECIMATION) then Inl TableDecimation
     else if \<not> py_eq (get r ''format'') (JString ''qcrate-dsp-register-contract-v1'') then Inl RegisterFormat
     else Inr (t, r)))"

definition lookup_key :: "jobject \<Rightarrow> string \<Rightarrow> profile_error + json" where
  "lookup_key d k = (case map_of d k of Some v \<Rightarrow> Inr v | None \<Rightarrow> Inl (MissingKey k))"

definition numerical_contract :: "jobject \<Rightarrow> profile_error + jobject" where
  "numerical_contract tables =
     bind_res (lookup_key tables ''fir_taps'') (\<lambda>fir_taps.
     bind_res (lookup_key tables ''fir_sha256'') (\<lambda>fir_sha256.
     bind_res (lookup_key tables ''sine_sha256'') (\<lambda>sine_sha256.
     Inr [(''format'', JString ''qcrate-dsp-v1''),
          (''sample_rate_hz'', JInt SAMPLE_RATE_HZ),
          (''output_sample_rate_hz'', JInt (SAMPLE_RATE_HZ div int DECIMATION)),
          (''decimation'', JInt (int DECIMATION)),
          (''phase_bits'', JInt (int PHASE_BITS)),
          (''amplitude_format'', JString ''signed-q1.15''),
          (''mixer_format'', JString ''signed-q1.17''),
          (''coefficient_format'', JString ''signed-q1.17''),
          (''output_format'', JString ''complex-signed-q1.15''),
          (''rounding'', JString ''nearest-ties-away-from-zero''),
          (''overflow'', JString ''signed-saturation''),
          (''fir_taps'', fir_taps),
          (''fir_sha256'', fir_sha256),
          (''sine_sha256'', sine_sha256)])))"

text \<open>
  An integer operand: a \<open>bool\<close> counts, anything else is a \<open>TypeError\<close>.  The contract's entries
  are integers, its names texts and its fields a list; what Python makes of other values there
  (a comparison with a float, the sum of two texts) is not modelled.
\<close>

fun int_operand :: "json \<Rightarrow> profile_error + int" where
  "int_operand (JInt i) = Inr i"
| "int_operand (JBool b) = Inr (if b then 1 else 0)"
| "int_operand _ = Inl WrongType"

definition field_item :: "json \<Rightarrow> string \<Rightarrow> profile_error + json" where
  "field_item field k = (case field of JObject d \<Rightarrow> lookup_key d k | _ \<Rightarrow> Inl WrongType)"

fun jtext :: "json \<Rightarrow> string" where
  "jtext (JString s) = s"
| "jtext _ = []"

definition register_write :: "jobject \<Rightarrow> json \<Rightarrow> json \<Rightarrow> profile_error + json" where
  "register_write values page field =
     bind_res (field_item field ''name'') (\<lambda>name.
     bind_res (case name of JString n \<Rightarrow> lookup_key values n | _ \<Rightarrow> Inl WrongType) (\<lambda>v.
     bind_res (int_operand v) (\<lambda>i.
     if i < 0 then Inl (RegisterRange (jtext name))
     else
       bind_res (field_item field ''width'') (\<lambda>width.
       bind_res (int_operand width) (\<lambda>w.
       bind_res (ensure (0 \<le> w) NegativeShift) (\<lambda>_.
       if i \<ge> 2 ^ nat w then Inl (RegisterRange (jtext name))
       else
         bind_res (field_item field ''shadow_offset'') (\<lambda>offset.
         bind_res (int_operand page) (\<lambda>p.
         bind_res (int_operand offset) (\<lambda>q.
         Inr (JObject [(''name'', name), (''offset'', JInt (p + q)), (''value'', v)]))))))))))"

definition register_writes :: "jobject \<Rightarrow> int \<Rightarrow> jobject \<Rightarrow> profile_error + json" where
  "register_writes active config_id registers =
     (let values = active @ [(''CONFIG_ID_LOW'', JInt (config_id AND 0xFFFFFFFF)),
            (''CONFIG_ID_HIGH'', JInt (drop_bit 32 config_id))]
      in bind_res (lookup_key registers ''page_offset'') (\<lambda>page.
         bind_res (lookup_key registers ''configuration_fields'') (\<lambda>fields.
         case fields of
           JArray fs \<Rightarrow> bind_res (map_res (register_write values page) fs) (\<lambda>ws. Inr (JArray ws))
         | _ \<Rightarrow> Inl WrongType)))"

section \<open>Compilation\<close>

record dsp_request =
  rq_signal_frequency :: decimal
  rq_lo_frequency :: decimal
  rq_signal_phase :: decimal
  rq_lo_phase :: decimal
  rq_signal_amplitude :: decimal
  rq_noise_amplitude :: decimal
  rq_noise_seed :: int

text \<open>The values the seven requested fields denote.\<close>

record dsp_values =
  vl_signal_frequency :: rat
  vl_lo_frequency :: rat
  vl_signal_phase :: rat
  vl_lo_phase :: rat
  vl_signal_amplitude :: rat
  vl_noise_amplitude :: rat
  vl_noise_seed :: int

definition request_values :: "dsp_request \<Rightarrow> dsp_values" where
  "request_values r =
     \<lparr>vl_signal_frequency = dec_value (rq_signal_frequency r), vl_lo_frequency = dec_value (rq_lo_frequency r),
      vl_signal_phase = dec_value (rq_signal_phase r), vl_lo_phase = dec_value (rq_lo_phase r),
      vl_signal_amplitude = dec_value (rq_signal_amplitude r),
      vl_noise_amplitude = dec_value (rq_noise_amplitude r), vl_noise_seed = rq_noise_seed r\<rparr>"

definition nyquist_hz :: rat where "nyquist_hz = of_int SAMPLE_RATE_HZ / 2"

definition request_keys :: "string list" where
  "request_keys = [''signal_frequency_hz'', ''signal_phase_turns'', ''signal_amplitude'',
     ''noise_amplitude'', ''noise_seed'', ''lo_frequency_hz'', ''lo_phase_turns'']"

definition compile_dsp :: "json \<Rightarrow> profile_error + dsp_request" where
  "compile_dsp source =
     bind_res (check_object source request_keys ''dsp'') (\<lambda>d.
     bind_res (check_decimal (get d ''signal_frequency_hz'') 0 nyquist_hz False ''dsp.signal_frequency_hz'') (\<lambda>signal_frequency.
     bind_res (check_decimal (get d ''lo_frequency_hz'') 0 nyquist_hz False ''dsp.lo_frequency_hz'') (\<lambda>lo_frequency.
     bind_res (check_decimal (get d ''signal_phase_turns'') 0 1 False ''dsp.signal_phase_turns'') (\<lambda>signal_phase.
     bind_res (check_decimal (get d ''lo_phase_turns'') 0 1 False ''dsp.lo_phase_turns'') (\<lambda>lo_phase.
     bind_res (check_decimal (get d ''signal_amplitude'') 0 1 True ''dsp.signal_amplitude'') (\<lambda>signal_amplitude.
     bind_res (check_decimal (get d ''noise_amplitude'') 0 1 True ''dsp.noise_amplitude'') (\<lambda>noise_amplitude.
     if round28 (dec_value signal_amplitude + dec_value noise_amplitude) > 1 then Inl ProfileAmplitudeSum
     else
       bind_res (check_integer (get d ''noise_seed'') 1 0xFFFF ''dsp.noise_seed'') (\<lambda>noise_seed.
       Inr \<lparr>rq_signal_frequency = signal_frequency, rq_lo_frequency = lo_frequency,
            rq_signal_phase = signal_phase, rq_lo_phase = lo_phase,
            rq_signal_amplitude = signal_amplitude, rq_noise_amplitude = noise_amplitude,
            rq_noise_seed = noise_seed\<rparr>))))))))"

definition compile_acquisition :: "json \<Rightarrow> profile_error + jobject" where
  "compile_acquisition source =
     bind_res (check_object source [''frame_length_words'', ''frame_count'', ''stream_mode''] ''acquisition'') (\<lambda>d.
     bind_res (check_integer (get d ''frame_length_words'') 1 262144 ''acquisition.frame_length_words'') (\<lambda>frame_length.
     bind_res (check_integer (get d ''frame_count'') 1 255 ''acquisition.frame_count'') (\<lambda>frame_count.
     if frame_length * frame_count > 1000000 then Inl ProfileWords
     else if get d ''stream_mode'' \<noteq> JString ''dsp'' then Inl ProfileStreamMode
     else Inr [(''frame_length_words'', JInt frame_length), (''frame_count'', JInt frame_count),
               (''stream_mode'', JString ''dsp''), (''stream_mode_value'', JInt 1)])))"

definition compile_source :: "(string \<Rightarrow> source_file) \<Rightarrow> json \<Rightarrow> profile_error + jobject" where
  "compile_source repo source =
     bind_res (check_object source [''source''] ''sequence'') (\<lambda>d.
     case get d ''source'' of
       JString path \<Rightarrow> if path = [] then Inl SourceText else resolve_sequence repo path
     | _ \<Rightarrow> Inl SourceText)"

definition requested_object :: "dsp_request \<Rightarrow> jobject" where
  "requested_object r =
     [(''signal_frequency_hz'', JString (decimal_string (rq_signal_frequency r))),
      (''signal_phase_turns'', JString (decimal_string (rq_signal_phase r))),
      (''signal_amplitude'', JString (decimal_string (rq_signal_amplitude r))),
      (''noise_amplitude'', JString (decimal_string (rq_noise_amplitude r))),
      (''noise_seed'', JInt (rq_noise_seed r)),
      (''lo_frequency_hz'', JString (decimal_string (rq_lo_frequency r))),
      (''lo_phase_turns'', JString (decimal_string (rq_lo_phase r)))]"

definition active_words :: "dsp_values \<Rightarrow> (string \<times> int) list" where
  "active_words v =
     [(''SIGNAL_PHASE_INCREMENT'', phase_word (vl_signal_frequency v) SAMPLE_RATE_HZ),
      (''SIGNAL_PHASE_INITIAL'', phase_word (vl_signal_phase v) 1),
      (''SIGNAL_AMPLITUDE_Q1_15'', q1_15 (vl_signal_amplitude v)),
      (''NOISE_AMPLITUDE_Q1_15'', q1_15 (vl_noise_amplitude v)),
      (''NOISE_SEED'', vl_noise_seed v),
      (''LO_PHASE_INCREMENT'', phase_word (vl_lo_frequency v) SAMPLE_RATE_HZ),
      (''LO_PHASE_INITIAL'', phase_word (vl_lo_phase v) 1)]"

definition active_object :: "dsp_values \<Rightarrow> jobject" where
  "active_object v = map (\<lambda>(k, i). (k, JInt i)) (active_words v)"

text \<open>\<open>Decimal(word) * SAMPLE_RATE_HZ / PHASE_MODULUS\<close>.\<close>

definition realized_frequency :: "rat \<Rightarrow> rat" where
  "realized_frequency word = round28 (round28 (word * of_int SAMPLE_RATE_HZ) / of_int PHASE_MODULUS)"

definition realized_object :: "rat \<Rightarrow> rat \<Rightarrow> jobject" where
  "realized_object signal_word lo_word =
     (let s = realized_frequency signal_word; l = realized_frequency lo_word;
          text = (\<lambda>x. JString (decimal_string (decimal_of_rat x)))
      in [(''signal_frequency_hz'', text s), (''lo_frequency_hz'', text l),
          (''baseband_frequency_hz'', text (round28 (s - l)))])"

definition dsp_identity :: "json \<Rightarrow> json \<Rightarrow> profile_error + string" where
  "dsp_identity contract active =
     json_sha256 (JObject [(''format'', JString DSP_IDENTITY_FORMAT), (''numerical_contract'', contract),
       (''active'', active)])"

definition profile_identity :: "string \<Rightarrow> json \<Rightarrow> jobject \<Rightarrow> profile_error + string" where
  "profile_identity dsp_digest acquisition seq =
     json_sha256 (JObject [(''format'', JString PROFILE_IDENTITY_FORMAT),
       (''dsp_config_sha256'', JString dsp_digest), (''acquisition'', acquisition),
       (''sequence'', JObject [(''image_sha256'', get seq ''image_sha256''),
          (''event_count'', get seq ''event_count''), (''tick_hz'', get seq ''tick_hz'')])])"

definition resolve_profile ::
    "json \<Rightarrow> dsp_request \<Rightarrow> jobject \<Rightarrow> jobject \<Rightarrow> jobject \<Rightarrow> jobject \<Rightarrow> profile_error + jobject" where
  "resolve_profile name request acquisition seq contract registers =
     (let values = request_values request; active = active_object values in
      bind_res (dsp_identity (JObject contract) (JObject active)) (\<lambda>dsp_digest.
      let config_id = digest_id dsp_digest in
      bind_res (profile_identity dsp_digest (JObject acquisition) seq) (\<lambda>profile_digest.
      bind_res (register_writes active config_id registers) (\<lambda>writes.
      Inr [(''format'', JString RESOLVED_FORMAT),
           (''name'', name),
           (''identity'', JObject [(''profile_sha256'', JString profile_digest),
              (''dsp_config_sha256'', JString dsp_digest),
              (''dsp_config_id'', JString (hexadecimal config_id 64))]),
           (''numerical_contract'', JObject contract),
           (''dsp'', JObject [(''requested'', JObject (requested_object request)),
              (''active'', JObject active),
              (''realized'', JObject (realized_object
                 (of_int (phase_word (vl_signal_frequency values) SAMPLE_RATE_HZ))
                 (of_int (phase_word (vl_lo_frequency values) SAMPLE_RATE_HZ))))]),
           (''acquisition'', JObject acquisition),
           (''sequence'', JObject seq),
           (''register_writes'', writes)]))))"

definition compile_profile ::
    "(string \<Rightarrow> source_file) \<Rightarrow> json \<Rightarrow> json \<Rightarrow> json \<Rightarrow> profile_error + jobject" where
  "compile_profile repo tables registers parsed =
     bind_res (profile_load_json parsed) (\<lambda>loaded.
     bind_res (check_object (JObject loaded) [''format'', ''name'', ''dsp'', ''acquisition'', ''sequence''] ''profile'')
       (\<lambda>document.
     bind_res (ensure (get document ''format'' = JString PROFILE_FORMAT) ProfileFormat) (\<lambda>_.
     bind_res (ensure (case get document ''name'' of
         JString n \<Rightarrow> 1 \<le> length n \<and> length n \<le> 128 | _ \<Rightarrow> False) ProfileName) (\<lambda>_.
     bind_res (compile_dsp (get document ''dsp'')) (\<lambda>request.
     bind_res (compile_acquisition (get document ''acquisition'')) (\<lambda>acquisition.
     bind_res (compile_source repo (get document ''sequence'')) (\<lambda>seq.
     bind_res (load_contracts tables registers) (\<lambda>(t, r).
     bind_res (numerical_contract t) (\<lambda>contract.
     resolve_profile (get document ''name'') request acquisition seq contract r)))))))))"

section \<open>The configuration command\<close>

fun member :: "json \<Rightarrow> string \<Rightarrow> profile_error + json" where
  "member (JObject d) k = (case map_of d k of Some v \<Rightarrow> Inr v | None \<Rightarrow> Inl BundleMalformed)"
| "member _ k = Inl BundleMalformed"

fun bundle_values :: "nat \<Rightarrow> json list \<Rightarrow> profile_error + int list" where
  "bundle_values k [] = Inr []"
| "bundle_values k (v # vs) =
     (case v of
        JInt i \<Rightarrow>
          if 0 \<le> i \<and> i \<le> 0xFFFFFFFF
          then bind_res (bundle_values (Suc k) vs) (\<lambda>is. Inr (i # is))
          else Inl (BundleRange k)
      | _ \<Rightarrow> Inl (BundleNotInteger k))"

definition active_names :: "string list" where
  "active_names = [''SIGNAL_PHASE_INCREMENT'', ''SIGNAL_PHASE_INITIAL'', ''SIGNAL_AMPLITUDE_Q1_15'',
     ''NOISE_AMPLITUDE_Q1_15'', ''NOISE_SEED'', ''LO_PHASE_INCREMENT'', ''LO_PHASE_INITIAL'']"

definition bundle_id :: "json \<Rightarrow> profile_error + int" where
  "bundle_id doc =
     bind_res (member doc ''identity'') (\<lambda>identity.
     bind_res (member identity ''dsp_config_id'') (\<lambda>v.
     case v of
       JString t \<Rightarrow> (case int_base0 t of Some i \<Rightarrow> Inr i | None \<Rightarrow> Inl BundleMalformed)
     | _ \<Rightarrow> Inl BundleMalformed))"

definition configuration_bundle :: "json \<Rightarrow> profile_error + int \<times> int list" where
  "configuration_bundle doc =
     bind_res (bundle_id doc) (\<lambda>config_id.
     bind_res (member doc ''dsp'') (\<lambda>dsp.
     bind_res (member dsp ''active'') (\<lambda>active.
     bind_res (member doc ''acquisition'') (\<lambda>acquisition.
     bind_res (map_res (member active) active_names) (\<lambda>active_values.
     bind_res (map_res (member acquisition) [''frame_length_words'', ''frame_count'']) (\<lambda>geometry.
     if \<not> (1 \<le> config_id \<and> config_id \<le> 0xFFFFFFFFFFFFFFFF) then Inl (BundleRange 0)
     else
       bind_res (bundle_values 1 (active_values @ geometry)) (\<lambda>values. Inr (config_id, values))))))))"

definition configuration_command :: "jobject \<Rightarrow> string \<Rightarrow> profile_error + string list" where
  "configuration_command document control =
     (if get document ''format'' \<noteq> JString RESOLVED_FORMAT then Inl ResolvedFormat
      else
        bind_res (configuration_bundle (JObject document)) (\<lambda>(config_id, values).
        Inr ([control, ''config-apply'', hexadecimal config_id 64] @
             map (\<lambda>v. hexadecimal v 32) (take 7 values) @ map str_int (drop 7 values))))"

section \<open>Validation\<close>

text \<open>\<open>Decimal(v)\<close> inside the \<open>try\<close> that reports every failure as malformed.\<close>

definition requested_value :: "jobject \<Rightarrow> string \<Rightarrow> profile_error + rat" where
  "requested_value requested k =
     (case decimal_of (get requested k) of DecimalValue q \<Rightarrow> Inr q | _ \<Rightarrow> Inl RequestedMalformed)"

definition read_requested :: "jobject \<Rightarrow> profile_error + dsp_values" where
  "read_requested requested =
     bind_res (requested_value requested ''signal_frequency_hz'') (\<lambda>signal_frequency.
     bind_res (requested_value requested ''lo_frequency_hz'') (\<lambda>lo_frequency.
     bind_res (requested_value requested ''signal_phase_turns'') (\<lambda>signal_phase.
     bind_res (requested_value requested ''lo_phase_turns'') (\<lambda>lo_phase.
     bind_res (requested_value requested ''signal_amplitude'') (\<lambda>signal_amplitude.
     bind_res (requested_value requested ''noise_amplitude'') (\<lambda>noise_amplitude.
     case check_integer (get requested ''noise_seed'') 1 0xFFFF ''resolved noise seed'' of
       Inl e \<Rightarrow> Inl RequestedMalformed
     | Inr noise_seed \<Rightarrow>
         Inr \<lparr>vl_signal_frequency = signal_frequency, vl_lo_frequency = lo_frequency,
              vl_signal_phase = signal_phase, vl_lo_phase = lo_phase,
              vl_signal_amplitude = signal_amplitude, vl_noise_amplitude = noise_amplitude,
              vl_noise_seed = noise_seed\<rparr>))))))"

definition check_values :: "dsp_values \<Rightarrow> profile_error + unit" where
  "check_values v =
     (if \<not> (0 \<le> vl_signal_frequency v \<and> vl_signal_frequency v < nyquist_hz \<and>
            0 \<le> vl_lo_frequency v \<and> vl_lo_frequency v < nyquist_hz) then Inl FrequenciesOutside
      else if \<not> (0 \<le> vl_signal_phase v \<and> vl_signal_phase v < 1 \<and>
                0 \<le> vl_lo_phase v \<and> vl_lo_phase v < 1) then Inl PhasesOutside
      else if \<not> (0 \<le> vl_signal_amplitude v \<and> vl_signal_amplitude v \<le> 1 \<and>
                0 \<le> vl_noise_amplitude v \<and> vl_noise_amplitude v \<le> 1 \<and>
                round28 (vl_signal_amplitude v + vl_noise_amplitude v) \<le> 1) then Inl AmplitudesOutside
      else Inr ())"

text \<open>The active words and the realized frequencies, recomputed.\<close>

definition check_dsp :: "jobject \<Rightarrow> jobject \<Rightarrow> jobject \<Rightarrow> profile_error + dsp_values" where
  "check_dsp requested active realized =
     bind_res (read_requested requested) (\<lambda>values.
     bind_res (check_values values) (\<lambda>_.
     bind_res (ensure (py_eq (JObject active) (JObject (active_object values))) ActiveDiffers) (\<lambda>_.
     case (json_number (get active ''SIGNAL_PHASE_INCREMENT''), json_number (get active ''LO_PHASE_INCREMENT'')) of
       (Some s, Some l) \<Rightarrow>
         bind_res (ensure (py_eq (JObject realized) (JObject (realized_object s l))) RealizedDiffers) (\<lambda>_.
         Inr values)
     | _ \<Rightarrow> Inl ActiveDiffers)))"

definition check_acquisition :: "jobject \<Rightarrow> profile_error + unit" where
  "check_acquisition acquisition =
     bind_res (check_integer (get acquisition ''frame_length_words'') 1 262144 ''resolved frame length'') (\<lambda>frame_length.
     bind_res (check_integer (get acquisition ''frame_count'') 1 255 ''resolved frame count'') (\<lambda>frame_count.
     if get acquisition ''stream_mode'' \<noteq> JString ''dsp'' \<or>
        \<not> json_equals_int (get acquisition ''stream_mode_value'') 1 \<or>
        frame_length * frame_count > 1000000
     then Inl GeometryInvalid else Inr ()))"

definition resolved_id :: "jobject \<Rightarrow> profile_error + int" where
  "resolved_id identity =
     bind_res (case get identity ''dsp_config_id'' of
       JString t \<Rightarrow> (case int_base0 t of Some i \<Rightarrow> Inr i | None \<Rightarrow> Inl ConfigIdMalformed)
     | _ \<Rightarrow> Inl ConfigIdMalformed) (\<lambda>config_id.
     if \<not> (1 \<le> config_id \<and> config_id \<le> 0xFFFFFFFFFFFFFFFF) then Inl ConfigIdRange else Inr config_id)"

definition check_identities ::
    "json \<Rightarrow> jobject \<Rightarrow> jobject \<Rightarrow> jobject \<Rightarrow> jobject \<Rightarrow> int \<Rightarrow> profile_error + unit" where
  "check_identities contract identity active acquisition seq config_id =
     bind_res (dsp_identity contract (JObject active)) (\<lambda>dsp_digest.
     if get identity ''dsp_config_sha256'' \<noteq> JString dsp_digest \<or> config_id \<noteq> digest_id dsp_digest
     then Inl DspIdentityDiffers
     else
       bind_res (profile_identity dsp_digest (JObject acquisition) seq) (\<lambda>profile_digest.
       if get identity ''profile_sha256'' \<noteq> JString profile_digest then Inl ProfileIdentityDiffers
       else Inr ()))"

definition validate_resolved_profile :: "json \<Rightarrow> json \<Rightarrow> jobject \<Rightarrow> profile_error + jobject" where
  "validate_resolved_profile tables registers document =
     bind_res (check_object (JObject document) [''format'', ''name'', ''identity'', ''numerical_contract'', ''dsp'',
       ''acquisition'', ''sequence'', ''register_writes''] ''resolved profile'') (\<lambda>root.
     bind_res (ensure (get root ''format'' = JString RESOLVED_FORMAT) ResolvedFormat) (\<lambda>_.
     bind_res (check_object (get root ''identity'') [''profile_sha256'', ''dsp_config_sha256'', ''dsp_config_id'']
       ''resolved identity'') (\<lambda>identity.
     bind_res (check_object (get root ''dsp'') [''requested'', ''active'', ''realized''] ''resolved dsp'') (\<lambda>dsp.
     bind_res (check_object (get dsp ''requested'') request_keys ''resolved requested DSP'') (\<lambda>requested.
     bind_res (check_object (get dsp ''realized'') [''signal_frequency_hz'', ''lo_frequency_hz'',
       ''baseband_frequency_hz''] ''resolved realized DSP'') (\<lambda>realized.
     bind_res (check_object (get dsp ''active'') active_names ''resolved active DSP'') (\<lambda>active.
     bind_res (check_object (get root ''acquisition'') [''frame_length_words'', ''frame_count'', ''stream_mode'',
       ''stream_mode_value''] ''resolved acquisition'') (\<lambda>acquisition.
     bind_res (check_object (get root ''sequence'') [''source'', ''image_sha256'', ''payload_crc32'', ''event_count'',
       ''tick_hz''] ''resolved sequence'') (\<lambda>seq.
     bind_res (load_contracts tables registers) (\<lambda>(t, r).
     bind_res (numerical_contract t) (\<lambda>contract.
     bind_res (ensure (py_eq (get root ''numerical_contract'') (JObject contract)) ContractDiffers) (\<lambda>_.
     bind_res (check_dsp requested active realized) (\<lambda>values.
     bind_res (check_acquisition acquisition) (\<lambda>_.
     bind_res (resolved_id identity) (\<lambda>config_id.
     bind_res (check_identities (get root ''numerical_contract'') identity active acquisition seq config_id) (\<lambda>_.
     bind_res (register_writes active config_id r) (\<lambda>writes.
     bind_res (ensure (py_eq (get root ''register_writes'') writes) WritesDiffer) (\<lambda>_.
     bind_res (configuration_command root ''qcrate-control'') (\<lambda>_.
     Inr root)))))))))))))))))))"

definition load_resolved_profile :: "json \<Rightarrow> json \<Rightarrow> json \<Rightarrow> profile_error + jobject" where
  "load_resolved_profile tables registers parsed =
     bind_res (profile_load_json parsed) (validate_resolved_profile tables registers)"

end
