(* ===== verification/DecimalContext.thy ===== *)
theory DecimalContext
  imports Decimals
begin

text \<open>
  The rounding of the default \<open>decimal\<close> context: a value of at most 28 significant digits is kept,
  every result has at most 28 digits, and rounding twice changes nothing.
\<close>

lemma ten_powi_add: "(10 :: rat) powi a * 10 powi b = 10 powi (a + b)"
  by (simp add: power_int_add)

lemma ten_powi_nonneg: "0 \<le> k \<Longrightarrow> (10 :: rat) powi k = of_int (10 ^ nat k)"
  by (simp add: power_int_def)

lemma digit_count_bounds:
  "1 \<le> n \<Longrightarrow> 1 \<le> digit_count n \<and> 10 powi (digit_count n - 1) \<le> (of_int n :: rat) \<and>
     (of_int n :: rat) < 10 powi digit_count n"
proof (induction n rule: digit_count.induct)
  case (1 n)
  show ?case
  proof (cases "n < 10")
    case True
    then have "digit_count n = 1" by (subst digit_count.simps) simp
    then show ?thesis using 1(2) True by simp
  next
    case False
    define m c where "m = n div 10" and "c = digit_count m"
    have c: "digit_count n = c + 1" using False unfolding c_def m_def by (subst digit_count.simps) simp
    have "1 \<le> m" using False unfolding m_def by linarith
    then have ih: "1 \<le> c" "10 powi (c - 1) \<le> (of_int m :: rat)" "(of_int m :: rat) < 10 powi c"
      using 1(1)[OF False] unfolding c_def m_def by blast+
    have p: "(10 :: rat) powi c = 10 * 10 powi (c - 1)" "(10 :: rat) powi (c + 1) = 10 * 10 powi c"
      using ten_powi_add[of 1 "c - 1"] ten_powi_add[of 1 c] by (simp_all add: add.commute)
    have pc: "(10 :: rat) powi c = of_int (10 ^ nat c)" using ih(1) by (intro ten_powi_nonneg) simp
    then have "m + 1 \<le> 10 ^ nat c" using ih(3) by (metis of_int_less_iff zless_imp_add1_zle)
    then have "(of_int (m + 1) :: rat) \<le> of_int (10 ^ nat c)" by (simp only: of_int_le_iff)
    then have up: "(of_int m :: rat) + 1 \<le> 10 powi c" unfolding pc by simp
    have "10 * m \<le> n" "n + 1 \<le> 10 * (m + 1)" unfolding m_def by presburger+
    then have "(of_int (10 * m) :: rat) \<le> of_int n" "(of_int (n + 1) :: rat) \<le> of_int (10 * (m + 1))"
      by (simp_all only: of_int_le_iff)
    then have "10 * (of_int m :: rat) \<le> of_int n" "(of_int n :: rat) + 1 \<le> 10 * (of_int m + 1)" by simp_all
    then have "10 * 10 powi (c - 1) \<le> (of_int n :: rat)" using ih(2) by linarith
    moreover have "(of_int n :: rat) + 1 \<le> 10 * 10 powi c"
      using \<open>(of_int n :: rat) + 1 \<le> 10 * (of_int m + 1)\<close> mult_left_mono[OF up, of 10] by simp
    ultimately have "10 * 10 powi (c - 1) \<le> (of_int n :: rat)" "(of_int n :: rat) < 10 * 10 powi c"
      by simp_all
    then have "10 powi c \<le> (of_int n :: rat)" "(of_int n :: rat) < 10 powi (c + 1)"
      unfolding p by (simp_all only:)
    then show ?thesis using ih(1) c by simp
  qed
qed

lemma scale10_powi: "scale10 m e = m * 10 powi e"
proof (cases "e < 0")
  case True
  then obtain k where k: "e = - int k" by (metis nat_0_le neg_0_le_iff_le order_less_imp_le minus_minus)
  have "(10 :: rat) powi (- int k) = inverse (10 ^ k)" by (simp only: power_int_minus power_int_of_nat)
  then show ?thesis using True unfolding k by (simp add: scale10_def divide_inverse)
next
  case False
  then show ?thesis unfolding scale10_def power_int_def by simp
qed

definition leading :: "rat \<Rightarrow> int" where
  "leading m = (let (n, d) = quotient_of m; e = digit_count n - digit_count d - 28
     in if scale10 m (- e) < 10 ^ 28 then e else e + 1)"

lemma round28_leading:
  "round28 x = (let e = leading \<bar>x\<bar>; r = of_int (half_even (\<bar>x\<bar> * 10 powi (- e))) * 10 powi e
     in if x < 0 then - r else r)"
  by (simp add: round28_def leading_def Let_def split_def scale10_powi)

lemma ten_down: "10 * b = a \<Longrightarrow> \<not> a < 10 ^ 28 \<Longrightarrow> a < 10 ^ 29 \<Longrightarrow> 10 ^ 27 \<le> b \<and> b < (10 ^ 28 :: rat)"
  by auto

lemma leading_range:
  assumes "0 < m"
  shows "10 ^ 27 \<le> m * 10 powi (- leading m)" "m * 10 powi (- leading m) < 10 ^ 28"
proof -
  obtain n d where q: "quotient_of m = (n, d)" by (cases "quotient_of m")
  have md: "m = of_int n / of_int d" by (rule quotient_of_div[OF q])
  have d: "1 \<le> d" using quotient_of_denom_pos[OF q] by simp
  then have n: "1 \<le> n" using assms md by (simp add: zero_less_divide_iff)
  let ?a = "digit_count n" and ?b = "digit_count d"
  let ?e = "?a - ?b - 28"
  have a: "10 powi (?a - 1) \<le> (of_int n :: rat)" "(of_int n :: rat) < 10 powi ?a"
    and b: "10 powi (?b - 1) \<le> (of_int d :: rat)" "(of_int d :: rat) < 10 powi ?b"
    using digit_count_bounds[OF n] digit_count_bounds[OF d] by blast+
  have pos: "(0 :: rat) < of_int d" "(0::rat) < of_int n" using d n by simp_all
  have "m < 10 powi ?a / 10 powi (?b - 1)"
    unfolding md using a(2) b(1) pos by (intro frac_less) auto
  then have up: "m < 10 powi (?a - ?b + 1)" by (simp add: power_int_diff power_int_add algebra_simps)
  have "10 powi (?a - 1) / 10 powi ?b \<le> m"
    unfolding md using a(1) b(2) pos by (intro frac_le) auto
  then have low: "10 powi (?a - ?b - 1) \<le> m" by (simp add: power_int_diff power_int_add algebra_simps)
  have e: "leading m = (if m * 10 powi (- ?e) < 10 ^ 28 then ?e else ?e + 1)"
    by (simp add: leading_def q Let_def scale10_powi)
  have s1: "(10 :: rat) powi (?a - ?b - 1) * 10 powi (- ?e) = 10 ^ 27"
  proof -
    have "(10 :: rat) powi (?a - ?b - 1) * 10 powi (- ?e) = 10 powi ((?a - ?b - 1) + (- ?e))"
      by (rule ten_powi_add)
    also have "\<dots> = 10 powi 27" by simp
    finally show ?thesis by simp
  qed
  have s2: "(10 :: rat) powi (?a - ?b + 1) * 10 powi (- ?e) = 10 ^ 29"
  proof -
    have "(10 :: rat) powi (?a - ?b + 1) * 10 powi (- ?e) = 10 powi ((?a - ?b + 1) + (- ?e))"
      by (rule ten_powi_add)
    also have "\<dots> = 10 powi 29" by simp
    finally show ?thesis by simp
  qed
  have p: "(0 :: rat) < 10 powi (- ?e)" by simp
  have l: "10 ^ 27 \<le> m * 10 powi (- ?e)" using mult_right_mono[OF low less_imp_le[OF p]] unfolding s1 .
  have u: "m * 10 powi (- ?e) < 10 ^ 29" using mult_strict_right_mono[OF up p] unfolding s2 .
  have t: "10 * (m * 10 powi (- (?e + 1))) = m * 10 powi (- ?e)"
  proof -
    have "1 + - (?e + 1) = - ?e" by simp
    then have "(10 :: rat) powi 1 * 10 powi (- (?e + 1)) = 10 powi (- ?e)"
      using ten_powi_add[of 1 "- (?e + 1)"] by (simp only:)
    then show ?thesis by (simp only: power_int_1_right mult.left_commute[of _ m])
  qed
  show "10 ^ 27 \<le> m * 10 powi (- leading m)" "m * 10 powi (- leading m) < 10 ^ 28"
  proof (atomize (full), cases "m * 10 powi (- ?e) < 10 ^ 28")
    case True
    then show "10 ^ 27 \<le> m * 10 powi (- leading m) \<and> m * 10 powi (- leading m) < 10 ^ 28"
      using l unfolding e by (simp only: if_True simp_thms)
  next
    case False
    then have "leading m = ?e + 1" unfolding e by (simp only: if_False)
    moreover have "10 ^ 27 \<le> m * 10 powi (- (?e + 1)) \<and> m * 10 powi (- (?e + 1)) < 10 ^ 28"
      by (rule ten_down[OF t False u])
    ultimately show "10 ^ 27 \<le> m * 10 powi (- leading m) \<and> m * 10 powi (- leading m) < 10 ^ 28"
      by (simp only:)
  qed
qed

lemma half_even_of_int [simp]: "half_even (of_int i) = i"
  by (simp add: half_even_def)

lemma half_even_mono_bounds: "of_int a \<le> q \<Longrightarrow> q \<le> of_int b \<Longrightarrow> a \<le> half_even q \<and> half_even q \<le> b"
proof -
  assume q: "of_int a \<le> q" "q \<le> of_int b"
  have a: "a \<le> \<lfloor>q\<rfloor>" using q(1) by (simp add: le_floor_iff)
  show ?thesis
  proof (cases "q = of_int b")
    case True
    then show ?thesis using q(1) by simp
  next
    case False
    then have "\<lfloor>q\<rfloor> + 1 \<le> b" using q(2) by linarith
    then show ?thesis using a by (auto simp: half_even_def Let_def)
  qed
qed

lemma round28_minus: "round28 (- x) = - round28 x"
proof (cases "x = 0")
  case True
  have "half_even 0 = 0" using half_even_of_int[of 0] by simp
  then show ?thesis using True by (simp add: round28_leading Let_def)
qed (auto simp: round28_leading Let_def)

lemma round28_0 [simp]: "round28 0 = 0"
  using round28_minus[of 0] by simp

lemma round28_exact:
  assumes "x = of_int m * 10 powi k" "\<bar>m\<bar> < 10 ^ 28"
  shows "round28 x = x"
proof -
  have pos: "round28 y = y" if y: "y = of_int i * 10 powi k" "0 < i" "i < 10 ^ 28" for y i
  proof -
    let ?e = "leading y"
    have y0: "0 < y" using y by simp
    have "(of_int i :: rat) < 10 ^ 28" using y(3) by (metis of_int_less_iff of_int_numeral of_int_power)
    then have "y < 10 ^ 28 * 10 powi k" unfolding y(1) by (simp add: mult_strict_right_mono)
    moreover have "10 ^ 27 * 10 powi ?e \<le> y"
      using leading_range(1)[OF y0] by (simp add: power_int_minus field_simps)
    ultimately have "(10 :: rat) ^ 27 * 10 powi ?e < 10 ^ 28 * 10 powi k" by linarith
    then have "(10 :: rat) powi ?e < 10 powi (k + 1)" by (simp add: power_int_add)
    then have "?e \<le> k" by (metis linorder_not_less one_le_numeral power_int_increasing zless_add1_eq leD linorder_le_less_linear order_le_less zle_add1_eq_le)
    then have "(10 :: rat) powi k * 10 powi (- ?e) = of_int (10 ^ nat (k - ?e))"
      using ten_powi_nonneg[of "k - ?e"] by (simp add: ten_powi_add)
    then have "y * 10 powi (- ?e) = of_int (i * 10 ^ nat (k - ?e))" by (simp add: y(1))
    then have "of_int (half_even (y * 10 powi (- ?e))) = y * 10 powi (- ?e)" by (metis half_even_of_int)
    then show ?thesis using y0 ten_powi_add[of "- ?e" ?e] by (simp add: round28_leading Let_def)
  qed
  consider "m = 0" | "0 < m" | "m < 0" by linarith
  then show ?thesis
  proof cases
    case 3
    have "round28 (- x) = - x" using pos[of "- x" "- m"] 3 assms by simp
    then show ?thesis by (simp add: round28_minus)
  qed (use assms pos[of x m] in simp_all)
qed

lemma round28_digits: "\<exists>m k. round28 x = of_int m * 10 powi k \<and> \<bar>m\<bar> < 10 ^ 28"
proof -
  have pos: "\<exists>m k. round28 y = of_int m * 10 powi k \<and> \<bar>m\<bar> < 10 ^ 28" if y: "0 < y" for y
  proof -
    let ?q = "y * 10 powi (- leading y)" and ?e = "leading y"
    have r: "round28 y = of_int (half_even ?q) * 10 powi ?e" using y by (simp add: round28_leading Let_def)
    have h: "0 \<le> half_even ?q" "half_even ?q \<le> 10 ^ 28"
      using half_even_mono_bounds[of 0 ?q "10 ^ 28"] leading_range[OF y] y by simp_all
    show ?thesis
    proof (cases "half_even ?q = 10 ^ 28")
      case True
      then have "round28 y = of_int 1 * 10 powi (28 + ?e)" using r by (simp add: power_int_add)
      then show ?thesis by (intro exI[of _ 1] exI[of _ "28 + ?e"]) simp
    next
      case False
      then show ?thesis using r h by (intro exI[of _ "half_even ?q"] exI[of _ ?e]) simp
    qed
  qed
  consider "x = 0" | "0 < x" | "x < 0" by linarith
  then show ?thesis
  proof cases
    case 1
    then show ?thesis by (intro exI[of _ 0]) simp
  next
    case 3
    then obtain m k where mk: "round28 (- x) = of_int m * 10 powi k" "\<bar>m\<bar> < 10 ^ 28" using pos[of "- x"] by auto
    then have "round28 x = of_int (- m) * 10 powi k" by (simp add: round28_minus)
    then show ?thesis using mk(2) by (metis abs_minus_cancel)
  qed (use pos in blast)
qed

lemma round28_idem [simp]: "round28 (round28 x) = round28 x"
  using round28_digits[of x] round28_exact by metis

end
