(* ===== verification/ProfileLaws.thy ===== *)
theory ProfileLaws
  imports Profile DecimalContext
begin

text \<open>
  What the profile compiler promises: the words it derives are in range, its requested texts read
  back to the values they were written from, and every part of a compiled profile passes the
  check the validator makes of it.
\<close>

section \<open>Checks of fields\<close>

lemma case_json_Inr_iff [result_iff]:
  "(case v of JObject d \<Rightarrow> f d | _ \<Rightarrow> Inl e) = Inr y \<longleftrightarrow> (\<exists>d. v = JObject d \<and> f d = Inr y)"
  "(case v of JArray xs \<Rightarrow> g xs | _ \<Rightarrow> Inl e) = Inr y \<longleftrightarrow> (\<exists>xs. v = JArray xs \<and> g xs = Inr y)"
  "(case v of JString s \<Rightarrow> h s | _ \<Rightarrow> Inl e) = Inr y \<longleftrightarrow> (\<exists>s. v = JString s \<and> h s = Inr y)"
  by (cases v; simp)+

lemma case_option_Inr_iff [result_iff]:
  "(case m of Some x \<Rightarrow> f x | None \<Rightarrow> Inl e) = Inr y \<longleftrightarrow> (\<exists>x. m = Some x \<and> f x = Inr y)"
  by (cases m) simp_all

lemma check_object_Inr_iff [result_iff]:
  "check_object v required context = Inr d \<longleftrightarrow> v = JObject d \<and> set (keys_of d) = set required"
  by (auto simp: check_object_def Let_def filter_empty_conv split: json.splits)

lemma check_object_Inr: "set (keys_of d) = set required \<Longrightarrow> check_object (JObject d) required context = Inr d"
  by (simp add: check_object_Inr_iff)

lemma check_integer_Inr_iff [result_iff]:
  "check_integer v lo hi context = Inr i \<longleftrightarrow> v = JInt i \<and> lo \<le> i \<and> i \<le> hi"
  by (cases v) auto

lemma check_decimal_Inr_iff [result_iff]:
  "check_decimal v lo hi inclusive context = Inr d \<longleftrightarrow> decimal_of_number v = Some d \<and>
     lo \<le> dec_value d \<and> (if inclusive then dec_value d \<le> hi else dec_value d < hi)"
  by (auto simp: check_decimal_def Let_def split: option.splits)

lemma profile_load_json_Inr_iff [result_iff]:
  "profile_load_json v = Inr d \<longleftrightarrow> v = JObject d \<and> hook ProfileDuplicateKey (JObject d) = Inr (JObject d)"
proof -
  have "profile_load_json v = Inr d \<longleftrightarrow> hook ProfileDuplicateKey v = Inr (JObject d)"
    unfolding profile_load_json_def bind_res_Inr_iff case_json_Inr_iff by simp
  then show ?thesis using hook_same(1) by blast
qed

section \<open>Words\<close>

lemma round28_nonneg: "0 \<le> x \<Longrightarrow> 0 \<le> round28 x"
proof -
  assume "0 \<le> x"
  moreover have "0 \<le> half_even q" if "0 \<le> q" for q
    using that half_even_mono_bounds[of 0 q "\<lceil>q\<rceil>"] by simp
  ultimately show ?thesis by (simp add: round28_leading Let_def)
qed

lemma half_up_nonneg: "0 \<le> x \<Longrightarrow> 0 \<le> half_up x"
  using half_up_mono[of 0 x] half_up_of_int[of 0] by simp

lemma phase_word_range: "0 \<le> phase_word v s \<and> phase_word v s < 2 ^ 32"
proof -
  have "phase_word v s = take_bit 32 (half_up (round28 (round28 (v * of_int PHASE_MODULUS) / of_int s)))"
    by (simp add: phase_word_def Let_def take_bit_eq_mask mask_eq_exp_minus_1)
  moreover have "take_bit 32 (half_up (round28 (round28 (v * of_int PHASE_MODULUS) / of_int s))) < 2 ^ 32"
    by (rule take_bit_int_less_exp)
  ultimately show ?thesis by simp
qed

lemma q1_15_range: "0 \<le> v \<Longrightarrow> 0 \<le> q1_15 v \<and> q1_15 v \<le> 0x7FFF"
  using half_up_nonneg[OF round28_nonneg, of "v * 2 ^ 15"] by (simp add: q1_15_def Let_def)

text \<open>The DSP model derives the same words.\<close>

lemma phase_word_frequency: "phase_word v SAMPLE_RATE_HZ = frequency_to_phase_word v SAMPLE_RATE_HZ"
  by (simp add: phase_word_def frequency_to_phase_word_def PHASE_MODULUS_def)

lemma phase_word_turns: "phase_word v 1 = turns_to_phase_word v"
  by (simp add: phase_word_def turns_to_phase_word_def PHASE_MODULUS_def)

lemma q1_15_fixed: "q1_15 v = decimal_to_fixed v ADC_BITS ADC_FRAC_BITS"
  by (simp add: q1_15_def decimal_to_fixed_def saturate_def ADC_BITS_def ADC_FRAC_BITS_def Let_def)

section \<open>Identifiers\<close>

lemma digest_id_range: "0 \<le> digest_id s \<and> digest_id s < 2 ^ 64"
proof (cases "read_nat 16 (take 16 s)")
  case None
  then show ?thesis by (simp add: digest_id_def)
next
  case (Some n)
  have "n < 16 ^ length (take 16 s)" by (rule read_nat_bound[OF Some])
  also have "(16 :: nat) ^ length (take 16 s) \<le> 16 ^ 16" by (intro power_increasing) auto
  finally show ?thesis by (simp add: digest_id_def Some)
qed

lemma int_base0_hexadecimal: "0 \<le> i \<Longrightarrow> int_base0 (hexadecimal i bits) = Some i"
  using int_base0_hex[of "bits div 4" "nat i"] by (simp add: hexadecimal_def)

section \<open>What a compiled part satisfies\<close>

lemma compile_dsp_Inr:
  assumes "compile_dsp v = Inr rq"
  shows "check_values (request_values rq) = Inr ()" "1 \<le> rq_noise_seed rq" "rq_noise_seed rq \<le> 0xFFFF"
    "read_requested (requested_object rq) = Inr (request_values rq)"
proof -
  have c: "check_values (request_values rq) = Inr () \<and> 1 \<le> rq_noise_seed rq \<and> rq_noise_seed rq \<le> 0xFFFF"
    using assms unfolding compile_dsp_def
    by (auto simp: result_iff check_values_def request_values_def not_less)
  then show "check_values (request_values rq) = Inr ()" "1 \<le> rq_noise_seed rq" "rq_noise_seed rq \<le> 0xFFFF"
    by blast+
  show "read_requested (requested_object rq) = Inr (request_values rq)"
    using c by (simp add: read_requested_def requested_object_def requested_value_def get_def
        decimal_text_def decimal_string_reads request_values_def)
qed

lemma active_py_eq: "py_eq (JObject (active_object v)) (JObject (active_object v))"
  by (simp add: active_object_def active_words_def)

lemma realized_py_eq: "py_eq (JObject (realized_object s l)) (JObject (realized_object s l))"
  by (simp add: realized_object_def Let_def)

lemma active_get:
  "get (active_object v) ''SIGNAL_PHASE_INCREMENT'' = JInt (phase_word (vl_signal_frequency v) SAMPLE_RATE_HZ)"
  "get (active_object v) ''LO_PHASE_INCREMENT'' = JInt (phase_word (vl_lo_frequency v) SAMPLE_RATE_HZ)"
  by (simp_all add: active_object_def active_words_def get_def)

lemma check_dsp_compiled:
  assumes "compile_dsp v = Inr rq"
  shows "check_dsp (requested_object rq) (active_object (request_values rq))
    (realized_object (of_int (phase_word (vl_signal_frequency (request_values rq)) SAMPLE_RATE_HZ))
       (of_int (phase_word (vl_lo_frequency (request_values rq)) SAMPLE_RATE_HZ))) = Inr (request_values rq)"
  by (simp add: check_dsp_def compile_dsp_Inr[OF assms] active_py_eq realized_py_eq active_get ensure_def
      del: py_eq.simps)

lemma compile_acquisition_Inr:
  assumes "compile_acquisition v = Inr a"
  obtains l n where "a = [(''frame_length_words'', JInt l), (''frame_count'', JInt n),
      (''stream_mode'', JString ''dsp''), (''stream_mode_value'', JInt 1)]"
    and "1 \<le> l" "l \<le> 262144" "1 \<le> n" "n \<le> 255" "l * n \<le> 1000000"
  using assms unfolding compile_acquisition_def by (auto simp: result_iff)

lemma check_acquisition_compiled:
  assumes "compile_acquisition v = Inr a"
  shows "check_acquisition a = Inr ()"
  by (rule compile_acquisition_Inr[OF assms]) (simp add: check_acquisition_def get_def)

lemma compile_source_Inr:
  assumes "compile_source repo v = Inr s"
  obtains p i c n where "s = [(''source'', JString p), (''image_sha256'', JString i), (''payload_crc32'', JInt c),
      (''event_count'', JInt n), (''tick_hz'', JInt TICK_HZ)]"
proof -
  obtain path where "resolve_sequence repo path = Inr s"
    using assms unfolding compile_source_def bind_res_Inr_iff case_json_Inr_iff if_Inl_Inr_iff by blast
  then show ?thesis using that
    by (auto simp: resolve_sequence_def Let_def split: source_file.splits sum.splits)
qed

text \<open>The register writes of integer values are comparable to themselves.\<close>

lemma register_write_py_eq:
  assumes "register_write values page field = Inr w" "\<And>k v. map_of values k = Some v \<Longrightarrow> is_JInt v"
  shows "py_eq w w"
proof -
  obtain n v p where w: "w = JObject [(''name'', JString n), (''offset'', JInt p), (''value'', v)]" "map_of values n = Some v"
    using assms(1) unfolding register_write_def lookup_key_def bind_res_Inr_iff case_json_Inr_iff
      case_option_Inr_iff if_Inl_Inr_iff by blast
  moreover have "is_JInt v" using assms(2) w(2) .
  ultimately show ?thesis by (cases v) simp_all
qed

lemma py_eq_list_refl: "(\<And>x. x \<in> set xs \<Longrightarrow> py_eq x x) \<Longrightarrow> py_eq_list xs xs"
  by (induction xs) auto

lemma register_writes_py_eq:
  assumes "register_writes active config_id registers = Inr w" "list_all (\<lambda>(k, v). is_JInt v) active"
  shows "py_eq w w"
proof -
  let ?env = "active @ [(''CONFIG_ID_LOW'', JInt (config_id AND 0xFFFFFFFF)),
      (''CONFIG_ID_HIGH'', JInt (drop_bit 32 config_id))]"
  obtain page fs ws where w: "w = JArray ws" "map_res (register_write ?env page) fs = Inr ws"
    using assms(1) unfolding register_writes_def Let_def bind_res_Inr_iff case_json_Inr_iff by blast
  have i: "is_JInt v" if "map_of ?env k = Some v" for k v
    using map_of_SomeD[OF that] assms(2) by (auto simp: list_all_iff)
  have "py_eq x x" if "x \<in> set ws" for x
  proof -
    obtain f where "register_write ?env page f = Inr x"
      using w(2) \<open>x \<in> set ws\<close> by (auto simp: map_res_Inr_iff list_all2_conv_all_nth in_set_conv_nth)
    then show ?thesis using i by (rule register_write_py_eq)
  qed
  then show ?thesis using w(1) by (simp add: py_eq_list_refl)
qed

section \<open>The numerical contract\<close>

lemma hook_pairs_member:
  "hook_pairs dup d = Inr d' \<Longrightarrow> map_of d k = Some v \<Longrightarrow> \<exists>w. hook dup v = Inr w"
  by (induction d arbitrary: d') (auto simp: result_iff split: if_splits)

lemma load_contracts_Inr:
  assumes "load_contracts tables registers = Inr (t, r)"
  shows "hook ProfileDuplicateKey (JObject t) = Inr (JObject t)" "tables = JObject t" "registers = JObject r"
  using assms unfolding load_contracts_def bind_res_Inr_iff if_Inl_Inr_iff profile_load_json_Inr_iff by auto

lemma numerical_contract_Inr:
  assumes "numerical_contract t = Inr c"
  obtains x y z where "map_of t ''fir_taps'' = Some x" "map_of t ''fir_sha256'' = Some y" "map_of t ''sine_sha256'' = Some z"
    and "c = [(''format'', JString ''qcrate-dsp-v1''), (''sample_rate_hz'', JInt SAMPLE_RATE_HZ),
      (''output_sample_rate_hz'', JInt (SAMPLE_RATE_HZ div int DECIMATION)), (''decimation'', JInt (int DECIMATION)),
      (''phase_bits'', JInt (int PHASE_BITS)), (''amplitude_format'', JString ''signed-q1.15''),
      (''mixer_format'', JString ''signed-q1.17''), (''coefficient_format'', JString ''signed-q1.17''),
      (''output_format'', JString ''complex-signed-q1.15''), (''rounding'', JString ''nearest-ties-away-from-zero''),
      (''overflow'', JString ''signed-saturation''), (''fir_taps'', x), (''fir_sha256'', y), (''sine_sha256'', z)]"
  using assms unfolding numerical_contract_def lookup_key_def bind_res_Inr_iff case_option_Inr_iff by blast

lemma contract_py_eq:
  assumes "load_contracts tables registers = Inr (t, r)" "numerical_contract t = Inr c"
    and "dsp_identity (JObject c) a = Inr digest"
  shows "py_eq (JObject c) (JObject c)"
proof (rule numerical_contract_Inr[OF assms(2)])
  fix x y z
  assume m: "map_of t ''fir_taps'' = Some x" "map_of t ''fir_sha256'' = Some y" "map_of t ''sine_sha256'' = Some z"
    and c: "c = [(''format'', JString ''qcrate-dsp-v1''), (''sample_rate_hz'', JInt SAMPLE_RATE_HZ),
      (''output_sample_rate_hz'', JInt (SAMPLE_RATE_HZ div int DECIMATION)), (''decimation'', JInt (int DECIMATION)),
      (''phase_bits'', JInt (int PHASE_BITS)), (''amplitude_format'', JString ''signed-q1.15''),
      (''mixer_format'', JString ''signed-q1.17''), (''coefficient_format'', JString ''signed-q1.17''),
      (''output_format'', JString ''complex-signed-q1.15''), (''rounding'', JString ''nearest-ties-away-from-zero''),
      (''overflow'', JString ''signed-saturation''), (''fir_taps'', x), (''fir_sha256'', y), (''sine_sha256'', z)]"
  obtain t' where t': "hook_pairs ProfileDuplicateKey t = Inr t'"
    using load_contracts_Inr(1)[OF assms(1)] by (auto simp: result_iff)
  have "json_text (JObject c) \<noteq> None"
    using assms(3) by (auto simp: dsp_identity_def json_sha256_def canonical_bytes_def result_iff bind_eq_Some_conv)
  then have tx: "json_text x \<noteq> None" "json_text y \<noteq> None" "json_text z \<noteq> None"
    by (auto simp: c bind_eq_Some_conv)
  have "py_eq x x" "py_eq y y" "py_eq z z"
    using hook_pairs_member[OF t' m(1)] hook_pairs_member[OF t' m(2)] hook_pairs_member[OF t' m(3)]
      py_eq_refl(1) tx by blast+
  then show ?thesis by (simp add: c)
qed

section \<open>A compiled profile\<close>

lemma compile_profile_Inr:
  assumes "compile_profile repo tables registers parsed = Inr r"
  obtains document rq acq seq t g contract where
    "case get document ''name'' of JString n \<Rightarrow> 1 \<le> length n \<and> length n \<le> 128 | _ \<Rightarrow> False"
    and "compile_dsp (get document ''dsp'') = Inr rq"
    and "compile_acquisition (get document ''acquisition'') = Inr acq"
    and "compile_source repo (get document ''sequence'') = Inr seq"
    and "load_contracts tables registers = Inr (t, g)" and "numerical_contract t = Inr contract"
    and "resolve_profile (get document ''name'') rq acq seq contract g = Inr r"
  using assms unfolding compile_profile_def bind_res_Inr_iff split_paired_Ex prod.case ensure_Inr_iff
  by (elim exE conjE) (rule that, assumption+)

lemma resolve_profile_Inr:
  assumes "resolve_profile name rq acq seq contract g = Inr r"
  obtains digest profile_digest writes where
    "dsp_identity (JObject contract) (JObject (active_object (request_values rq))) = Inr digest"
    and "profile_identity digest (JObject acq) seq = Inr profile_digest"
    and "register_writes (active_object (request_values rq)) (digest_id digest) g = Inr writes"
    and "r = [(''format'', JString RESOLVED_FORMAT), (''name'', name),
       (''identity'', JObject [(''profile_sha256'', JString profile_digest),
          (''dsp_config_sha256'', JString digest), (''dsp_config_id'', JString (hexadecimal (digest_id digest) 64))]),
       (''numerical_contract'', JObject contract),
       (''dsp'', JObject [(''requested'', JObject (requested_object rq)),
          (''active'', JObject (active_object (request_values rq))),
          (''realized'', JObject (realized_object
             (of_int (phase_word (vl_signal_frequency (request_values rq)) SAMPLE_RATE_HZ))
             (of_int (phase_word (vl_lo_frequency (request_values rq)) SAMPLE_RATE_HZ))))]),
       (''acquisition'', JObject acq), (''sequence'', JObject seq), (''register_writes'', writes)]"
  using assms unfolding resolve_profile_def Let_def bind_res_Inr_iff by blast

end
