(* ===== verification/ProfileChecks.thy ===== *)
theory ProfileChecks
  imports ProfileLaws DspRun
begin

text \<open>
  The compiler and the validator of experiment profiles agree, the DSP model accepts what the
  compiler produces, and the configuration command carries the resolved words.
\<close>

section \<open>Keys of a compiled profile\<close>

lemma compiled_keys:
  "set (keys_of (requested_object rq)) = set request_keys"
  "set (keys_of (active_object v)) = set active_names"
  "set (keys_of (realized_object s l)) = set [''signal_frequency_hz'', ''lo_frequency_hz'', ''baseband_frequency_hz'']"
  by (auto simp: requested_object_def request_keys_def active_object_def active_words_def active_names_def
      realized_object_def Let_def)

lemma active_members: "map_res (member (JObject (active_object v))) active_names = Inr (map JInt (map snd (active_words v)))"
  by (simp add: active_object_def active_words_def active_names_def)

section \<open>The command\<close>

lemma bundle_values_ints:
  "bundle_values k vs = Inr is \<longleftrightarrow> vs = map JInt is \<and> (\<forall>i \<in> set is. 0 \<le> i \<and> i \<le> 0xFFFFFFFF)"
proof (induction vs arbitrary: k "is")
  case (Cons v vs)
  show ?case
  proof (cases v)
    case (JInt i)
    then show ?thesis by (cases "is") (auto simp: result_iff Cons.IH)
  qed auto
qed auto

lemma active_words_range:
  assumes "check_values v = Inr ()" "1 \<le> vl_noise_seed v" "vl_noise_seed v \<le> 0xFFFF"
  shows "\<forall>i \<in> snd ` set (active_words v). 0 \<le> i \<and> i \<le> 0xFFFFFFFF"
proof -
  have a: "0 \<le> vl_signal_amplitude v" "0 \<le> vl_noise_amplitude v"
    using assms(1) by (simp_all add: check_values_def split: if_splits)
  have "phase_word w s \<le> 0xFFFFFFFF" for w s using phase_word_range[of w s] by simp
  then show ?thesis
    using assms(2,3) phase_word_range q1_15_range[OF a(1)] q1_15_range[OF a(2)]
    by (simp add: active_words_def)
qed

text \<open>A resolved profile by its parts.\<close>

definition resolved_parts ::
    "json \<Rightarrow> string \<Rightarrow> string \<Rightarrow> jobject \<Rightarrow> dsp_request \<Rightarrow> jobject \<Rightarrow> jobject \<Rightarrow> json \<Rightarrow> jobject" where
  "resolved_parts name digest profile_digest contract rq acq seq writes =
     [(''format'', JString RESOLVED_FORMAT), (''name'', name),
       (''identity'', JObject [(''profile_sha256'', JString profile_digest),
          (''dsp_config_sha256'', JString digest), (''dsp_config_id'', JString (hexadecimal (digest_id digest) 64))]),
       (''numerical_contract'', JObject contract),
       (''dsp'', JObject [(''requested'', JObject (requested_object rq)),
          (''active'', JObject (active_object (request_values rq))),
          (''realized'', JObject (realized_object
             (of_int (phase_word (vl_signal_frequency (request_values rq)) SAMPLE_RATE_HZ))
             (of_int (phase_word (vl_lo_frequency (request_values rq)) SAMPLE_RATE_HZ))))]),
       (''acquisition'', JObject acq), (''sequence'', JObject seq), (''register_writes'', writes)]"

lemma resolved_get:
  "get (resolved_parts n d p c rq a s w) ''format'' = JString RESOLVED_FORMAT"
  "get (resolved_parts n d p c rq a s w) ''identity'' =
     JObject [(''profile_sha256'', JString p), (''dsp_config_sha256'', JString d),
       (''dsp_config_id'', JString (hexadecimal (digest_id d) 64))]"
  "get (resolved_parts n d p c rq a s w) ''numerical_contract'' = JObject c"
  "get (resolved_parts n d p c rq a s w) ''dsp'' =
     JObject [(''requested'', JObject (requested_object rq)), (''active'', JObject (active_object (request_values rq))),
       (''realized'', JObject (realized_object
             (of_int (phase_word (vl_signal_frequency (request_values rq)) SAMPLE_RATE_HZ))
             (of_int (phase_word (vl_lo_frequency (request_values rq)) SAMPLE_RATE_HZ))))]"
  "get (resolved_parts n d p c rq a s w) ''acquisition'' = JObject a"
  "get (resolved_parts n d p c rq a s w) ''sequence'' = JObject s"
  "get (resolved_parts n d p c rq a s w) ''register_writes'' = w"
  by (simp_all add: resolved_parts_def get_def)

lemma resolved_member:
  "k \<in> {''identity'', ''dsp'', ''acquisition''} \<Longrightarrow>
     member (JObject (resolved_parts n d p c rq a s w)) k = Inr (get (resolved_parts n d p c rq a s w) k)"
  by (auto simp: resolved_parts_def get_def)

definition command_words :: "string \<Rightarrow> int \<Rightarrow> int list \<Rightarrow> int \<Rightarrow> int \<Rightarrow> string list" where
  "command_words control config_id words frame_length frame_count =
     [control, ''config-apply'', hexadecimal config_id 64] @ map (\<lambda>v. hexadecimal v 32) words @
     [str_int frame_length, str_int frame_count]"

lemma resolved_command:
  assumes "compile_dsp v = Inr rq" "digest_id d \<noteq> 0"
    and a: "a = [(''frame_length_words'', JInt l), (''frame_count'', JInt n),
      (''stream_mode'', JString ''dsp''), (''stream_mode_value'', JInt 1)]"
      "1 \<le> l" "l \<le> 262144" "1 \<le> n" "n \<le> 255"
  shows "configuration_command (resolved_parts nm d p c rq a s w) control =
    Inr (command_words control (digest_id d) (map snd (active_words (request_values rq))) l n)"
proof -
  let ?r = "resolved_parts nm d p c rq a s w" and ?words = "map snd (active_words (request_values rq))"
  have seed: "1 \<le> vl_noise_seed (request_values rq)" "vl_noise_seed (request_values rq) \<le> 0xFFFF"
    using compile_dsp_Inr(2,3)[OF assms(1)] by (simp_all add: request_values_def)
  have "\<forall>i \<in> set (?words @ [l, n]). 0 \<le> i \<and> i \<le> 0xFFFFFFFF"
    using active_words_range[OF compile_dsp_Inr(1)[OF assms(1)] seed] a by auto
  then have vals: "bundle_values 1 (map JInt ?words @ [JInt l, JInt n]) = Inr (?words @ [l, n])"
    unfolding bundle_values_ints by simp
  have len: "length ?words = 7" by (simp add: active_words_def)
  have cid: "\<not> \<not> (1 \<le> digest_id d \<and> digest_id d \<le> 0xFFFFFFFFFFFFFFFF)"
    using assms(2) digest_id_range[of d] by simp
  have geo: "map_res (member (JObject a)) [''frame_length_words'', ''frame_count''] = Inr [JInt l, JInt n]"
    by (simp add: a(1))
  have mem: "member (JObject ?r) ''identity'' = Inr (get ?r ''identity'')" "member (JObject ?r) ''dsp'' = Inr (get ?r ''dsp'')"
    "member (JObject ?r) ''acquisition'' = Inr (JObject a)"
    by (simp_all only: resolved_member resolved_get insert_iff simp_thms)
  have inner: "member (get ?r ''identity'') ''dsp_config_id'' = Inr (JString (hexadecimal (digest_id d) 64))"
    "member (get ?r ''dsp'') ''active'' = Inr (JObject (active_object (request_values rq)))"
    by (simp_all add: resolved_get)
  have hex: "int_base0 (hexadecimal (digest_id d) 64) = Some (digest_id d)"
    using int_base0_hexadecimal digest_id_range by blast
  show ?thesis
    unfolding configuration_command_def configuration_bundle_def bundle_id_def resolved_get(1) mem inner geo
      bind_res_simps json.case hex option.case active_members vals
    using cid len by (simp add: command_words_def vals)
qed

section \<open>Compiled profiles validate\<close>

definition section_object :: "jobject \<Rightarrow> string \<Rightarrow> jobject" where
  "section_object d k = (case get d k of JObject e \<Rightarrow> e | _ \<Rightarrow> [])"

lemma compiled_parts:
  assumes "compile_profile repo tables registers parsed = Inr r"
  obtains document rq acq seq t g contract digest profile_digest writes where
    "case get document ''name'' of JString n \<Rightarrow> 1 \<le> length n \<and> length n \<le> 128 | _ \<Rightarrow> False"
    and "compile_dsp (get document ''dsp'') = Inr rq"
    and "compile_acquisition (get document ''acquisition'') = Inr acq"
    and "compile_source repo (get document ''sequence'') = Inr seq"
    and "load_contracts tables registers = Inr (t, g)" and "numerical_contract t = Inr contract"
    and "dsp_identity (JObject contract) (JObject (active_object (request_values rq))) = Inr digest"
    and "profile_identity digest (JObject acq) seq = Inr profile_digest"
    and "register_writes (active_object (request_values rq)) (digest_id digest) g = Inr writes"
    and "r = resolved_parts (get document ''name'') digest profile_digest contract rq acq seq writes"
  by (rule compile_profile_Inr[OF assms], erule resolve_profile_Inr)
     (rule that, (assumption | simp only: resolved_parts_def)+)

lemma check_identities_compiled:
  assumes "dsp_identity (JObject contract) (JObject active) = Inr digest"
    and "profile_identity digest (JObject acq) seq = Inr profile_digest"
  shows "check_identities (JObject contract) [(''profile_sha256'', JString profile_digest),
       (''dsp_config_sha256'', JString digest), (''dsp_config_id'', JString (hexadecimal (digest_id digest) 64))]
     active acq seq (digest_id digest) = Inr ()"
  by (simp add: check_identities_def assms get_def)

lemma compiled_validates:
  assumes "compile_profile repo tables registers parsed = Inr r"
  shows "validate_resolved_profile tables registers r =
    (if digest_id (jtext (get (section_object r ''identity'') ''dsp_config_sha256'')) = 0
     then Inl ConfigIdRange else Inr r)"
proof -
  obtain document rq acq seq t g contract digest profile_digest writes where
    rq: "compile_dsp (get document ''dsp'') = Inr rq"
    and acq: "compile_acquisition (get document ''acquisition'') = Inr acq"
    and seq: "compile_source repo (get document ''sequence'') = Inr seq"
    and tg: "load_contracts tables registers = Inr (t, g)" and contract: "numerical_contract t = Inr contract"
    and dig: "dsp_identity (JObject contract) (JObject (active_object (request_values rq))) = Inr digest"
    and prof: "profile_identity digest (JObject acq) seq = Inr profile_digest"
    and writes: "register_writes (active_object (request_values rq)) (digest_id digest) g = Inr writes"
    and r: "r = resolved_parts (get document ''name'') digest profile_digest contract rq acq seq writes"
    by (rule compiled_parts[OF assms])
  let ?id = "[(''profile_sha256'', JString profile_digest), (''dsp_config_sha256'', JString digest),
    (''dsp_config_id'', JString (hexadecimal (digest_id digest) 64))]"
  let ?dsp = "[(''requested'', JObject (requested_object rq)), (''active'', JObject (active_object (request_values rq))),
       (''realized'', JObject (realized_object
             (of_int (phase_word (vl_signal_frequency (request_values rq)) SAMPLE_RATE_HZ))
             (of_int (phase_word (vl_lo_frequency (request_values rq)) SAMPLE_RATE_HZ))))]"
  obtain l n where a: "acq = [(''frame_length_words'', JInt l), (''frame_count'', JInt n),
      (''stream_mode'', JString ''dsp''), (''stream_mode_value'', JInt 1)]"
    and ln: "1 \<le> l" "l \<le> 262144" "1 \<le> n" "n \<le> 255"
    by (rule compile_acquisition_Inr[OF acq])
  have keys: "set (keys_of r) = set [''format'', ''name'', ''identity'', ''numerical_contract'', ''dsp'',
       ''acquisition'', ''sequence'', ''register_writes'']"
    "set (keys_of ?id) = set [''profile_sha256'', ''dsp_config_sha256'', ''dsp_config_id'']"
    "set (keys_of ?dsp) = set [''requested'', ''active'', ''realized'']"
    "set (keys_of acq) = set [''frame_length_words'', ''frame_count'', ''stream_mode'', ''stream_mode_value'']"
    by (simp_all add: r resolved_parts_def a)
  have skeys: "set (keys_of seq) = set [''source'', ''image_sha256'', ''payload_crc32'', ''event_count'', ''tick_hz'']"
    by (rule compile_source_Inr[OF seq]) simp
  have parts: "get ?dsp ''requested'' = JObject (requested_object rq)"
    "get ?dsp ''active'' = JObject (active_object (request_values rq))"
    "get ?dsp ''realized'' = JObject (realized_object
             (of_int (phase_word (vl_signal_frequency (request_values rq)) SAMPLE_RATE_HZ))
             (of_int (phase_word (vl_lo_frequency (request_values rq)) SAMPLE_RATE_HZ)))"
    "get ?id ''dsp_config_id'' = JString (hexadecimal (digest_id digest) 64)"
    "get ?id ''dsp_config_sha256'' = JString digest"
    by (simp_all add: get_def)
  have top: "get r ''format'' = JString RESOLVED_FORMAT" "get r ''identity'' = JObject ?id" "get r ''dsp'' = JObject ?dsp"
    "get r ''numerical_contract'' = JObject contract" "get r ''acquisition'' = JObject acq" "get r ''sequence'' = JObject seq"
    "get r ''register_writes'' = writes"
    unfolding r by (rule resolved_get)+
  have ints: "list_all (\<lambda>(k, v). is_JInt v) (active_object (request_values rq))"
    by (simp add: active_object_def active_words_def)
  have hex: "int_base0 (hexadecimal (digest_id digest) 64) = Some (digest_id digest)"
    using int_base0_hexadecimal digest_id_range by blast
  have rid: "resolved_id ?id = (if digest_id digest = 0 then Inl ConfigIdRange else Inr (digest_id digest))"
    unfolding resolved_id_def parts json.case hex option.case bind_res_simps
    using digest_id_range[of digest] by auto
  have upto: "validate_resolved_profile tables registers r =
    bind_res (resolved_id ?id) (\<lambda>config_id.
     bind_res (check_identities (JObject contract) ?id (active_object (request_values rq)) acq seq config_id) (\<lambda>_.
     bind_res (register_writes (active_object (request_values rq)) config_id g) (\<lambda>writes'.
     bind_res (ensure (py_eq writes writes') WritesDiffer) (\<lambda>_.
     bind_res (configuration_command r ''qcrate-control'') (\<lambda>_. Inr r)))))"
    unfolding validate_resolved_profile_def check_object_Inr[OF keys(1)] bind_res_simps top
      check_object_Inr[OF keys(2)] check_object_Inr[OF keys(3)] parts check_object_Inr[OF compiled_keys(1)]
      check_object_Inr[OF compiled_keys(3)] check_object_Inr[OF compiled_keys(2)] check_object_Inr[OF keys(4)]
      check_object_Inr[OF skeys] tg prod.case contract check_dsp_compiled[OF rq] check_acquisition_compiled[OF acq]
    by (simp only: ensure_def simp_thms if_True bind_res_simps contract_py_eq[OF tg contract dig])
  have shape: "get (section_object r ''identity'') ''dsp_config_sha256'' = JString digest"
    by (simp add: section_object_def top parts)
  show ?thesis
  proof (cases "digest_id digest = 0")
    case True
    then show ?thesis unfolding upto rid shape by simp
  next
    case False
    have cmd: "\<exists>ws. configuration_command r ''qcrate-control'' = Inr ws"
      unfolding r using resolved_command[OF rq False a ln] by blast
    show ?thesis
      unfolding upto rid shape using False cmd
      by (auto simp: check_identities_compiled[OF dig prof] writes register_writes_py_eq[OF writes ints] ensure_def)
  qed
qed

section \<open>What validation establishes\<close>

lemma py_eq_members_lookup:
  "py_eq_members d e \<Longrightarrow> map_of d k = Some v \<Longrightarrow> \<exists>w. map_of e k = Some w \<and> py_eq v w"
  by (induction d) (auto split: option.splits if_splits)

lemma py_eq_JInt: "py_eq v (JInt i) \<longleftrightarrow> json_number v = Some (of_int i)"
  by (cases v) auto

lemma keys_map_of: "k \<in> set (keys_of d) \<Longrightarrow> map_of d k = Some (get d k)"
  by (cases "map_of d k") (auto simp: get_def map_of_eq_None_iff)

lemma py_eq_get:
  assumes "py_eq (JObject d) (JObject e)" "k \<in> set (keys_of d)" "map_of e k = Some (JInt i)"
  shows "json_number (get d k) = Some (of_int i)"
proof -
  have "py_eq_members d e" using assms(1) by simp
  then obtain w where "map_of e k = Some w" "py_eq (get d k) w"
    using py_eq_members_lookup keys_map_of[OF assms(2)] by blast
  moreover from this(1) have "w = JInt i" using assms(3) by simp
  ultimately show ?thesis by (simp only: py_eq_JInt)
qed

lemma json_equals_int_iff: "json_equals_int v i \<longleftrightarrow> json_number v = Some (of_int i)"
  by (cases v) auto

lemma json_number_int: "json_number v = Some (of_int i) \<Longrightarrow> int_of_json v = Some i"
  by (cases v) (auto simp: truncate_rat_def split: if_splits)

lemma active_words_eq:
  assumes "py_eq (JObject active) (JObject (active_object v))" "set (keys_of active) = set active_names"
    and "(k, i) \<in> set (active_words v)"
  shows "json_number (get active k) = Some (of_int i)"
proof -
  have "k \<in> set active_names" using assms(3) by (auto simp: active_words_def active_names_def)
  moreover have "map_of (active_object v) k = Some (JInt i)"
    using assms(3) by (auto simp: active_object_def active_words_def)
  ultimately show ?thesis using py_eq_get[OF assms(1)] assms(2) by blast
qed

lemma check_dsp_Inr:
  "check_dsp requested active realized = Inr v \<longleftrightarrow>
     read_requested requested = Inr v \<and> check_values v = Inr () \<and>
     py_eq (JObject active) (JObject (active_object v)) \<and>
     (\<exists>s l. json_number (get active ''SIGNAL_PHASE_INCREMENT'') = Some s \<and>
        json_number (get active ''LO_PHASE_INCREMENT'') = Some l \<and>
        py_eq (JObject realized) (JObject (realized_object s l)))"
proof -
  have "(case (m, m') of (Some s, Some l) \<Rightarrow> bind_res (ensure (P s l) RealizedDiffers) (\<lambda>_. Inr x) | _ \<Rightarrow> Inl ActiveDiffers) = Inr v
    \<longleftrightarrow> (\<exists>s l. m = Some s \<and> m' = Some l \<and> P s l) \<and> x = v" for m m' :: "rat option" and P and x :: dsp_values
    by (cases m; cases m') (auto simp: ensure_def)
  then show ?thesis
    unfolding check_dsp_def bind_res_Inr_iff ensure_Inr_iff by auto
qed

lemma check_acquisition_Inr:
  "check_acquisition a = Inr () \<longleftrightarrow> (\<exists>l n. get a ''frame_length_words'' = JInt l \<and> get a ''frame_count'' = JInt n \<and>
     1 \<le> l \<and> l \<le> 262144 \<and> 1 \<le> n \<and> n \<le> 255 \<and> l * n \<le> 1000000 \<and> get a ''stream_mode'' = JString ''dsp'' \<and>
     json_equals_int (get a ''stream_mode_value'') 1)"
  by (auto simp: check_acquisition_def result_iff not_less)

lemma ex_unit: "(\<exists>u :: unit. P u) \<longleftrightarrow> P ()"
  by auto

lemma validated_parts:
  assumes "validate_resolved_profile tables registers r = Inr r'"
  obtains identity dsp requested realized active acquisition seq t g contract v config_id writes command where
    "r' = r" and "get r ''format'' = JString RESOLVED_FORMAT"
    and "set (keys_of r) = set [''format'', ''name'', ''identity'', ''numerical_contract'', ''dsp'',
       ''acquisition'', ''sequence'', ''register_writes'']"
    and "get r ''identity'' = JObject identity"
    and "set (keys_of identity) = set [''profile_sha256'', ''dsp_config_sha256'', ''dsp_config_id'']"
    and "get r ''dsp'' = JObject dsp" and "set (keys_of dsp) = set [''requested'', ''active'', ''realized'']"
    and "get dsp ''requested'' = JObject requested" and "set (keys_of requested) = set request_keys"
    and "get dsp ''realized'' = JObject realized"
    and "get dsp ''active'' = JObject active" and "set (keys_of active) = set active_names"
    and "get r ''acquisition'' = JObject acquisition"
    and "set (keys_of acquisition) = set [''frame_length_words'', ''frame_count'', ''stream_mode'', ''stream_mode_value'']"
    and "get r ''sequence'' = JObject seq"
    and "load_contracts tables registers = Inr (t, g)" and "numerical_contract t = Inr contract"
    and "py_eq (get r ''numerical_contract'') (JObject contract)"
    and "check_dsp requested active realized = Inr v" and "check_acquisition acquisition = Inr ()"
    and "resolved_id identity = Inr config_id"
    and "check_identities (get r ''numerical_contract'') identity active acquisition seq config_id = Inr ()"
    and "register_writes active config_id g = Inr writes" and "py_eq (get r ''register_writes'') writes"
    and "configuration_command r ''qcrate-control'' = Inr command"
proof -
  have same: "r' = r"
    using assms unfolding validate_resolved_profile_def bind_res_Inr_iff split_paired_Ex prod.case
      check_object_Inr_iff json.inject sum.inject by (elim exE conjE) (rule sym, rule trans, assumption+)
  show ?thesis
    using assms unfolding same validate_resolved_profile_def bind_res_Inr_iff split_paired_Ex prod.case
      check_object_Inr_iff ensure_Inr_iff json.inject sum.inject ex_unit
    by (elim exE conjE, hypsubst_thin) (rule that, rule same, assumption+)
qed

lemma member_Inr: "member v k = Inr w \<longleftrightarrow> (\<exists>d. v = JObject d \<and> map_of d k = Some w)"
  by (cases v) (auto split: option.splits)

lemma members_Inr:
  assumes "ks = k # ks'"
  shows "map_res (member v) ks = Inr ws \<longleftrightarrow> (\<exists>d. v = JObject d \<and> map (map_of d) ks = map Some ws)"
proof -
  have lk: "list_all2 (\<lambda>k w. map_of d k = Some w) ks ws \<longleftrightarrow> map (map_of d) ks = map Some ws" for d ks ws
    by (induction ks arbitrary: ws) (auto simp: list_all2_Cons1 Cons_eq_map_conv)
  show ?thesis
    unfolding map_res_Inr_iff member_Inr assms by (cases v) (auto simp: list_all2_Cons1 lk)
qed

lemma active_names_Cons: "active_names = ''SIGNAL_PHASE_INCREMENT'' # tl active_names"
  by (simp add: active_names_def)

lemma configuration_bundle_Inr:
  assumes "configuration_bundle (JObject r) = Inr (config_id, vs)"
  obtains identity dsp active acquisition config_text where
    "map_of r ''identity'' = Some (JObject identity)" and "map_of identity ''dsp_config_id'' = Some (JString config_text)"
    and "int_base0 config_text = Some config_id" and "1 \<le> config_id" and "config_id \<le> 0xFFFFFFFFFFFFFFFF"
    and "map_of r ''dsp'' = Some (JObject dsp)" and "map_of dsp ''active'' = Some (JObject active)"
    and "map_of r ''acquisition'' = Some (JObject acquisition)"
    and "map (map_of active) active_names @ map (map_of acquisition) [''frame_length_words'', ''frame_count''] =
      map (\<lambda>i. Some (JInt i)) vs"
    and "\<forall>i \<in> set vs. 0 \<le> i \<and> i \<le> 0xFFFFFFFF"
proof -
  obtain avs gvs where
    step: "bundle_id (JObject r) = Inr config_id"
      "\<exists>dsp active. member (JObject r) ''dsp'' = Inr dsp \<and> member dsp ''active'' = Inr active \<and>
         map_res (member active) active_names = Inr avs"
      "\<exists>acquisition. member (JObject r) ''acquisition'' = Inr acquisition \<and>
         map_res (member acquisition) [''frame_length_words'', ''frame_count''] = Inr gvs"
      "1 \<le> config_id" "config_id \<le> 0xFFFFFFFFFFFFFFFF" "bundle_values 1 (avs @ gvs) = Inr vs"
    using assms unfolding configuration_bundle_def bind_res_Inr_iff if_Inl_Inr_iff sum.inject prod.inject by blast
  obtain identity config_text where i: "map_of r ''identity'' = Some (JObject identity)"
    "map_of identity ''dsp_config_id'' = Some (JString config_text)" "int_base0 config_text = Some config_id"
    using step(1) unfolding bundle_id_def bind_res_Inr_iff member_Inr case_json_Inr_iff case_option_Inr_iff
      json.inject sum.inject by blast
  obtain dsp active where d: "map_of r ''dsp'' = Some (JObject dsp)" "map_of dsp ''active'' = Some (JObject active)"
    "map (map_of active) active_names = map Some avs"
    using step(2) unfolding members_Inr(1)[OF active_names_Cons] member_Inr json.inject by blast
  obtain acquisition where q: "map_of r ''acquisition'' = Some (JObject acquisition)"
    "map (map_of acquisition) [''frame_length_words'', ''frame_count''] = map Some gvs"
    using step(3) unfolding members_Inr(1)[OF refl] member_Inr json.inject by blast
  have v: "avs @ gvs = map JInt vs" "\<forall>i \<in> set vs. 0 \<le> i \<and> i \<le> 0xFFFFFFFF"
    using step(6) unfolding bundle_values_ints by blast+
  have "map (map_of active) active_names @ map (map_of acquisition) [''frame_length_words'', ''frame_count''] =
      map Some (avs @ gvs)"
    unfolding d(3) q(2) by simp
  also have "\<dots> = map (\<lambda>i. Some (JInt i)) vs" unfolding v(1) by simp
  finally show ?thesis by (rule that[OF i step(4,5) d(1,2) q(1) _ v(2)])
qed

lemma get_map_of: "map_of d k = Some v \<Longrightarrow> get d k = v"
  by (simp add: get_def)

lemma configuration_command_Inr:
  assumes "configuration_command r control = Inr command"
  obtains config_id vs where "get r ''format'' = JString RESOLVED_FORMAT"
    and "configuration_bundle (JObject r) = Inr (config_id, vs)"
    and "command = [control, ''config-apply'', hexadecimal config_id 64] @
      map (\<lambda>v. hexadecimal v 32) (take 7 vs) @ map str_int (drop 7 vs)"
  using assms unfolding configuration_command_def if_Inl_Inr_iff bind_res_Inr_iff split_paired_Ex prod.case not_not
    sum.inject by (elim exE conjE) (rule that, assumption+, rule sym)

lemma case_sum_Inr_iff: "(case m of Inl e \<Rightarrow> Inl c | Inr x \<Rightarrow> f x) = Inr y \<longleftrightarrow> (\<exists>x. m = Inr x \<and> f x = Inr y)"
  by (cases m) simp_all

lemma read_requested_seed: "read_requested q = Inr v \<Longrightarrow> get q ''noise_seed'' = JInt (vl_noise_seed v) \<and>
    1 \<le> vl_noise_seed v \<and> vl_noise_seed v \<le> 0xFFFF"
  by (auto simp: read_requested_def result_iff case_sum_Inr_iff)

text \<open>The integers of a bundle whose active words are the recomputed ones.\<close>

lemma bundle_is_active:
  assumes "map (map_of active) active_names @ map (map_of acq) [''frame_length_words'', ''frame_count''] =
      map (\<lambda>i. Some (JInt i)) vs"
    and "py_eq (JObject active) (JObject (active_object v))" "set (keys_of active) = set active_names"
    and "get acq ''frame_length_words'' = JInt l" "get acq ''frame_count'' = JInt n"
  shows "vs = map snd (active_words v) @ [l, n]"
proof -
  have names: "active_names = map fst (active_words v)" by (simp add: active_names_def active_words_def)
  have len: "length (active_words v) = 7" by (simp add: active_words_def)
  have lvs: "length vs = 9" using arg_cong[OF assms(1), of length] by (simp add: active_names_def)
  have word: "vs ! k = snd (active_words v ! k)" if k: "k < 7" for k
  proof -
    let ?w = "active_words v ! k"
    have "map_of active (fst ?w) = Some (JInt (vs ! k))"
      using arg_cong[OF assms(1), of "\<lambda>xs. xs ! k"] k len lvs by (simp add: names nth_append)
    then have g: "get active (fst ?w) = JInt (vs ! k)" by (rule get_map_of)
    have "(fst ?w, snd ?w) \<in> set (active_words v)" using k len by simp
    from active_words_eq[OF assms(2,3) this] show ?thesis by (simp add: g)
  qed
  have "map_of acq ''frame_length_words'' = Some (JInt (vs ! 7))" "map_of acq ''frame_count'' = Some (JInt (vs ! 8))"
    using arg_cong[OF assms(1), of "\<lambda>xs. xs ! 7"] arg_cong[OF assms(1), of "\<lambda>xs. xs ! 8"] len lvs
    by (simp_all add: names nth_append)
  then have geo: "vs ! 7 = l" "vs ! 8 = n" using assms(4,5) get_map_of by fastforce+
  show ?thesis
  proof (rule nth_equalityI)
    show "length vs = length (map snd (active_words v) @ [l, n])" by (simp add: lvs len)
    fix k assume "k < length vs"
    then consider "k < 7" | "k = 7" | "k = 8" using lvs by linarith
    then show "vs ! k = (map snd (active_words v) @ [l, n]) ! k"
      by cases (simp_all add: nth_append len word geo)
  qed
qed

lemma validated_profile:
  assumes "validate_resolved_profile tables registers r = Inr r'"
  obtains identity dsp requested active acquisition contract t g v digest l n where
    "r' = r" and "load_contracts tables registers = Inr (t, g)" and "numerical_contract t = Inr contract"
    and "py_eq (get r ''numerical_contract'') (JObject contract)"
    and "has_key r ''numerical_contract''" "has_key r ''acquisition''" "has_key r ''dsp''" "has_key r ''format''"
    and "has_key dsp ''requested''" "has_key dsp ''active''"
    and "get r ''format'' = JString RESOLVED_FORMAT"
    and "get r ''dsp'' = JObject dsp" and "get dsp ''requested'' = JObject requested"
    and "set (keys_of requested) = set request_keys"
    and "get dsp ''active'' = JObject active" and "set (keys_of active) = set active_names"
    and "get r ''acquisition'' = JObject acquisition"
    and "read_requested requested = Inr v" and "check_values v = Inr ()"
    and "py_eq (JObject active) (JObject (active_object v))"
    and "get r ''identity'' = JObject identity" and "get identity ''dsp_config_sha256'' = JString digest"
    and "dsp_identity (get r ''numerical_contract'') (JObject active) = Inr digest" and "1 \<le> digest_id digest"
    and "get acquisition ''frame_length_words'' = JInt l" and "get acquisition ''frame_count'' = JInt n"
    and "has_key acquisition ''frame_length_words''" and "has_key acquisition ''frame_count''"
    and "1 \<le> l" "l \<le> 262144" "1 \<le> n" "n \<le> 255" "l * n \<le> 1000000"
    and "\<And>control. configuration_command r control =
      Inr (command_words control (digest_id digest) (map snd (active_words v)) l n)"
proof (rule validated_parts[OF assms])
  fix identity dsp requested realized active acquisition seq t g contract v config_id writes command
  assume same: "r' = r" and f: "get r ''format'' = JString RESOLVED_FORMAT"
    and rk: "set (keys_of r) = set [''format'', ''name'', ''identity'', ''numerical_contract'', ''dsp'',
       ''acquisition'', ''sequence'', ''register_writes'']"
    and i: "get r ''identity'' = JObject identity"
    and d: "get r ''dsp'' = JObject dsp" and dk: "set (keys_of dsp) = set [''requested'', ''active'', ''realized'']"
    and q: "get dsp ''requested'' = JObject requested" and qk: "set (keys_of requested) = set request_keys"
    and a: "get dsp ''active'' = JObject active" and ak: "set (keys_of active) = set active_names"
    and ac: "get r ''acquisition'' = JObject acquisition"
    and ack: "set (keys_of acquisition) = set [''frame_length_words'', ''frame_count'', ''stream_mode'', ''stream_mode_value'']"
    and tg: "load_contracts tables registers = Inr (t, g)" "numerical_contract t = Inr contract"
    and ct: "py_eq (get r ''numerical_contract'') (JObject contract)"
    and cd: "check_dsp requested active realized = Inr v" and ca: "check_acquisition acquisition = Inr ()"
    and rid: "resolved_id identity = Inr config_id"
    and ci: "check_identities (get r ''numerical_contract'') identity active acquisition seq config_id = Inr ()"
    and cmd: "configuration_command r ''qcrate-control'' = Inr command"
  obtain l n where ln: "get acquisition ''frame_length_words'' = JInt l" "get acquisition ''frame_count'' = JInt n"
    "1 \<le> l" "l \<le> 262144" "1 \<le> n" "n \<le> 255" "l * n \<le> 1000000"
    using ca unfolding check_acquisition_Inr by blast
  have v: "read_requested requested = Inr v" "check_values v = Inr ()" "py_eq (JObject active) (JObject (active_object v))"
    using cd unfolding check_dsp_Inr by blast+
  obtain digest where dg: "dsp_identity (get r ''numerical_contract'') (JObject active) = Inr digest"
    "get identity ''dsp_config_sha256'' = JString digest" "config_id = digest_id digest"
    using ci unfolding check_identities_def bind_res_Inr_iff if_Inl_Inr_iff by blast
  obtain cid vs where b: "configuration_bundle (JObject r) = Inr (cid, vs)"
    by (rule configuration_command_Inr[OF cmd])
  obtain identity' dsp' active' acquisition' config_text where
    bi: "map_of r ''identity'' = Some (JObject identity')" "map_of identity' ''dsp_config_id'' = Some (JString config_text)"
      "int_base0 config_text = Some cid" "1 \<le> cid"
    and bd: "map_of r ''dsp'' = Some (JObject dsp')" "map_of dsp' ''active'' = Some (JObject active')"
      "map_of r ''acquisition'' = Some (JObject acquisition')"
    and bv: "map (map_of active') active_names @ map (map_of acquisition') [''frame_length_words'', ''frame_count''] =
      map (\<lambda>i. Some (JInt i)) vs"
    by (rule configuration_bundle_Inr[OF b])
  have same': "identity' = identity" "dsp' = dsp" "acquisition' = acquisition"
    using get_map_of[OF bi(1)] get_map_of[OF bd(1)] get_map_of[OF bd(3)] i d ac by simp_all
  have "active' = active" using get_map_of[OF bd(2)] a same' by simp
  then have vs: "vs = map snd (active_words v) @ [l, n]"
    using bundle_is_active[OF _ v(3) ak ln(1,2)] bv same' by blast
  have "get identity ''dsp_config_id'' = JString config_text" using get_map_of[OF bi(2)] same' by simp
  then have cid: "cid = digest_id digest" "1 \<le> digest_id digest"
    using rid bi(3,4) dg(3) by (auto simp: resolved_id_def result_iff)
  have len: "length (map snd (active_words v)) = 7" by (simp add: active_words_def)
  have c: "configuration_command r control =
      Inr (command_words control (digest_id digest) (map snd (active_words v)) l n)" for control
    using f len by (simp add: configuration_command_def b vs cid(1) command_words_def)
  have hk: "has_key r ''numerical_contract''" "has_key r ''acquisition''" "has_key r ''dsp''" "has_key r ''format''"
    "has_key dsp ''requested''" "has_key dsp ''active''"
    "has_key acquisition ''frame_length_words''" "has_key acquisition ''frame_count''"
    using rk dk ack by (simp_all add: has_key_iff)
  show thesis
    by (rule that[OF same tg ct hk(1-6) f d q qk a ak ac v i dg(2,1) cid(2) ln(1,2) hk(7,8) ln(3-7) c])
qed

end
