(* ===== verification/ProfileUse.thy ===== *)
theory ProfileUse
  imports ProfileChecks
begin

text \<open>
  What a loaded resolved profile is good for: the DSP model takes it with the same values and
  words, and the command applied to the hardware carries those words.
\<close>

section \<open>The DSP model\<close>

definition values_config :: "dsp_values \<Rightarrow> int \<Rightarrow> int \<Rightarrow> dsp_config" where
  "values_config v frame_length frame_count =
     \<lparr>c_sample_rate_hz = SAMPLE_RATE_HZ, c_decimation = int DECIMATION,
      c_frame_length = frame_length, c_frame_count = frame_count,
      c_signal_frequency_hz = vl_signal_frequency v, c_lo_frequency_hz = vl_lo_frequency v,
      c_signal_amplitude = vl_signal_amplitude v, c_signal_phase_turns = vl_signal_phase v,
      c_lo_phase_turns = vl_lo_phase v, c_noise_amplitude = vl_noise_amplitude v,
      c_noise_seed = vl_noise_seed v\<rparr>"

lemma expected_active_values: "expected_active (values_config v l n) = active_words v"
  by (simp add: expected_active_def values_config_def active_words_def phase_word_frequency phase_word_turns q1_15_fixed)

lemma check_active_words:
  "(\<And>k i. (k, i) \<in> set ws \<Longrightarrow> json_number (get d k) = Some (of_int i)) \<Longrightarrow> check_active (JObject d) ws = Inr ()"
  by (induction ws) (auto simp: json_equals_int_iff)

lemma values_config_valid:
  assumes "check_values v = Inr ()" "1 \<le> vl_noise_seed v" "vl_noise_seed v \<le> 0xFFFF"
    and "1 \<le> l" "l \<le> 262144" "1 \<le> n" "n \<le> 255" "l * n \<le> 1000000"
  shows "validate_config (values_config v l n) = Inr (values_config v l n)"
proof -
  have "nyquist_hz = 100000000" by (simp add: nyquist_hz_def SAMPLE_RATE_HZ_def)
  then show ?thesis
    using assms unfolding validate_config_Inr check_values_def
    by (auto simp: values_config_def output_samples_def SAMPLE_RATE_HZ_def DECIMATION_def split: if_splits)
qed

lemma map_of_in_keys: "map_of e k = Some w \<Longrightarrow> k \<in> set (keys_of e)"
  by (auto dest!: map_of_SomeD intro: rev_image_eqI)

text \<open>Equal objects without repeated keys have the same keys.\<close>

lemma py_eq_keys:
  assumes "py_eq (JObject d) (JObject e)" "distinct (keys_of d)"
  shows "set (keys_of d) = set (keys_of e)"
proof -
  have m: "length d = length e" "py_eq_members d e" using assms(1) by simp_all
  have sub: "set (keys_of d) \<subseteq> set (keys_of e)"
  proof
    fix k assume "k \<in> set (keys_of d)"
    then have "\<exists>w. map_of e k = Some w" using py_eq_members_lookup[OF m(2) keys_map_of] by blast
    then show "k \<in> set (keys_of e)" using map_of_in_keys by blast
  qed
  have "card (set (keys_of e)) \<le> length e" using card_length[of "keys_of e"] by simp
  also have "\<dots> = card (set (keys_of d))" using distinct_card[OF assms(2)] m(1) by simp
  finally show ?thesis using sub by (intro card_subset_eq) (auto intro: order.antisym card_mono)
qed

lemma contract_item:
  assumes "numerical_contract t = Inr contract" "py_eq w (JObject contract)" "hook dup w = Inr w'"
  shows "item_int w ''sample_rate_hz'' = Inr SAMPLE_RATE_HZ" "item_int w ''decimation'' = Inr (int DECIMATION)"
proof -
  obtain d where w: "w = JObject d" using assms(2) by (cases w) auto
  have "distinct (keys_of d)" using assms(3) by (auto simp: w result_iff unique_keys_Inr dest: hook_same)
  then have k: "set (keys_of d) = set (keys_of contract)" using py_eq_keys assms(2) w by blast
  have c: "map_of contract ''sample_rate_hz'' = Some (JInt SAMPLE_RATE_HZ)"
    "map_of contract ''decimation'' = Some (JInt (int DECIMATION))"
    by (rule numerical_contract_Inr[OF assms(1)], simp)+
  have mem: "''sample_rate_hz'' \<in> set (keys_of d)" "''decimation'' \<in> set (keys_of d)"
    unfolding k by (rule map_of_in_keys, rule c)+
  have "int_of_json (get d ''sample_rate_hz'') = Some SAMPLE_RATE_HZ" "int_of_json (get d ''decimation'') = Some (int DECIMATION)"
    using py_eq_get[OF assms(2)[unfolded w] mem(1) c(1)] py_eq_get[OF assms(2)[unfolded w] mem(2) c(2)] json_number_int
    by blast+
  then show "item_int w ''sample_rate_hz'' = Inr SAMPLE_RATE_HZ" "item_int w ''decimation'' = Inr (int DECIMATION)"
    using mem by (simp_all add: item_int_def item_def w has_key_iff)
qed

lemma requested_item:
  "has_key q k \<Longrightarrow> requested_value q k = Inr x \<Longrightarrow> item_decimal (JObject q) k = Inr x"
  by (auto simp: item_decimal_def item_def requested_value_def split: decimal_result.splits)

lemma read_requested_Inr:
  assumes "read_requested q = Inr v"
  shows "requested_value q ''signal_frequency_hz'' = Inr (vl_signal_frequency v)"
    "requested_value q ''lo_frequency_hz'' = Inr (vl_lo_frequency v)"
    "requested_value q ''signal_phase_turns'' = Inr (vl_signal_phase v)"
    "requested_value q ''lo_phase_turns'' = Inr (vl_lo_phase v)"
    "requested_value q ''signal_amplitude'' = Inr (vl_signal_amplitude v)"
    "requested_value q ''noise_amplitude'' = Inr (vl_noise_amplitude v)"
    "get q ''noise_seed'' = JInt (vl_noise_seed v)"
  using assms by (auto simp: read_requested_def result_iff case_sum_Inr_iff)

lemma dsp_accepts:
  assumes "load_resolved_profile tables registers parsed = Inr r"
  obtains v l n digest where "read_requested (section_object (section_object r ''dsp'') ''requested'') = Inr v"
    and "1 \<le> digest_id digest"
    and "\<And>control. configuration_command r control =
      Inr (command_words control (digest_id digest) (map snd (active_words v)) l n)"
    and "dsp_identity (get r ''numerical_contract'') (get (section_object r ''dsp'') ''active'') = Inr digest"
    and "config_from_resolved_document r = Inr (values_config v l n)"
    and "check_values v = Inr ()" and "1 \<le> vl_noise_seed v" "vl_noise_seed v \<le> 0xFFFF"
    and "1 \<le> l" "l \<le> 262144" "1 \<le> n" "n \<le> 255" "l * n \<le> 1000000"
proof -
  obtain r0 where r0: "parsed = JObject r0" "hook ProfileDuplicateKey (JObject r0) = Inr (JObject r0)"
    "validate_resolved_profile tables registers r0 = Inr r"
    using assms unfolding load_resolved_profile_def bind_res_Inr_iff profile_load_json_Inr_iff by blast
  show ?thesis
  proof (rule validated_profile[OF r0(3)])
    fix identity dsp requested active acquisition contract t g v digest l n
    assume same: "r = r0"
      and nc: "numerical_contract t = Inr contract" "py_eq (get r0 ''numerical_contract'') (JObject contract)"
      and hk: "has_key r0 ''numerical_contract''" "has_key r0 ''acquisition''" "has_key r0 ''dsp''" "has_key r0 ''format''"
        "has_key dsp ''requested''" "has_key dsp ''active''"
      and f: "get r0 ''format'' = JString RESOLVED_FORMAT"
      and d: "get r0 ''dsp'' = JObject dsp" "get dsp ''requested'' = JObject requested"
      and qk: "set (keys_of requested) = set request_keys"
      and a: "get dsp ''active'' = JObject active" "set (keys_of active) = set active_names"
      and ac: "get r0 ''acquisition'' = JObject acquisition"
      and v: "read_requested requested = Inr v" "check_values v = Inr ()"
      and aw: "py_eq (JObject active) (JObject (active_object v))"
      and dg: "dsp_identity (get r0 ''numerical_contract'') (JObject active) = Inr digest" "1 \<le> digest_id digest"
      and ln: "get acquisition ''frame_length_words'' = JInt l" "get acquisition ''frame_count'' = JInt n"
      and lk: "has_key acquisition ''frame_length_words''" "has_key acquisition ''frame_count''"
      and lr: "1 \<le> l" "l \<le> 262144" "1 \<le> n" "n \<le> 255" "l * n \<le> 1000000"
      and cmd: "\<And>control. configuration_command r0 control =
        Inr (command_words control (digest_id digest) (map snd (active_words v)) l n)"
    have seed: "1 \<le> vl_noise_seed v" "vl_noise_seed v \<le> 0xFFFF" using read_requested_seed[OF v(1)] by blast+
    have "map_of r0 ''numerical_contract'' = Some (get r0 ''numerical_contract'')"
      using hk(1) by (auto simp: has_key_def get_def)
    moreover obtain r1 where "hook_pairs ProfileDuplicateKey r0 = Inr r1" using r0(2) by (auto simp: result_iff)
    ultimately obtain w where w: "hook ProfileDuplicateKey (get r0 ''numerical_contract'') = Inr w"
      using hook_pairs_member by blast
    note contract = contract_item[OF nc w]
    have rq: "has_key requested k" if "k \<in> set request_keys" for k using that qk by (simp add: has_key_iff)
    have items: "item (JObject r0) ''format'' = Inr (JString RESOLVED_FORMAT)"
      "item (JObject r0) ''numerical_contract'' = Inr (get r0 ''numerical_contract'')"
      "item (JObject r0) ''dsp'' = Inr (JObject dsp)" "item (JObject dsp) ''requested'' = Inr (JObject requested)"
      "item (JObject dsp) ''active'' = Inr (JObject active)" "item (JObject r0) ''acquisition'' = Inr (JObject acquisition)"
      "item_int (JObject acquisition) ''frame_length_words'' = Inr l" "item_int (JObject acquisition) ''frame_count'' = Inr n"
      by (simp_all add: item_def item_int_def hk f d a ac ln lk)
    have decimals: "item_decimal (JObject requested) ''signal_frequency_hz'' = Inr (vl_signal_frequency v)"
      "item_decimal (JObject requested) ''lo_frequency_hz'' = Inr (vl_lo_frequency v)"
      "item_decimal (JObject requested) ''signal_amplitude'' = Inr (vl_signal_amplitude v)"
      "item_decimal (JObject requested) ''signal_phase_turns'' = Inr (vl_signal_phase v)"
      "item_decimal (JObject requested) ''lo_phase_turns'' = Inr (vl_lo_phase v)"
      "item_decimal (JObject requested) ''noise_amplitude'' = Inr (vl_noise_amplitude v)"
      by (rule requested_item, rule rq, simp add: request_keys_def, rule read_requested_Inr[OF v(1)])+
    have seed_item: "item_int (JObject requested) ''noise_seed'' = Inr (vl_noise_seed v)"
      using rq[of "''noise_seed''"] read_requested_Inr(7)[OF v(1)]
      by (simp add: item_int_def item_def request_keys_def)
    have act: "check_active (JObject active) (expected_active (values_config v l n)) = Inr ()"
      unfolding expected_active_values by (rule check_active_words) (rule active_words_eq[OF aw a(2)])
    have valid: "validate_config (values_config v l n) = Inr (values_config v l n)"
      by (rule values_config_valid[OF v(2) seed lr])
    have "config_from_resolved_document r0 = Inr (values_config v l n)"
      unfolding config_from_resolved_document_def Let_def items bind_res_simps contract decimals seed_item
        values_config_def[symmetric]
      by (simp only: valid act bind_res_simps ensure_def RESOLVED_FORMAT_def if_True simp_thms)
    moreover have "section_object r0 ''dsp'' = dsp" "section_object dsp ''requested'' = requested"
      by (simp_all add: section_object_def d)
    ultimately show thesis
      using that[of v digest l n] v dg cmd seed lr a(1) by (simp add: same)
  qed
qed

section \<open>Reloading\<close>

text \<open>A compiled profile has no repeated key at any depth, so it can be loaded again.\<close>

lemma hook_list_all: "(\<And>x. x \<in> set xs \<Longrightarrow> hook dup x = Inr x) \<Longrightarrow> hook_list dup xs = Inr xs"
  by (induction xs) auto

lemma hook_pairs_all: "(\<And>k x. (k, x) \<in> set d \<Longrightarrow> hook dup x = Inr x) \<Longrightarrow> hook_pairs dup d = Inr d"
proof (induction d)
  case (Cons kx d)
  obtain k x where kx: "kx = (k, x)" by (cases kx)
  have "hook dup x = Inr x" by (rule Cons.prems[of k]) (simp add: kx)
  moreover have "hook_pairs dup d = Inr d" using Cons.prems by (intro Cons.IH) auto
  ultimately show ?case by (simp add: kx)
qed simp

lemma hook_object:
  "hook_pairs dup d = Inr d \<Longrightarrow> distinct (keys_of d) \<Longrightarrow> hook dup (JObject d) = Inr (JObject d)"
  by (simp add: unique_keys_Inr[THEN iffD2])

lemma hook_writes:
  assumes "register_writes active config_id registers = Inr w" "list_all (\<lambda>(k, v). is_JInt v) active"
  shows "hook dup w = Inr w"
proof -
  let ?env = "active @ [(''CONFIG_ID_LOW'', JInt (config_id AND 0xFFFFFFFF)),
      (''CONFIG_ID_HIGH'', JInt (drop_bit 32 config_id))]"
  obtain page fs ws where w: "w = JArray ws" "map_res (register_write ?env page) fs = Inr ws"
    using assms(1) unfolding register_writes_def Let_def bind_res_Inr_iff case_json_Inr_iff by blast
  have "hook dup x = Inr x" if x: "x \<in> set ws" for x
  proof -
    obtain f where f: "register_write ?env page f = Inr x"
      using w(2) x by (auto simp: map_res_Inr_iff list_all2_conv_all_nth in_set_conv_nth)
    obtain n v p where x': "x = JObject [(''name'', JString n), (''offset'', JInt p), (''value'', v)]"
      "map_of ?env n = Some v"
      using f unfolding register_write_def lookup_key_def bind_res_Inr_iff case_json_Inr_iff case_option_Inr_iff
        if_Inl_Inr_iff by blast
    have "is_JInt v" using map_of_SomeD[OF x'(2)] assms(2) by (auto simp: list_all_iff)
    then show ?thesis by (cases v) (simp_all add: x'(1))
  qed
  then show ?thesis using w(1) by (simp add: hook_list_all)
qed

lemma contract_hook:
  assumes "load_contracts tables registers = Inr (t, g)" "numerical_contract t = Inr c"
  shows "hook ProfileDuplicateKey (JObject c) = Inr (JObject c)"
proof (rule numerical_contract_Inr[OF assms(2)])
  fix x y z
  assume m: "map_of t ''fir_taps'' = Some x" "map_of t ''fir_sha256'' = Some y" "map_of t ''sine_sha256'' = Some z"
    and c: "c = [(''format'', JString ''qcrate-dsp-v1''), (''sample_rate_hz'', JInt SAMPLE_RATE_HZ),
      (''output_sample_rate_hz'', JInt (SAMPLE_RATE_HZ div int DECIMATION)), (''decimation'', JInt (int DECIMATION)),
      (''phase_bits'', JInt (int PHASE_BITS)), (''amplitude_format'', JString ''signed-q1.15''),
      (''mixer_format'', JString ''signed-q1.17''), (''coefficient_format'', JString ''signed-q1.17''),
      (''output_format'', JString ''complex-signed-q1.15''), (''rounding'', JString ''nearest-ties-away-from-zero''),
      (''overflow'', JString ''signed-saturation''), (''fir_taps'', x), (''fir_sha256'', y), (''sine_sha256'', z)]"
  obtain t' where t': "hook_pairs ProfileDuplicateKey t = Inr t'"
    using load_contracts_Inr(1)[OF assms(1)] by (auto simp: result_iff)
  have "hook ProfileDuplicateKey v = Inr v" if "map_of t k = Some v" for k v
    using hook_pairs_member[OF t' that] hook_same(1) by fastforce
  from this[OF m(1)] this[OF m(2)] this[OF m(3)] show ?thesis by (simp add: c)
qed

lemma compiled_hook:
  assumes "compile_profile repo tables registers parsed = Inr r"
  shows "hook ProfileDuplicateKey (JObject r) = Inr (JObject r)"
proof -
  obtain document rq acq seq t g contract digest profile_digest writes where
    name: "case get document ''name'' of JString n \<Rightarrow> 1 \<le> length n \<and> length n \<le> 128 | _ \<Rightarrow> False"
    and acq: "compile_acquisition (get document ''acquisition'') = Inr acq"
    and seq: "compile_source repo (get document ''sequence'') = Inr seq"
    and tg: "load_contracts tables registers = Inr (t, g)" "numerical_contract t = Inr contract"
    and writes: "register_writes (active_object (request_values rq)) (digest_id digest) g = Inr writes"
    and r: "r = resolved_parts (get document ''name'') digest profile_digest contract rq acq seq writes"
    by (rule compiled_parts[OF assms])
  have n: "hook ProfileDuplicateKey (get document ''name'') = Inr (get document ''name'')"
    using name by (cases "get document ''name''") simp_all
  have a: "hook ProfileDuplicateKey (JObject acq) = Inr (JObject acq)"
    by (rule compile_acquisition_Inr[OF acq]) simp
  have s: "hook ProfileDuplicateKey (JObject seq) = Inr (JObject seq)"
    by (rule compile_source_Inr[OF seq]) simp
  have c: "hook ProfileDuplicateKey (JObject contract) = Inr (JObject contract)" by (rule contract_hook[OF tg])
  have ints: "list_all (\<lambda>(k, v). is_JInt v) (active_object (request_values rq))"
    by (simp add: active_object_def active_words_def)
  have w: "hook ProfileDuplicateKey writes = Inr writes" by (rule hook_writes[OF writes ints])
  have parts: "hook ProfileDuplicateKey (JObject (requested_object q)) = Inr (JObject (requested_object q))"
    "hook ProfileDuplicateKey (JObject (active_object v)) = Inr (JObject (active_object v))"
    "hook ProfileDuplicateKey (JObject (realized_object x y)) = Inr (JObject (realized_object x y))" for q v x y
    by (simp_all add: requested_object_def active_object_def active_words_def realized_object_def Let_def)
  have d: "hook ProfileDuplicateKey (get r ''dsp'') = Inr (get r ''dsp'')"
    unfolding r resolved_get by (rule hook_object, simp only: hook_pairs.simps bind_res_simps parts) simp
  have i: "hook ProfileDuplicateKey (get r ''identity'') = Inr (get r ''identity'')"
    unfolding r resolved_get by simp
  show ?thesis
  proof (rule hook_object)
    show "distinct (keys_of r)" by (simp add: r resolved_parts_def)
    show "hook_pairs ProfileDuplicateKey r = Inr r"
      using d i unfolding r resolved_get unfolding resolved_parts_def
      by (simp only: hook_pairs.simps hook.simps(7) bind_res_simps n a s c w)
  qed
qed

lemma compiled_reloads:
  assumes "compile_profile repo tables registers parsed = Inr r"
  shows "load_resolved_profile tables registers (JObject r) =
    (if digest_id (jtext (get (section_object r ''identity'') ''dsp_config_sha256'')) = 0
     then Inl ConfigIdRange else Inr r)"
proof -
  have "profile_load_json (JObject r) = Inr r" using compiled_hook[OF assms] by (simp add: profile_load_json_Inr_iff)
  then show ?thesis by (simp only: load_resolved_profile_def bind_res_simps compiled_validates[OF assms])
qed

section \<open>The bundle\<close>

lemma bundle_shape:
  assumes "configuration_bundle (JObject r) = Inr (config_id, vs)"
  shows "length vs = 9" "1 \<le> config_id" "\<forall>i \<in> set vs. 0 \<le> i"
proof -
  obtain active acq where m: "map (map_of active) active_names @ map (map_of acq) [''frame_length_words'', ''frame_count''] =
      map (\<lambda>i. Some (JInt i)) vs" and r: "1 \<le> config_id" "\<forall>i \<in> set vs. 0 \<le> i \<and> i \<le> 0xFFFFFFFF"
    by (rule configuration_bundle_Inr[OF assms]) blast
  show "length vs = 9" using arg_cong[OF m, of length] by (simp add: active_names_def)
  show "1 \<le> config_id" "\<forall>i \<in> set vs. 0 \<le> i" using r by blast+
qed

lemma command_reads:
  assumes "length vs = 9" "1 \<le> config_id" "\<forall>i \<in> set vs. 0 \<le> i"
    and ws: "ws = [control, ''config-apply'', hexadecimal config_id 64] @
      map (\<lambda>v. hexadecimal v 32) (take 7 vs) @ map str_int (drop 7 vs)"
  shows "length ws = 12" "map int_base0 (take 8 (drop 2 ws)) = map Some (config_id # take 7 vs)"
    "map (read_nat 10) (drop 10 ws) = map (\<lambda>v. Some (nat v)) (drop 7 vs)"
proof -
  let ?h = "map (\<lambda>v. hexadecimal v 32) (take 7 vs)" and ?d = "map str_int (drop 7 vs)"
  have len: "length ?h = 7" "length ?d = 2" using assms(1) by simp_all
  have h: "map int_base0 ?h = map Some (take 7 vs)"
    using assms(3) by (auto simp: int_base0_hexadecimal dest: in_set_takeD)
  have d: "map (read_nat 10) ?d = map (\<lambda>v. Some (nat v)) (drop 7 vs)"
  proof -
    have "0 \<le> v" if "v \<in> set (drop 7 vs)" for v using assms(3) in_set_dropD[OF that] by blast
    then show ?thesis by (simp add: str_int_def read_nat_digits not_less[symmetric])
  qed
  show "length ws = 12" unfolding ws using len by simp
  have "take 8 (drop 2 ws) = hexadecimal config_id 64 # ?h" unfolding ws using len by (simp add: take_Cons')
  then show "map int_base0 (take 8 (drop 2 ws)) = map Some (config_id # take 7 vs)"
    using h assms(2) by (simp add: int_base0_hexadecimal)
  have "drop 10 ws = ?d" unfolding ws using len by (simp add: drop_Cons')
  then show "map (read_nat 10) (drop 10 ws) = map (\<lambda>v. Some (nat v)) (drop 7 vs)" using d by (simp only:)
qed

end
