(* ===== verification/ShaEval.thy ===== *)
theory ShaEval
  imports Hashing
begin

text \<open>
  SHA-256 on integers, for evaluation by the simplifier: every rotation is a division with
  remainder, and the state of a block is a tuple.  The word-level definition of \<open>Hashing\<close> is
  refined by it.
\<close>

section \<open>Rotations and choices\<close>

abbreviation m32 :: int where "m32 \<equiv> 0x100000000"

definition i_big0 :: "int \<Rightarrow> int" where
  "i_big0 x = (x div 0x4 + x mod 0x4 * 0x40000000) XOR (x div 0x2000 + x mod 0x2000 * 0x80000) XOR
     (x div 0x400000 + x mod 0x400000 * 0x400)"

definition i_big1 :: "int \<Rightarrow> int" where
  "i_big1 x = (x div 0x40 + x mod 0x40 * 0x4000000) XOR (x div 0x800 + x mod 0x800 * 0x200000) XOR
     (x div 0x2000000 + x mod 0x2000000 * 0x80)"

definition i_small0 :: "int \<Rightarrow> int" where
  "i_small0 x = (x div 0x80 + x mod 0x80 * 0x2000000) XOR (x div 0x40000 + x mod 0x40000 * 0x4000) XOR (x div 0x8)"

definition i_small1 :: "int \<Rightarrow> int" where
  "i_small1 x = (x div 0x20000 + x mod 0x20000 * 0x8000) XOR (x div 0x80000 + x mod 0x80000 * 0x2000) XOR (x div 0x400)"

lemma uint_rotr:
  assumes "n \<le> 32"
  shows "uint (sha_rotr n w) = uint w div 2 ^ n + uint w mod 2 ^ n * 2 ^ (32 - n)"
proof -
  have b: "bit (uint w div 2 ^ n + uint w mod 2 ^ n * 2 ^ (32 - n)) k \<longleftrightarrow> bit (uint (sha_rotr n w)) k" for k
  proof -
    have disj: "drop_bit n (uint w) AND push_bit (32 - n) (take_bit n (uint w)) = 0"
    proof (rule bit_eqI)
      fix j
      have "\<not> (bit (drop_bit n (uint w)) j \<and> 32 - n \<le> j)"
      proof
        assume "bit (drop_bit n (uint w)) j \<and> 32 - n \<le> j"
        then have "bit (uint w) (n + j)" "32 \<le> n + j" using assms by (auto simp: bit_drop_bit_eq)
        then show False using bit_uint_iff[of w "n + j"] by simp
      qed
      then show "bit (drop_bit n (uint w) AND push_bit (32 - n) (take_bit n (uint w))) j = bit 0 j"
        by (auto simp: bit_and_iff bit_push_bit_iff)
    qed
    have "uint w div 2 ^ n + uint w mod 2 ^ n * 2 ^ (32 - n) =
        drop_bit n (uint w) + push_bit (32 - n) (take_bit n (uint w))"
      by (simp add: drop_bit_eq_div take_bit_eq_mod push_bit_eq_mult)
    also have "\<dots> = drop_bit n (uint w) OR push_bit (32 - n) (take_bit n (uint w))"
      using disj by (simp add: disjunctive_add_eq_or)
    finally show ?thesis
      using assms
      by (auto simp: sha_rotr_def bit_or_iff bit_uint_iff bit_drop_bit_eq bit_push_bit_iff bit_take_bit_iff
          dest: bit_imp_le_length)
  qed
  show ?thesis by (rule bit_eqI) (simp add: b)
qed

lemma uint_xor3: "uint (a XOR b XOR c) = uint a XOR uint b XOR uint (c :: 32 word)"
  by (simp add: uint_xor)

lemma i_sigma:
  "i_big0 (uint w) = uint (sha_big0 w)" "i_big1 (uint w) = uint (sha_big1 w)"
  "i_small0 (uint w) = uint (sha_small0 w)" "i_small1 (uint w) = uint (sha_small1 w)"
  by (simp_all add: i_big0_def i_big1_def i_small0_def i_small1_def sha_big0_def sha_big1_def sha_small0_def
      sha_small1_def uint_xor uint_rotr uint_div_distrib drop_bit_eq_div)

lemma ch_form: "(e AND f) XOR (NOT e AND g) = g XOR (e AND (f XOR g))" for e f g :: "32 word"
  by (rule bit_word_eqI) (auto simp: bit_simps)

lemma maj_form: "(a AND b) XOR (a AND c) XOR (b AND c) = (a AND b) OR (c AND (a OR b))" for a b c :: "32 word"
  by (rule bit_word_eqI) (auto simp: bit_simps)

section \<open>Rounds\<close>

type_synonym i_state = "int \<times> int \<times> int \<times> int \<times> int \<times> int \<times> int \<times> int"

definition i_t1 :: "int \<Rightarrow> int \<Rightarrow> int \<Rightarrow> int \<Rightarrow> int \<Rightarrow> int \<Rightarrow> int" where
  "i_t1 e f g h k w = (h + i_big1 e + (g XOR (e AND (f XOR g))) + k + w) mod m32"

definition i_t2 :: "int \<Rightarrow> int \<Rightarrow> int \<Rightarrow> int" where
  "i_t2 a b c = (i_big0 a + ((a AND b) OR (c AND (a OR b)))) mod m32"

fun i_rounds :: "i_state \<Rightarrow> (int \<times> int) list \<Rightarrow> i_state" where
  "i_rounds s [] = s"
| "i_rounds (a, b, c, d, e, f, g, h) ((k, w) # r) =
     (\<lambda>t1. i_rounds ((t1 + i_t2 a b c) mod m32, a, b, c, (d + t1) mod m32, e, f, g) r) (i_t1 e f g h k w)"

fun i_list :: "i_state \<Rightarrow> int list" where
  "i_list (a, b, c, d, e, f, g, h) = [a, b, c, d, e, f, g, h]"

definition i_words_of :: "i_state \<Rightarrow> 32 word list" where
  "i_words_of s = map word_of_int (i_list s)"

definition uints :: "32 word \<times> 32 word \<times> 32 word \<times> 32 word \<times> 32 word \<times> 32 word \<times> 32 word \<times> 32 word \<Rightarrow> i_state" where
  "uints = (\<lambda>(a, b, c, d, e, f, g, h). (uint a, uint b, uint c, uint d, uint e, uint f, uint g, uint h))"

lemma uint_add32: "uint (x + y :: 32 word) = (uint x + uint y) mod m32"
  by (simp add: uint_word_ariths)

lemma i_t1: "i_t1 (uint e) (uint f) (uint g) (uint h) (uint k) (uint w) =
    uint (h + sha_big1 e + ((e AND f) XOR (NOT e AND g)) + k + w)"
  unfolding ch_form i_t1_def i_sigma by (simp add: uint_add32 uint_xor uint_and mod_simps)

lemma i_t2: "i_t2 (uint a) (uint b) (uint c) =
    uint (sha_big0 a + ((a AND b) XOR (a AND c) XOR (b AND c)))"
  unfolding maj_form i_t2_def i_sigma by (simp add: uint_add32 uint_or uint_and)

lemma i_rounds:
  "foldl sha_round [a, b, c, d, e, f, g, h] kws =
     i_words_of (i_rounds (uints (a, b, c, d, e, f, g, h)) (map (\<lambda>(k, w). (uint k, uint w)) kws))"
proof (induction kws arbitrary: a b c d e f g h)
  case Nil
  then show ?case by (simp add: i_words_of_def uints_def)
next
  case (Cons kw kws)
  obtain k w where kw: "kw = (k, w)" by (cases kw)
  show ?case
    by (simp add: kw Let_def Cons.IH uints_def i_t1 i_t2 flip: uint_add32) 
qed

section \<open>Blocks\<close>

fun i_extend :: "nat \<Rightarrow> int list \<Rightarrow> int list" where
  "i_extend 0 w = w"
| "i_extend (Suc n) w = i_extend n (((i_small1 (w ! 1) + w ! 6 + i_small0 (w ! 14) + w ! 15) mod m32) # w)"

lemma i_extend: "16 \<le> length w \<Longrightarrow> i_extend n (map uint w) = map uint (sha_extend n w)"
proof (induction n arbitrary: w)
  case (Suc n)
  have "(i_small1 (map uint w ! 1) + map uint w ! 6 + i_small0 (map uint w ! 14) + map uint w ! 15) mod m32 =
      uint (sha_small1 (w ! 1) + w ! 6 + sha_small0 (w ! 14) + w ! 15)"
    using Suc.prems by (simp add: i_sigma uint_add32 mod_simps)
  then show ?case using Suc.IH[of "(sha_small1 (w ! 1) + w ! 6 + sha_small0 (w ! 14) + w ! 15) # w"] Suc.prems by simp
qed simp

fun i_quads :: "int list \<Rightarrow> int list" where
  "i_quads (a # b # c # d # r) = (a * 0x1000000 + b * 0x10000 + c * 0x100 + d) # i_quads r"
| "i_quads _ = []"

definition i_add :: "i_state \<Rightarrow> i_state \<Rightarrow> i_state" where
  "i_add s t = (case (s, t) of ((a, b, c, d, e, f, g, h), (a', b', c', d', e', f', g', h')) \<Rightarrow>
     ((a + a') mod m32, (b + b') mod m32, (c + c') mod m32, (d + d') mod m32,
      (e + e') mod m32, (f + f') mod m32, (g + g') mod m32, (h + h') mod m32))"

definition i_block :: "i_state \<Rightarrow> int list \<Rightarrow> i_state" where
  "i_block s q = i_add s (i_rounds s (zip (map uint sha_K) (rev (i_extend 48 (rev q)))))"

definition i_ok :: "i_state \<Rightarrow> bool" where
  "i_ok s = list_all (\<lambda>x. 0 \<le> x \<and> x < m32) (i_list s)"

lemma uint_word_of_int32: "0 \<le> x \<Longrightarrow> x < m32 \<Longrightarrow> uint (word_of_int x :: 32 word) = x"
  by (simp add: uint_word_of_int)

lemma i_ok_uints:
  assumes "i_ok s"
  obtains a b c d e f g h where "s = uints (a, b, c, d, e, f, g, h)" "i_words_of s = [a, b, c, d, e, f, g, h]"
proof -
  obtain a b c d e f g h where s: "s = (a, b, c, d, e, f, g, h)" by (cases s rule: i_list.cases)
  show ?thesis
    using assms by (intro that[of "word_of_int a" "word_of_int b" "word_of_int c" "word_of_int d" "word_of_int e"
          "word_of_int f" "word_of_int g" "word_of_int h"])
      (simp_all add: s i_ok_def uints_def uint_word_of_int32 i_words_of_def)
qed

lemma i_add_ok: "i_ok (i_add s t)"
  by (cases s rule: i_list.cases; cases t rule: i_list.cases) (simp add: i_add_def i_ok_def)

lemma i_block:
  assumes "i_ok s" "length (sha_words blk) = 16"
  shows "sha_block (i_words_of s) blk = i_words_of (i_block s (map uint (sha_words blk)))" "i_ok (i_block s q)"
proof -
  obtain a b c d e f g h where s: "s = uints (a, b, c, d, e, f, g, h)" "i_words_of s = [a, b, c, d, e, f, g, h]"
    by (rule i_ok_uints[OF assms(1)])
  let ?w = "rev (sha_extend 48 (rev (sha_words blk)))"
  have "rev (i_extend 48 (rev (map uint (sha_words blk)))) = map uint ?w"
    using i_extend[of "rev (sha_words blk)" 48] assms(2) by (simp add: rev_map)
  then have z: "zip (map uint sha_K) (rev (i_extend 48 (rev (map uint (sha_words blk))))) =
      map (\<lambda>(k, w). (uint k, uint w)) (zip sha_K ?w)"
    by (simp add: zip_map_map)
  have fold: "foldl sha_round [a, b, c, d, e, f, g, h] (zip sha_K ?w) =
      i_words_of (i_rounds s (map (\<lambda>(k, w). (uint k, uint w)) (zip sha_K ?w)))"
    unfolding s(1) by (rule i_rounds)
  obtain a' b' c' d' e' f' g' h' where t: "i_rounds s (map (\<lambda>(k, w). (uint k, uint w)) (zip sha_K ?w)) =
      (a', b', c', d', e', f', g', h')" by (metis surj_pair)
  have wa: "word_of_int ((uint x + y) mod m32) = x + word_of_int y" for x :: "32 word" and y
  proof -
    have "word_of_int (k mod m32) = (word_of_int k :: 32 word)" for k
      by transfer (simp add: take_bit_eq_mod)
    then show ?thesis by simp
  qed
  show "sha_block (i_words_of s) blk = i_words_of (i_block s (map uint (sha_words blk)))"
    unfolding sha_block_def Let_def s(2) fold i_block_def z t
    by (simp add: i_words_of_def s(1) uints_def i_add_def wa)
  show "i_ok (i_block s q)" unfolding i_block_def by (rule i_add_ok)
qed

fun i_run :: "nat \<Rightarrow> i_state \<Rightarrow> int list \<Rightarrow> i_state" where
  "i_run 0 s q = s"
| "i_run (Suc n) s q = i_run n (i_block s (take 16 q)) (drop 16 q)"

lemma sha_words_append: "length xs = 4 * n \<Longrightarrow> sha_words (xs @ ys) = sha_words xs @ sha_words ys \<and> length (sha_words xs) = n"
proof (induction n arbitrary: xs)
  case (Suc n)
  then obtain a b c d r where "xs = a # b # c # d # r" "length r = 4 * n"
    by (auto simp: length_Suc_conv numeral_eq_Suc)
  then show ?case using Suc.IH[of r] by simp
qed simp

lemma i_quads: "map uint (sha_words bs) = i_quads (map uint bs)"
proof (induction bs rule: sha_words.induct)
  case (1 a b c d r)
  have e: "be_int [a, b, c, d] = uint a * 0x1000000 + uint b * 0x10000 + uint c * 0x100 + uint d"
    by (simp add: be_int_def)
  have "0 \<le> be_int [a, b, c, d]" "be_int [a, b, c, d] < m32"
    using uint_lt2p[of a] uint_lt2p[of b] uint_lt2p[of c] uint_lt2p[of d] unfolding e by simp_all
  then have "uint (word_of_int (be_int [a, b, c, d]) :: 32 word) = be_int [a, b, c, d]"
    by (rule uint_word_of_int32)
  then show ?case using 1 e by simp
qed simp_all

lemma i_run:
  "i_ok s \<Longrightarrow> length bs = 64 * n \<Longrightarrow> sha_blocks n (i_words_of s) bs = i_words_of (i_run n s (i_quads (map uint bs))) \<and>
     i_ok (i_run n s (i_quads (map uint bs)))"
proof (induction n arbitrary: s bs)
  case (Suc n)
  let ?b = "take 64 bs" and ?r = "drop 64 bs"
  have l: "length ?b = 4 * 16" "length ?r = 64 * n" using Suc.prems by simp_all
  have w: "sha_words bs = sha_words ?b @ sha_words ?r" "length (sha_words ?b) = 16"
    using sha_words_append[OF l(1), of ?r] by simp_all
  have q: "i_quads (map uint bs) = map uint (sha_words ?b) @ i_quads (map uint ?r)"
    unfolding i_quads[symmetric] w(1) by simp
  show ?case
    using Suc.IH[OF i_block(2)[OF Suc.prems(1) w(2)] l(2)] i_block(1)[OF Suc.prems(1) w(2)] w(2)
    by (simp add: q)
qed simp

section \<open>Digests\<close>

definition i_init :: i_state where
  "i_init = (1779033703, 3144134277, 1013904242, 2773480762, 1359893119, 2600822924, 528734635, 1541459225)"

lemma i_init: "sha_init = i_words_of i_init" "i_ok i_init"
  by (simp_all add: sha_init_def i_words_of_def i_init_def i_ok_def)

lemma sha_pad_length: "64 dvd length (sha_pad bs)"
proof -
  define q r where "q = length bs div 64" and "r = length bs mod 64"
  have l: "length bs = 64 * q + r" "r < 64" by (simp_all add: q_def r_def)
  have "length (sha_pad bs) = length bs + 9 + (119 - r) mod 64"
    by (simp add: sha_pad_def be.enc_length r_def)
  also have "(119 - r) mod 64 = (if r \<le> 55 then 55 - r else 119 - r)"
    using l(2) le_mod_geq[of 64 "119 - r"] by auto
  finally have "length (sha_pad bs) = 64 * (if r \<le> 55 then q + 1 else q + 2)" using l by auto
  then show ?thesis by simp
qed

lemma sha256_ints:
  assumes "i_run (length (sha_pad bs) div 64) i_init (i_quads (map uint (sha_pad bs))) = s"
  shows "sha256 bs = concat (map (be_bytes 4) (i_list s))"
proof -
  let ?n = "length (sha_pad bs) div 64"
  have "length (sha_pad bs) = 64 * ?n" using sha_pad_length[of bs] by simp
  then have r: "sha_blocks ?n sha_init (sha_pad bs) = i_words_of s" "i_ok s"
    using i_run[OF i_init(2), of "sha_pad bs" ?n] assms i_init(1) by simp_all
  have "map (\<lambda>w. be_bytes 4 (uint w)) (i_words_of s) = map (be_bytes 4) (i_list s)"
    using r(2) by (simp add: i_words_of_def i_ok_def list_all_iff uint_word_of_int32)
  then show ?thesis by (simp add: sha256_def Let_def r(1))
qed

text \<open>The test vector of FIPS 180-4.\<close>

lemma sha256_abc: "sha256 [0x61, 0x62, 0x63] = concat (map (be_bytes 4)
    [0xba7816bf, 0x8f01cfea, 0x414140de, 0x5dae2223, 0xb00361a3, 0x96177a9c, 0xb410ff61, 0xf20015ad])"
proof -
  have "i_run (length (sha_pad [0x61, 0x62, 0x63]) div 64) i_init (i_quads (map uint (sha_pad [0x61, 0x62, 0x63]))) =
      (0xba7816bf, 0x8f01cfea, 0x414140de, 0x5dae2223, 0xb00361a3, 0x96177a9c, 0xb410ff61, 0xf20015ad)"
    by code_simp
  from sha256_ints[OF this] show ?thesis by (simp only: i_list.simps)
qed

end
