(* ===== verification/ProfileExample.thy ===== *)
theory ProfileExample
  imports ProfileUse ShaEval
begin

text \<open>
  A complete experiment profile, compiled step by step: the tracked example with a 30 MHz source and
  a 28.5 MHz oscillator (its requested values, active words, numerical contract and DSP digest are
  those of the repository), on the example pulse sequence.
\<close>

section \<open>An example\<close>

definition example_dsp :: json where
  "example_dsp = JObject
     [(''signal_frequency_hz'', JInt 30000000), (''signal_phase_turns'', JInt 0),
      (''signal_amplitude'', JFloat ''0.75''), (''noise_amplitude'', JFloat ''0.01''),
      (''noise_seed'', JInt 44257), (''lo_frequency_hz'', JInt 28500000), (''lo_phase_turns'', JInt 0)]"

definition example_acquisition :: json where
  "example_acquisition = JObject
     [(''frame_length_words'', JInt 1024), (''frame_count'', JInt 4), (''stream_mode'', JString ''dsp'')]"

definition example_source :: json where
  "example_source = JObject [(''source'', JString ''pulses.json'')]"

definition example_profile :: json where
  "example_profile = JObject
     [(''format'', JString ''qcrate-experiment-profile-v1''), (''name'', JString ''28.5 MHz LO''),
      (''dsp'', example_dsp), (''acquisition'', example_acquisition), (''sequence'', example_source)]"

definition example_repo :: "string \<Rightarrow> source_file" where
  "example_repo path = (if path = ''pulses.json'' then ParsedFile (JObject example_document) else NotAFile)"

definition example_tables :: json where
  "example_tables = JObject
     [(''decimation'', JInt 16), (''fir_sha256'', JString ''0a0bf810b70a5f682a51046ec3d6d4529a5e6f7d6a883fb78e952f5b5fa2508e''), (''fir_taps'', JInt 217),
      (''format'', JString ''qcrate-dsp-tables-v1''), (''sample_rate_hz'', JInt 200000000),
      (''sine_sha256'', JString ''25b27e310ba59401e3f48ee68d7dc0c1a37ca9d70d3a59f3863d0e95c8799fee'')]"

definition example_field :: "string \<Rightarrow> int \<Rightarrow> int \<Rightarrow> json" where
  "example_field n w s = JObject [(''name'', JString n), (''width'', JInt w), (''shadow_offset'', JInt s)]"

definition example_registers :: json where
  "example_registers = JObject
     [(''format'', JString ''qcrate-dsp-register-contract-v1''), (''page_offset'', JInt 12288),
      (''configuration_fields'', JArray
        [example_field ''CONFIG_ID_LOW'' 32 16, example_field ''CONFIG_ID_HIGH'' 32 20,
         example_field ''SIGNAL_PHASE_INCREMENT'' 32 24, example_field ''SIGNAL_PHASE_INITIAL'' 32 28,
         example_field ''SIGNAL_AMPLITUDE_Q1_15'' 16 32, example_field ''NOISE_AMPLITUDE_Q1_15'' 16 36,
         example_field ''NOISE_SEED'' 16 40, example_field ''LO_PHASE_INCREMENT'' 32 44,
         example_field ''LO_PHASE_INITIAL'' 32 48])]"

definition example_request :: dsp_request where
  "example_request =
     \<lparr>rq_signal_frequency = Dec False 30000000 0, rq_lo_frequency = Dec False 28500000 0,
      rq_signal_phase = Dec False 0 0, rq_lo_phase = Dec False 0 0,
      rq_signal_amplitude = Dec False 75 (- 2), rq_noise_amplitude = Dec False 1 (- 2),
      rq_noise_seed = 44257\<rparr>"

lemma example_parses:
  "parse_decimal ''0.75'' = Some (Dec False 75 (- 2))" "parse_decimal ''0.01'' = Some (Dec False 1 (- 2))"
  "round28 (19 / 25) = 19 / 25"
  by code_simp+

lemma example_dsp_compiles: "compile_dsp example_dsp = Inr example_request"
  by (simp add: compile_dsp_def example_dsp_def check_object_def request_keys_def sorted_keys_def get_def
      check_decimal_def example_parses example_request_def Let_def dec_value_def scale10_def nyquist_hz_def
      SAMPLE_RATE_HZ_def)

lemma example_signal_word: "phase_word 30000000 SAMPLE_RATE_HZ = 644245094" by code_simp
lemma example_lo_word: "phase_word 28500000 SAMPLE_RATE_HZ = 612032840" by code_simp
lemma example_phase: "phase_word 0 1 = 0" by code_simp
lemma example_signal_amplitude: "q1_15 (75 / 100) = 24576" by code_simp
lemma example_noise_amplitude: "q1_15 (1 / 100) = 328" by code_simp

lemmas example_words = example_signal_word example_lo_word example_phase example_signal_amplitude
  example_noise_amplitude

lemma example_active: "active_words (request_values example_request) =
    [(''SIGNAL_PHASE_INCREMENT'', 644245094), (''SIGNAL_PHASE_INITIAL'', 0), (''SIGNAL_AMPLITUDE_Q1_15'', 24576),
     (''NOISE_AMPLITUDE_Q1_15'', 328), (''NOISE_SEED'', 44257), (''LO_PHASE_INCREMENT'', 612032840),
     (''LO_PHASE_INITIAL'', 0)]"
  using example_words
  by (simp add: active_words_def request_values_def example_request_def dec_value_def scale10_def)

definition example_geometry :: jobject where
  "example_geometry = [(''frame_length_words'', JInt 1024), (''frame_count'', JInt 4),
     (''stream_mode'', JString ''dsp''), (''stream_mode_value'', JInt 1)]"

lemma example_acquisition_compiles: "compile_acquisition example_acquisition = Inr example_geometry"
  by code_simp

lemma example_source_resolves: "\<exists>s. compile_source example_repo example_source = Inr s"
proof -
  have e: "load_json (JObject example_document) = Inr example_document" by code_simp
  have v: "validate_events example_events = Inr ()" by code_simp
  have "\<not> isl (map_res encode_event example_events)" by code_simp
  then obtain recs where recs: "map_res encode_event example_events = Inr recs"
    by (cases "map_res encode_event example_events") simp_all
  have "\<exists>h. struct_pack le_bytes SEQ_HEADER (seq_header (int (length example_events)) (crc32 (concat recs))) = Some h"
    using seq_header_pack crc32_bounds by (simp add: example_events_def)
  then obtain img where img: "encode_sequence example_events = Inr img"
    unfolding encode_sequence_Inr_iff using v recs by blast
  then show ?thesis
    by (simp add: compile_source_def example_source_def check_object_def sorted_keys_def get_def
        resolve_sequence_def example_repo_def e example_compiles img Let_def)
qed

lemma example_contracts:
  "load_contracts example_tables example_registers =
     Inr (case example_tables of JObject d \<Rightarrow> d, case example_registers of JObject d \<Rightarrow> d)"
  by code_simp

lemma config_id_halves:
  "config_id AND 0xFFFFFFFF < 2 ^ 32 \<and> 0 \<le> config_id AND (0xFFFFFFFF :: int)"
  "0 \<le> i \<Longrightarrow> i < 2 ^ 64 \<Longrightarrow> 0 \<le> drop_bit 32 i \<and> drop_bit 32 i < (2 ^ 32 :: int)"
proof -
  have "config_id AND 0xFFFFFFFF = take_bit 32 config_id" by (simp add: take_bit_eq_mask mask_eq_exp_minus_1)
  then show "config_id AND 0xFFFFFFFF < 2 ^ 32 \<and> 0 \<le> config_id AND (0xFFFFFFFF :: int)"
    using take_bit_int_less_exp[of 32 config_id] by simp
  assume i: "0 \<le> i" "i < 2 ^ 64"
  have "i = 4294967296 * (i div 4294967296) + i mod 4294967296" "0 \<le> i mod 4294967296" by simp_all
  then have "4294967296 * (i div 4294967296) < 4294967296 * 4294967296" using i(2) by simp
  then show "0 \<le> drop_bit 32 i \<and> drop_bit 32 i < (2 ^ 32 :: int)"
    using i(1) by (simp add: drop_bit_eq_div)
qed

lemma example_writes:
  "\<exists>w. register_writes (active_object (request_values example_request)) (digest_id d)
     (case example_registers of JObject d \<Rightarrow> d) = Inr w"
  using config_id_halves(1)[of "digest_id d"] config_id_halves(2)[of "digest_id d"] digest_id_range[of d]
  by (simp add: register_writes_def active_object_def example_active example_registers_def example_field_def
      lookup_key_def register_write_def field_item_def ensure_def not_le)

section \<open>Its identity\<close>

text \<open>
  The canonical text of the DSP identity of this configuration, its thirteen blocks and the states
  between them.  The digest is the one recorded in
  \<open>host/experiment_profiles/examples/resolved/lo_28_5mhz.resolved.json\<close>.
\<close>

definition identity_text :: string where
  \<open>identity_text =
     ''{"active":{"LO_PHASE_INCREMENT":612032840,"LO_PHASE_INITIAL":0,'' @
     ''"NOISE_AMPLITUDE_Q1_15":328,"NOISE_SEED":44257,"SIGNAL_AMPLITUDE_Q1_15":24576,'' @
     ''"SIGNAL_PHASE_INCREMENT":644245094,"SIGNAL_PHASE_INITIAL":0},'' @
     ''"format":"qcrate-dsp-config-identity-v1",'' @
     ''"numerical_contract":{"amplitude_format":"signed-q1.15",'' @
     ''"coefficient_format":"signed-q1.17","decimation":16,'' @
     ''"fir_sha256":"0a0bf810b70a5f682a51046ec3d6d4529a5e6f7d6a883fb78e952f5b5fa2508e",'' @
     ''"fir_taps":217,"format":"qcrate-dsp-v1","mixer_format":"signed-q1.17",'' @
     ''"output_format":"complex-signed-q1.15","output_sample_rate_hz":12500000,'' @
     ''"overflow":"signed-saturation","phase_bits":32,"rounding":"nearest-ties-away-from-zero",'' @
     ''"sample_rate_hz":200000000,'' @
     ''"sine_sha256":"25b27e310ba59401e3f48ee68d7dc0c1a37ca9d70d3a59f3863d0e95c8799fee"}}''\<close>

definition identity_block0 :: "int list" where
  "identity_block0 =
     [2065850723, 1953068645, 574257954, 1280270160, 1212240709, 1598639683, 1380273477, 1314136634,
      909193776, 858929204, 808198732, 1331646536, 1095976287, 1229867348, 1229016098, 976235554]"

definition identity_block1 :: "int list" where
  "identity_block1 =
     [1313818963, 1163870541, 1347176788, 1430537567, 1362190129, 891435571, 842542114, 1313818963,
      1163875141, 1162093114, 875835957, 925639251, 1229409857, 1281311053, 1347176788, 1430537567]"

definition identity_block2 :: "int list" where
  "identity_block2 =
     [1362190129, 891435570, 875902774, 740447049, 1196310860, 1599096897, 1397055305, 1313034821,
      1296387668, 574240308, 875705397, 809055276, 575883591, 1312902239, 1346912595, 1163872590]"

definition identity_block3 :: "int list" where
  "identity_block3 =
     [1230260545, 1277311536, 2100044390, 1869770081, 1948400162, 1902342753, 1952787812, 1936731491,
      1869506153, 1731029348, 1701737577, 1954098550, 824323106, 1853189477, 1919509345, 1818190703]"

definition identity_block4 :: "int list" where
  "identity_block4 =
     [1853125217, 1668555322, 2065850733, 1886153076, 1969513823, 1718579821, 1635000890, 577988967,
      1852138541, 1899048497, 891431970, 1668244838, 1718182761, 1701737567, 1718579821, 1635000890]"

definition identity_block5 :: "int list" where
  "identity_block5 =
     [577988967, 1852138541, 1899048497, 924986402, 1684366185, 1835103337, 1869488698, 825633826,
      1718186591, 1936220466, 892740154, 573595952, 1650866225, 811743024, 1630889526, 942825781]"

definition identity_block6 :: "int list" where
  "identity_block6 =
     [825242678, 1701000036, 912536629, 842621237, 1698063927, 1681285432, 942892642, 926442809,
      892495413, 1647666785, 842346552, 1696738338, 1718186591, 1952542835, 574239281, 925639270]"

definition identity_block7 :: "int list" where
  "identity_block7 =
     [1869770081, 1948400162, 1902342753, 1952787812, 1936731510, 824323106, 1835628645, 1918854767,
      1919770996, 574235251, 1768386149, 1680699697, 774977314, 740454261, 1953527156, 1600548722]"

definition identity_block8 :: "int list" where
  "identity_block8 =
     [1835103266, 975332207, 1836084325, 2016244585, 1735288164, 762392878, 825565740, 577729908,
      1886745695, 1935764848, 1818582898, 1635018079, 1752834618, 825374000, 808464432, 740454262]"

definition identity_block9 :: "int list" where
  "identity_block9 =
     [1701996140, 1870078522, 577988967, 1852138541, 1935766645, 1918989417, 1869488684, 577792097,
      1936023394, 1769239330, 976433708, 577924981, 1852074350, 1730296354, 1852137842, 1702065197]"

definition identity_block10 :: "int list" where
  "identity_block10 =
     [1953064307, 761362273, 2033018482, 1869426042, 1701998370, 740455265, 1836084325, 1601331572,
      1700751482, 574239280, 808464432, 808464428, 577988974, 1700754280, 1630680374, 574235186]"

definition identity_block11 :: "int list" where
  "identity_block11 =
     [895627831, 1697853744, 1650537785, 875573605, 862336056, 1701131832, 1681351779, 811807073,
      859267937, 962869040, 1681088821, 962999096, 909337648, 1698248035, 943143225, 1717921058]"

definition identity_block12 :: "int list" where
  "identity_block12 =
     [2105376768, 0, 0, 0, 0, 0, 0, 0,
      0, 0, 0, 0, 0, 0, 0, 6160]"

definition identity_state1 :: i_state where
  "identity_state1 =
     (1477971572, 693282030, 3924279184, 2757356026, 4274389565, 2545168180, 331048219, 2516384292)"

definition identity_state2 :: i_state where
  "identity_state2 =
     (1119140511, 895013839, 2257379, 1102198351, 414792059, 1810017662, 1291603288, 1929629929)"

definition identity_state3 :: i_state where
  "identity_state3 =
     (1663039478, 1693263460, 2048480990, 3170574521, 2389459439, 2686259570, 1572563213, 657139564)"

definition identity_state4 :: i_state where
  "identity_state4 =
     (734299613, 3146516782, 1776987640, 1089908725, 1056421716, 1260313887, 2981749255, 2882809383)"

definition identity_state5 :: i_state where
  "identity_state5 =
     (2586035891, 1764912311, 1851370076, 2740323583, 2332361802, 1733646923, 3868644028, 3050838105)"

definition identity_state6 :: i_state where
  "identity_state6 =
     (1557199221, 3310225182, 3977044356, 4204966772, 2844673130, 3017619964, 2931027233, 750661864)"

definition identity_state7 :: i_state where
  "identity_state7 =
     (4011130633, 3846911230, 2283094613, 1296920607, 765820358, 2910787474, 2940049749, 4280248397)"

definition identity_state8 :: i_state where
  "identity_state8 =
     (1622087675, 394957143, 3070295691, 629450924, 3696608063, 2449081150, 1628002589, 3654585026)"

definition identity_state9 :: i_state where
  "identity_state9 =
     (993663027, 2088160590, 2192687624, 1160582619, 1166591397, 208263693, 358887849, 2331771619)"

definition identity_state10 :: i_state where
  "identity_state10 =
     (3085601454, 2631778404, 2942927895, 2926866697, 3320402766, 3039290694, 2164674798, 3476684809)"

definition identity_state11 :: i_state where
  "identity_state11 =
     (2942508926, 1192954366, 3946584167, 211831504, 1518559793, 2288984027, 3634214, 3471030186)"

definition identity_state12 :: i_state where
  "identity_state12 =
     (1748997480, 1182215749, 2473581061, 2818775376, 1518400635, 3927589170, 1734268600, 2356904770)"

definition identity_state13 :: i_state where
  "identity_state13 =
     (2940610683, 3110726948, 4260328639, 1063950964, 923583001, 2638794050, 867515163, 3119201505)"

lemma identity_quads: "i_quads (map uint (sha_pad (ascii identity_text))) =
    identity_block0 @
    identity_block1 @
    identity_block2 @
    identity_block3 @
    identity_block4 @
    identity_block5 @
    identity_block6 @
    identity_block7 @
    identity_block8 @
    identity_block9 @
    identity_block10 @
    identity_block11 @
    identity_block12"
  by code_simp

lemma identity_step0: "i_block i_init identity_block0 = identity_state1"
  by code_simp

lemma identity_step1: "i_block identity_state1 identity_block1 = identity_state2"
  by code_simp

lemma identity_step2: "i_block identity_state2 identity_block2 = identity_state3"
  by code_simp

lemma identity_step3: "i_block identity_state3 identity_block3 = identity_state4"
  by code_simp

lemma identity_step4: "i_block identity_state4 identity_block4 = identity_state5"
  by code_simp

lemma identity_step5: "i_block identity_state5 identity_block5 = identity_state6"
  by code_simp

lemma identity_step6: "i_block identity_state6 identity_block6 = identity_state7"
  by code_simp

lemma identity_step7: "i_block identity_state7 identity_block7 = identity_state8"
  by code_simp

lemma identity_step8: "i_block identity_state8 identity_block8 = identity_state9"
  by code_simp

lemma identity_step9: "i_block identity_state9 identity_block9 = identity_state10"
  by code_simp

lemma identity_step10: "i_block identity_state10 identity_block10 = identity_state11"
  by code_simp

lemma identity_step11: "i_block identity_state11 identity_block11 = identity_state12"
  by code_simp

lemma identity_step12: "i_block identity_state12 identity_block12 = identity_state13"
  by code_simp

lemma identity_lengths:
  "length identity_block0 = 16"
  "length identity_block1 = 16"
  "length identity_block2 = 16"
  "length identity_block3 = 16"
  "length identity_block4 = 16"
  "length identity_block5 = 16"
  "length identity_block6 = 16"
  "length identity_block7 = 16"
  "length identity_block8 = 16"
  "length identity_block9 = 16"
  "length identity_block10 = 16"
  "length identity_block11 = 16"
  "length identity_block12 = 16"
  by (simp_all add: identity_block0_def identity_block1_def identity_block2_def identity_block3_def identity_block4_def identity_block5_def identity_block6_def identity_block7_def identity_block8_def identity_block9_def identity_block10_def identity_block11_def identity_block12_def)

definition example_digest :: string where
  "example_digest = ''af46287bb969ed24fdef74bf3f6a9a74370cc2199d48cd4233b53b1bb9eb3ce1''"

lemma identity_sha256: "hexdigest (sha256 (ascii identity_text)) = example_digest"
proof -
  have n: "length (sha_pad (ascii identity_text)) div 64 = 13" by code_simp
  have "i_run 13 i_init (i_quads (map uint (sha_pad (ascii identity_text)))) = identity_state13"
    unfolding identity_quads
    by (simp add: numeral_eq_Suc identity_lengths flip: identity_step0 identity_step1 identity_step2 identity_step3
        identity_step4 identity_step5 identity_step6 identity_step7 identity_step8 identity_step9 identity_step10
        identity_step11 identity_step12)
  then have "sha256 (ascii identity_text) = concat (map (be_bytes 4) (i_list identity_state13))"
    by (intro sha256_ints) (simp only: n)
  moreover have "hexdigest (concat (map (be_bytes 4) (i_list identity_state13))) = example_digest" by code_simp
  ultimately show ?thesis by simp
qed

definition example_contract :: jobject where
  "example_contract = projr (numerical_contract (case example_tables of JObject d \<Rightarrow> d))"

lemma example_contract: "numerical_contract (case example_tables of JObject d \<Rightarrow> d) = Inr example_contract"
proof -
  have "\<not> isl (numerical_contract (case example_tables of JObject d \<Rightarrow> d))" by code_simp
  then show ?thesis by (simp add: example_contract_def)
qed

text \<open>Decimal digits on integers, for evaluation.\<close>

function int_dec :: "int \<Rightarrow> string" where
  "int_dec i = (if i < 10 then [digit_char (nat i)] else int_dec (i div 10) @ [digit_char (nat (i mod 10))])"
  by auto
termination by (relation "measure nat") auto

declare int_dec.simps [simp del]

lemma int_dec: "0 \<le> i \<Longrightarrow> int_dec i = dec (nat i)"
proof (induction i rule: int_dec.induct)
  case (1 i)
  show ?case
  proof (cases "i < 10")
    case True
    then have "nat i < 10" by simp
    then show ?thesis using True by (subst int_dec.simps, subst digits.simps) simp
  next
    case False
    then have "\<not> nat i < 10" "nat i div 10 = nat (i div 10)" "nat i mod 10 = nat (i mod 10)"
      by (simp_all add: nat_div_distrib nat_mod_distrib)
    moreover have "int_dec (i div 10) = dec (nat (i div 10))" using 1 False by simp
    ultimately show ?thesis using False by (subst int_dec.simps, subst digits.simps) simp
  qed
qed

lemma str_int_code [code]: "str_int i = (if i < 0 then CHR ''-'' # int_dec (- i) else int_dec i)"
  by (simp add: str_int_def int_dec)

lemma example_identity:
  "dsp_identity (JObject example_contract) (JObject (active_object (request_values example_request))) = Inr example_digest"
proof -
  have "json_text (JObject [(''format'', JString DSP_IDENTITY_FORMAT), (''numerical_contract'', JObject example_contract),
      (''active'', JObject (active_object (request_values example_request)))]) = Some identity_text"
    unfolding active_object_def example_active by code_simp
  then show ?thesis
    unfolding dsp_identity_def json_sha256_def canonical_bytes_def
    by (simp only: option.case bind_res_simps identity_sha256)
qed

lemma example_digest_id: "digest_id example_digest = 0xaf46287bb969ed24"
  by (simp add: digest_id_def example_digest_def read_nat_def digit_value_def)

lemma json_sha256_text: "json_text v \<noteq> None \<Longrightarrow> \<exists>d. json_sha256 v = Inr d"
  by (auto simp: json_sha256_def canonical_bytes_def)

lemma example_compiles_profile:
  "\<exists>r. compile_profile example_repo example_tables example_registers example_profile = Inr r \<and>
     get (section_object r ''identity'') ''dsp_config_sha256'' = JString example_digest"
proof -
  obtain s where s: "compile_source example_repo example_source = Inr s" using example_source_resolves by blast
  obtain p i c n where sh: "s = [(''source'', JString p), (''image_sha256'', JString i), (''payload_crc32'', JInt c),
      (''event_count'', JInt n), (''tick_hz'', JInt TICK_HZ)]"
    by (rule compile_source_Inr[OF s])
  have "\<exists>q. profile_identity example_digest (JObject example_geometry) s = Inr q"
    unfolding profile_identity_def by (rule json_sha256_text) (simp add: sh get_def example_geometry_def)
  then obtain q where q: "profile_identity example_digest (JObject example_geometry) s = Inr q" by blast
  obtain w where w: "register_writes (active_object (request_values example_request)) (digest_id example_digest)
     (case example_registers of JObject d \<Rightarrow> d) = Inr w"
    using example_writes by blast
  have load: "profile_load_json example_profile = Inr [(''format'', JString PROFILE_FORMAT), (''name'', JString ''28.5 MHz LO''),
      (''dsp'', example_dsp), (''acquisition'', example_acquisition), (''sequence'', example_source)]"
    by code_simp
  have keys: "check_object (JObject [(''format'', JString PROFILE_FORMAT), (''name'', JString ''28.5 MHz LO''),
      (''dsp'', example_dsp), (''acquisition'', example_acquisition), (''sequence'', example_source)])
      [''format'', ''name'', ''dsp'', ''acquisition'', ''sequence''] ''profile'' =
      Inr [(''format'', JString PROFILE_FORMAT), (''name'', JString ''28.5 MHz LO''),
      (''dsp'', example_dsp), (''acquisition'', example_acquisition), (''sequence'', example_source)]"
    by (rule check_object_Inr) simp
  show ?thesis
    unfolding compile_profile_def load keys bind_res_simps
    by (simp add: get_def ensure_def example_dsp_compiles example_acquisition_compiles s example_contracts example_contract
        resolve_profile_def Let_def example_identity q w section_object_def)
qed

end
