(* ===== verification/ProfileProperties.thy ===== *)
theory ProfileProperties
  imports ProfileExample
begin

text \<open>
  The properties of the experiment profile compiler and validator.
\<close>

section \<open>Texts\<close>

text \<open>
  C24. A decimal printed into a profile (fixed notation, trailing zeros and a trailing point removed) reads back
  to the value it was printed from, whatever its sign, coefficient and exponent.
\<close>

theorem decimal_string_round_trip: "decimal_of_string (decimal_string d) = Some (dec_value d)"
  by (rule decimal_string_reads)

section \<open>Compilation and validation\<close>

text \<open>
  C25. A compiled profile can be loaded again and passes the validator, which recomputes its numerical
  contract, active words, realized frequencies, both digests and the register writes; only a DSP digest whose
  first eight bytes are zero, which gives the identifier 0, is rejected.
\<close>

theorem compiled_profile_validates:
  assumes "compile_profile repo tables registers parsed = Inr r"
  shows "load_resolved_profile tables registers (JObject r) =
    (if digest_id (jtext (get (section_object r ''identity'') ''dsp_config_sha256'')) = 0
     then Inl ConfigIdRange else Inr r)"
  using assms by (rule compiled_reloads)

theorem compiled_profile_validates_witness:
  "\<exists>r. compile_profile example_repo example_tables example_registers example_profile = Inr r \<and>
     load_resolved_profile example_tables example_registers (JObject r) = Inr r"
proof -
  obtain r where r: "compile_profile example_repo example_tables example_registers example_profile = Inr r"
    "get (section_object r ''identity'') ''dsp_config_sha256'' = JString example_digest"
    using example_compiles_profile by blast
  show ?thesis
    using compiled_profile_validates[OF r(1)] r by (simp add: example_digest_id)
qed

text \<open>
  C26. A resolved profile that loads is one the DSP model runs, and the command that configures the hardware
  carries exactly the model's words: the requested texts determine a valid model configuration, the seven
  words of the command are the ones that configuration stands for, its geometry is the profile's, and its
  identifier is the one of the profile's DSP digest, between 1 and 2^64 - 1.
\<close>

theorem loaded_profile_command:
  assumes "load_resolved_profile tables registers parsed = Inr r"
  shows "\<exists>cfg digest. config_from_resolved_document r = Inr cfg \<and> validate_config cfg = Inr cfg \<and>
    dsp_identity (get r ''numerical_contract'') (get (section_object r ''dsp'') ''active'') = Inr digest \<and>
    1 \<le> digest_id digest \<and> digest_id digest < 2 ^ 64 \<and>
    (\<forall>control. configuration_command r control =
      Inr ([control, ''config-apply'', hexadecimal (digest_id digest) 64] @
           map (\<lambda>(name, word). hexadecimal word 32) (expected_active cfg) @
           [str_int (c_frame_length cfg), str_int (c_frame_count cfg)]))"
proof (rule dsp_accepts[OF assms])
  fix v l n digest
  assume d: "1 \<le> digest_id digest"
    and cmd: "\<And>control. configuration_command r control =
      Inr (command_words control (digest_id digest) (map snd (active_words v)) l n)"
    and identity: "dsp_identity (get r ''numerical_contract'') (get (section_object r ''dsp'') ''active'') = Inr digest"
    and cfg: "config_from_resolved_document r = Inr (values_config v l n)"
    and ok: "check_values v = Inr ()" "1 \<le> vl_noise_seed v" "vl_noise_seed v \<le> 0xFFFF"
      "1 \<le> l" "l \<le> 262144" "1 \<le> n" "n \<le> 255" "l * n \<le> 1000000"
  have "map (\<lambda>(name, word). hexadecimal word 32) (expected_active (values_config v l n)) =
      map (\<lambda>w. hexadecimal w 32) (map snd (active_words v))"
    by (simp add: expected_active_values split_def)
  then have "\<forall>control. configuration_command r control =
      Inr ([control, ''config-apply'', hexadecimal (digest_id digest) 64] @
           map (\<lambda>(name, word). hexadecimal word 32) (expected_active (values_config v l n)) @
           [str_int (c_frame_length (values_config v l n)), str_int (c_frame_count (values_config v l n))])"
    by (simp add: cmd command_words_def values_config_def)
  then show ?thesis
    using d digest_id_range[of digest] cfg identity values_config_valid[OF ok] by blast
qed

theorem loaded_profile_command_witness:
  "\<exists>r. load_resolved_profile example_tables example_registers (JObject r) = Inr r \<and>
     (\<exists>cfg. config_from_resolved_document r = Inr cfg \<and> validate_config cfg = Inr cfg)"
proof -
  obtain r where r: "compile_profile example_repo example_tables example_registers example_profile = Inr r"
    "get (section_object r ''identity'') ''dsp_config_sha256'' = JString example_digest"
    using example_compiles_profile by blast
  have "load_resolved_profile example_tables example_registers (JObject r) = Inr r"
    using compiled_reloads[OF r(1)] r(2) by (simp add: example_digest_id)
  then show ?thesis using loaded_profile_command[of example_tables example_registers "JObject r" r] by blast
qed

text \<open>
  C27. The command's words say what the bundle holds: the identifier and the seven words read back with the
  radix prefix, the frame length and count as decimals, and there are exactly twelve words.
\<close>

theorem command_words_read_back:
  assumes "configuration_command document control = Inr ws"
  shows "\<exists>config_id vs. configuration_bundle (JObject document) = Inr (config_id, vs) \<and>
    ws = [control, ''config-apply''] @ drop 2 ws \<and> length ws = 12 \<and> length vs = 9 \<and>
    map int_base0 (take 8 (drop 2 ws)) = map Some (config_id # take 7 vs) \<and>
    map (read_nat 10) (drop 10 ws) = map (\<lambda>v. Some (nat v)) (drop 7 vs)"
proof (rule configuration_command_Inr[OF assms])
  fix config_id vs
  assume b: "configuration_bundle (JObject document) = Inr (config_id, vs)"
    and ws: "ws = [control, ''config-apply'', hexadecimal config_id 64] @
      map (\<lambda>v. hexadecimal v 32) (take 7 vs) @ map str_int (drop 7 vs)"
  show ?thesis
    using b bundle_shape[OF b] command_reads[OF bundle_shape[OF b] ws] ws by auto
qed

theorem command_words_read_back_witness:
  "\<exists>r ws config_id vs. configuration_command r ''qcrate-control'' = Inr ws \<and>
     configuration_bundle (JObject r) = Inr (config_id, vs) \<and> length ws = 12 \<and>
     map int_base0 (take 8 (drop 2 ws)) = map Some (config_id # take 7 vs)"
proof -
  obtain r where r: "compile_profile example_repo example_tables example_registers example_profile = Inr r"
    "get (section_object r ''identity'') ''dsp_config_sha256'' = JString example_digest"
    using example_compiles_profile by blast
  have "load_resolved_profile example_tables example_registers (JObject r) = Inr r"
    using compiled_reloads[OF r(1)] r(2) by (simp add: example_digest_id)
  then obtain ws where ws: "configuration_command r ''qcrate-control'' = Inr ws" by (rule dsp_accepts) blast
  from command_words_read_back[OF ws] ws show ?thesis by blast
qed

end
