(* ===== verification/JsonLoads.thy ===== *)
theory JsonLoads
  imports Json "HOL-Library.AList"
begin

text \<open>
  \<open>json.loads\<close> without a hook: a repeated key keeps its first place and takes its last value, as
  the insertions into a Python dict do.  On a document the duplicate-key hook accepts, both
  loaders return the same value.
\<close>

definition dict_of :: "jobject \<Rightarrow> jobject" where
  "dict_of kvs = fold (\<lambda>(k, v). AList.update k v) kvs []"

fun json_loads :: "json \<Rightarrow> json"
  and loads_list :: "json list \<Rightarrow> json list"
  and loads_pairs :: "jobject \<Rightarrow> jobject"
where
  "json_loads (JObject kvs) = JObject (dict_of (loads_pairs kvs))"
| "json_loads (JArray xs) = JArray (loads_list xs)"
| "json_loads JNull = JNull"
| "json_loads (JBool b) = JBool b"
| "json_loads (JInt i) = JInt i"
| "json_loads (JFloat s) = JFloat s"
| "json_loads (JString s) = JString s"
| "loads_list [] = []"
| "loads_list (x # xs) = json_loads x # loads_list xs"
| "loads_pairs [] = []"
| "loads_pairs ((k, v) # kvs) = (k, json_loads v) # loads_pairs kvs"

lemma update_fresh: "k \<notin> fst ` set d \<Longrightarrow> AList.update k v d = d @ [(k, v)]"
  by (induction d) auto

lemma dict_of_distinct:
  assumes "distinct (map fst kvs)"
  shows "dict_of kvs = kvs"
proof -
  have "fold (\<lambda>(k, v). AList.update k v) kvs acc = acc @ kvs"
    if "distinct (map fst acc @ map fst kvs)" for acc
    using that
  proof (induction kvs arbitrary: acc)
    case (Cons kv kvs)
    then show ?case by (cases kv) (auto simp: update_fresh)
  qed simp
  then show ?thesis using assms by (simp add: dict_of_def)
qed

lemma distinct_dict_of: "distinct (map fst (dict_of kvs))"
proof -
  have "distinct (map fst (fold (\<lambda>(k, v). AList.update k v) kvs acc))" if "distinct (map fst acc)" for acc
    using that by (induction kvs arbitrary: acc) (auto simp: distinct_update)
  then show ?thesis by (simp add: dict_of_def)
qed

lemma map_of_fold_update:
  "map_of (fold (\<lambda>(k, v). AList.update k v) kvs acc) k = (case map_of (rev kvs) k of Some v \<Rightarrow> Some v | None \<Rightarrow> map_of acc k)"
proof (induction kvs arbitrary: acc)
  case (Cons kv kvs)
  then show ?case by (cases kv) (auto simp: map_add_def update_conv' split: option.splits)
qed simp

text \<open>The last value of a key is the one that counts.\<close>

lemma map_of_dict_of: "map_of (dict_of kvs) = map_of (rev kvs)"
  by (rule ext) (simp add: dict_of_def map_of_fold_update split: option.splits)

lemma json_loads_hook:
  "hook dup v = Inr w \<Longrightarrow> json_loads v = w"
  "hook_list dup vs = Inr ws \<Longrightarrow> loads_list vs = ws"
  "hook_pairs dup kvs = Inr kws \<Longrightarrow> loads_pairs kvs = kws"
  by (induction dup v and dup vs and dup kvs arbitrary: w and ws and kws rule: hook_hook_list_hook_pairs.induct)
     (auto simp: bind_res_Inr_iff unique_keys_Inr dict_of_distinct)

end
