(* ===== verification/Capture.thy ===== *)
theory Capture
  imports DspAgreement JsonText JsonLoads
begin

text \<open>
  \<open>host/dsp_model/qcrate_capture_viewer.py\<close>: a raw DMA capture is decoded into packed words and
  signed I/Q samples and audited against the reference words.  A sample is kept as its raw
  16-bit integer; \<open>i\<close> and \<open>q\<close> of the source are those over 2^15.  The floating-point work of
  numpy (window, transform, magnitudes, logarithm) is a parameter; what the program does with
  its results is written out.
\<close>

unbundle bit_operations_syntax

section \<open>Decoding\<close>

datatype capture_error = CaptureEmpty | CaptureLength nat | FewSamples | NoPeak

record iq_capture =
  iq_payload :: bytes
  iq_words :: "int list"
  iq_i_raw :: "int list"
  iq_q_raw :: "int list"

definition iq_sha256 :: "iq_capture \<Rightarrow> string" where
  "iq_sha256 c = hexdigest (sha256 (iq_payload c))"

definition signed_16 :: "int \<Rightarrow> int" where
  "signed_16 value =
     (let unsigned = value AND 0xFFFF in if unsigned \<ge> 0x8000 then unsigned - 0x10000 else unsigned)"

text \<open>\<open>np.frombuffer(payload, dtype="<u4")\<close> on whole words.\<close>

fun le_words :: "bytes \<Rightarrow> int list" where
  "le_words (a # b # c # d # rest) = le_int [a, b, c, d] # le_words rest"
| "le_words _ = []"

text \<open>\<open>words.astype("<u4").tobytes()\<close>.\<close>

definition word_bytes :: "int list \<Rightarrow> bytes" where
  "word_bytes ws = concat (map (le_bytes 4) ws)"

definition decode_payload :: "bytes \<Rightarrow> capture_error + iq_capture" where
  "decode_payload payload =
     (if payload = [] then Inl CaptureEmpty
      else if length payload mod 4 \<noteq> 0 then Inl (CaptureLength (length payload))
      else
        let words = le_words payload
        in Inr \<lparr>iq_payload = payload, iq_words = words, iq_i_raw = map signed_16 words,
                iq_q_raw = map (\<lambda>w. signed_16 (drop_bit 16 w)) words\<rparr>)"

section \<open>Spectra\<close>

text \<open>The numerical library: frequencies and magnitudes of the windowed spectrum, decibels, levels.\<close>

type_synonym iq_samples = "(int \<times> int) list"

record numerics =
  nm_spectrum :: "iq_samples \<Rightarrow> rat \<Rightarrow> rat list \<times> rat list"
  nm_decibels :: "rat \<Rightarrow> rat"
  nm_peak_magnitude :: "iq_samples \<Rightarrow> rat"
  nm_rms_magnitude :: "iq_samples \<Rightarrow> rat"

definition complex_samples :: "iq_capture \<Rightarrow> iq_samples" where
  "complex_samples c = zip (iq_i_raw c) (iq_q_raw c)"

text \<open>\<open>np.argmax\<close>: the first place of the greatest value.\<close>

definition argmax :: "rat list \<Rightarrow> nat option" where
  "argmax xs = (if xs = [] then None else Some (length (takeWhile (\<lambda>x. x \<noteq> Max (set xs)) xs)))"

definition dominant_frequency :: "numerics \<Rightarrow> iq_samples \<Rightarrow> rat \<Rightarrow> capture_error + rat \<times> rat" where
  "dominant_frequency lib samples rate =
     (if length samples < 8 then Inl FewSamples
      else
        let (frequencies, magnitude) = nm_spectrum lib samples rate
        in case argmax magnitude of
             None \<Rightarrow> Inl NoPeak
           | Some k \<Rightarrow> Inr (frequencies ! k, nm_decibels lib (max (magnitude ! k) (1 / 10 ^ 15))))"

definition spectrum_dbfs :: "numerics \<Rightarrow> iq_samples \<Rightarrow> rat \<Rightarrow> rat list \<times> rat list" where
  "spectrum_dbfs lib samples rate =
     (let (frequencies, magnitude) = nm_spectrum lib samples rate
      in (frequencies, map (\<lambda>m. nm_decibels lib (max m (1 / 10 ^ 12))) magnitude))"

section \<open>The audit of a capture\<close>

datatype report_error =
    ReportCapture capture_error
  | ReportConfig dsp_error
  | ReportReference ref_error

definition raised_as :: "('e \<Rightarrow> 'f) \<Rightarrow> 'e + 'a \<Rightarrow> 'f + 'a" where
  "raised_as wrap r = (case r of Inl e \<Rightarrow> Inl (wrap e) | Inr x \<Rightarrow> Inr x)"

lemma raised_as_Inr_iff [result_iff]: "raised_as wrap r = Inr x \<longleftrightarrow> r = Inr x"
  by (cases r) (simp_all add: raised_as_def)

lemma raised_as_Inr [simp]: "raised_as wrap (Inr x) = Inr x"
  by (simp add: raised_as_def)

record capture_report =
  cr_bytes :: nat
  cr_words :: nat
  cr_input_sample_rate_hz :: int
  cr_output_sample_rate_hz :: rat
  cr_decimation :: int
  cr_first_word :: string
  cr_last_word :: string
  cr_sha256 :: string
  cr_reference_mismatches :: nat
  cr_first_mismatch :: "nat option"
  cr_dominant_frequency_hz :: rat
  cr_dominant_level_dbfs :: rat
  cr_peak_magnitude :: rat
  cr_rms_magnitude :: rat

text \<open>\<open>np.flatnonzero(actual != expected)\<close>.\<close>

definition mismatches :: "int list \<Rightarrow> int list \<Rightarrow> nat list" where
  "mismatches actual expected = filter (\<lambda>k. actual ! k \<noteq> expected ! k) [0..<length actual]"

definition build_report ::
    "numerics \<Rightarrow> json \<Rightarrow> string \<Rightarrow> string \<Rightarrow> bytes \<Rightarrow>
     report_error + iq_capture \<times> iq_capture \<times> int list \<times> capture_report" where
  "build_report lib parsed sine_table fir_table payload =
     bind_res (raised_as ReportCapture (decode_payload payload)) (\<lambda>actual.
     bind_res (raised_as ReportConfig (load_config parsed)) (\<lambda>config.
     bind_res (raised_as ReportReference
       (generate_words (json_loads parsed) sine_table fir_table (int (length (iq_words actual))))) (\<lambda>expected_words.
     bind_res (raised_as ReportCapture (decode_payload (word_bytes expected_words))) (\<lambda>expected.
     bind_res (raised_as ReportConfig (load_hex sine_table ADC_BITS QUARTER_LUT_SIZE)) (\<lambda>sine_lut.
     bind_res (raised_as ReportConfig (run_fixed_frontend config
       (min (int (length (iq_words actual)) * c_decimation config) 2048) sine_lut)) (\<lambda>trace.
     let bad = mismatches (iq_words actual) (iq_words expected);
         output_rate_hz = of_int (c_sample_rate_hz config) / of_int (c_decimation config)
     in
     bind_res (raised_as ReportCapture (dominant_frequency lib (complex_samples actual) output_rate_hz)) (\<lambda>(hz, dbfs).
     Inr (actual, expected, map fs_adc (ft_samples trace),
       \<lparr>cr_bytes = length (iq_payload actual), cr_words = length (iq_words actual),
        cr_input_sample_rate_hz = c_sample_rate_hz config, cr_output_sample_rate_hz = output_rate_hz,
        cr_decimation = c_decimation config,
        cr_first_word = hexadecimal (hd (iq_words actual)) 32, cr_last_word = hexadecimal (last (iq_words actual)) 32,
        cr_sha256 = iq_sha256 actual, cr_reference_mismatches = length bad,
        cr_first_mismatch = (case bad of [] \<Rightarrow> None | k # _ \<Rightarrow> Some k),
        cr_dominant_frequency_hz = hz, cr_dominant_level_dbfs = dbfs,
        cr_peak_magnitude = nm_peak_magnitude lib (complex_samples actual),
        cr_rms_magnitude = nm_rms_magnitude lib (complex_samples actual)\<rparr>))))))))"

end
