(* ===== verification/CaptureLaws.thy ===== *)
theory CaptureLaws
  imports Capture
begin

text \<open>
  Decoding inverts packing, and the audit of a capture is exact: no mismatch is reported exactly
  for the bytes the model emits.
\<close>

section \<open>Words and bytes\<close>

lemma word_bytes_Cons: "word_bytes (w # ws) = le_bytes 4 w @ word_bytes ws"
  by (simp add: word_bytes_def)

lemma le_words_bytes: "list_all (\<lambda>w. 0 \<le> w \<and> w < 2 ^ 32) ws \<Longrightarrow> le_words (word_bytes ws) = ws"
proof (induction ws)
  case Nil
  then show ?case by (simp add: word_bytes_def)
next
  case (Cons w ws)
  obtain a b c d where abcd: "le_bytes 4 w = [a, b, c, d]"
    using le_bytes_length[of 4 w] by (auto simp: numeral_eq_Suc length_Suc_conv simp del: le_bytes_length)
  have "le_int (le_bytes 4 w) = w" using Cons.prems by (intro le_int_le_bytes) simp_all
  then show ?case using Cons by (simp add: word_bytes_Cons abcd)
qed

lemma word_bytes_words: "length bs mod 4 = 0 \<Longrightarrow> word_bytes (le_words bs) = bs"
proof (induction bs rule: le_words.induct)
  case (1 a b c d rest)
  have "le_bytes 4 (le_int [a, b, c, d]) = [a, b, c, d]"
    using le_bytes_le_int[of "[a, b, c, d]"] by (simp add: numeral_eq_Suc)
  then show ?case using 1 by (simp add: word_bytes_Cons)
qed (simp_all add: word_bytes_def)

lemma word_bytes_length [simp]: "length (word_bytes ws) = 4 * length ws"
  by (induction ws) (simp_all add: word_bytes_def)

lemma le_words_length: "length (le_words bs) = length bs div 4"
  by (induction bs rule: le_words.induct) simp_all

lemma le_words_range: "w \<in> set (le_words bs) \<Longrightarrow> 0 \<le> w \<and> w < 2 ^ 32"
proof (induction bs rule: le_words.induct)
  case (1 a b c d rest)
  then show ?case using le_int_nonneg[of "[a, b, c, d]"] le_int_bound[of "[a, b, c, d]"] by auto
qed simp_all

lemma word_bytes_inj:
  assumes "word_bytes vs = word_bytes ws" "list_all (\<lambda>w. 0 \<le> w \<and> w < 2 ^ 32) vs" "list_all (\<lambda>w. 0 \<le> w \<and> w < 2 ^ 32) ws"
  shows "vs = ws"
  using assms le_words_bytes by metis

lemma decode_payload_Inr:
  "decode_payload payload = Inr c \<longleftrightarrow> payload \<noteq> [] \<and> length payload mod 4 = 0 \<and>
     c = \<lparr>iq_payload = payload, iq_words = le_words payload, iq_i_raw = map signed_16 (le_words payload),
          iq_q_raw = map (\<lambda>w. signed_16 (drop_bit 16 w)) (le_words payload)\<rparr>"
  by (auto simp: decode_payload_def Let_def)

section \<open>Samples\<close>

lemma signed_16_mod: "signed_16 v = (if v mod 65536 \<ge> 32768 then v mod 65536 - 65536 else v mod 65536)"
  using and_mask_literal(2)[of v] by (simp add: signed_16_def Let_def)

lemma signed_16_fixed: "- 32768 \<le> i \<Longrightarrow> i \<le> 32767 \<Longrightarrow> v mod 65536 = i mod 65536 \<Longrightarrow> signed_16 v = i"
proof -
  assume i: "- 32768 \<le> i" "i \<le> 32767" and v: "v mod 65536 = i mod 65536"
  have "i mod 65536 = (if 0 \<le> i then i else i + 65536)"
  proof (cases "0 \<le> i")
    case False
    have "i mod 65536 = (i + 65536) mod 65536" by simp
    also have "\<dots> = i + 65536" using False i by (intro mod_pos_pos_trivial) linarith+
    finally show ?thesis using False by simp
  qed (use i in simp)
  then show ?thesis using i unfolding signed_16_mod v by simp
qed

lemma signed_16_pack:
  assumes "- 32768 \<le> i" "i \<le> 32767" "- 32768 \<le> q" "q \<le> 32767"
  shows "signed_16 (pack_word i q) = i" "signed_16 (drop_bit 16 (pack_word i q)) = q"
proof -
  have "pack_word i q mod 65536 = i mod 65536" by (simp add: pack_word_sum)
  then show "signed_16 (pack_word i q) = i" by (rule signed_16_fixed[OF assms(1,2)])
  have "pack_word i q div 65536 = q mod 65536" by (simp add: pack_word_sum)
  then have "drop_bit 16 (pack_word i q) mod 65536 = q mod 65536" by (simp add: drop_bit_eq_div)
  then show "signed_16 (drop_bit 16 (pack_word i q)) = q" by (rule signed_16_fixed[OF assms(3,4)])
qed

lemma packed_words_range: "list_all (\<lambda>w. 0 \<le> w \<and> w < 2 ^ 32) (map2 pack_word is qs)"
  by (auto simp: list_all_iff pack_word_range)

lemma decode_packed:
  assumes "length qs = length is" "is \<noteq> []" "\<And>x. x \<in> set is \<union> set qs \<Longrightarrow> - 32768 \<le> x \<and> x \<le> 32767"
  shows "decode_payload (word_bytes (map2 pack_word is qs)) =
    Inr \<lparr>iq_payload = word_bytes (map2 pack_word is qs), iq_words = map2 pack_word is qs, iq_i_raw = is, iq_q_raw = qs\<rparr>"
proof -
  let ?ws = "map2 pack_word is qs"
  have words: "le_words (word_bytes ?ws) = ?ws" by (rule le_words_bytes[OF packed_words_range])
  have "map signed_16 ?ws = is" "map (\<lambda>w. signed_16 (drop_bit 16 w)) ?ws = qs"
    using assms(1,3) by (auto intro!: nth_equalityI simp: signed_16_pack)
  moreover have "word_bytes ?ws \<noteq> []" using assms(1,2) by (metis word_bytes_length length_0_conv length_map
        length_zip min.idem mult_is_0 zero_neq_numeral)
  ultimately show ?thesis unfolding decode_payload_Inr by (simp add: words)
qed

lemma fir_value_range: "- 32768 \<le> fir_value x \<and> fir_value x \<le> 32767"
  by (simp add: fir_value_def saturate_def Let_def OUTPUT_BITS_def)

lemma model_range: "x \<in> set (model_i c lut cs) \<union> set (model_q c lut cs) \<Longrightarrow> - 32768 \<le> x \<and> x \<le> 32767"
  unfolding model_i_def model_q_def fir_values_def using fir_value_range by auto

section \<open>Mismatches\<close>

lemma mismatches_Nil: "length expected = length actual \<Longrightarrow> mismatches actual expected = [] \<longleftrightarrow> actual = expected"
  by (auto simp: mismatches_def filter_empty_conv intro: nth_equalityI)

section \<open>The report\<close>

lemma load_config_plain: "load_config parsed = Inr c \<Longrightarrow> json_loads parsed = parsed"
  by (auto simp: load_config_def bind_res_Inr_iff dest: json_loads_hook(1) hook_same(1))

lemma frontend_runs:
  assumes "validate_config c = Inr c" "lut_ok lut" "1 \<le> n" "n \<le> output_samples c * c_decimation c"
  shows "\<exists>t. run_fixed_frontend c n lut = Inr t"
proof -
  have "length lut = QUARTER_LUT_SIZE" using assms(2) by (simp add: lut_ok_def)
  moreover have "1 \<le> c_noise_seed c" "c_noise_seed c \<le> 65535" using assms(1) by (simp_all add: validate_config_Inr)
  ultimately show ?thesis
    using run_fixed_frontend_on_eq[of lut c "lfsr_samples (nat n) (c_noise_seed c)"] assms(3,4)
    by (auto simp: run_fixed_frontend_def lfsr16_noise_def)
qed

lemma sine_table_reads: "lut_ok lut \<Longrightarrow> load_hex (render_hex lut 16) ADC_BITS QUARTER_LUT_SIZE = Inr lut"
proof -
  assume lut: "lut_ok lut"
  then have "list_all (in_bits 16) lut" by (auto simp: lut_ok_def in_bits_def list_all_iff)
  then show ?thesis using load_render[of 16 lut] lut by (simp add: lut_ok_def ADC_BITS_def)
qed

lemma report_of_capture:
  assumes config: "load_config parsed = Inr c" and tables: "lut_ok lut" "fir_ok cs"
    and shape: "length payload mod 4 = 0" "32 \<le> length payload" "int (length payload div 4) \<le> output_samples c"
    and lib: "\<And>xs rate. xs \<noteq> [] \<Longrightarrow> snd (nm_spectrum lib xs rate) \<noteq> []"
  shows "\<exists>r actual expected adc report. run_model c lut cs = Inr r \<and>
    build_report lib parsed (render_hex lut 16) (render_hex cs 18) payload = Inr (actual, expected, adc, report) \<and>
    iq_words actual = le_words payload \<and>
    iq_i_raw expected = take (length payload div 4) (dr_fixed_i r) \<and>
    iq_q_raw expected = take (length payload div 4) (dr_fixed_q r) \<and>
    (cr_reference_mismatches report = 0 \<longleftrightarrow>
      payload = word_bytes (take (length payload div 4) (dr_packed_words r))) \<and>
    (cr_first_mismatch report = None \<longleftrightarrow> cr_reference_mismatches report = 0) \<and>
    (cr_reference_mismatches report = 0 \<longrightarrow> actual = expected)"
proof -
  let ?n = "length payload div 4"
  let ?is = "take ?n (model_i c lut cs)" and ?qs = "take ?n (model_q c lut cs)"
  let ?ws = "map2 pack_word ?is ?qs"
  have v: "validate_config c = Inr c" by (rule load_config_settings[OF config, THEN conjunct2])
  have n: "8 \<le> ?n" "?n \<le> nat (output_samples c)" using shape(2,3) by linarith+
  have len: "length ?is = ?n" "length ?qs = ?n" using n(2) by (simp_all add: model_length[OF v])
  obtain actual where actual: "decode_payload payload = Inr actual" "iq_words actual = le_words payload"
      "iq_payload actual = payload" "complex_samples actual \<noteq> []" "length (complex_samples actual) = ?n"
    using shape(1,2) n(1) by (auto simp: decode_payload_Inr complex_samples_def le_words_length zip_eq_Nil_iff)
       (metis le_words_length list.size(3) not_numeral_le_zero)
  have nw: "length (iq_words actual) = ?n" by (simp add: actual(2) le_words_length)
  have words: "generate_words (json_loads parsed) (render_hex lut 16) (render_hex cs 18) (int (length (iq_words actual)))
      = Inr ?ws"
    using generate_words_eq[OF load_config_settings[OF config, THEN conjunct1] v tables, of "int ?n"] n shape(3)
    by (simp add: load_config_plain[OF config] nw take_map take_zip)
  let ?expected = "\<lparr>iq_payload = word_bytes ?ws, iq_words = ?ws, iq_i_raw = ?is, iq_q_raw = ?qs\<rparr>"
  have expected: "decode_payload (word_bytes ?ws) = Inr ?expected"
  proof (rule decode_packed)
    show "?is \<noteq> []" using len(1) n(1) by (metis list.size(3) not_numeral_le_zero)
    show "length ?qs = length ?is" by (simp only: len)
    show "- 32768 \<le> x \<and> x \<le> 32767" if "x \<in> set ?is \<union> set ?qs" for x
      using that by (intro model_range[of x c lut cs]) (auto dest: in_set_takeD)
  qed
  have dec: "c_decimation c = 16" using v by (simp add: validate_config_Inr)
  have "\<exists>t. run_fixed_frontend c (min (int ?n * c_decimation c) 2048) lut = Inr t"
    using n shape(3) by (intro frontend_runs[OF v tables(1)]) (simp_all add: dec min.coboundedI1)
  then obtain t where t: "run_fixed_frontend c (min (int ?n * c_decimation c) 2048) lut = Inr t" by blast
  have "\<exists>x. dominant_frequency lib (complex_samples actual) rate = Inr x" for rate
    using lib[OF actual(4), of rate] actual(5) n(1)
    by (auto simp: dominant_frequency_def argmax_def split: prod.splits)
  then obtain hz dbfs where tone: "dominant_frequency lib (complex_samples actual)
      (of_int (c_sample_rate_hz c) / of_int (c_decimation c)) = Inr (hz, dbfs)" by (metis surj_pair)
  let ?bad = "mismatches (le_words payload) ?ws"
  have bad: "length ?bad = 0 \<longleftrightarrow> payload = word_bytes ?ws"
  proof -
    have "length ?ws = length (le_words payload)"
      by (simp only: length_map length_zip len le_words_length min.idem)
    then have "?bad = [] \<longleftrightarrow> le_words payload = ?ws" by (rule mismatches_Nil)
    also have "\<dots> \<longleftrightarrow> payload = word_bytes ?ws"
      using word_bytes_words[OF shape(1)] le_words_bytes[OF packed_words_range] by metis
    finally show ?thesis by simp
  qed
  have same: "payload = word_bytes ?ws \<longrightarrow> actual = ?expected" using actual(1) expected by auto
  let ?report = "\<lparr>cr_bytes = length payload, cr_words = ?n, cr_input_sample_rate_hz = c_sample_rate_hz c,
        cr_output_sample_rate_hz = of_int (c_sample_rate_hz c) / of_int (c_decimation c), cr_decimation = c_decimation c,
        cr_first_word = hexadecimal (hd (le_words payload)) 32, cr_last_word = hexadecimal (last (le_words payload)) 32,
        cr_sha256 = iq_sha256 actual, cr_reference_mismatches = length ?bad,
        cr_first_mismatch = (case ?bad of [] \<Rightarrow> None | k # _ \<Rightarrow> Some k),
        cr_dominant_frequency_hz = hz, cr_dominant_level_dbfs = dbfs,
        cr_peak_magnitude = nm_peak_magnitude lib (complex_samples actual),
        cr_rms_magnitude = nm_rms_magnitude lib (complex_samples actual)\<rparr>"
  have "build_report lib parsed (render_hex lut 16) (render_hex cs 18) payload =
      Inr (actual, ?expected, map fs_adc (ft_samples t), ?report)"
    unfolding build_report_def Let_def actual(1) raised_as_Inr bind_res_simps config nw words[unfolded nw] expected
      sine_table_reads[OF tables(1)] t tone prod.case
    by (simp only: actual nw iq_capture.simps)
  moreover have "cr_first_mismatch ?report = None \<longleftrightarrow> cr_reference_mismatches ?report = 0" by (simp split: list.splits)
  ultimately show ?thesis
    using run_model_eq[OF v tables] bad same actual(2)
    by (intro exI conjI) (assumption | simp add: take_map take_zip)+
qed

section \<open>Property\<close>

text \<open>A numerical library on which the hypothesis below holds.\<close>

definition flat_numerics :: numerics where
  "flat_numerics = \<lparr>nm_spectrum = (\<lambda>xs rate. ([0], [1])), nm_decibels = (\<lambda>x. x),
     nm_peak_magnitude = (\<lambda>xs. 1), nm_rms_magnitude = (\<lambda>xs. 1)\<rparr>"

definition sample_capture :: bytes where
  "sample_capture = replicate 32 0"

text \<open>
  C28. The audit of a DMA capture is exact.  For an accepted configuration, valid table files and a capture of
  whole words, at least eight and at most the configured output, the report is produced; its expected samples
  are the I and Q samples of the fixed-point model; it counts no mismatch exactly when the captured bytes
  are the packed words of the model, and then the decoded capture is the expected one.
\<close>

theorem capture_report_exact:
  assumes "load_config parsed = Inr c" "lut_ok lut" "fir_ok cs"
    and "length payload mod 4 = 0" "32 \<le> length payload" "int (length payload div 4) \<le> output_samples c"
    and "\<And>xs rate. xs \<noteq> [] \<Longrightarrow> snd (nm_spectrum lib xs rate) \<noteq> []"
  shows "\<exists>r actual expected adc report. run_model c lut cs = Inr r \<and>
    build_report lib parsed (render_hex lut 16) (render_hex cs 18) payload = Inr (actual, expected, adc, report) \<and>
    iq_words actual = le_words payload \<and>
    iq_i_raw expected = take (length payload div 4) (dr_fixed_i r) \<and>
    iq_q_raw expected = take (length payload div 4) (dr_fixed_q r) \<and>
    (cr_reference_mismatches report = 0 \<longleftrightarrow>
      payload = word_bytes (take (length payload div 4) (dr_packed_words r))) \<and>
    (cr_first_mismatch report = None \<longleftrightarrow> cr_reference_mismatches report = 0) \<and>
    (cr_reference_mismatches report = 0 \<longrightarrow> actual = expected)"
  by (rule report_of_capture[OF assms])

theorem capture_report_exact_witness:
  "\<exists>r actual expected adc report. run_model sample_config (replicate 1025 32767) (replicate 217 604) = Inr r \<and>
    build_report flat_numerics sample_document (render_hex (replicate 1025 32767) 16) (render_hex (replicate 217 604) 18)
      sample_capture = Inr (actual, expected, adc, report) \<and>
    iq_words actual = le_words sample_capture \<and>
    iq_i_raw expected = take (length sample_capture div 4) (dr_fixed_i r) \<and>
    iq_q_raw expected = take (length sample_capture div 4) (dr_fixed_q r) \<and>
    (cr_reference_mismatches report = 0 \<longleftrightarrow>
      sample_capture = word_bytes (take (length sample_capture div 4) (dr_packed_words r))) \<and>
    (cr_first_mismatch report = None \<longleftrightarrow> cr_reference_mismatches report = 0) \<and>
    (cr_reference_mismatches report = 0 \<longrightarrow> actual = expected)"
proof (rule capture_report_exact[OF load_sample_document sample_tables])
  show "length sample_capture mod 4 = 0" "32 \<le> length sample_capture" "int (length sample_capture div 4) \<le> output_samples sample_config"
    by (simp_all add: sample_capture_def output_samples_def sample_config_def)
qed (simp add: flat_numerics_def)

end
