(* ===== verification/Analyzer.thy ===== *)
theory Analyzer
  imports Capture ProfileUse RunBundle
begin

text \<open>
  The headless part of \<open>host/analyzer/qcrate_analyzer.py\<close>: which reference a shot may be compared
  with, and the analysis of one shot of a run.  The repository's own files (default configuration,
  table manifest, register contract, table files) are a record; the results the source keeps in
  \<open>lru_cache\<close> are recomputed.
\<close>

unbundle bit_operations_syntax

section \<open>Files and errors\<close>

text \<open>A configuration file: its bytes and the document they parse to, \<open>None\<close> when they do not.\<close>

record config_file =
  cf_bytes :: bytes
  cf_parsed :: "json option"

record repository_files =
  rs_default_config :: config_file
  rs_table_manifest :: bytes
  rs_tables :: json
  rs_registers :: json
  rs_sine_table :: string
  rs_fir_table :: string

datatype analysis_error =
    NotIqStream int
  | AnalysisRun run_error
  | AnalysisCapture capture_error
  | SampleCount int nat int
  | AnalysisProfile profile_error
  | AnalysisReference ref_error
  | ReferenceSyntax
  | ReferenceRoot
  | ReferenceIdentifier

definition parsed_file :: "config_file \<Rightarrow> analysis_error + json" where
  "parsed_file f = (case cf_parsed f of Some v \<Rightarrow> Inr v | None \<Rightarrow> Inl ReferenceSyntax)"

section \<open>Identifiers of a reference\<close>

definition current_config_id :: "repository_files \<Rightarrow> config_file \<Rightarrow> int" where
  "current_config_id repo config =
     be_int (take 8 (sha256 (cf_bytes config @ rs_table_manifest repo)))"

text \<open>\<open>int(document["identity"]["dsp_config_id"], 0)\<close>.\<close>

definition document_config_id :: "jobject \<Rightarrow> int option" where
  "document_config_id document =
     (case get (section_object document ''identity'') ''dsp_config_id'' of
        JString t \<Rightarrow> int_base0 t | _ \<Rightarrow> None)"

definition resolved_config_id :: "repository_files \<Rightarrow> config_file \<Rightarrow> analysis_error + int" where
  "resolved_config_id repo config =
     bind_res (parsed_file config) (\<lambda>parsed.
     bind_res (raised_as AnalysisProfile (load_resolved_profile (rs_tables repo) (rs_registers repo) parsed)) (\<lambda>document.
     case document_config_id document of Some i \<Rightarrow> Inr i | None \<Rightarrow> Inl ReferenceIdentifier))"

definition reference_config_id :: "repository_files \<Rightarrow> config_file \<Rightarrow> analysis_error + int" where
  "reference_config_id repo config =
     bind_res (parsed_file config) (\<lambda>parsed.
     case json_loads parsed of
       JObject document \<Rightarrow>
         if get document ''format'' = JString RESOLVED_FORMAT then resolved_config_id repo config
         else Inr (current_config_id repo config)
     | _ \<Rightarrow> Inl ReferenceRoot)"

text \<open>\<open>explicit\<close> is a configuration the caller names, \<open>bundled\<close> the profile kept beside the run.\<close>

definition reference_config ::
    "repository_files \<Rightarrow> config_file option \<Rightarrow> shot_record \<Rightarrow> config_file option \<Rightarrow>
     analysis_error + config_file option" where
  "reference_config repo bundled shot explicit =
     (let only_if = (\<lambda>candidate candidate_id. if sr_config_id shot = candidate_id then Some candidate else None)
      in case explicit of
           Some candidate \<Rightarrow>
             bind_res (reference_config_id repo candidate) (\<lambda>candidate_id. Inr (only_if candidate candidate_id))
         | None \<Rightarrow>
             (case bundled of
                Some candidate \<Rightarrow>
                  bind_res (resolved_config_id repo candidate) (\<lambda>candidate_id. Inr (only_if candidate candidate_id))
              | None \<Rightarrow>
                  Inr (only_if (rs_default_config repo) (current_config_id repo (rs_default_config repo)))))"

definition expected_words :: "repository_files \<Rightarrow> config_file \<Rightarrow> int \<Rightarrow> analysis_error + int list" where
  "expected_words repo config count =
     bind_res (parsed_file config) (\<lambda>parsed.
     raised_as AnalysisReference
       (generate_words (json_loads parsed) (rs_sine_table repo) (rs_fir_table repo) count))"

section \<open>One shot\<close>

record shot_analysis =
  sa_shot :: shot_record
  sa_capture :: iq_capture
  sa_sample_rate_hz :: rat
  sa_sample_rate_source :: rate_source
  sa_spectrum_frequency_hz :: "rat list"
  sa_spectrum_dbfs :: "rat list"
  sa_dominant_frequency_hz :: rat
  sa_dominant_level_dbfs :: rat
  sa_peak_magnitude :: rat
  sa_rms_magnitude :: rat
  sa_file_crc32 :: int
  sa_reference_mismatches :: "nat option"

text \<open>
  The open run is given by what reading the shot's samples and its sample rate return; the strict
  reader and the catalog both provide them.
\<close>

definition reference_mismatches ::
    "repository_files \<Rightarrow> config_file option \<Rightarrow> int list \<Rightarrow> analysis_error + nat option" where
  "reference_mismatches repo selected words =
     (case selected of
        None \<Rightarrow> Inr None
      | Some config \<Rightarrow>
          bind_res (expected_words repo config (int (length words))) (\<lambda>expected.
          Inr (Some (length (mismatches words expected)))))"

definition analyze_shot ::
    "numerics \<Rightarrow> repository_files \<Rightarrow> config_file option \<Rightarrow> run_error + bytes \<Rightarrow> run_error + rat \<times> rate_source \<Rightarrow>
     shot_record \<Rightarrow> config_file option \<Rightarrow> analysis_error + shot_analysis" where
  "analyze_shot lib repo bundled samples rate shot config =
     (if sr_payload_format shot \<noteq> 2 \<or> sr_sample_bytes_per_word shot \<noteq> 4 then Inl (NotIqStream (sr_shot_id shot))
      else
        bind_res (raised_as AnalysisRun samples) (\<lambda>payload.
        bind_res (raised_as AnalysisCapture (decode_payload payload)) (\<lambda>capture.
        let expected_count = sr_frame_count shot * sr_frame_samples shot in
        if int (length (iq_words capture)) \<noteq> expected_count
        then Inl (SampleCount (sr_shot_id shot) (length (iq_words capture)) expected_count)
        else
          bind_res (raised_as AnalysisRun rate) (\<lambda>(sample_rate_hz, sample_rate_source).
          let (frequency, levels) = spectrum_dbfs lib (complex_samples capture) sample_rate_hz
          in case argmax levels of
               None \<Rightarrow> Inl (AnalysisCapture NoPeak)
             | Some peak_index \<Rightarrow>
                 bind_res (reference_config repo bundled shot config) (\<lambda>selected_config.
                 bind_res (reference_mismatches repo selected_config (iq_words capture)) (\<lambda>bad.
                 Inr \<lparr>sa_shot = shot, sa_capture = capture, sa_sample_rate_hz = sample_rate_hz,
                      sa_sample_rate_source = sample_rate_source, sa_spectrum_frequency_hz = frequency,
                      sa_spectrum_dbfs = levels, sa_dominant_frequency_hz = frequency ! peak_index,
                      sa_dominant_level_dbfs = levels ! peak_index,
                      sa_peak_magnitude = nm_peak_magnitude lib (complex_samples capture),
                      sa_rms_magnitude = nm_rms_magnitude lib (complex_samples capture),
                      sa_file_crc32 = crc32 payload AND 0xFFFFFFFF, sa_reference_mismatches = bad\<rparr>))))))"

section \<open>The snapshot command\<close>

datatype snapshot_error =
    SnapshotRun run_error
  | ShotAbsent int
  | NoCompleteShots
  | SnapshotAnalysis analysis_error

datatype snapshot_page = AnalysisPage shot_analysis | IncompletePage shot_record

definition snapshot_shot :: "run_bundle \<Rightarrow> int option \<Rightarrow> snapshot_error + shot_record" where
  "snapshot_shot b shot_id =
     (case shot_id of
        Some i \<Rightarrow>
          (case find (\<lambda>s. sr_shot_id s = i) (rb_shots b) of Some s \<Rightarrow> Inr s | None \<Rightarrow> Inl (ShotAbsent i))
      | None \<Rightarrow> (case complete_shots b of [] \<Rightarrow> Inl NoCompleteShots | s # _ \<Rightarrow> Inr s))"

text \<open>\<open>bundle.read_samples(shot)\<close> opens the sample file of the run.\<close>

definition bundle_samples :: "run_files \<Rightarrow> shot_record \<Rightarrow> run_error + bytes" where
  "bundle_samples files shot =
     (case rf_samples files of None \<Rightarrow> Inl SamplesNotFound | Some samples \<Rightarrow> read_samples samples shot)"

text \<open>What \<open>write_snapshot\<close> renders: one analysis, or the notice that a shot was not published.\<close>

definition write_snapshot ::
    "numerics \<Rightarrow> repository_files \<Rightarrow> run_files \<Rightarrow> config_file option \<Rightarrow> int option \<Rightarrow> rat \<Rightarrow>
     snapshot_error + snapshot_page" where
  "write_snapshot lib repo files bundled shot_id fallback_rate =
     bind_res (raised_as SnapshotRun (bundle_open files False)) (\<lambda>bundle.
     bind_res (snapshot_shot bundle shot_id) (\<lambda>shot.
     if shot_complete shot
     then
       bind_res (raised_as SnapshotAnalysis (analyze_shot lib repo bundled (bundle_samples files shot)
         (sample_rate_hz (rb_manifest bundle) (Some fallback_rate)) shot None)) (\<lambda>analysis.
       Inr (AnalysisPage analysis))
     else Inr (IncompletePage shot)))"

end
