(* ===== verification/Shell.thy ===== *)
theory Shell
  imports Prelude
begin

text \<open>
  \<open>shlex.quote\<close> and \<open>shlex.join\<close>, which build every command line sent to the target, with the
  word splitting of a POSIX shell as their specification: blanks separate words, single quotes keep
  everything, double quotes keep everything but their own specials, any other special character
  ends the plain word list.
\<close>

section \<open>Quoting\<close>

text \<open>The characters \<open>shlex\<close> leaves bare: \<open>\w@%+=:,./-\<close> in ASCII.\<close>

definition shell_safe :: "char \<Rightarrow> bool" where
  "shell_safe c =
     (let n = of_char c :: nat
      in (48 \<le> n \<and> n \<le> 57) \<or> (65 \<le> n \<and> n \<le> 90) \<or> (97 \<le> n \<and> n \<le> 122) \<or> c \<in> set ''_@%+=:,./-'')"

definition apostrophe :: char where "apostrophe = CHR 0x27"
definition quotation :: char where "quotation = CHR 0x22"

text \<open>\<open>s.replace("'", "'\"'\"'")\<close>.\<close>

definition escape_apostrophes :: "string \<Rightarrow> string" where
  "escape_apostrophes s =
     concat (map (\<lambda>c. if c = apostrophe then [apostrophe, quotation, apostrophe, quotation, apostrophe] else [c]) s)"

definition shlex_quote :: "string \<Rightarrow> string" where
  "shlex_quote s =
     (if s = [] then [apostrophe, apostrophe]
      else if list_all shell_safe s then s
      else apostrophe # escape_apostrophes s @ [apostrophe])"

fun shlex_join :: "string list \<Rightarrow> string" where
  "shlex_join [] = []"
| "shlex_join [w] = shlex_quote w"
| "shlex_join (w # ws) = shlex_quote w @ CHR '' '' # shlex_join ws"

section \<open>Word splitting\<close>

text \<open>
  The mode of the reader: between words, in a bare word, in single or double quotes.  A character
  with a meaning of its own outside quotes (or a \<open>$\<close>, backquote or backslash in double quotes) stops
  the reading with no result.
\<close>

datatype shell_mode = Between | Bare string | Single string | Double string

definition in_double :: "char \<Rightarrow> bool" where
  "in_double c \<longleftrightarrow> c \<notin> set ''$`'' \<and> c \<noteq> CHR 0x5C \<and> c \<noteq> quotation"

fun shell_words :: "shell_mode \<Rightarrow> string \<Rightarrow> string list option" where
  "shell_words Between [] = Some []"
| "shell_words (Bare w) [] = Some [rev w]"
| "shell_words (Single w) [] = None"
| "shell_words (Double w) [] = None"
| "shell_words Between (c # cs) =
     (if c = CHR '' '' then shell_words Between cs
      else if c = apostrophe then shell_words (Single []) cs
      else if c = quotation then shell_words (Double []) cs
      else if shell_safe c then shell_words (Bare [c]) cs
      else None)"
| "shell_words (Bare w) (c # cs) =
     (if c = CHR '' '' then map_option ((#) (rev w)) (shell_words Between cs)
      else if c = apostrophe then shell_words (Single w) cs
      else if c = quotation then shell_words (Double w) cs
      else if shell_safe c then shell_words (Bare (c # w)) cs
      else None)"
| "shell_words (Single w) (c # cs) =
     (if c = apostrophe then shell_words (Bare w) cs else shell_words (Single (c # w)) cs)"
| "shell_words (Double w) (c # cs) =
     (if c = quotation then shell_words (Bare w) cs
      else if in_double c then shell_words (Double (c # w)) cs
      else None)"

definition split_command :: "string \<Rightarrow> string list option" where
  "split_command s = shell_words Between s"

section \<open>Quoted words split back\<close>

lemma safe_plain: "shell_safe c \<Longrightarrow> c \<noteq> CHR '' '' \<and> c \<noteq> apostrophe \<and> c \<noteq> quotation"
proof -
  have "\<not> shell_safe (CHR '' '')" "\<not> shell_safe apostrophe" "\<not> shell_safe quotation" by code_simp+
  then show "shell_safe c \<Longrightarrow> ?thesis" by blast
qed

lemma quote_chars [simp]: "apostrophe \<noteq> CHR '' ''" "quotation \<noteq> CHR '' ''" "quotation \<noteq> apostrophe"
    "apostrophe \<noteq> quotation" "in_double apostrophe"
  by (simp_all add: apostrophe_def quotation_def in_double_def)

lemma bare_word:
  "list_all shell_safe s \<Longrightarrow> shell_words (Bare w) (s @ rest) = shell_words (Bare (rev s @ w)) rest"
  by (induction s arbitrary: w) (auto simp: safe_plain)

lemma single_word:
  "shell_words (Single w) (escape_apostrophes s @ apostrophe # rest) = shell_words (Bare (rev s @ w)) rest"
  by (induction s arbitrary: w) (auto simp: escape_apostrophes_def)

lemma quoted_word: "shell_words Between (shlex_quote s @ rest) = shell_words (Bare (rev s)) rest"
proof (cases "s = [] \<or> \<not> list_all shell_safe s")
  case True
  then show ?thesis using single_word[of "[]" s rest] by (auto simp: shlex_quote_def)
next
  case False
  then obtain c cs where s: "s = c # cs" "shell_safe c" "list_all shell_safe cs" by (cases s) auto
  then show ?thesis using bare_word[of cs "[c]" rest] safe_plain[OF s(2)] by (simp add: shlex_quote_def)
qed

lemma split_join: "split_command (shlex_join ws) = Some ws"
  unfolding split_command_def
proof (induction ws rule: shlex_join.induct)
  case (2 w)
  then show ?case using quoted_word[of w "[]"] by simp
next
  case (3 w v vs)
  then show ?case using quoted_word[of w "CHR '' '' # shlex_join (v # vs)"] by simp
qed simp

end
