(* ===== verification/Transcript.thy ===== *)
theory Transcript
  imports Prelude
begin

text \<open>
  Searching the transcript of a remote session: \<open>str.replace("\r\n", "\n")\<close>, \<open>str.find\<close>, \<open>str.rfind\<close>
  and the text between the last begin marker and the first end marker after it.
\<close>

section \<open>Text search\<close>

fun unix_lines :: "string \<Rightarrow> string" where
  "unix_lines (c # d # rest) =
     (if c = CHR 0x0D \<and> d = CHR 0x0A then d # unix_lines rest else c # unix_lines (d # rest))"
| "unix_lines s = s"

definition starts_with :: "string \<Rightarrow> string \<Rightarrow> bool" where
  "starts_with p s \<longleftrightarrow> take (length p) s = p"

fun find_text :: "string \<Rightarrow> string \<Rightarrow> nat option" where
  "find_text p [] = (if p = [] then Some 0 else None)"
| "find_text p (c # cs) = (if starts_with p (c # cs) then Some 0 else map_option Suc (find_text p cs))"

fun rfind_text :: "string \<Rightarrow> string \<Rightarrow> nat option" where
  "rfind_text p [] = (if p = [] then Some 0 else None)"
| "rfind_text p (c # cs) =
     (case rfind_text p cs of
        Some k \<Rightarrow> Some (Suc k)
      | None \<Rightarrow> if starts_with p (c # cs) then Some 0 else None)"

definition between_markers :: "string \<Rightarrow> string \<Rightarrow> string \<Rightarrow> string option" where
  "between_markers start finish s =
     (case rfind_text start s of
        None \<Rightarrow> None
      | Some begin_at \<Rightarrow>
          (let after = drop (begin_at + length start) s
           in map_option (\<lambda>k. take k after) (find_text finish after)))"

section \<open>What the search finds\<close>

definition occurs_at :: "string \<Rightarrow> string \<Rightarrow> nat \<Rightarrow> bool" where
  "occurs_at p s k \<longleftrightarrow> k \<le> length s \<and> starts_with p (drop k s)"

lemma occurs_at_Cons [simp]:
  "occurs_at p (c # cs) (Suc k) = occurs_at p cs k"
  "occurs_at p (c # cs) 0 = starts_with p (c # cs)"
  by (simp_all add: occurs_at_def)

lemma occurs_at_Nil: "occurs_at p [] k \<longleftrightarrow> k = 0 \<and> p = []"
  by (auto simp: occurs_at_def starts_with_def)

lemma occurs_at_split: "occurs_at p s k \<longleftrightarrow> (\<exists>pre post. s = pre @ p @ post \<and> length pre = k)"
proof
  assume a: "occurs_at p s k"
  have "s = take k s @ p @ drop (length p) (drop k s)"
    using a append_take_drop_id[of "length p" "drop k s"] by (simp add: occurs_at_def starts_with_def del: drop_drop)
  then show "\<exists>pre post. s = pre @ p @ post \<and> length pre = k"
    using a by (intro exI[of _ "take k s"] exI) (simp add: occurs_at_def)
qed (auto simp: occurs_at_def starts_with_def)

lemma find_text_Some: "find_text p s = Some k \<longleftrightarrow> occurs_at p s k \<and> (\<forall>j < k. \<not> occurs_at p s j)"
proof (induction s arbitrary: k)
  case (Cons c cs)
  show ?case by (cases k) (auto simp: Cons less_Suc_eq_0_disj)
qed (auto simp: occurs_at_Nil)

lemma rfind_text_None: "rfind_text p s = None \<longleftrightarrow> (\<forall>k. \<not> occurs_at p s k)"
proof (induction s)
  case (Cons c cs)
  have "(\<forall>k. \<not> occurs_at p (c # cs) k) \<longleftrightarrow> \<not> starts_with p (c # cs) \<and> (\<forall>k. \<not> occurs_at p cs k)"
    by (metis occurs_at_Cons not0_implies_Suc)
  then show ?case using Cons by (auto split: option.splits)
qed (auto simp: occurs_at_Nil)

lemma rfind_text_Some: "rfind_text p s = Some k \<longleftrightarrow> occurs_at p s k \<and> (\<forall>j > k. \<not> occurs_at p s j)"
proof (induction s arbitrary: k)
  case (Cons c cs)
  have last: "(\<forall>j > 0. \<not> occurs_at p (c # cs) j) \<longleftrightarrow> (\<forall>k. \<not> occurs_at p cs k)"
    by (metis occurs_at_Cons(1) gr0_conv_Suc)
  have later: "(\<forall>j > Suc m. \<not> occurs_at p (c # cs) j) \<longleftrightarrow> (\<forall>j > m. \<not> occurs_at p cs j)" for m
    by (metis occurs_at_Cons(1) Suc_less_eq2)
  show ?case
  proof (cases k)
    case 0
    show ?thesis unfolding 0 last using rfind_text_None[of p cs] by (auto split: option.splits)
  next
    case (Suc m)
    show ?thesis unfolding Suc later using Cons[of m] by (auto split: option.splits)
  qed
qed (auto simp: occurs_at_Nil)

text \<open>The answer is the text between the last begin marker and the end marker nearest to it.\<close>

lemma between_markers_Some:
  "between_markers start finish s = Some body \<longleftrightarrow>
     (\<exists>pre post. s = pre @ start @ body @ finish @ post \<and>
        (\<forall>k > length pre. \<not> occurs_at start s k) \<and>
        (\<forall>k < length body. \<not> occurs_at finish (body @ finish @ post) k))"
  (is "?found \<longleftrightarrow> ?placed")
proof
  assume ?found
  then obtain b k where b: "rfind_text start s = Some b"
    and k: "find_text finish (drop (b + length start) s) = Some k"
    and body: "body = take k (drop (b + length start) s)"
    by (auto simp: between_markers_def Let_def split: option.splits)
  obtain pre rest where pre: "s = pre @ start @ rest" "length pre = b"
    using b unfolding rfind_text_Some occurs_at_split by blast
  then have k': "find_text finish rest = Some k" "body = take k rest" using k body by simp_all
  then obtain mid post where mid: "rest = mid @ finish @ post" "length mid = k"
    unfolding find_text_Some occurs_at_split by blast
  then have "body = mid" using k'(2) by simp
  then show ?placed
    using pre mid b k'(1) unfolding rfind_text_Some find_text_Some by blast
next
  assume ?placed
  then obtain pre post where s: "s = pre @ start @ body @ finish @ post"
    and last: "\<forall>k > length pre. \<not> occurs_at start s k"
    and first: "\<forall>k < length body. \<not> occurs_at finish (body @ finish @ post) k" by blast
  have "occurs_at start s (length pre)" unfolding occurs_at_split using s by blast
  then have b: "rfind_text start s = Some (length pre)" using last by (simp add: rfind_text_Some)
  have "occurs_at finish (body @ finish @ post) (length body)" unfolding occurs_at_split by blast
  then have "find_text finish (body @ finish @ post) = Some (length body)" using first by (simp add: find_text_Some)
  then show ?found using b by (simp add: between_markers_def s)
qed

end
