(* ===== verification/Experiment.thy ===== *)
theory Experiment
  imports Analyzer Shell Transcript
begin

text \<open>
  \<open>host/experiment_profiles/qcrate_experiment.py\<close>: one resolved experiment is sent to the target,
  recorded, and accepted only when every recorded sample is the reference's.  What other processes
  do (recorder, ssh, target) is a record of their observable results; the program's own actions are
  a list in the order it takes them.
\<close>

unbundle bit_operations_syntax

section \<open>Errors and arguments\<close>

datatype experiment_error =
    ProfileSyntax
  | ExperimentProfile profile_error
  | OutputExists
  | RecorderBuildFailed
  | RecorderExitedEarly
  | IndexTimeout
  | NoSenderReport
  | SenderReportSyntax
  | SenderReportFormat
  | RemoteStatus int
  | RecorderStillOpen
  | RecorderStatus int
  | ExperimentRun run_error
  | ResolvedMalformed
  | RunNotAccepted
  | RunWithoutShots
  | StreamNumber string
  | StreamConfigId string
  | StreamCenter string
  | ShotConfigId int
  | ShotCrc int
  | ShotBuffer int
  | ShotMismatches int nat
  | ExperimentAnalysis analysis_error
  | ExperimentSnapshot snapshot_error

record experiment_args =
  ea_board :: string
  ea_destination :: string
  ea_source :: string
  ea_bind :: string
  ea_port :: int
  ea_shots :: int
  ea_banks :: int
  ea_rate_mbps :: int
  ea_sequence :: string
  ea_startup_timeout_seconds :: int
  ea_gui :: bool
  ea_unattended :: bool

text \<open>The checks of \<open>parse_args\<close>.\<close>

definition args_ok :: "experiment_args \<Rightarrow> bool" where
  "args_ok a \<longleftrightarrow>
     1 \<le> ea_port a \<and> ea_port a \<le> 65535 \<and> 1 \<le> ea_shots a \<and> 2 \<le> ea_banks a \<and> ea_banks a \<le> 64 \<and>
     0 \<le> ea_rate_mbps a \<and> 1 \<le> ea_startup_timeout_seconds a"

section \<open>Remote commands\<close>

definition SSH_BATCH_OPTIONS :: "string list" where
  "SSH_BATCH_OPTIONS =
     [''-o'', ''BatchMode=yes'', ''-o'', ''ConnectionAttempts=1'', ''-o'', ''ConnectTimeout=10'',
      ''-o'', ''ControlMaster=auto'', ''-o'', ''ControlPersist=60'', ''-o'', ''ControlPath=~/.ssh/qcrate-%C'']"

definition ssh_target_command :: "experiment_args \<Rightarrow> string \<Rightarrow> string list" where
  "ssh_target_command args script =
     (if ea_unattended args
      then [''ssh''] @ SSH_BATCH_OPTIONS @ [''-T'', ea_board args, shlex_join [''sh'', ''-c'', script]]
      else [''ssh'', ''-tt'', ea_board args,
            shlex_join [''sudo'', ''-p'', ''[KV260 sudo] password: '', ''--'', ''sh'', ''-c'', script]])"

text \<open>\<open>printf 'text\n'\<close> with the format in single quotes and the line ends as escapes.\<close>

definition line_escape :: string where "line_escape = [CHR 0x5C, CHR ''n'']"

definition printf_format :: "string \<Rightarrow> string" where
  "printf_format fmt = ''printf '' @ [apostrophe] @ fmt @ [apostrophe]"

definition check_image :: "string \<Rightarrow> string \<Rightarrow> string" where
  "check_image digest path =
     printf_format (''%s  %s'' @ line_escape) @ CHR '' '' # shlex_quote digest @ CHR '' '' # shlex_quote path @
     '' | sha256sum -c -''"

definition streamer_command :: "jobject \<Rightarrow> experiment_args \<Rightarrow> string \<Rightarrow> string list" where
  "streamer_command acquisition args report_path =
     [''qcrate-streamer'', ''--destination'', ea_destination args, ''--port'', str_int (ea_port args),
      ''--triggered-shots'', str_int (ea_shots args), ''--banks'', str_int (ea_banks args),
      ''--rate-mbps'', str_int (ea_rate_mbps args),
      ''--words'', str_int (jint (get acquisition ''frame_length_words'')),
      ''--frames'', str_int (jint (get acquisition ''frame_count'')), ''--report-json'', report_path]"

definition remote_operations :: "string list \<Rightarrow> string \<Rightarrow> string \<Rightarrow> string list \<Rightarrow> string list list" where
  "remote_operations apply_command digest sequence_path streamer =
     [[''sh'', ''-c'', check_image digest sequence_path], apply_command,
      [''qcrate-sequence'', ''load'', sequence_path], streamer]"

fun join_with :: "string \<Rightarrow> string list \<Rightarrow> string" where
  "join_with sep [] = []"
| "join_with sep [w] = w"
| "join_with sep (w # ws) = w @ sep @ join_with sep ws"

definition remote_workload ::
    "jobject \<Rightarrow> experiment_args \<Rightarrow> string \<Rightarrow> string \<Rightarrow> string \<Rightarrow> experiment_error + string" where
  "remote_workload resolved args report_path start finish =
     bind_res (raised_as ExperimentProfile (configuration_command resolved ''qcrate-control'')) (\<lambda>apply_command.
     case get (section_object resolved ''sequence'') ''image_sha256'' of
       JString digest \<Rightarrow>
         (let operations = remote_operations apply_command digest (ea_sequence args)
                (streamer_command (section_object resolved ''acquisition'') args report_path);
              workload = join_with '' && '' (map shlex_join operations)
          in Inr (workload @ ''; status=$?; '' @
             printf_format (line_escape @ start @ line_escape) @ ''; '' @
             ''if [ -r '' @ shlex_quote report_path @ '' ]; then cat '' @ shlex_quote report_path @ ''; fi; '' @
             printf_format (line_escape @ finish @ line_escape) @ ''; rm -f '' @ shlex_quote report_path @
             ''; exit $status''))
     | _ \<Rightarrow> Inl ResolvedMalformed)"

text \<open>\<open>parse\<close> is \<open>json.loads\<close> on a text, \<open>None\<close> where it raises.\<close>

definition extract_report ::
    "(string \<Rightarrow> json option) \<Rightarrow> string \<Rightarrow> string \<Rightarrow> string \<Rightarrow> experiment_error + jobject" where
  "extract_report parse transcript start finish =
     (case between_markers start finish (unix_lines transcript) of
        None \<Rightarrow> Inl NoSenderReport
      | Some body \<Rightarrow>
          (case parse (strip body) of
             None \<Rightarrow> Inl SenderReportSyntax
           | Some (JObject document) \<Rightarrow>
               if get document ''format'' = JString ''qcrate-sender-report-v1'' then Inr document
               else Inl SenderReportFormat
           | Some _ \<Rightarrow> Inl SenderReportFormat))"

section \<open>Verification of a run\<close>

text \<open>The two checks made of the run manifest and of the sender report.\<close>

definition check_stream :: "string \<Rightarrow> json \<Rightarrow> int \<Rightarrow> int \<Rightarrow> experiment_error + unit" where
  "check_stream name stream expected_id expected_center_hz =
     (case stream of
        JObject d \<Rightarrow>
          (case report_number (get_default d ''config_id'' (JString ''0'')) of
             None \<Rightarrow> Inl (StreamNumber name)
           | Some i \<Rightarrow>
               if i \<noteq> expected_id then Inl (StreamConfigId name)
               else
                 (case int_of_json (get_default d ''center_frequency_hz'' (JInt (-1))) of
                    None \<Rightarrow> Inl (StreamNumber name)
                  | Some hz \<Rightarrow> if hz \<noteq> expected_center_hz then Inl (StreamCenter name) else Inr ()))
      | _ \<Rightarrow> Inl (StreamConfigId name))"

record verify_state =
  vs_expected_by_count :: "(nat \<times> int list) list"
  vs_checked :: nat

text \<open>One turn of the loop over the complete shots; the reference words are kept per length.\<close>

definition verify_shot ::
    "repository_files \<Rightarrow> config_file \<Rightarrow> run_files \<Rightarrow> int \<Rightarrow> shot_record \<Rightarrow> verify_state \<Rightarrow>
     experiment_error + verify_state" where
  "verify_shot repo bundled files expected_id shot st =
     (if sr_config_id shot \<noteq> expected_id then Inl (ShotConfigId (sr_shot_id shot))
      else
        bind_res (raised_as ExperimentRun (bundle_samples files shot)) (\<lambda>payload.
        if crc32 payload AND 0xFFFFFFFF \<noteq> sr_payload_crc32 shot then Inl (ShotCrc (sr_shot_id shot))
        else if length payload mod 4 \<noteq> 0 then Inl (ShotBuffer (sr_shot_id shot))
        else
          let words = le_words payload in
          bind_res
            (case map_of (vs_expected_by_count st) (length words) of
               Some expected \<Rightarrow> Inr (expected, vs_expected_by_count st)
             | None \<Rightarrow>
                 bind_res (raised_as ExperimentAnalysis (expected_words repo bundled (int (length words)))) (\<lambda>expected.
                 Inr (expected, (length words, expected) # vs_expected_by_count st)))
            (\<lambda>(expected, cache).
          let bad = length (mismatches words expected) in
          if bad \<noteq> 0 then Inl (ShotMismatches (sr_shot_id shot) bad)
          else Inr \<lparr>vs_expected_by_count = cache, vs_checked = vs_checked st + length words\<rparr>)))"

definition DEFAULT_SAMPLE_RATE_HZ :: rat where "DEFAULT_SAMPLE_RATE_HZ = 12500000"

definition expected_center :: "jobject \<Rightarrow> int option" where
  "expected_center resolved =
     (case decimal_of (get (section_object (section_object resolved ''dsp'') ''realized'') ''lo_frequency_hz'') of
        DecimalValue q \<Rightarrow> Some (half_up q) | _ \<Rightarrow> None)"

definition verify_run ::
    "numerics \<Rightarrow> repository_files \<Rightarrow> run_files \<Rightarrow> config_file \<Rightarrow> jobject \<Rightarrow> experiment_error + int \<times> int \<times> rat" where
  "verify_run lib repo files bundled resolved =
     bind_res (raised_as ExperimentRun (bundle_open files False)) (\<lambda>bundle.
     case (document_config_id resolved, expected_center resolved) of
       (Some expected_id, Some expected_center_hz) \<Rightarrow>
         if run_complete (rb_manifest bundle) \<noteq> Some True \<or> \<not> integrity_ok (bundle_health bundle)
         then Inl RunNotAccepted
         else if complete_shots bundle = [] then Inl RunWithoutShots
         else
           bind_res (check_stream ''run manifest'' (section_of (rb_manifest bundle) ''stream'')
             expected_id expected_center_hz) (\<lambda>_.
           bind_res (check_stream ''sender report'' (section_of (rb_sender_report bundle) ''stream'')
             expected_id expected_center_hz) (\<lambda>_.
           bind_res (fold_res (verify_shot repo bundled files expected_id) (complete_shots bundle)
             \<lparr>vs_expected_by_count = [], vs_checked = 0\<rparr>) (\<lambda>st.
           let first = hd (complete_shots bundle) in
           bind_res (raised_as ExperimentAnalysis (analyze_shot lib repo (Some bundled) (bundle_samples files first)
             (sample_rate_hz (rb_manifest bundle) (Some DEFAULT_SAMPLE_RATE_HZ)) first None)) (\<lambda>analysis.
           Inr (int (length (complete_shots bundle)), int (vs_checked st), sa_dominant_frequency_hz analysis)))))
     | _ \<Rightarrow> Inl ResolvedMalformed)"

section \<open>One experiment\<close>

datatype index_wait = IndexPresent | RecorderExited | WaitTimedOut

text \<open>
  The polls made before the deadline: whether the path exists, and if not, whether the recorder has
  exited.
\<close>

fun wait_for_path :: "(bool \<times> bool) list \<Rightarrow> index_wait" where
  "wait_for_path [] = WaitTimedOut"
| "wait_for_path ((exists, exited) # polls) =
     (if exists then IndexPresent else if exited then RecorderExited else wait_for_path polls)"

text \<open>
  What the other processes and files turn out to be: the recorder (there, built, what each poll for its index sees,
  its exit status within 15 seconds, still running at the end), the remote session (transcript and
  status) and the files the recorder leaves.
\<close>

record experiment_world =
  ew_output_exists :: bool
  ew_recorder_present :: bool
  ew_recorder_builds :: bool
  ew_polls :: "(bool \<times> bool) list"
  ew_token :: string
  ew_transcript :: string
  ew_sender_status :: int
  ew_recorder_close :: "int option"
  ew_recorder_running :: bool
  ew_recorded :: run_files

datatype action =
    BuildRecorder
  | StartRecorder "string list"
  | CopyProfile config_file
  | RunRemote "string list"
  | WriteReport jobject
  | WaitRecorder
  | SaveSnapshot snapshot_page
  | OpenAnalyzer
  | StopRecorder

record experiment_result =
  er_shots :: int
  er_words :: int
  er_dominant_hz :: rat
  er_config_id :: string

definition recorder_command :: "string \<Rightarrow> experiment_args \<Rightarrow> string \<Rightarrow> string list" where
  "recorder_command recorder args output =
     [recorder, ''--bind'', ea_bind args, ''--port'', str_int (ea_port args), ''--source'', ea_source args,
      ''--output'', output, ''--wait-timeout-ms'', str_int (ea_startup_timeout_seconds args * 1000),
      ''--idle-timeout-ms'', ''5000'']"

definition remote_report :: "string \<Rightarrow> string" where
  "remote_report token = ''/tmp/qcrate-dp6d-'' @ token @ ''.json''"

definition begin_marker :: "string \<Rightarrow> string" where
  "begin_marker token = ''__QCRATE_REPORT_'' @ token @ ''_BEGIN__''"

definition end_marker :: "string \<Rightarrow> string" where
  "end_marker token = ''__QCRATE_REPORT_'' @ token @ ''_END__''"

text \<open>The run as the strict reader finds it: the recorder's files and the report written by \<open>atomic_json\<close>.\<close>

definition finished_files :: "experiment_world \<Rightarrow> jobject \<Rightarrow> run_files" where
  "finished_files w report =
     (ew_recorded w)\<lparr>rf_sender_json := Some \<lparr>rp_signature = (0, 0, 0), rp_parsed = Some (JObject report)\<rparr>\<rparr>"

text \<open>After the recorder has closed: the verdict, the snapshot and the window.\<close>

definition accept_run ::
    "numerics \<Rightarrow> repository_files \<Rightarrow> experiment_args \<Rightarrow> run_files \<Rightarrow> config_file \<Rightarrow> jobject \<Rightarrow>
     (experiment_error + experiment_result) \<times> action list" where
  "accept_run lib repo args files profile resolved =
     (case verify_run lib repo files profile resolved of
        Inl e \<Rightarrow> (Inl e, [])
      | Inr (shots, words, dominant_hz) \<Rightarrow>
          (case write_snapshot lib repo files (Some profile) None DEFAULT_SAMPLE_RATE_HZ of
             Inl e \<Rightarrow> (Inl (ExperimentSnapshot e), [])
           | Inr page \<Rightarrow>
               (Inr \<lparr>er_shots = shots, er_words = words, er_dominant_hz = dominant_hz,
                     er_config_id = jtext (get (section_object resolved ''identity'') ''dsp_config_id'')\<rparr>,
                SaveSnapshot page # (if ea_gui args then [OpenAnalyzer] else []))))"

text \<open>The body of the \<open>try\<close>: its result, its actions, and whether the recorder was seen to exit.\<close>

definition acquire ::
    "numerics \<Rightarrow> repository_files \<Rightarrow> (string \<Rightarrow> json option) \<Rightarrow> experiment_args \<Rightarrow> experiment_world \<Rightarrow>
     config_file \<Rightarrow> jobject \<Rightarrow> (experiment_error + experiment_result) \<times> action list \<times> bool" where
  "acquire lib repo parse args w profile resolved =
     (let start = begin_marker (ew_token w); finish = end_marker (ew_token w) in
      case wait_for_path (ew_polls w) of
        RecorderExited \<Rightarrow> (Inl RecorderExitedEarly, [], True)
      | WaitTimedOut \<Rightarrow> (Inl IndexTimeout, [], False)
      | IndexPresent \<Rightarrow>
          (case remote_workload resolved args (remote_report (ew_token w)) start finish of
             Inl e \<Rightarrow> (Inl e, [CopyProfile profile], False)
           | Inr script \<Rightarrow>
               (let sent = [CopyProfile profile, RunRemote (ssh_target_command args script)] in
                case extract_report parse (ew_transcript w) start finish of
                  Inl e \<Rightarrow> (Inl e, sent, False)
                | Inr report \<Rightarrow>
                    (let written = sent @ [WriteReport report] in
                     if ew_sender_status w \<noteq> 0 then (Inl (RemoteStatus (ew_sender_status w)), written, False)
                     else
                       case ew_recorder_close w of
                         None \<Rightarrow> (Inl RecorderStillOpen, written @ [WaitRecorder], False)
                       | Some status \<Rightarrow>
                           if status \<noteq> 0 then (Inl (RecorderStatus status), written @ [WaitRecorder], True)
                           else
                             (let (result, final) = accept_run lib repo args (finished_files w report) profile resolved
                              in (result, written @ [WaitRecorder] @ final, True))))))"

definition run_experiment ::
    "numerics \<Rightarrow> repository_files \<Rightarrow> (string \<Rightarrow> json option) \<Rightarrow> string \<Rightarrow> string \<Rightarrow> experiment_args \<Rightarrow>
     experiment_world \<Rightarrow> config_file \<Rightarrow> (experiment_error + experiment_result) \<times> action list" where
  "run_experiment lib repo parse recorder output args w profile =
     (case cf_parsed profile of
        None \<Rightarrow> (Inl ProfileSyntax, [])
      | Some parsed \<Rightarrow>
          (case load_resolved_profile (rs_tables repo) (rs_registers repo) parsed of
             Inl e \<Rightarrow> (Inl (ExperimentProfile e), [])
           | Inr resolved \<Rightarrow>
               if ew_output_exists w then (Inl OutputExists, [])
               else
                 (let built = (if ew_recorder_present w then [] else [BuildRecorder]) in
                  if \<not> ew_recorder_present w \<and> \<not> ew_recorder_builds w then (Inl RecorderBuildFailed, built)
                  else
                    (let (result, actions, exited) = acquire lib repo parse args w profile resolved
                     in (result, built @ [StartRecorder (recorder_command recorder args output)] @ actions @
                          (if \<not> exited \<and> ew_recorder_running w then [StopRecorder] else []))))))"

end
