(* ===== verification/AnalyzerLaws.thy ===== *)
theory AnalyzerLaws
  imports Analyzer CaptureLaws
begin

text \<open>
  What a reference comparison means: the chosen configuration is the one whose identifier the shot
  carries, and on a loaded profile the expected words are those of the fixed-point model.
\<close>

section \<open>A loaded profile as a reference\<close>

text \<open>Which exception a repeated key raises does not matter to a document without one.\<close>

lemma hook_any:
  "hook dup v = Inr w \<Longrightarrow> hook dup' v = Inr w"
  "hook_list dup vs = Inr ws \<Longrightarrow> hook_list dup' vs = Inr ws"
  "hook_pairs dup kvs = Inr kws \<Longrightarrow> hook_pairs dup' kvs = Inr kws"
  by (induction dup v and dup vs and dup kvs arbitrary: w and ws and kws rule: hook_hook_list_hook_pairs.induct)
     (auto simp: bind_res_Inr_iff unique_keys_Inr)

lemma document_config_id_command:
  assumes "configuration_command r control = Inr (command_words control i words l n)" "0 \<le> i"
  shows "document_config_id r = Some i"
proof -
  obtain config_id vs where b: "configuration_bundle (JObject r) = Inr (config_id, vs)"
    and c: "command_words control i words l n = [control, ''config-apply'', hexadecimal config_id 64] @
      map (\<lambda>v. hexadecimal v 32) (take 7 vs) @ map str_int (drop 7 vs)"
    by (rule configuration_command_Inr[OF assms(1)])
  have h: "hexadecimal i 64 = hexadecimal config_id 64"
    using arg_cong[OF c, of "\<lambda>ws. ws ! 2"] by (simp only: command_words_def append_Cons nth_Cons_numeral nth_Cons_0) simp
  have pos: "0 \<le> config_id" using bundle_shape(2)[OF b] by linarith
  have "Some i = int_base0 (hexadecimal i 64)" by (rule int_base0_hexadecimal[OF assms(2), symmetric])
  also have "\<dots> = Some config_id" unfolding h by (rule int_base0_hexadecimal[OF pos])
  finally have "i = config_id" by (simp only: option.inject)
  moreover obtain identity t where "map_of r ''identity'' = Some (JObject identity)"
      "map_of identity ''dsp_config_id'' = Some (JString t)" "int_base0 t = Some config_id"
    by (rule configuration_bundle_Inr[OF b])
  ultimately show ?thesis by (simp only: document_config_id_def section_object_def get_def option.case json.case)
qed

lemma loaded_profile_config:
  assumes "load_resolved_profile tables registers parsed = Inr r"
  obtains cfg digest where "parsed = JObject r" and "load_config parsed = Inr cfg"
    and "config_from_resolved_document r = Inr cfg"
    and "dsp_identity (get r ''numerical_contract'') (get (section_object r ''dsp'') ''active'') = Inr digest"
    and "1 \<le> digest_id digest" and "document_config_id r = Some (digest_id digest)"
proof -
  have parsed: "parsed = JObject r" "hook ProfileDuplicateKey (JObject r) = Inr (JObject r)"
    and "get r ''format'' = JString RESOLVED_FORMAT"
  proof -
    obtain r0 where r0: "parsed = JObject r0" "hook ProfileDuplicateKey (JObject r0) = Inr (JObject r0)"
      "validate_resolved_profile tables registers r0 = Inr r"
      using assms unfolding load_resolved_profile_def bind_res_Inr_iff profile_load_json_Inr_iff by blast
    have "r = r0 \<and> get r0 ''format'' = JString RESOLVED_FORMAT" by (rule validated_profile[OF r0(3)]) simp
    then show "parsed = JObject r" "hook ProfileDuplicateKey (JObject r) = Inr (JObject r)"
      "get r ''format'' = JString RESOLVED_FORMAT" using r0 by simp_all
  qed
  show ?thesis
  proof (rule dsp_accepts[OF assms])
    fix v l n digest
    assume d: "1 \<le> digest_id digest"
      and cmd: "\<And>control. configuration_command r control =
        Inr (command_words control (digest_id digest) (map snd (active_words v)) l n)"
      and identity: "dsp_identity (get r ''numerical_contract'') (get (section_object r ''dsp'') ''active'') = Inr digest"
      and cfg: "config_from_resolved_document r = Inr (values_config v l n)"
    have "load_config parsed = Inr (values_config v l n)"
      using hook_any(1)[OF parsed(2), of DspDuplicateKey] cfg \<open>get r ''format'' = _\<close>
      by (simp only: load_config_def parsed(1) bind_res_simps json.case RESOLVED_FORMAT_def simp_thms if_True)
    moreover have "document_config_id r = Some (digest_id digest)"
      using d by (intro document_config_id_command[OF cmd]) simp
    ultimately show thesis using that parsed(1) cfg identity d by blast
  qed
qed

section \<open>The chosen reference\<close>

lemma resolved_config_id_Inr:
  "resolved_config_id repo config = Inr i \<longleftrightarrow>
     (\<exists>parsed document. cf_parsed config = Some parsed \<and>
        load_resolved_profile (rs_tables repo) (rs_registers repo) parsed = Inr document \<and>
        document_config_id document = Some i)"
  by (auto simp: resolved_config_id_def parsed_file_def result_iff split: option.splits)

lemma expected_words_Inr:
  "expected_words repo config count = Inr ws \<longleftrightarrow>
     (\<exists>parsed. cf_parsed config = Some parsed \<and>
        generate_words (json_loads parsed) (rs_sine_table repo) (rs_fir_table repo) count = Inr ws)"
  by (auto simp: expected_words_def parsed_file_def result_iff split: option.splits)

lemma bundled_reference:
  "reference_config repo (Some bundled) shot None = Inr selected \<longleftrightarrow>
     (\<exists>i. resolved_config_id repo bundled = Inr i \<and>
        selected = (if sr_config_id shot = i then Some bundled else None))"
  by (auto simp: reference_config_def result_iff)

lemma analyze_shot_Inr:
  assumes "analyze_shot lib repo bundled samples rate shot config = Inr a"
  obtains payload capture selected hz source where "samples = Inr payload" and "decode_payload payload = Inr capture"
    and "int (length (iq_words capture)) = sr_frame_count shot * sr_frame_samples shot"
    and "sr_payload_format shot = 2" and "sr_sample_bytes_per_word shot = 4" and "rate = Inr (hz, source)"
    and "reference_config repo bundled shot config = Inr selected"
    and "reference_mismatches repo selected (iq_words capture) = Inr (sa_reference_mismatches a)"
    and "sa_capture a = capture" and "sa_shot a = shot" and "sa_sample_rate_hz a = hz"
    and "sa_file_crc32 a = crc32 payload"
proof -
  obtain payload capture x levels k selected where samples: "samples = Inr payload" "decode_payload payload = Inr capture"
    and shape: "int (length (iq_words capture)) = sr_frame_count shot * sr_frame_samples shot"
      "\<not> (sr_payload_format shot \<noteq> 2 \<or> sr_sample_bytes_per_word shot \<noteq> 4)" "rate = Inr x"
    and reference: "reference_config repo bundled shot config = Inr selected"
    and a: "\<exists>bad. reference_mismatches repo selected (iq_words capture) = Inr bad \<and>
      Inr \<lparr>sa_shot = shot, sa_capture = capture, sa_sample_rate_hz = fst x,
           sa_sample_rate_source = snd x, sa_spectrum_frequency_hz = fst (spectrum_dbfs lib (complex_samples capture) (fst x)),
           sa_spectrum_dbfs = levels, sa_dominant_frequency_hz = fst (spectrum_dbfs lib (complex_samples capture) (fst x)) ! k,
           sa_dominant_level_dbfs = levels ! k,
           sa_peak_magnitude = nm_peak_magnitude lib (complex_samples capture),
           sa_rms_magnitude = nm_rms_magnitude lib (complex_samples capture),
           sa_file_crc32 = crc32 payload AND 0xFFFFFFFF, sa_reference_mismatches = bad\<rparr> = (Inr a :: analysis_error + _)"
    using assms unfolding analyze_shot_def Let_def case_prod_unfold if_Inl_Inr_iff bind_res_Inr_iff raised_as_Inr_iff
      case_option_Inr_iff not_not by (elim exE conjE) (rule that, (assumption | rule exI conjI)+)
  from a obtain bad where "reference_mismatches repo selected (iq_words capture) = Inr bad"
    "sa_capture a = capture" "sa_shot a = shot" "sa_sample_rate_hz a = fst x" "sa_file_crc32 a = crc32 payload"
    "sa_reference_mismatches a = bad" by auto
  then show thesis using that[of payload capture "fst x" "snd x" selected] samples shape reference by simp
qed

text \<open>The mismatch count of words against the model.\<close>

lemma reference_generate_length:
  assumes "load_config parsed = Inr c" "lut_ok lut" "fir_ok cs" "1 \<le> n" "n \<le> output_samples c"
    and "generate_words parsed (render_hex lut 16) (render_hex cs 18) n = Inr ws"
  obtains r where "run_model c lut cs = Inr r" and "ws = take (nat n) (dr_packed_words r)" and "length ws = nat n"
    and "list_all (\<lambda>w. 0 \<le> w \<and> w < 2 ^ 32) ws"
proof -
  have v: "validate_config c = Inr c" by (rule load_config_settings[OF assms(1), THEN conjunct2])
  let ?ws = "map2 pack_word (model_i c lut cs) (model_q c lut cs)"
  have "ws = take (nat n) ?ws"
    using generate_words_eq[OF load_config_settings[OF assms(1), THEN conjunct1] v assms(2-5)] assms(6) by simp
  moreover have "length ws = nat n" using model_length[OF v] nat_mono[OF assms(5)] by (simp add: calculation)
  moreover have "list_all (\<lambda>w. 0 \<le> w \<and> w < 2 ^ 32) ws"
    using packed_words_range[of "model_i c lut cs" "model_q c lut cs"]
    unfolding calculation(1) list_all_iff by (blast dest: in_set_takeD)
  ultimately show thesis using that run_model_eq[OF v assms(2,3)] by simp
qed

lemma words_mismatch_free:
  assumes "length payload mod 4 = 0" "length ws = length payload div 4" "list_all (\<lambda>w. 0 \<le> w \<and> w < 2 ^ 32) ws"
  shows "mismatches (le_words payload) ws = [] \<longleftrightarrow> payload = word_bytes ws"
proof -
  have "mismatches (le_words payload) ws = [] \<longleftrightarrow> le_words payload = ws"
    by (rule mismatches_Nil) (simp add: assms(2) le_words_length)
  also have "\<dots> \<longleftrightarrow> payload = word_bytes ws"
    using word_bytes_words[OF assms(1)] le_words_bytes[OF assms(3)] by metis
  finally show ?thesis .
qed

end
