(* ===== verification/ExperimentLaws.thy ===== *)
theory ExperimentLaws
  imports Experiment AnalyzerLaws RunCatalog
begin

text \<open>
  What the verification of a run establishes: every shot carries the profile's identifier and the
  CRC of its payload, and its payload is, word for word, what the reference generates.
\<close>

section \<open>The reference words of a count\<close>

lemma generate_words_length:
  assumes "generate_words config sine fir n = Inr ws"
  shows "length ws = nat n \<and> 1 \<le> n"
proof -
  obtain s lut cs where n: "\<not> n < 1" and cs: "load_signed_hex fir 18 217 = Inr cs"
    and ws: "Inr ws = (Inr (rf_words (fold (ref_step s lut cs) [0..<nat n * 16]
      \<lparr>rf_lfsr = rs_lfsr s, rf_signal_phase = rs_signal_phase s, rf_lo_phase = rs_lo_phase s,
       rf_mixed_i = [], rf_mixed_q = [], rf_words = []\<rparr>)) :: ref_error + _)"
    using assms unfolding generate_words_def if_Inl_Inr_iff bind_res_Inr_iff
    by (elim exE conjE) (rule that, assumption+, rule sym)
  have "length cs = FIR_TAPS" using cs by (auto simp: load_signed_hex_def result_iff FIR_TAPS_def)
  then have "length ws = nat n"
    using ws ref_words_eq[of cs s lut "nat n"] by (simp add: fir_values_def DECIMATION_def)
  then show ?thesis using n by simp
qed

lemma expected_words_length: "expected_words repo config n = Inr ws \<Longrightarrow> length ws = nat n"
  unfolding expected_words_Inr using generate_words_length by blast

section \<open>One shot\<close>

text \<open>What a verified shot satisfies.\<close>

definition shot_matches :: "repository_files \<Rightarrow> config_file \<Rightarrow> run_files \<Rightarrow> int \<Rightarrow> shot_record \<Rightarrow> bool" where
  "shot_matches repo bundled files expected_id shot \<longleftrightarrow>
     sr_config_id shot = expected_id \<and>
     (case bundle_samples files shot of
        Inl _ \<Rightarrow> False
      | Inr payload \<Rightarrow> crc32 payload = sr_payload_crc32 shot \<and> length payload mod 4 = 0 \<and>
          expected_words repo bundled (int (length payload div 4)) = Inr (le_words payload))"

definition shot_words :: "run_files \<Rightarrow> shot_record \<Rightarrow> nat" where
  "shot_words files shot = (case bundle_samples files shot of Inr payload \<Rightarrow> length payload div 4 | Inl _ \<Rightarrow> 0)"

definition cache_exact :: "repository_files \<Rightarrow> config_file \<Rightarrow> (nat \<times> int list) list \<Rightarrow> bool" where
  "cache_exact repo bundled cache \<longleftrightarrow>
     (\<forall>n ws. map_of cache n = Some ws \<longrightarrow> expected_words repo bundled (int n) = Inr ws)"

lemma verify_shot_Inr:
  assumes "verify_shot repo bundled files expected_id shot st = Inr st'"
    and "cache_exact repo bundled (vs_expected_by_count st)"
  shows "cache_exact repo bundled (vs_expected_by_count st')" "shot_matches repo bundled files expected_id shot"
    "vs_checked st' = vs_checked st + shot_words files shot"
proof -
  obtain payload expected cache where id: "\<not> sr_config_id shot \<noteq> expected_id"
    and payload: "bundle_samples files shot = Inr payload" "\<not> crc32 payload AND 0xFFFFFFFF \<noteq> sr_payload_crc32 shot"
      "\<not> length payload mod 4 \<noteq> 0"
    and looked: "(case map_of (vs_expected_by_count st) (length (le_words payload)) of
        Some expected \<Rightarrow> Inr (expected, vs_expected_by_count st)
      | None \<Rightarrow>
          bind_res (raised_as ExperimentAnalysis (expected_words repo bundled (int (length (le_words payload)))))
            (\<lambda>expected. Inr (expected, (length (le_words payload), expected) # vs_expected_by_count st))) = Inr (expected, cache)"
    and bad: "\<not> length (mismatches (le_words payload) expected) \<noteq> 0"
    and st': "(Inr \<lparr>vs_expected_by_count = cache, vs_checked = vs_checked st + length (le_words payload)\<rparr> ::
      experiment_error + verify_state) = Inr st'"
    using assms(1) unfolding verify_shot_def Let_def if_Inl_Inr_iff bind_res_Inr_iff raised_as_Inr_iff split_paired_Ex
      prod.case by (elim exE conjE) (rule that, assumption+)
  have words: "expected_words repo bundled (int (length (le_words payload))) = Inr expected \<and> cache_exact repo bundled cache"
  proof (cases "map_of (vs_expected_by_count st) (length (le_words payload))")
    case None
    then show ?thesis using looked assms(2) by (auto simp: result_iff cache_exact_def split: if_splits)
  next
    case (Some ws)
    then show ?thesis using looked assms(2) by (auto simp: cache_exact_def)
  qed
  then have "length expected = length (le_words payload)" using expected_words_length by fastforce
  then have "le_words payload = expected" using mismatches_Nil[of expected "le_words payload"] bad by simp
  then show "shot_matches repo bundled files expected_id shot"
    using id payload conjunct1[OF words] by (simp add: shot_matches_def le_words_length[symmetric])
  show "cache_exact repo bundled (vs_expected_by_count st')" using words st' by auto
  show "vs_checked st' = vs_checked st + shot_words files shot"
    using st' payload(1) by (auto simp: shot_words_def le_words_length)
qed

lemma verify_shots_Inr:
  assumes "fold_res (verify_shot repo bundled files expected_id) shots st = Inr st'"
    and "cache_exact repo bundled (vs_expected_by_count st)"
  shows "list_all (shot_matches repo bundled files expected_id) shots \<and>
    vs_checked st' = vs_checked st + sum_list (map (shot_words files) shots)"
  using assms
proof (induction shots arbitrary: st)
  case (Cons shot shots)
  then obtain st1 where st1: "verify_shot repo bundled files expected_id shot st = Inr st1"
    "fold_res (verify_shot repo bundled files expected_id) shots st1 = Inr st'" by (auto simp: result_iff)
  note step = verify_shot_Inr[OF st1(1) Cons.prems(2)]
  show ?case using Cons.IH[OF st1(2) step(1)] step(2,3) by simp
qed simp

section \<open>A verified run\<close>

lemma check_stream_Inr:
  "check_stream name stream i hz = Inr u \<longleftrightarrow>
     (\<exists>d. stream = JObject d \<and> report_number (get_default d ''config_id'' (JString ''0'')) = Some i \<and>
        int_of_json (get_default d ''center_frequency_hz'' (JInt (-1))) = Some hz)"
  by (cases stream) (auto simp: check_stream_def split: option.splits)

lemma verify_run_Inr:
  assumes "verify_run lib repo files bundled resolved = Inr (n, words, hz)"
  obtains run expected_id center analysis where "bundle_open files False = Inr run"
    and "document_config_id resolved = Some expected_id" and "expected_center resolved = Some center"
    and "run_complete (rb_manifest run) = Some True" and "integrity_ok (bundle_health run)"
    and "complete_shots run \<noteq> []"
    and "check_stream ''run manifest'' (section_of (rb_manifest run) ''stream'') expected_id center = Inr ()"
    and "check_stream ''sender report'' (section_of (rb_sender_report run) ''stream'') expected_id center = Inr ()"
    and "list_all (shot_matches repo bundled files expected_id) (complete_shots run)"
    and "n = int (length (complete_shots run))"
    and "words = int (sum_list (map (shot_words files) (complete_shots run)))"
    and "analyze_shot lib repo (Some bundled) (bundle_samples files (hd (complete_shots run)))
      (sample_rate_hz (rb_manifest run) (Some DEFAULT_SAMPLE_RATE_HZ)) (hd (complete_shots run)) None = Inr analysis"
    and "hz = sa_dominant_frequency_hz analysis"
proof -
  obtain run where b: "bundle_open files False = Inr run"
    and rest: "(case (document_config_id resolved, expected_center resolved) of
       (Some expected_id, Some expected_center_hz) \<Rightarrow>
         if run_complete (rb_manifest run) \<noteq> Some True \<or> \<not> integrity_ok (bundle_health run)
         then Inl RunNotAccepted
         else if complete_shots run = [] then Inl RunWithoutShots
         else
           bind_res (check_stream ''run manifest'' (section_of (rb_manifest run) ''stream'')
             expected_id expected_center_hz) (\<lambda>_.
           bind_res (check_stream ''sender report'' (section_of (rb_sender_report run) ''stream'')
             expected_id expected_center_hz) (\<lambda>_.
           bind_res (fold_res (verify_shot repo bundled files expected_id) (complete_shots run)
             \<lparr>vs_expected_by_count = [], vs_checked = 0\<rparr>) (\<lambda>st.
           bind_res (raised_as ExperimentAnalysis (analyze_shot lib repo (Some bundled)
             (bundle_samples files (hd (complete_shots run)))
             (sample_rate_hz (rb_manifest run) (Some DEFAULT_SAMPLE_RATE_HZ)) (hd (complete_shots run)) None)) (\<lambda>analysis.
           Inr (int (length (complete_shots run)), int (vs_checked st), sa_dominant_frequency_hz analysis)))))
     | _ \<Rightarrow> Inl ResolvedMalformed) = Inr (n, words, hz)"
    using assms unfolding verify_run_def Let_def bind_res_Inr_iff[of "raised_as ExperimentRun _"] raised_as_Inr_iff
    by (elim exE conjE) (rule that, assumption+)
  obtain i center where i: "document_config_id resolved = Some i" "expected_center resolved = Some center"
    using rest by (cases "document_config_id resolved"; cases "expected_center resolved") auto
  obtain st analysis where steps: "run_complete (rb_manifest run) = Some True" "integrity_ok (bundle_health run)"
      "complete_shots run \<noteq> []"
      "check_stream ''run manifest'' (section_of (rb_manifest run) ''stream'') i center = Inr ()"
      "check_stream ''sender report'' (section_of (rb_sender_report run) ''stream'') i center = Inr ()"
    and fold: "fold_res (verify_shot repo bundled files i) (complete_shots run)
      \<lparr>vs_expected_by_count = [], vs_checked = 0\<rparr> = Inr st"
    and analysis: "analyze_shot lib repo (Some bundled) (bundle_samples files (hd (complete_shots run)))
      (sample_rate_hz (rb_manifest run) (Some DEFAULT_SAMPLE_RATE_HZ)) (hd (complete_shots run)) None = Inr analysis"
    and result: "(n, words, hz) = (int (length (complete_shots run)), int (vs_checked st), sa_dominant_frequency_hz analysis)"
    using rest unfolding i prod.case option.case if_Inl_Inr_iff bind_res_Inr_iff raised_as_Inr_iff sum.inject de_Morgan_disj
      not_not ex_unit by (elim exE conjE) (rule that, assumption+, rule sym)
  have "list_all (shot_matches repo bundled files i) (complete_shots run) \<and>
      vs_checked st = 0 + sum_list (map (shot_words files) (complete_shots run))"
    using verify_shots_Inr[OF fold] by (simp add: cache_exact_def)
  then show thesis using that[OF b i steps _ _ _ analysis] result by simp
qed

text \<open>A run without incomplete shots or gaps has only complete shots, with consecutive identifiers.\<close>

lemma integrity_complete:
  assumes "integrity_ok (bundle_health run)"
  shows "complete_shots run = rb_shots run" "skipped_ids (rb_shots run) = 0"
proof -
  have "rh_incomplete_shots (bundle_health run) = 0" "rh_skipped_shot_ids (bundle_health run) = 0"
    using assms by (simp_all add: integrity_ok_def record_integrity_ok_def)
  then have "incomplete_shots run = []" "skipped_ids (rb_shots run) = 0"
    by (simp_all add: bundle_health_def build_health_def bundle_totals_def Let_def)
  then show "complete_shots run = rb_shots run" "skipped_ids (rb_shots run) = 0"
    by (auto simp: complete_shots_def incomplete_shots_def filter_empty_conv intro!: filter_True)
qed

lemma consecutive_ids:
  "sorted_wrt (<) (map sr_shot_id shots) \<Longrightarrow> skipped_ids shots = 0 \<Longrightarrow>
   successively (\<lambda>s t. sr_shot_id t = sr_shot_id s + 1) shots"
proof (induction shots)
  case (Cons s shots)
  show ?case
  proof (cases shots)
    case (Cons t rest)
    have gaps: "skipped_ids (s # t # rest) = max 0 (sr_shot_id t - sr_shot_id s - 1) + skipped_ids (t # rest)"
      by (simp add: skipped_ids_def)
    have "0 \<le> skipped_ids (t # rest)"
      unfolding skipped_ids_def by (rule sum_list_nonneg) auto
    then have "max 0 (sr_shot_id t - sr_shot_id s - 1) = 0" "skipped_ids (t # rest) = 0"
      using Cons.prems(2) gaps unfolding Cons by linarith+
    then show ?thesis using Cons.IH Cons.prems(1) unfolding Cons by auto
  qed simp
qed simp

lemma opened_ids:
  assumes "bundle_open files False = Inr run"
  shows "sorted_wrt (<) (map sr_shot_id (rb_shots run))"
proof (cases "32 \<le> length (rf_index files)")
  case True
  from check_shots_increasing[OF bundle_open_facts(4)[OF assms True]] show ?thesis by blast
qed (use bundle_open_short[OF _ assms] in simp)

end
