(* ===== verification/ExperimentUse.thy ===== *)
theory ExperimentUse
  imports ExperimentLaws
begin

text \<open>
  A whole experiment: what its success implies, what the remote script is made of, and what is done
  about the recorder whatever happens.
\<close>

section \<open>The remote script\<close>

lemma printf_word:
  "list_all (\<lambda>c. c \<noteq> apostrophe) fmt \<Longrightarrow>
   shell_words Between (printf_format fmt @ CHR '' '' # rest) =
     map_option (\<lambda>ws. ''printf'' # fmt # ws) (shell_words Between rest)"
proof -
  assume f: "list_all (\<lambda>c. c \<noteq> apostrophe) fmt"
  have single: "shell_words (Single w) (fmt @ apostrophe # s) = shell_words (Bare (rev fmt @ w)) s" for w s
    using f by (induction fmt arbitrary: w) auto
  have p: "list_all shell_safe ''printf''" by code_simp
  have "printf_format fmt @ CHR '' '' # rest = ''printf'' @ CHR '' '' # apostrophe # fmt @ apostrophe # CHR '' '' # rest"
    by (simp add: printf_format_def)
  moreover have "shell_words Between (''printf'' @ s) = shell_words (Bare (rev ''printf'')) s" for s
    using quoted_word[of "''printf''" s] p by (simp add: shlex_quote_def)
  ultimately show ?thesis using single[of "[]" "CHR '' '' # rest"]
    by (cases "shell_words Between rest") simp_all
qed

text \<open>
  The script: four operations joined by \<open>&&\<close>, each of which the shell splits back into its words,
  then the report between its markers.
\<close>

definition script_tail :: "string \<Rightarrow> string \<Rightarrow> string \<Rightarrow> string" where
  "script_tail report_path start finish =
     ''; status=$?; '' @ printf_format (line_escape @ start @ line_escape) @ ''; '' @
     ''if [ -r '' @ shlex_quote report_path @ '' ]; then cat '' @ shlex_quote report_path @ ''; fi; '' @
     printf_format (line_escape @ finish @ line_escape) @ ''; rm -f '' @ shlex_quote report_path @ ''; exit $status''"

lemma remote_workload_Inr:
  "remote_workload resolved args report_path start finish = Inr script \<longleftrightarrow>
     (\<exists>command digest. configuration_command resolved ''qcrate-control'' = Inr command \<and>
        get (section_object resolved ''sequence'') ''image_sha256'' = JString digest \<and>
        script = join_with '' && '' (map shlex_join (remote_operations command digest (ea_sequence args)
          (streamer_command (section_object resolved ''acquisition'') args report_path))) @
          script_tail report_path start finish)"
  unfolding remote_workload_def script_tail_def Let_def bind_res_Inr_iff raised_as_Inr_iff case_json_Inr_iff
  by auto

lemma ssh_command_splits:
  "split_command (last (ssh_target_command args script)) =
     Some ((if ea_unattended args then [] else [''sudo'', ''-p'', ''[KV260 sudo] password: '', ''--'']) @ [''sh'', ''-c'', script])"
  by (simp add: ssh_target_command_def split_join del: shlex_join.simps)

section \<open>A successful experiment\<close>

lemma acquire_Inr:
  assumes "acquire lib repo parse args w profile resolved = (Inr result, actions, exited)"
  obtains script report page where "wait_for_path (ew_polls w) = IndexPresent"
    and "remote_workload resolved args (remote_report (ew_token w)) (begin_marker (ew_token w)) (end_marker (ew_token w)) = Inr script"
    and "extract_report parse (ew_transcript w) (begin_marker (ew_token w)) (end_marker (ew_token w)) = Inr report"
    and "ew_sender_status w = 0" and "ew_recorder_close w = Some 0"
    and "verify_run lib repo (finished_files w report) profile resolved = Inr (er_shots result, er_words result, er_dominant_hz result)"
    and "actions = [CopyProfile profile, RunRemote (ssh_target_command args script), WriteReport report, WaitRecorder,
      SaveSnapshot page] @ (if ea_gui args then [OpenAnalyzer] else [])" and "exited"
  using assms unfolding acquire_def accept_run_def Let_def
  by (auto split: index_wait.splits sum.splits if_splits option.splits prod.splits)

lemma run_experiment_Inr:
  assumes "run_experiment lib repo parse recorder output args w profile = (Inr result, actions)"
  obtains parsed resolved script report page where "cf_parsed profile = Some parsed"
    and "load_resolved_profile (rs_tables repo) (rs_registers repo) parsed = Inr resolved"
    and "\<not> ew_output_exists w"
    and "remote_workload resolved args (remote_report (ew_token w)) (begin_marker (ew_token w)) (end_marker (ew_token w)) = Inr script"
    and "extract_report parse (ew_transcript w) (begin_marker (ew_token w)) (end_marker (ew_token w)) = Inr report"
    and "ew_sender_status w = 0" and "ew_recorder_close w = Some 0"
    and "verify_run lib repo (finished_files w report) profile resolved = Inr (er_shots result, er_words result, er_dominant_hz result)"
    and "actions = (if ew_recorder_present w then [] else [BuildRecorder]) @
      [StartRecorder (recorder_command recorder args output), CopyProfile profile,
       RunRemote (ssh_target_command args script), WriteReport report, WaitRecorder, SaveSnapshot page] @
      (if ea_gui args then [OpenAnalyzer] else [])"
proof -
  obtain parsed resolved where p: "cf_parsed profile = Some parsed"
    "load_resolved_profile (rs_tables repo) (rs_registers repo) parsed = Inr resolved" "\<not> ew_output_exists w"
    using assms by (auto simp: run_experiment_def split: option.splits sum.splits if_splits)
  obtain acts exited where a: "acquire lib repo parse args w profile resolved = (Inr result, acts, exited)"
    and actions: "actions = (if ew_recorder_present w then [] else [BuildRecorder]) @
      [StartRecorder (recorder_command recorder args output)] @ acts @
      (if \<not> exited \<and> ew_recorder_running w then [StopRecorder] else [])"
    using assms p by (auto simp: run_experiment_def Let_def split: if_splits prod.splits)
  show thesis by (rule acquire_Inr[OF a], rule that[OF p]) (use actions in simp_all)
qed

section \<open>The recorder\<close>

text \<open>A recorder that was started is stopped unless it was seen to exit or is not running.\<close>

lemma recorder_stopped:
  assumes "run_experiment lib repo parse recorder output args w profile = (result, actions)"
    and "StartRecorder command \<in> set actions" "ew_recorder_running w"
  shows "wait_for_path (ew_polls w) = RecorderExited \<or> (WaitRecorder \<in> set actions \<and> ew_recorder_close w \<noteq> None) \<or> last actions = StopRecorder"
proof -
  obtain resolved r acts exited where a: "acquire lib repo parse args w profile resolved = (r, acts, exited)"
    and actions: "actions = (if ew_recorder_present w then [] else [BuildRecorder]) @
      [StartRecorder (recorder_command recorder args output)] @ acts @
      (if \<not> exited \<and> ew_recorder_running w then [StopRecorder] else [])"
    using assms(1,2) by (auto simp: run_experiment_def Let_def split: if_splits prod.splits option.splits sum.splits)
  have "exited \<Longrightarrow> wait_for_path (ew_polls w) = RecorderExited \<or> (WaitRecorder \<in> set acts \<and> ew_recorder_close w \<noteq> None)"
    using a by (auto simp: acquire_def Let_def split: index_wait.splits sum.splits if_splits option.splits prod.splits)
  then show ?thesis using actions assms(3) by (cases exited) auto
qed

end
