(* ===== verification/ExperimentExample.thy ===== *)
theory ExperimentExample
  imports ProfileExample ExperimentUse RunReaders
begin

text \<open>
  An experiment on which the hypotheses of the experiment properties hold: the example profile, a
  sine table and filter of zeros (so that every word of the model is 0), and a run of one shot with
  one word.
\<close>

unbundle bit_operations_syntax

section \<open>Zero tables\<close>

definition zero_lut :: "int list" where "zero_lut = replicate 1025 0"
definition zero_fir :: "int list" where "zero_fir = replicate 217 0"

lemma zero_tables: "lut_ok zero_lut" "fir_ok zero_fir"
  by (simp_all add: zero_lut_def zero_fir_def lut_ok_def fir_ok_def QUARTER_LUT_SIZE_def FIR_TAPS_def list_all_iff)

lemma zero_dot: "sum_list (map2 (*) xs (replicate n (0 :: int))) = 0"
proof (induction n arbitrary: xs)
  case (Suc n)
  then show ?case by (cases xs) simp_all
qed simp

lemma zero_fir_values: "fir_values ms zero_fir = replicate (length ms div 16) 0"
proof -
  have "fir_sum ms zero_fir k = 0" for k
    unfolding fir_sum_def dot_def Let_def zero_fir_def take_replicate by (rule zero_dot)
  moreover have "fir_value 0 = 0" by code_simp
  ultimately show ?thesis by (simp add: fir_values_def DECIMATION_def map_replicate_const)
qed

lemma zero_words:
  assumes "load_config parsed = Inr c" "1 \<le> n" "n \<le> output_samples c"
  shows "generate_words (json_loads parsed) (render_hex zero_lut 16) (render_hex zero_fir 18) n = Inr (replicate (nat n) 0)"
proof -
  have v: "validate_config c = Inr c" by (rule load_config_settings[OF assms(1), THEN conjunct2])
  have "length (model_i c zero_lut zero_fir) = nat (output_samples c)" "length (model_q c zero_lut zero_fir) = nat (output_samples c)"
    by (rule model_length[OF v])+
  then have "model_i c zero_lut zero_fir = replicate (nat (output_samples c)) 0"
    "model_q c zero_lut zero_fir = replicate (nat (output_samples c)) 0"
    by (simp_all add: model_i_def model_q_def zero_fir_values)
  moreover have "pack_word 0 0 = 0" by code_simp
  moreover have "nat n \<le> nat (output_samples c)" using assms(3) by simp
  ultimately show ?thesis
    using generate_words_eq[OF load_config_settings[OF assms(1), THEN conjunct1] v zero_tables assms(2,3)]
    by (simp add: load_config_plain[OF assms(1)] min_def)
qed

lemma zero_word:
  assumes "load_config parsed = Inr c"
  shows "generate_words (json_loads parsed) (render_hex zero_lut 16) (render_hex zero_fir 18) 1 = Inr [0]"
  using zero_words[OF assms order_refl output_samples_pos[OF load_config_settings[OF assms, THEN conjunct2]]] by simp

section \<open>The run\<close>

definition example_shot :: shot_record where
  "example_shot = shot_one\<lparr>sr_payload_format := 2, sr_config_id := 0xaf46287bb969ed24, sr_payload_crc32 := 0x2144DF1C\<rparr>"

definition example_index :: bytes where
  "example_index = sample_header @ record_image example_shot"

definition example_stream :: "int \<Rightarrow> json" where
  "example_stream center = JObject
     [(''config_id'', JString ''0xaf46287bb969ed24''), (''center_frequency_hz'', JInt center)]"

definition example_manifest :: "int \<Rightarrow> jobject" where
  "example_manifest center =
     [(''format'', JString ''qcrate-run-v1''), (''run_id'', JString ''0x3''), (''stream_id'', JInt 1),
      (''complete'', JBool True), (''stream'', example_stream center)]"

definition example_sender :: "int \<Rightarrow> jobject" where
  "example_sender center =
     [(''format'', JString ''qcrate-sender-report-v1''), (''run_id'', JString ''0x3''), (''stream_id'', JInt 1),
      (''complete'', JBool True), (''stream'', example_stream center)]"

definition example_files :: "int \<Rightarrow> run_files" where
  "example_files center = \<lparr>rf_index = example_index, rf_samples = Some [0, 0, 0, 0],
     rf_run_json = Some \<lparr>rp_signature = (0, 0, 0), rp_parsed = Some (JObject (example_manifest center))\<rparr>,
     rf_sender_json = None\<rparr>"

definition example_world :: "int \<Rightarrow> experiment_world" where
  "example_world center =
     \<lparr>ew_output_exists = False, ew_recorder_present = True, ew_recorder_builds = True, ew_polls = [(False, False), (True, False)],
      ew_token = ''t'', ew_transcript = ''ok __QCRATE_REPORT_t_BEGIN__{}__QCRATE_REPORT_t_END__'', ew_sender_status = 0,
      ew_recorder_close = Some 0, ew_recorder_running = False, ew_recorded = example_files center\<rparr>"

definition example_run :: "int \<Rightarrow> run_bundle" where
  "example_run center = \<lparr>rb_run_id = 3, rb_stream_id = 1, rb_shots = [example_shot],
     rb_manifest = Some (example_manifest center), rb_sender_report = Some (example_sender center)\<rparr>"

definition example_experiment :: experiment_args where
  "example_experiment = \<lparr>ea_board = ''petalinux@192.168.1.93'', ea_destination = ''192.168.1.10'', ea_source = ''192.168.1.93'',
     ea_bind = ''192.168.1.10'', ea_port = 47000, ea_shots = 10, ea_banks = 4, ea_rate_mbps = 420,
     ea_sequence = ''/home/petalinux/qcrate/two_channel_demo.qseq'', ea_startup_timeout_seconds = 30,
     ea_gui = False, ea_unattended = True\<rparr>"

definition example_repository :: repository_files where
  "example_repository = \<lparr>rs_default_config = \<lparr>cf_bytes = [], cf_parsed = None\<rparr>, rs_table_manifest = [],
     rs_tables = example_tables, rs_registers = example_registers,
     rs_sine_table = render_hex zero_lut 16, rs_fir_table = render_hex zero_fir 18\<rparr>"

lemma example_index_parts:
  "length example_index = 160" "header_identity example_index = Inr (3, 1)"
  "map_res shot_decode (record_slices (drop 32 example_index)) = Inr [example_shot]"
  "check_shots 4 0 None [example_shot] = Inr ()"
  by code_simp+

lemma example_reports:
  "load_json_report ''run.json'' (rf_run_json (example_files center)) ''qcrate-run-v1'' 3 1 = Inr (Some (example_manifest center))"
  "load_json_report ''sender.json'' (Some \<lparr>rp_signature = (0, 0, 0), rp_parsed = Some (JObject (example_sender center))\<rparr>)
     ''qcrate-sender-report-v1'' 3 1 = Inr (Some (example_sender center))"
proof -
  have "int_base0 ''0x3'' = Some 3" by code_simp
  then show "load_json_report ''run.json'' (rf_run_json (example_files center)) ''qcrate-run-v1'' 3 1 = Inr (Some (example_manifest center))"
    "load_json_report ''sender.json'' (Some \<lparr>rp_signature = (0, 0, 0), rp_parsed = Some (JObject (example_sender center))\<rparr>)
      ''qcrate-sender-report-v1'' 3 1 = Inr (Some (example_sender center))"
    by (simp_all add: load_json_report_def example_files_def example_manifest_def example_sender_def get_def get_default_def
        has_key_def report_identity_def ensure_def)
qed

lemma example_opens: "bundle_open (finished_files (example_world center) (example_sender center)) False = Inr (example_run center)"
proof -
  have f: "rf_index (finished_files (example_world center) (example_sender center)) = example_index"
    "rf_samples (finished_files (example_world center) (example_sender center)) = Some [0, 0, 0, 0]"
    "rf_run_json (finished_files (example_world center) (example_sender center)) = rf_run_json (example_files center)"
    "rf_sender_json (finished_files (example_world center) (example_sender center)) =
      Some \<lparr>rp_signature = (0, 0, 0), rp_parsed = Some (JObject (example_sender center))\<rparr>"
    by (simp_all add: finished_files_def example_world_def example_files_def)
  show ?thesis
    unfolding bundle_open_def Let_def f
    by (simp add: QIDX_HEADER_BYTES_def QIDX_RECORD_BYTES_def example_index_parts ensure_def example_reports example_run_def
        del: check_shots.simps)
qed

section \<open>Its profile\<close>

text \<open>The resolved example profile as a file, and the facts the run is checked against.\<close>

definition example_file :: "jobject \<Rightarrow> config_file" where
  "example_file r = \<lparr>cf_bytes = [], cf_parsed = Some (JObject r)\<rparr>"

lemma example_resolved:
  obtains r center where "load_resolved_profile example_tables example_registers (JObject r) = Inr r"
    and "document_config_id r = Some 0xaf46287bb969ed24" and "expected_center r = Some center"
    and "expected_words example_repository (example_file r) 1 = Inr [0]"
    and "\<exists>image. get (section_object r ''sequence'') ''image_sha256'' = JString image"
    and "compile_profile example_repo example_tables example_registers example_profile = Inr r"
proof -
  obtain r where r: "compile_profile example_repo example_tables example_registers example_profile = Inr r"
    "get (section_object r ''identity'') ''dsp_config_sha256'' = JString example_digest"
    using example_compiles_profile by blast
  have load: "load_resolved_profile example_tables example_registers (JObject r) = Inr r"
    using compiled_reloads[OF r(1)] r(2) by (simp add: example_digest_id)
  obtain name digest profile_digest contract rq acq seq writes where
    parts: "r = resolved_parts name digest profile_digest contract rq acq seq writes"
    and seq: "\<exists>v. compile_source example_repo v = Inr seq"
    by (rule compiled_parts[OF r(1)]) blast
  have "document_config_id r = Some (digest_id digest)" "digest = example_digest"
    using r(2) digest_id_range[of digest]
    by (simp_all add: parts resolved_parts_def document_config_id_def section_object_def get_def int_base0_hexadecimal)
  then have id: "document_config_id r = Some 0xaf46287bb969ed24" by (simp only: example_digest_id)
  have "\<exists>d. get (section_object (section_object r ''dsp'') ''realized'') ''lo_frequency_hz'' = JString (decimal_string d)"
    by (auto simp: parts resolved_parts_def section_object_def get_def realized_object_def Let_def)
  then obtain center where center: "expected_center r = Some center"
    by (auto simp: expected_center_def decimal_text_def decimal_string_reads)
  obtain cfg where "load_config (JObject r) = Inr cfg" by (rule loaded_profile_config[OF load]) blast
  then have words: "expected_words example_repository (example_file r) 1 = Inr [0]"
    unfolding expected_words_Inr example_file_def example_repository_def config_file.simps repository_files.simps
    using zero_word by blast
  obtain v p image c n where "compile_source example_repo v = Inr seq"
      "seq = [(''source'', JString p), (''image_sha256'', JString image), (''payload_crc32'', JInt c),
        (''event_count'', JInt n), (''tick_hz'', JInt TICK_HZ)]"
    using seq by (metis compile_source_Inr)
  then have "\<exists>image. get (section_object r ''sequence'') ''image_sha256'' = JString image"
    by (simp add: parts resolved_parts_def section_object_def get_def)
  then show thesis by (rule that[OF load id center words _ r(1)])
qed

lemma example_samples:
  "bundle_samples (finished_files (example_world center) (example_sender center)) example_shot = Inr [0, 0, 0, 0]"
proof -
  have "read_samples [0, 0, 0, 0] example_shot = Inr [0, 0, 0, 0]" by code_simp
  then show ?thesis by (simp add: bundle_samples_def finished_files_def example_world_def example_files_def)
qed

lemma example_health: "run_complete (rb_manifest (example_run center)) = Some True" "integrity_ok (bundle_health (example_run center))"
    "complete_shots (example_run center) = [example_shot]"
proof -
  show c: "complete_shots (example_run center) = [example_shot]"
    by (simp add: complete_shots_def example_run_def example_shot_def shot_one_def shot_complete_def)
  have "incomplete_shots (example_run center) = []"
    by (simp add: incomplete_shots_def example_run_def example_shot_def shot_one_def shot_complete_def)
  then show "integrity_ok (bundle_health (example_run center))"
    by (simp add: integrity_ok_def record_integrity_ok_def acquisition_integrity_ok_def bundle_health_def build_health_def
        bundle_totals_def Let_def c skipped_ids_def total_of_def example_run_def example_manifest_def example_sender_def
        manifest_integer_def get_def section_of_def sender_counter_def or_zero_def example_shot_def shot_one_def)
  show "run_complete (rb_manifest (example_run center)) = Some True"
    by (simp add: run_complete_def example_run_def example_manifest_def get_default_def has_key_def get_def)
qed

lemma example_fields: "sr_config_id example_shot = 0xaf46287bb969ed24" "sr_payload_crc32 example_shot = 0x2144DF1C"
    "sr_payload_format example_shot = 2" "sr_sample_bytes_per_word example_shot = 4" "sr_frame_count example_shot = 1"
    "sr_frame_samples example_shot = 1"
  by (simp_all add: example_shot_def shot_one_def)

lemma example_analysis:
  assumes "document_config_id r = Some 0xaf46287bb969ed24"
    and "load_resolved_profile example_tables example_registers (JObject r) = Inr r"
    and "expected_words example_repository (example_file r) 1 = Inr [0]"
  shows "\<exists>a. analyze_shot flat_numerics example_repository (Some (example_file r)) (Inr [0, 0, 0, 0])
    (Inr (12500000, Fallback)) example_shot None = Inr a \<and> sa_dominant_frequency_hz a = 0 \<and>
    sa_reference_mismatches a = Some 0"
proof -
  have "resolved_config_id example_repository (example_file r) = Inr 0xaf46287bb969ed24"
    unfolding resolved_config_id_Inr using assms by (auto simp: example_file_def example_repository_def)
  then have ref: "reference_config example_repository (Some (example_file r)) example_shot None = Inr (Some (example_file r))"
    by (simp add: bundled_reference example_fields)
  have decode: "decode_payload [0, 0, 0, 0] = Inr \<lparr>iq_payload = [0, 0, 0, 0], iq_words = [0], iq_i_raw = [0], iq_q_raw = [0]\<rparr>"
    by code_simp
  have peak: "argmax [1] = Some 0" "mismatches [0] [0] = []" by code_simp+
  show ?thesis
    by (simp add: analyze_shot_def example_fields decode Let_def ref reference_mismatches_def assms(3) spectrum_dbfs_def
        flat_numerics_def max_def peak)
qed

lemma example_verified:
  assumes "document_config_id r = Some 0xaf46287bb969ed24" "expected_center r = Some center"
    and "load_resolved_profile example_tables example_registers (JObject r) = Inr r"
    and "expected_words example_repository (example_file r) 1 = Inr [0]"
  shows "verify_run flat_numerics example_repository (finished_files (example_world center) (example_sender center))
    (example_file r) r = Inr (1, 1, 0)"
proof -
  let ?files = "finished_files (example_world center) (example_sender center)"
  have ones: "(NOT 0 :: 32 word) = 0xFFFFFFFF" by code_simp
  have crc: "crc32 [0, 0, 0, 0] = 0x2144DF1C"
    unfolding crc32_def ones by (simp add: crc_byte_def crc_8_unfold crc_bit_def)
  have whole: "le_words [0, 0, 0, 0] = [0]" "mismatches [0] [0] = []" by code_simp+
  have number: "int_base0 ''0xaf46287bb969ed24'' = Some 0xaf46287bb969ed24"
    by (simp add: int_base0_def read_sign_def read_radix_def read_nat_def digit_value_def)
  have stream: "check_stream name (example_stream center) 0xaf46287bb969ed24 center = Inr ()" for name
    by (simp add: check_stream_def example_stream_def get_default_def has_key_def get_def number)
  have streams: "section_of (rb_manifest (example_run center)) ''stream'' = example_stream center"
    "section_of (rb_sender_report (example_run center)) ''stream'' = example_stream center"
    by (simp_all add: example_run_def example_manifest_def example_sender_def section_of_def get_def)
  have shot: "verify_shot example_repository (example_file r) ?files 0xaf46287bb969ed24 example_shot
      \<lparr>vs_expected_by_count = [], vs_checked = 0\<rparr> = Inr \<lparr>vs_expected_by_count = [(1, [0])], vs_checked = 1\<rparr>"
    by (simp add: verify_shot_def example_fields example_samples crc whole assms(4) Let_def)
  have rate: "sample_rate_hz (rb_manifest (example_run center)) (Some DEFAULT_SAMPLE_RATE_HZ) = Inr (12500000, Fallback)"
    using streams(1) by (simp add: sample_rate_hz_def example_stream_def get_def DEFAULT_SAMPLE_RATE_HZ_def)
  obtain a where a: "analyze_shot flat_numerics example_repository (Some (example_file r)) (Inr [0, 0, 0, 0]) (Inr (12500000, Fallback))
      example_shot None = Inr a" "sa_dominant_frequency_hz a = 0"
    using example_analysis[OF assms(1,3,4)] by blast
  show ?thesis
    unfolding verify_run_def Let_def example_opens raised_as_Inr bind_res_simps assms prod.case option.case example_health
      streams stream list.sel example_samples rate
    by (simp add: shot a example_health(2))
qed

section \<open>The experiment\<close>

lemma example_transcript:
  "extract_report (\<lambda>s. Some (JObject (example_sender center))) (ew_transcript (example_world center))
     (begin_marker (ew_token (example_world center))) (end_marker (ew_token (example_world center))) = Inr (example_sender center)"
proof -
  have "between_markers (begin_marker ''t'') (end_marker ''t'')
      (unix_lines ''ok __QCRATE_REPORT_t_BEGIN__{}__QCRATE_REPORT_t_END__'') = Some ''{}''" by code_simp
  then show ?thesis by (simp add: extract_report_def example_world_def example_sender_def get_def)
qed

lemma example_script:
  assumes "load_resolved_profile example_tables example_registers (JObject r) = Inr r"
    and "get (section_object r ''sequence'') ''image_sha256'' = JString digest"
  shows "\<exists>script. remote_workload r args path start finish = Inr script"
proof -
  obtain ws where "configuration_command r ''qcrate-control'' = Inr ws" by (rule dsp_accepts[OF assms(1)]) blast
  then show ?thesis using assms(2) by (auto simp: remote_workload_def Let_def)
qed

text \<open>It succeeds whatever the arguments are.\<close>

lemma example_experiment_actions:
  assumes "document_config_id r = Some 0xaf46287bb969ed24" "expected_center r = Some center"
    and "load_resolved_profile example_tables example_registers (JObject r) = Inr r"
    and "expected_words example_repository (example_file r) 1 = Inr [0]"
    and "get (section_object r ''sequence'') ''image_sha256'' = JString digest"
  shows "\<exists>result start remote more. run_experiment flat_numerics example_repository (\<lambda>s. Some (JObject (example_sender center)))
    ''recorder'' output args (example_world center) (example_file r) =
      (Inr result, [StartRecorder start, CopyProfile (example_file r), RunRemote remote, WriteReport (example_sender center)] @ more)"
proof -
  let ?files = "finished_files (example_world center) (example_sender center)"
  obtain script where script: "remote_workload r args (remote_report (ew_token (example_world center)))
      (begin_marker (ew_token (example_world center))) (end_marker (ew_token (example_world center))) = Inr script"
    using example_script[OF assms(3,5)] by blast
  have rate: "sample_rate_hz (rb_manifest (example_run center)) (Some DEFAULT_SAMPLE_RATE_HZ) = Inr (12500000, Fallback)"
    by (simp add: sample_rate_hz_def example_run_def example_manifest_def section_of_def example_stream_def get_def
        DEFAULT_SAMPLE_RATE_HZ_def)
  have complete: "shot_complete example_shot" by (simp add: shot_complete_def example_shot_def shot_one_def)
  have "\<exists>page. write_snapshot flat_numerics example_repository ?files (Some (example_file r)) None DEFAULT_SAMPLE_RATE_HZ = Inr page"
    using example_analysis[OF assms(1,3,4)]
    by (auto simp: write_snapshot_def example_opens snapshot_shot_def example_health(3) complete rate example_samples)
  then obtain page where page: "write_snapshot flat_numerics example_repository ?files (Some (example_file r)) None
      DEFAULT_SAMPLE_RATE_HZ = Inr page" by blast
  have world: "wait_for_path (ew_polls (example_world center)) = IndexPresent" "ew_sender_status (example_world center) = 0"
    "ew_recorder_close (example_world center) = Some 0" "\<not> ew_output_exists (example_world center)"
    "ew_recorder_present (example_world center)" by (simp_all add: example_world_def)
  show ?thesis
    by (simp add: run_experiment_def acquire_def Let_def world script example_transcript accept_run_def
        example_verified[OF assms(1-4)] page assms(3) example_file_def[of r, THEN arg_cong[of _ _ cf_parsed], simplified]
        example_repository_def[THEN arg_cong[of _ _ rs_tables], simplified]
        example_repository_def[THEN arg_cong[of _ _ rs_registers], simplified])
qed

lemma example_experiment_succeeds:
  assumes "document_config_id r = Some 0xaf46287bb969ed24" "expected_center r = Some center"
    and "load_resolved_profile example_tables example_registers (JObject r) = Inr r"
    and "expected_words example_repository (example_file r) 1 = Inr [0]"
    and "get (section_object r ''sequence'') ''image_sha256'' = JString digest"
  shows "\<exists>result actions. run_experiment flat_numerics example_repository (\<lambda>s. Some (JObject (example_sender center)))
    ''recorder'' ''run'' example_experiment (example_world center) (example_file r) = (Inr result, actions)"
  using example_experiment_actions[OF assms] by blast

end
