(* ===== verification/ExperimentProperties.thy ===== *)
theory ExperimentProperties
  imports ExperimentExample
begin

text \<open>
  The properties of the analyzer's reference comparison, of the verification of a run and of a
  whole experiment.
\<close>

section \<open>Laws they rest on\<close>

lemma analyzed_reference:
  assumes "analyze_shot lib repo (Some bundled) samples rate shot None = Inr a"
    and tables: "rs_sine_table repo = render_hex lut 16" "rs_fir_table repo = render_hex cs 18" "lut_ok lut" "fir_ok cs"
    and k: "sa_reference_mismatches a = Some k"
  obtains payload document cfg digest where "samples = Inr payload" and "cf_parsed bundled = Some (JObject document)"
    and "config_from_resolved_document document = Inr cfg"
    and "dsp_identity (get document ''numerical_contract'') (get (section_object document ''dsp'') ''active'') = Inr digest"
    and "sr_config_id shot = digest_id digest"
    and "int (length payload div 4) \<le> output_samples cfg \<Longrightarrow> \<exists>r. run_model cfg lut cs = Inr r \<and>
      (k = 0 \<longleftrightarrow> payload = word_bytes (take (length payload div 4) (dr_packed_words r)))"
proof (rule analyze_shot_Inr[OF assms(1)])
  fix payload capture selected hz source
  assume payload: "samples = Inr payload" "decode_payload payload = Inr capture"
    and ref: "reference_config repo (Some bundled) shot None = Inr selected"
      "reference_mismatches repo selected (iq_words capture) = Inr (sa_reference_mismatches a)"
  have capture: "iq_words capture = le_words payload" "length payload mod 4 = 0" "payload \<noteq> []"
    using payload(2) by (simp_all add: decode_payload_Inr)
  have sel: "selected = Some bundled" "resolved_config_id repo bundled = Inr (sr_config_id shot)"
    using ref k unfolding bundled_reference by (auto simp: reference_mismatches_def split: if_splits)
  obtain ws where ws: "expected_words repo bundled (int (length payload div 4)) = Inr ws" "k = length (mismatches (le_words payload) ws)"
    using ref(2) k sel(1) by (auto simp: reference_mismatches_def result_iff capture(1) le_words_length)
  obtain parsed document where doc: "cf_parsed bundled = Some parsed"
    "load_resolved_profile (rs_tables repo) (rs_registers repo) parsed = Inr document"
    "document_config_id document = Some (sr_config_id shot)"
    using sel(2) unfolding resolved_config_id_Inr by blast
  show thesis
  proof (rule loaded_profile_config[OF doc(2)])
    fix cfg digest
    assume p: "parsed = JObject document" and cfg: "load_config parsed = Inr cfg" "config_from_resolved_document document = Inr cfg"
      and dg: "dsp_identity (get document ''numerical_contract'') (get (section_object document ''dsp'') ''active'') = Inr digest"
      "document_config_id document = Some (digest_id digest)"
    have model: "\<exists>r. run_model cfg lut cs = Inr r \<and>
        (k = 0 \<longleftrightarrow> payload = word_bytes (take (length payload div 4) (dr_packed_words r)))"
      if small: "int (length payload div 4) \<le> output_samples cfg"
    proof -
      have gen: "generate_words parsed (render_hex lut 16) (render_hex cs 18) (int (length payload div 4)) = Inr ws"
        using ws(1) unfolding expected_words_Inr tables doc(1) by (simp add: load_config_plain[OF cfg(1)])
      then have one: "1 \<le> int (length payload div 4)" using generate_words_length by blast
      obtain r where r: "run_model cfg lut cs = Inr r" "ws = take (nat (int (length payload div 4))) (dr_packed_words r)"
          "length ws = nat (int (length payload div 4))" "list_all (\<lambda>w. 0 \<le> w \<and> w < 2 ^ 32) ws"
        by (rule reference_generate_length[OF cfg(1) tables(3,4) one small gen])
      show ?thesis
        using words_mismatch_free[OF capture(2) _ r(4)] r(1,2,3) ws(2) by auto
    qed
    show thesis
      by (rule that[OF payload(1) doc(1)[unfolded p] cfg(2) dg(1) _ model]) (use dg(2) doc(3) in simp)+
  qed
qed

lemma matched_shot_model:
  assumes "shot_matches repo bundled files i shot" "cf_parsed bundled = Some parsed" "load_config parsed = Inr cfg"
    and "rs_sine_table repo = render_hex lut 16" "rs_fir_table repo = render_hex cs 18" "lut_ok lut" "fir_ok cs"
    and "run_model cfg lut cs = Inr r" "int (shot_words files shot) \<le> output_samples cfg"
  shows "sr_config_id shot = i \<and>
    bundle_samples files shot = Inr (word_bytes (take (shot_words files shot) (dr_packed_words r)))"
proof -
  obtain payload where p: "sr_config_id shot = i" "bundle_samples files shot = Inr payload" "length payload mod 4 = 0"
    "expected_words repo bundled (int (length payload div 4)) = Inr (le_words payload)"
    using assms(1) by (auto simp: shot_matches_def split: sum.splits)
  have n: "shot_words files shot = length payload div 4" by (simp add: shot_words_def p(2))
  have gen: "generate_words parsed (render_hex lut 16) (render_hex cs 18) (int (length payload div 4)) = Inr (le_words payload)"
    using p(4) unfolding expected_words_Inr assms by (simp add: load_config_plain[OF assms(3)])
  have one: "1 \<le> int (length payload div 4)" using generate_words_length[OF gen] by blast
  obtain r' where "run_model cfg lut cs = Inr r'" "le_words payload = take (nat (int (length payload div 4))) (dr_packed_words r')"
    by (rule reference_generate_length[OF assms(3,6,7) one assms(9)[unfolded n] gen])
  then have "le_words payload = take (length payload div 4) (dr_packed_words r)" using assms(8) by simp
  then show ?thesis using p word_bytes_words[OF p(3)] n by metis
qed

section \<open>The analyzer\<close>

text \<open>
  C29. A shot is compared only with its own configuration.  When the analysis of a shot of a run that keeps its
  profile reports a mismatch count, the profile loads, its digest gives the identifier the shot carries,
  the DSP model takes the profile, and, up to the configured output, the count is zero exactly when
  the recorded bytes are the packed words of the fixed-point model.
\<close>

theorem analysis_uses_matching_reference:
  assumes "analyze_shot lib repo (Some bundled) samples rate shot None = Inr a"
    and "rs_sine_table repo = render_hex lut 16" "rs_fir_table repo = render_hex cs 18" "lut_ok lut" "fir_ok cs"
    and "sa_reference_mismatches a = Some k"
  shows "\<exists>payload document cfg digest. samples = Inr payload \<and> cf_parsed bundled = Some (JObject document) \<and>
    config_from_resolved_document document = Inr cfg \<and>
    dsp_identity (get document ''numerical_contract'') (get (section_object document ''dsp'') ''active'') = Inr digest \<and>
    sr_config_id shot = digest_id digest \<and>
    (int (length payload div 4) \<le> output_samples cfg \<longrightarrow> (\<exists>r. run_model cfg lut cs = Inr r \<and>
      (k = 0 \<longleftrightarrow> payload = word_bytes (take (length payload div 4) (dr_packed_words r)))))"
  by (rule analyzed_reference[OF assms]) blast

theorem analysis_uses_matching_reference_witness:
  "\<exists>r a document cfg digest. analyze_shot flat_numerics example_repository (Some (example_file r)) (Inr [0, 0, 0, 0])
      (Inr (12500000, Fallback)) example_shot None = Inr a \<and>
    cf_parsed (example_file r) = Some (JObject document) \<and> config_from_resolved_document document = Inr cfg \<and>
    sr_config_id example_shot = digest_id digest"
proof (rule example_resolved)
  fix r center
  assume r: "load_resolved_profile example_tables example_registers (JObject r) = Inr r"
    "document_config_id r = Some 0xaf46287bb969ed24" "expected_words example_repository (example_file r) 1 = Inr [0]"
  obtain a where a: "analyze_shot flat_numerics example_repository (Some (example_file r)) (Inr [0, 0, 0, 0])
      (Inr (12500000, Fallback)) example_shot None = Inr a" "sa_reference_mismatches a = Some 0"
    using example_analysis[OF r(2,1,3)] by blast
  have "rs_sine_table example_repository = render_hex zero_lut 16" "rs_fir_table example_repository = render_hex zero_fir 18"
    by (simp_all add: example_repository_def)
  from analysis_uses_matching_reference[OF a(1) this zero_tables a(2)] a(1) show ?thesis by blast
qed

section \<open>Remote commands\<close>

text \<open>
  C30. No argument can leave its place in a remote command.  The word handed to ssh splits, by the rules of the
  shell, into the program and exactly one script; the script joins four operations by \<open>&&\<close>, each of which
  splits back into its own words: the image check, whose two file arguments are words of their own, the
  configuration command of the profile, the sequence load and the streamer.
\<close>

theorem remote_words_intact:
  assumes "remote_workload resolved args report_path start finish = Inr script"
  shows "\<exists>command digest streamer checked.
    configuration_command resolved ''qcrate-control'' = Inr command \<and>
    get (section_object resolved ''sequence'') ''image_sha256'' = JString digest \<and>
    streamer = streamer_command (section_object resolved ''acquisition'') args report_path \<and>
    split_command (last (ssh_target_command args script)) =
      Some ((if ea_unattended args then [] else [''sudo'', ''-p'', ''[KV260 sudo] password: '', ''--'']) @ [''sh'', ''-c'', script]) \<and>
    script = join_with '' && '' (map shlex_join [[''sh'', ''-c'', checked @ '' | sha256sum -c -''], command,
      [''qcrate-sequence'', ''load'', ea_sequence args], streamer]) @ script_tail report_path start finish \<and>
    map (split_command \<circ> shlex_join) [command, [''qcrate-sequence'', ''load'', ea_sequence args], streamer] =
      map Some [command, [''qcrate-sequence'', ''load'', ea_sequence args], streamer] \<and>
    split_command checked = Some [''printf'', ''%s  %s'' @ line_escape, digest, ea_sequence args]"
proof -
  obtain command digest where c: "configuration_command resolved ''qcrate-control'' = Inr command"
    "get (section_object resolved ''sequence'') ''image_sha256'' = JString digest"
    and script: "script = join_with '' && '' (map shlex_join (remote_operations command digest (ea_sequence args)
      (streamer_command (section_object resolved ''acquisition'') args report_path))) @ script_tail report_path start finish"
    using assms unfolding remote_workload_Inr by blast
  let ?checked = "printf_format (''%s  %s'' @ line_escape) @ CHR '' '' # shlex_quote digest @ CHR '' '' # shlex_quote (ea_sequence args)"
  have "list_all (\<lambda>c. c \<noteq> apostrophe) (''%s  %s'' @ line_escape)" by code_simp
  moreover have "shell_words Between (shlex_quote digest @ CHR '' '' # shlex_quote (ea_sequence args)) = Some [digest, ea_sequence args]"
    using split_join[of "[digest, ea_sequence args]"] by (simp add: split_command_def)
  ultimately have "split_command ?checked = Some [''printf'', ''%s  %s'' @ line_escape, digest, ea_sequence args]"
    unfolding split_command_def by (simp only: printf_word option.map)
  moreover have "remote_operations command digest (ea_sequence args) st =
      [[''sh'', ''-c'', ?checked @ '' | sha256sum -c -''], command, [''qcrate-sequence'', ''load'', ea_sequence args], st]" for st
    by (simp add: remote_operations_def check_image_def)
  ultimately show ?thesis
    using c script ssh_command_splits[of args script] split_join
    by (intro exI[of _ command] exI[of _ digest] exI[of _ "streamer_command (section_object resolved ''acquisition'') args report_path"]
        exI[of _ ?checked]) (simp del: shlex_join.simps)
qed

theorem remote_words_intact_witness:
  "\<exists>r script command. remote_workload r example_experiment ''/tmp/r'' ''B'' ''E'' = Inr script \<and>
    configuration_command r ''qcrate-control'' = Inr command \<and>
    split_command (last (ssh_target_command example_experiment script)) = Some [''sh'', ''-c'', script]"
proof (rule example_resolved)
  fix r center
  assume r: "load_resolved_profile example_tables example_registers (JObject r) = Inr r"
    "\<exists>image. get (section_object r ''sequence'') ''image_sha256'' = JString image"
  obtain script where script: "remote_workload r example_experiment ''/tmp/r'' ''B'' ''E'' = Inr script"
    using r(2) example_script[OF r(1)] by blast
  have "ea_unattended example_experiment" by (simp add: example_experiment_def)
  with remote_words_intact[OF script] script show ?thesis by auto
qed

text \<open>
  C31. The sender report is what the target printed between the markers of this session: a report is
  returned exactly when, after line ends are unified, the transcript has a last begin marker, the nearest
  end marker after it, and between them the text of an object of the report format.
\<close>

theorem extracted_report_exact:
  "extract_report parse transcript start finish = Inr document \<longleftrightarrow>
     (\<exists>pre body post. unix_lines transcript = pre @ start @ body @ finish @ post \<and>
        (\<forall>k > length pre. \<not> occurs_at start (unix_lines transcript) k) \<and>
        (\<forall>k < length body. \<not> occurs_at finish (body @ finish @ post) k) \<and>
        parse (strip body) = Some (JObject document) \<and>
        get document ''format'' = JString ''qcrate-sender-report-v1'')"
proof -
  have "extract_report parse transcript start finish = Inr document \<longleftrightarrow>
      (\<exists>body. between_markers start finish (unix_lines transcript) = Some body \<and>
        parse (strip body) = Some (JObject document) \<and> get document ''format'' = JString ''qcrate-sender-report-v1'')"
    by (auto simp: extract_report_def split: option.splits json.splits)
  then show ?thesis unfolding between_markers_Some by blast
qed

theorem extracted_report_exact_witness:
  "extract_report (\<lambda>s. Some (JObject [(''format'', JString ''qcrate-sender-report-v1'')])) ''okB{}E'' ''B'' ''E'' =
    Inr [(''format'', JString ''qcrate-sender-report-v1'')]"
proof (rule extracted_report_exact[THEN iffD2], intro exI conjI allI impI)
  show "unix_lines ''okB{}E'' = ''ok'' @ ''B'' @ ''{}'' @ ''E'' @ []" by simp
  have "list_all (\<lambda>k. \<not> occurs_at ''B'' ''okB{}E'' k) [3..<7]" "list_all (\<lambda>k. \<not> occurs_at ''E'' ''{}E'' k) [0..<2]"
    "unix_lines ''okB{}E'' = ''okB{}E''" by code_simp+
  note none = this
  show "\<not> occurs_at ''B'' (unix_lines ''okB{}E'') k" if "length ''ok'' < k" for k
  proof (cases "k < 7")
    case True
    then have "k \<in> set [3..<7]" using that by auto
    then show ?thesis using none(1) unfolding none(3) list_all_iff by blast
  next
    case False
    then show ?thesis unfolding none(3) by (simp add: occurs_at_def)
  qed
  show "\<not> occurs_at ''E'' (''{}'' @ ''E'' @ []) k" if "k < length ''{}''" for k
    using none(2) that by (simp add: list_all_iff)
qed (simp_all add: get_def)

section \<open>Verified runs\<close>

lemma verified_state:
  assumes "run_complete (rb_manifest b) = Some True" "integrity_ok (bundle_health b)"
  shows "rh_state (bundle_health b) = Accepted"
  using assms by (auto simp: bundle_health_def build_health_def Let_def decide_state_def integrity_ok_def
      record_integrity_ok_def acquisition_integrity_ok_def)

lemma shot_matches_payload:
  "shot_matches repo bundled files i shot \<Longrightarrow> sr_config_id shot = i \<and>
    (\<exists>payload. bundle_samples files shot = Inr payload \<and> crc32 payload = sr_payload_crc32 shot \<and>
      length payload mod 4 = 0 \<and> expected_words repo bundled (int (length payload div 4)) = Inr (le_words payload))"
  by (cases "bundle_samples files shot") (simp_all add: shot_matches_def)

lemma script_starts:
  assumes "remote_workload document args path start finish = Inr script"
  obtains command where "configuration_command document ''qcrate-control'' = Inr command"
    and "prefix (join_with '' && '' [shlex_join [''sh'', ''-c'', check_image (jtext (get (section_object document ''sequence'')
      ''image_sha256'')) (ea_sequence args)], shlex_join command]) script"
proof -
  obtain command digest where c: "configuration_command document ''qcrate-control'' = Inr command"
    "get (section_object document ''sequence'') ''image_sha256'' = JString digest"
    "script = join_with '' && '' (map shlex_join (remote_operations command digest (ea_sequence args)
      (streamer_command (section_object document ''acquisition'') args path))) @ script_tail path start finish"
    using assms unfolding remote_workload_Inr by blast
  have "join_with sep (a # b # e # rest) = join_with sep [a, b] @ sep @ join_with sep (e # rest)" for sep a b e rest
    by simp
  then have "prefix (join_with '' && '' [shlex_join [''sh'', ''-c'', check_image digest (ea_sequence args)], shlex_join command]) script"
    unfolding c(3) remote_operations_def list.map append_assoc by (metis append_assoc prefixI)
  then show thesis using that c(1,2) by simp
qed

lemma matched_shot_bytes:
  assumes "shot_matches repo bundled files i shot"
  shows "4 * int (shot_words files shot) = sr_sample_bytes shot"
proof -
  obtain payload where p: "bundle_samples files shot = Inr payload" "length payload mod 4 = 0"
    using assms by (auto simp: shot_matches_def split: sum.splits)
  have "int (length payload) = sr_sample_bytes shot"
    using p(1) by (auto simp: bundle_samples_def read_samples_def Let_def split: option.splits if_splits)
  moreover have "shot_words files shot = length payload div 4" by (simp add: shot_words_def p(1))
  ultimately show ?thesis using p(2) by (metis dvd_mult_div_cancel mod_0_imp_dvd of_nat_mult of_nat_numeral)
qed

lemma matched_total:
  "list_all (shot_matches repo bundled files i) shots \<Longrightarrow>
   4 * int (sum_list (map (shot_words files) shots)) = sum_list (map sr_sample_bytes shots)"
  by (induction shots) (auto dest: matched_shot_bytes)

text \<open>
  C32. A run that passes verification is whole and exact: the health verdict is accepted, there is at least
  one shot, every shot is complete and the identifiers are consecutive; the manifest and the
  sender report carry the profile's identifier and center frequency; every shot carries that
  identifier, its payload has the recorded CRC and is word for word the reference for its length;
  and the returned counts are the shots and words of the run.
\<close>

theorem verified_run_exact:
  assumes "verify_run lib repo files bundled resolved = Inr (shots, words, hz)"
  shows "\<exists>b i center. bundle_open files False = Inr b \<and> document_config_id resolved = Some i \<and>
    expected_center resolved = Some center \<and> rh_state (bundle_health b) = Accepted \<and>
    shots = int (length (rb_shots b)) \<and> 1 \<le> shots \<and> 4 * words = sum_list (map sr_sample_bytes (rb_shots b)) \<and>
    successively (\<lambda>s t. sr_shot_id t = sr_shot_id s + 1) (rb_shots b) \<and>
    (\<forall>section \<in> {section_of (rb_manifest b) ''stream'', section_of (rb_sender_report b) ''stream''}.
      \<exists>d. section = JObject d \<and> report_number (get_default d ''config_id'' (JString ''0'')) = Some i \<and>
        int_of_json (get_default d ''center_frequency_hz'' (JInt (-1))) = Some center) \<and>
    list_all (\<lambda>shot. shot_complete shot \<and> sr_config_id shot = i \<and>
      (\<exists>payload. bundle_samples files shot = Inr payload \<and> crc32 payload = sr_payload_crc32 shot \<and>
        length payload mod 4 = 0 \<and> expected_words repo bundled (int (length payload div 4)) = Inr (le_words payload)))
      (rb_shots b)"
proof (rule verify_run_Inr[OF assms])
  fix b i center
  assume b: "bundle_open files False = Inr b" and i: "document_config_id resolved = Some i" "expected_center resolved = Some center"
    and ok: "run_complete (rb_manifest b) = Some True" "integrity_ok (bundle_health b)" "complete_shots b \<noteq> []"
    and streams: "check_stream ''run manifest'' (section_of (rb_manifest b) ''stream'') i center = Inr ()"
      "check_stream ''sender report'' (section_of (rb_sender_report b) ''stream'') i center = Inr ()"
    and matches: "list_all (shot_matches repo bundled files i) (complete_shots b)"
    and counts: "shots = int (length (complete_shots b))"
      "words = int (sum_list (map (shot_words files) (complete_shots b)))"
  note all = integrity_complete(1)[OF ok(2)]
  have "shot_complete s" if "s \<in> set (rb_shots b)" for s
    using that unfolding all[symmetric] by (simp add: complete_shots_def)
  moreover have "sr_config_id s = i \<and> (\<exists>payload. bundle_samples files s = Inr payload \<and> crc32 payload = sr_payload_crc32 s \<and>
      length payload mod 4 = 0 \<and> expected_words repo bundled (int (length payload div 4)) = Inr (le_words payload))"
    if "s \<in> set (rb_shots b)" for s
    using matches that unfolding all list_all_iff by (blast dest: shot_matches_payload)
  moreover have "successively (\<lambda>s t. sr_shot_id t = sr_shot_id s + 1) (rb_shots b)"
    by (rule consecutive_ids[OF opened_ids[OF b] integrity_complete(2)[OF ok(2)]])
  moreover have "1 \<le> shots" using ok(3) counts(1) by (cases "complete_shots b") auto
  ultimately show ?thesis
    using b i verified_state[OF ok(1,2)] counts matched_total[OF matches] streams
    unfolding all check_stream_Inr by (intro exI[of _ b] exI[of _ i] exI[of _ center]) (simp add: list_all_iff)
qed

theorem verified_run_exact_witness:
  "\<exists>r center files b. verify_run flat_numerics example_repository files (example_file r) r = Inr (1, 1, 0) \<and>
    bundle_open files False = Inr b \<and> rh_state (bundle_health b) = Accepted \<and> document_config_id r = Some center"
proof (rule example_resolved)
  fix r center
  assume r: "load_resolved_profile example_tables example_registers (JObject r) = Inr r"
    "document_config_id r = Some 0xaf46287bb969ed24" "expected_center r = Some center"
    "expected_words example_repository (example_file r) 1 = Inr [0]"
  note v = example_verified[OF r(2,3,1,4)]
  from verified_run_exact[OF v] v show ?thesis by blast
qed

section \<open>A whole experiment\<close>

text \<open>
  C33. An experiment that reports success measured what it configured.  The profile given loads and is a
  configuration of the DSP model; it was copied beside the run before the target was commanded, and the
  command carries its configuration words; the report, the recorder's exit and the verification came
  after, in this order; and every shot of the recorded run carries the profile's identifier and,
  up to the configured output, holds exactly the packed words of the fixed-point model.
\<close>

theorem experiment_measures_profile:
  assumes "run_experiment lib repo parse recorder output args w profile = (Inr result, actions)"
    and "rs_sine_table repo = render_hex lut 16" "rs_fir_table repo = render_hex cs 18" "lut_ok lut" "fir_ok cs"
  shows "\<exists>document cfg digest model report script command b.
    cf_parsed profile = Some (JObject document) \<and> config_from_resolved_document document = Inr cfg \<and>
    dsp_identity (get document ''numerical_contract'') (get (section_object document ''dsp'') ''active'') = Inr digest \<and>
    run_model cfg lut cs = Inr model \<and>
    configuration_command document ''qcrate-control'' = Inr command \<and>
    prefix (join_with '' && '' [shlex_join [''sh'', ''-c'', check_image (jtext (get (section_object document ''sequence'')
      ''image_sha256'')) (ea_sequence args)], shlex_join command]) script \<and>
    filter (\<lambda>a. a \<noteq> BuildRecorder \<and> a \<noteq> OpenAnalyzer \<and> (\<forall>p. a \<noteq> SaveSnapshot p)) actions =
      [StartRecorder (recorder_command recorder args output), CopyProfile profile,
       RunRemote (ssh_target_command args script), WriteReport report, WaitRecorder] \<and>
    bundle_open (finished_files w report) False = Inr b \<and> er_shots result = int (length (rb_shots b)) \<and>
    list_all (\<lambda>shot. sr_config_id shot = digest_id digest \<and>
      (int (shot_words (finished_files w report) shot) \<le> output_samples cfg \<longrightarrow>
        bundle_samples (finished_files w report) shot =
          Inr (word_bytes (take (shot_words (finished_files w report) shot) (dr_packed_words model))))) (rb_shots b)"
proof (rule run_experiment_Inr[OF assms(1)])
  fix parsed document script report page
  assume p: "cf_parsed profile = Some parsed" "load_resolved_profile (rs_tables repo) (rs_registers repo) parsed = Inr document"
    and script: "remote_workload document args (remote_report (ew_token w)) (begin_marker (ew_token w)) (end_marker (ew_token w)) = Inr script"
    and verified: "verify_run lib repo (finished_files w report) profile document =
      Inr (er_shots result, er_words result, er_dominant_hz result)"
    and actions: "actions = (if ew_recorder_present w then [] else [BuildRecorder]) @
      [StartRecorder (recorder_command recorder args output), CopyProfile profile,
       RunRemote (ssh_target_command args script), WriteReport report, WaitRecorder, SaveSnapshot page] @
      (if ea_gui args then [OpenAnalyzer] else [])"
  obtain cfg digest where cfg: "parsed = JObject document" "load_config parsed = Inr cfg"
      "config_from_resolved_document document = Inr cfg"
      "dsp_identity (get document ''numerical_contract'') (get (section_object document ''dsp'') ''active'') = Inr digest"
      "document_config_id document = Some (digest_id digest)"
    by (rule loaded_profile_config[OF p(2)])
  have v: "validate_config cfg = Inr cfg" by (rule load_config_settings[OF cfg(2), THEN conjunct2])
  obtain model where model: "run_model cfg lut cs = Inr model" using run_model_eq[OF v assms(4,5)] by blast
  obtain command where command: "configuration_command document ''qcrate-control'' = Inr command"
    and starts: "prefix (join_with '' && '' [shlex_join [''sh'', ''-c'', check_image (jtext (get (section_object document ''sequence'')
      ''image_sha256'')) (ea_sequence args)], shlex_join command]) script"
    by (rule script_starts[OF script])
  obtain b where b: "bundle_open (finished_files w report) False = Inr b" "integrity_ok (bundle_health b)"
      "list_all (shot_matches repo profile (finished_files w report) (digest_id digest)) (complete_shots b)"
      "er_shots result = int (length (complete_shots b))"
    by (rule verify_run_Inr[OF verified]) (use cfg(5) in auto)
  have "sr_config_id s = digest_id digest \<and> (int (shot_words (finished_files w report) s) \<le> output_samples cfg \<longrightarrow>
      bundle_samples (finished_files w report) s =
        Inr (word_bytes (take (shot_words (finished_files w report) s) (dr_packed_words model))))"
    if "s \<in> set (rb_shots b)" for s
  proof -
    have m: "shot_matches repo profile (finished_files w report) (digest_id digest) s"
      using b(3) that unfolding integrity_complete(1)[OF b(2)] list_all_iff by blast
    then show ?thesis
      using shot_matches_payload[OF m] matched_shot_model[OF m p(1) cfg(2) assms(2-5) model] by blast
  qed
  moreover have "filter (\<lambda>a. a \<noteq> BuildRecorder \<and> a \<noteq> OpenAnalyzer \<and> (\<forall>p. a \<noteq> SaveSnapshot p)) actions =
      [StartRecorder (recorder_command recorder args output), CopyProfile profile,
       RunRemote (ssh_target_command args script), WriteReport report, WaitRecorder]"
    by (simp add: actions)
  ultimately show ?thesis
    using p(1) cfg model command starts b(1,4) unfolding integrity_complete(1)[OF b(2)] list_all_iff by blast
qed

theorem experiment_measures_profile_witness:
  "\<exists>r parse center result actions document cfg. run_experiment flat_numerics example_repository parse ''recorder'' ''run''
      example_experiment (example_world center) (example_file r) = (Inr result, actions) \<and>
    cf_parsed (example_file r) = Some (JObject document) \<and> config_from_resolved_document document = Inr cfg"
proof (rule example_resolved)
  fix r center
  assume r: "load_resolved_profile example_tables example_registers (JObject r) = Inr r"
    "document_config_id r = Some 0xaf46287bb969ed24" "expected_center r = Some center"
    "expected_words example_repository (example_file r) 1 = Inr [0]"
    "\<exists>image. get (section_object r ''sequence'') ''image_sha256'' = JString image"
  obtain result actions where run: "run_experiment flat_numerics example_repository (\<lambda>s. Some (JObject (example_sender center)))
      ''recorder'' ''run'' example_experiment (example_world center) (example_file r) = (Inr result, actions)"
    using r(5) example_experiment_succeeds[OF r(2,3,1,4)] by blast
  have "rs_sine_table example_repository = render_hex zero_lut 16" "rs_fir_table example_repository = render_hex zero_fir 18"
    by (simp_all add: example_repository_def)
  from experiment_measures_profile[OF run this zero_tables] run show ?thesis by blast
qed

end
