(* ===== verification/Acceptance.thy ===== *)
theory Acceptance
  imports Experiment
begin

text \<open>
  \<open>host/acceptance/qcrate_acceptance.py\<close>: the verdict on a recorded run, the recorded recovery
  tests and the soak command.  Durations are exact rationals; the two roundings the report prints
  are parameters.
\<close>

unbundle bit_operations_syntax

section \<open>Constants and errors\<close>

definition ACCEPTANCE_FORMAT :: string where "ACCEPTANCE_FORMAT = ''qcrate-dp5d-acceptance-v1''"
definition ACC_FAULT_FORMAT :: string where "ACC_FAULT_FORMAT = ''qcrate-dp5d-faults-v1''"
definition REQUIRED_FAULTS :: "string list" where
  "REQUIRED_FAULTS = [''receiver_restart'', ''analyzer_restart'', ''ethernet_disconnect'']"

datatype acceptance_error =
    AcceptanceRun run_error
  | AcceptanceAnalysis analysis_error
  | AcceptanceNumber string
  | PayloadBuffer int
  | FaultSyntax
  | FaultRoot
  | FaultFormat
  | SessionSyntax
  | SessionRoot
  | SessionNumber
  | ReportWithoutShots

section \<open>Values of a report\<close>

fun nested :: "json \<Rightarrow> string list \<Rightarrow> json \<Rightarrow> json" where
  "nested v [] fallback = v"
| "nested v (k # ks) fallback =
     (case v of JObject d \<Rightarrow> nested (get_default d k fallback) ks fallback | _ \<Rightarrow> fallback)"

text \<open>\<open>float(v)\<close>.\<close>

fun float_of_json :: "json \<Rightarrow> rat option" where
  "float_of_json (JInt i) = Some (of_int i)"
| "float_of_json (JBool b) = Some (if b then 1 else 0)"
| "float_of_json (JFloat s) = decimal_of_string s"
| "float_of_json (JString s) = decimal_of_string s"
| "float_of_json _ = None"

text \<open>A sender report that may be missing, as the value \<open>nested\<close> starts from.\<close>

definition report_value :: "jobject option \<Rightarrow> json" where
  "report_value r = (case r of None \<Rightarrow> JNull | Some d \<Rightarrow> JObject d)"

section \<open>Checks\<close>

record check_item =
  ci_name :: string
  ci_pass :: bool
  ci_actual :: json
  ci_requirement :: string

definition check_item_of :: "string \<Rightarrow> bool \<Rightarrow> json \<Rightarrow> string \<Rightarrow> check_item" where
  "check_item_of name passed actual requirement =
     \<lparr>ci_name = name, ci_pass = passed, ci_actual = actual, ci_requirement = requirement\<rparr>"

definition optional_int :: "int option \<Rightarrow> json" where
  "optional_int n = (case n of None \<Rightarrow> JNull | Some i \<Rightarrow> JInt i)"

record report_printing =
  rp_round6 :: "rat \<Rightarrow> string"
  rp_fixed3 :: "rat \<Rightarrow> string"

definition health_checks ::
    "report_printing \<Rightarrow> run_bundle \<Rightarrow> run_health \<Rightarrow> rat \<Rightarrow> int \<Rightarrow> rat \<Rightarrow> check_item list" where
  "health_checks pr b h sender_duration sender_shots minimum_duration =
     (let sender = rb_sender_report b in
      [check_item_of ''recorder_complete'' (run_complete (rb_manifest b) = Some True)
         (case run_complete (rb_manifest b) of None \<Rightarrow> JNull | Some c \<Rightarrow> JBool c) ''run.json complete must be true'',
       check_item_of ''sender_report'' (sender \<noteq> None) (JBool (sender \<noteq> None))
         ''sender.json must be present and identity-matched'',
       check_item_of ''sender_complete'' (truthy (section_of sender ''complete''))
         (case sender of None \<Rightarrow> JNull | Some d \<Rightarrow> get d ''complete'') ''qcrate-streamer must close the run cleanly'',
       check_item_of ''capture_duration'' (sender_duration \<ge> minimum_duration)
         (JFloat (rp_round6 pr sender_duration)) (''>= '' @ rp_fixed3 pr minimum_duration @ '' seconds''),
       check_item_of ''complete_shots'' (rh_complete_shots h > 0) (JInt (rh_complete_shots h)) ''> 0'',
       check_item_of ''incomplete_shots'' (rh_incomplete_shots h = 0) (JInt (rh_incomplete_shots h)) ''0'',
       check_item_of ''shot_identity_continuity'' (rh_skipped_shot_ids h = 0) (JInt (rh_skipped_shot_ids h)) ''0 skipped IDs'',
       check_item_of ''sender_recorder_shot_count'' (sender_shots = rh_complete_shots h)
         (JObject [(''sender'', JInt sender_shots), (''recorder'', JInt (rh_complete_shots h))]) ''equal'',
       check_item_of ''record_integrity'' (record_integrity_ok h)
         (JObject [(''missing_packets'', JInt (rh_missing_packets h)), (''malformed_packets'', JInt (rh_malformed_packets h)),
            (''conflicting_packets'', JInt (rh_conflicting_packets h)),
            (''kernel_receive_drops'', JInt (rh_kernel_receive_drops h)),
            (''continuity_errors'', JInt (rh_continuity_errors h))]) ''all zero'',
       check_item_of ''acquisition_integrity'' (acquisition_integrity_ok h)
         (JObject [(''missed_triggers'', optional_int (rh_missed_triggers h)),
            (''skipped_triggers'', optional_int (rh_skipped_triggers h)),
            (''dma_error_events'', optional_int (rh_dma_error_events h))]) ''all zero''])"

definition timestamp_check :: "run_bundle \<Rightarrow> check_item" where
  "timestamp_check b =
     (let timestamps = map sr_first_sample_timestamp (complete_shots b) in
      check_item_of ''hardware_timestamps''
        (timestamps \<noteq> [] \<and> list_all (\<lambda>(left, right). right > left) (zip timestamps (tl timestamps)))
        (JObject [(''first'', if timestamps \<noteq> [] then JInt (hd timestamps) else JNull),
           (''last'', if timestamps \<noteq> [] then JInt (last timestamps) else JNull)])
        ''present and strictly increasing'')"

section \<open>Published samples\<close>

record sample_audit =
  su_reference_words :: "((config_file \<times> nat) \<times> int list) list"
  su_checked_words :: nat
  su_reference_mismatches :: nat
  su_crc_mismatches :: nat
  su_unexpected_configs :: "int list"

definition audit_shot ::
    "repository_files \<Rightarrow> config_file option \<Rightarrow> run_files \<Rightarrow> shot_record \<Rightarrow> sample_audit \<Rightarrow>
     acceptance_error + sample_audit" where
  "audit_shot repo bundled files shot au =
     bind_res (raised_as AcceptanceRun (bundle_samples files shot)) (\<lambda>payload.
     let au = (if crc32 payload AND 0xFFFFFFFF \<noteq> sr_payload_crc32 shot
               then au\<lparr>su_crc_mismatches := Suc (su_crc_mismatches au)\<rparr> else au)
     in
     bind_res (raised_as AcceptanceAnalysis (reference_config repo bundled shot None)) (\<lambda>selected.
     case selected of
       None \<Rightarrow> Inr (au\<lparr>su_unexpected_configs := List.insert (sr_config_id shot) (su_unexpected_configs au)\<rparr>)
     | Some config \<Rightarrow>
         if length payload mod 4 \<noteq> 0 then Inl (PayloadBuffer (sr_shot_id shot))
         else
           let words = le_words payload; reference_key = (config, length words) in
           bind_res
             (case map_of (su_reference_words au) reference_key of
                Some expected \<Rightarrow> Inr (expected, su_reference_words au)
              | None \<Rightarrow>
                  bind_res (raised_as AcceptanceAnalysis (expected_words repo config (int (length words)))) (\<lambda>expected.
                  Inr (expected, (reference_key, expected) # su_reference_words au)))
             (\<lambda>(expected, cache).
           Inr (au\<lparr>su_reference_words := cache,
                   su_reference_mismatches := su_reference_mismatches au + length (mismatches words expected),
                   su_checked_words := su_checked_words au + length words\<rparr>))))"

definition no_audit :: sample_audit where
  "no_audit = \<lparr>su_reference_words = [], su_checked_words = 0, su_reference_mismatches = 0,
     su_crc_mismatches = 0, su_unexpected_configs = []\<rparr>"

definition sample_checks :: "sample_audit \<Rightarrow> check_item list" where
  "sample_checks au =
     [check_item_of ''published_payload_crc'' (su_crc_mismatches au = 0) (JInt (int (su_crc_mismatches au)))
        ''0 mismatched shot payloads'',
      check_item_of ''bit_exact_iq'' (su_unexpected_configs au = [] \<and> su_reference_mismatches au = 0)
        (JObject [(''words_checked'', JInt (int (su_checked_words au))),
           (''mismatches'', JInt (int (su_reference_mismatches au))),
           (''unexpected_config_ids'', JArray (map (\<lambda>i. JString (hexadecimal i 64)) (sort (su_unexpected_configs au))))])
        ''every published IQ word matches its identity-selected model'']"

section \<open>Recovery tests\<close>

text \<open>
  The evidence file: absent, not JSON, or parsed.  A case counts by its \<open>pass\<close> value; an absent or
  malformed case is \<open>None\<close>.
\<close>

datatype fault_file = NoFaultFile | FaultText "json option"

definition case_value :: "jobject \<Rightarrow> string \<Rightarrow> json" where
  "case_value cases name = (case get cases name of JObject c \<Rightarrow> get c ''pass'' | _ \<Rightarrow> JNull)"

definition fault_document :: "json option \<Rightarrow> acceptance_error + jobject" where
  "fault_document parsed =
     (case parsed of
        None \<Rightarrow> Inl FaultSyntax
      | Some v \<Rightarrow> (case json_loads v of JObject d \<Rightarrow> Inr d | _ \<Rightarrow> Inl FaultRoot))"

definition fault_results :: "fault_file \<Rightarrow> acceptance_error + (string \<times> json) list" where
  "fault_results file =
     (case file of
        NoFaultFile \<Rightarrow> Inr (map (\<lambda>name. (name, JNull)) REQUIRED_FAULTS)
      | FaultText parsed \<Rightarrow>
          bind_res (fault_document parsed) (\<lambda>document.
          if get document ''format'' \<noteq> JString ACC_FAULT_FORMAT then Inl FaultFormat
          else
            (case get_default document ''cases'' (JObject []) of
               JObject cases \<Rightarrow> Inr (map (\<lambda>name. (name, case_value cases name)) REQUIRED_FAULTS)
             | _ \<Rightarrow> Inr [])))"

section \<open>The verdict\<close>

datatype verdict = PASS | PENDING | FAIL

record acceptance_summary =
  as_result :: verdict
  as_run_id :: int
  as_stream_id :: int
  as_minimum_duration :: rat
  as_clean :: bool
  as_faults_complete :: bool
  as_checks :: "check_item list"
  as_duration :: rat
  as_health :: run_health
  as_audit :: sample_audit
  as_recovery_tests :: "(string \<times> json) list"

definition evaluate_run ::
    "report_printing \<Rightarrow> repository_files \<Rightarrow> run_files \<Rightarrow> config_file option \<Rightarrow> rat \<Rightarrow> fault_file \<Rightarrow>
     acceptance_error + acceptance_summary" where
  "evaluate_run pr repo files bundled minimum_duration faults =
     bind_res (raised_as AcceptanceRun (bundle_open files False)) (\<lambda>b.
     let health = bundle_health b; sender = report_value (rb_sender_report b) in
     case (float_of_json (nested sender [''timing'', ''capture_duration_seconds''] (JFloat ''0.0'')),
           int_of_json (nested sender [''capture'', ''shots_transmitted''] (JInt (-1)))) of
       (Some sender_duration, Some sender_shots) \<Rightarrow>
         bind_res (fold_res (audit_shot repo bundled files) (complete_shots b) no_audit) (\<lambda>au.
         let checks = health_checks pr b health sender_duration sender_shots minimum_duration @
               [timestamp_check b] @ sample_checks au;
             clean_pass = list_all ci_pass checks
         in
         bind_res (fault_results faults) (\<lambda>tests.
         let fault_complete = list_all (\<lambda>(name, v). v = JBool True) tests;
             fault_failed = list_ex (\<lambda>(name, v). v = JBool False) tests
         in Inr \<lparr>as_result = (if \<not> clean_pass \<or> fault_failed then FAIL else if fault_complete then PASS else PENDING),
                 as_run_id = rb_run_id b, as_stream_id = rb_stream_id b, as_minimum_duration = minimum_duration,
                 as_clean = clean_pass, as_faults_complete = fault_complete, as_checks = checks,
                 as_duration = sender_duration, as_health = health, as_audit = au, as_recovery_tests = tests\<rparr>))
     | (None, _) \<Rightarrow> Inl (AcceptanceNumber ''capture_duration_seconds'')
     | _ \<Rightarrow> Inl (AcceptanceNumber ''shots_transmitted''))"

section \<open>Recording a recovery test\<close>

text \<open>The paths that the file keeps beside the evidence are left out.\<close>

definition load_faults :: "fault_file \<Rightarrow> string \<Rightarrow> acceptance_error + jobject" where
  "load_faults file now =
     (case file of
        NoFaultFile \<Rightarrow> Inr [(''format'', JString ACC_FAULT_FORMAT), (''updated_utc'', JString now), (''cases'', JObject [])]
      | FaultText parsed \<Rightarrow>
          bind_res (fault_document parsed) (\<lambda>document.
          if get document ''format'' \<noteq> JString ACC_FAULT_FORMAT \<or> \<not> is_JObject (get document ''cases'')
          then Inl FaultFormat else Inr document))"

fun payloads_valid :: "run_files \<Rightarrow> shot_record list \<Rightarrow> acceptance_error + bool" where
  "payloads_valid files [] = Inr True"
| "payloads_valid files (shot # shots) =
     bind_res (raised_as AcceptanceRun (bundle_samples files shot)) (\<lambda>payload.
     if crc32 payload AND 0xFFFFFFFF = sr_payload_crc32 shot then payloads_valid files shots else Inr False)"

definition published_payloads_valid :: "run_files \<Rightarrow> run_bundle \<Rightarrow> acceptance_error + bool" where
  "published_payloads_valid files b = payloads_valid files (complete_shots b)"

definition accepted_bundle :: "run_files \<Rightarrow> acceptance_error + run_bundle \<times> bool" where
  "accepted_bundle files =
     bind_res (raised_as AcceptanceRun (bundle_open files False)) (\<lambda>b.
     if run_complete (rb_manifest b) = Some True \<and> rb_sender_report b \<noteq> None \<and>
        truthy (section_of (rb_sender_report b) ''complete'') \<and> integrity_ok (bundle_health b)
     then bind_res (published_payloads_valid files b) (\<lambda>valid. Inr (b, valid))
     else Inr (b, False))"

text \<open>\<open>str(v)\<close> of a scalar, as the key the sessions are told apart by.\<close>

fun py_str :: "json \<Rightarrow> json" where
  "py_str (JInt i) = JString (str_int i)"
| "py_str JNull = JString ''None''"
| "py_str (JBool b) = JString (if b then ''True'' else ''False'')"
| "py_str v = v"

text \<open>One line of the analyzer's session log: an opening of this run, with its session.\<close>

definition session_of :: "int \<Rightarrow> json option \<Rightarrow> acceptance_error + json option" where
  "session_of run_id line =
     (case line of
        None \<Rightarrow> Inl SessionSyntax
      | Some v \<Rightarrow>
          (case json_loads v of
             JObject entry \<Rightarrow>
               if get entry ''format'' = JString ''qcrate-analyzer-session-v1'' \<and> get entry ''event'' = JString ''open_run''
               then
                 (case report_number (get_default entry ''run_id'' (JString ''0'')) of
                    None \<Rightarrow> Inl SessionNumber
                  | Some i \<Rightarrow> Inr (if i = run_id then Some (py_str (get entry ''session_id'')) else None))
               else Inr None
           | _ \<Rightarrow> Inl SessionRoot))"

text \<open>The runs and the session log an assessment looks at.\<close>

datatype fault_evidence =
    AnalyzerEvidence run_files "json option list"
  | RecoveryEvidence run_files run_files

definition assess_evidence :: "fault_evidence \<Rightarrow> acceptance_error + bool \<times> jobject" where
  "assess_evidence ev =
     (case ev of
        AnalyzerEvidence run records \<Rightarrow>
          bind_res (accepted_bundle run) (\<lambda>(b, run_ok).
          bind_res (map_res (session_of (rb_run_id b)) records) (\<lambda>found.
          let opens = List.map_filter id found; sessions = remdups opens
          in Inr (run_ok \<and> length sessions \<ge> 2,
               [(''run_complete'', JBool run_ok), (''open_events'', JInt (int (length opens))),
                (''distinct_sessions'', JInt (int (length sessions)))])))
      | RecoveryEvidence disrupted_run recovery_run \<Rightarrow>
          bind_res (accepted_bundle disrupted_run) (\<lambda>(disrupted, disrupted_ok).
          bind_res (accepted_bundle recovery_run) (\<lambda>(recovery, recovery_ok).
          bind_res (published_payloads_valid disrupted_run disrupted) (\<lambda>disrupted_payloads_ok.
          Inr (\<not> disrupted_ok \<and> run_complete (rb_manifest disrupted) = Some False \<and> disrupted_payloads_ok \<and>
               recovery_ok \<and> rb_run_id disrupted \<noteq> rb_run_id recovery,
            [(''disrupted_manifest_complete'',
                case run_complete (rb_manifest disrupted) of None \<Rightarrow> JNull | Some c \<Rightarrow> JBool c),
             (''disrupted_complete_shots'', JInt (int (length (complete_shots disrupted)))),
             (''disrupted_incomplete_shots'', JInt (int (length (incomplete_shots disrupted)))),
             (''disrupted_published_payloads_valid'', JBool disrupted_payloads_ok),
             (''recovery_complete'', JBool recovery_ok),
             (''fresh_run_identity'', JBool (rb_run_id disrupted \<noteq> rb_run_id recovery))])))))"

definition assess_fault ::
    "fault_file \<Rightarrow> string \<Rightarrow> fault_evidence \<Rightarrow> string \<Rightarrow> acceptance_error + jobject \<times> int" where
  "assess_fault file case_name ev now =
     bind_res (load_faults file now) (\<lambda>document.
     bind_res (assess_evidence ev) (\<lambda>(passed, evidence).
     let entry = JObject [(''pass'', JBool passed), (''assessed_utc'', JString now), (''evidence'', JObject evidence)];
         cases = AList.update case_name entry (section_object document ''cases'')
     in Inr (AList.update ''cases'' (JObject cases) (AList.update ''updated_utc'' (JString now) document),
             if passed then 0 else 2)))"

end
