(* ===== verification/Soak.thy ===== *)
theory Soak
  imports Acceptance
begin

text \<open>
  The soak command of \<open>host/acceptance/qcrate_acceptance.py\<close>: recorder and target are run for a
  given time, their logs and report are kept, and the run is evaluated.  As in Experiment, the other
  processes are a record of what they are observed to do.
\<close>

record soak_args =
  so_board :: string
  so_destination :: string
  so_bind :: string
  so_source :: string
  so_port :: int
  so_duration_seconds :: int
  so_startup_timeout_seconds :: int
  so_banks :: int
  so_rate_mbps :: int
  so_sequence :: string
  so_rpmsg_device :: string
  so_gui :: bool
  so_skip_sequence_load :: bool

text \<open>The checks of \<open>validate_args\<close>.\<close>

definition soak_args_ok :: "soak_args \<Rightarrow> bool" where
  "soak_args_ok a \<longleftrightarrow>
     1 \<le> so_port a \<and> so_port a \<le> 65535 \<and> 1 \<le> so_duration_seconds a \<and> 1 \<le> so_startup_timeout_seconds a"

datatype soak_error =
    SoakOutputExists
  | SoakBuildFailed
  | SoakRecorderExited
  | SoakIndexTimeout
  | SoakReport experiment_error
  | SoakEmptyReport
  | SoakSender int
  | SoakRecorder int
  | SoakEvaluation acceptance_error
  | SoakNoShots

section \<open>Remote command\<close>

definition soak_streamer :: "soak_args \<Rightarrow> string \<Rightarrow> string list" where
  "soak_streamer args remote_path =
     [''qcrate-streamer'', ''--destination'', so_destination args, ''--port'', str_int (so_port args),
      ''--duration-seconds'', str_int (so_duration_seconds args), ''--banks'', str_int (so_banks args),
      ''--rate-mbps'', str_int (so_rate_mbps args), ''--report-json'', remote_path] @
     (if so_rpmsg_device args \<noteq> [] then [''--rpmsg-device'', so_rpmsg_device args] else [])"

definition soak_script :: "soak_args \<Rightarrow> string \<Rightarrow> string \<Rightarrow> string \<Rightarrow> string" where
  "soak_script args remote_path start finish =
     (let commands = (if so_skip_sequence_load args then [] else [shlex_join [''qcrate-sequence'', ''load'', so_sequence args]]) @
            [shlex_join (soak_streamer args remote_path)]
      in join_with '' && '' commands @ ''; status=$?; '' @
         printf_format (line_escape @ start @ line_escape) @ ''; '' @
         ''if [ -r '' @ shlex_quote remote_path @ '' ]; then cat '' @ shlex_quote remote_path @ ''; fi; '' @
         printf_format (line_escape @ finish @ line_escape) @ ''; rm -f '' @ shlex_quote remote_path @ ''; exit $status'')"

definition ssh_command :: "string \<Rightarrow> string \<Rightarrow> bool \<Rightarrow> string list" where
  "ssh_command board remote tty = ''ssh'' # (if tty then [''-tt''] else []) @ [board, remote]"

definition soak_command :: "soak_args \<Rightarrow> string \<Rightarrow> string list" where
  "soak_command args script =
     ssh_command (so_board args)
       (shlex_join [''sudo'', ''-p'', ''[KV260 sudo] password: '', ''--'', ''sh'', ''-c'', script]) True"

definition extract_remote_report ::
    "(string \<Rightarrow> json option) \<Rightarrow> string \<Rightarrow> string \<Rightarrow> string \<Rightarrow> soak_error + jobject" where
  "extract_remote_report parse transcript start finish =
     (case between_markers start finish (unix_lines transcript) of
        Some body \<Rightarrow>
          if strip body = [] then Inl SoakEmptyReport
          else raised_as SoakReport (extract_report parse transcript start finish)
      | None \<Rightarrow> raised_as SoakReport (extract_report parse transcript start finish))"

section \<open>The run\<close>

text \<open>
  The session with the target, when it ends at all, gives a transcript and a status.  The recorder
  is running or not when the session is over; a first wait of 15 seconds may find it still open.
\<close>

record soak_world =
  sw_output_exists :: bool
  sw_recorder_present :: bool
  sw_recorder_builds :: bool
  sw_polls :: "(bool \<times> bool) list"
  sw_token :: string
  sw_transcript :: string
  sw_sender_status :: int
  sw_recorder_running :: bool
  sw_recorder_closes :: bool
  sw_recorder_status :: int
  sw_recorded :: run_files

datatype soak_action =
    SoakBuild
  | SoakStart "string list"
  | SoakWindow
  | SoakRemote "string list"
  | SoakWrite string jobject
  | SoakTerminate
  | SoakWait
  | SoakKeepLogs
  | SoakSummary acceptance_summary

definition soak_recorder :: "string \<Rightarrow> soak_args \<Rightarrow> string \<Rightarrow> string list" where
  "soak_recorder recorder args output =
     [recorder, ''--bind'', so_bind args, ''--port'', str_int (so_port args), ''--source'', so_source args,
      ''--output'', output, ''--wait-timeout-ms'', str_int (so_startup_timeout_seconds args * 1000),
      ''--idle-timeout-ms'', ''5000'']"

text \<open>The \<open>finally\<close> block: the recorder is stopped when the sender failed, waited for, and its logs kept.\<close>

definition soak_close :: "soak_world \<Rightarrow> soak_action list" where
  "soak_close w =
     (if sw_recorder_running w \<and> sw_sender_status w \<noteq> 0 then [SoakTerminate] else []) @
     [SoakWait] @ (if sw_recorder_closes w then [] else [SoakTerminate, SoakWait]) @ [SoakKeepLogs]"

text \<open>What the evaluation finds: the recorder's files and the report written as \<open>sender.json\<close>.\<close>

definition soak_files :: "soak_world \<Rightarrow> jobject \<Rightarrow> run_files" where
  "soak_files w report =
     (sw_recorded w)\<lparr>rf_sender_json := Some \<lparr>rp_signature = (0, 0, 0), rp_parsed = Some (JObject report)\<rparr>\<rparr>"

definition soak_marker :: "string \<Rightarrow> string \<Rightarrow> string" where
  "soak_marker token which = ''__QCRATE_REPORT_'' @ token @ which"

text \<open>The rendered page needs a complete shot to show.\<close>

definition soak_evaluate ::
    "report_printing \<Rightarrow> repository_files \<Rightarrow> soak_args \<Rightarrow> soak_world \<Rightarrow> fault_file \<Rightarrow> jobject \<Rightarrow>
     (soak_error + int) \<times> soak_action list" where
  "soak_evaluate pr repo args w faults report =
     (if sw_sender_status w \<noteq> 0 then (Inl (SoakSender (sw_sender_status w)), [])
      else if sw_recorder_status w \<noteq> 0 then (Inl (SoakRecorder (sw_recorder_status w)), [])
      else
        (case evaluate_run pr repo (soak_files w report) None (of_int (so_duration_seconds args)) faults of
           Inl e \<Rightarrow> (Inl (SoakEvaluation e), [])
         | Inr summary \<Rightarrow>
             (if rh_complete_shots (as_health summary) = 0 then Inl SoakNoShots
              else Inr (if as_clean summary then 0 else 2), [SoakSummary summary])))"

definition run_soak ::
    "report_printing \<Rightarrow> repository_files \<Rightarrow> (string \<Rightarrow> json option) \<Rightarrow> string \<Rightarrow> string \<Rightarrow> soak_args \<Rightarrow> soak_world \<Rightarrow>
     fault_file \<Rightarrow> (soak_error + int) \<times> soak_action list" where
  "run_soak pr repo parse recorder output args w faults =
     (if sw_output_exists w then (Inl SoakOutputExists, [])
      else
        let built = (if sw_recorder_present w then [] else [SoakBuild]) in
        if \<not> sw_recorder_present w \<and> \<not> sw_recorder_builds w then (Inl SoakBuildFailed, built)
        else
          let started = built @ [SoakStart (soak_recorder recorder args output)] in
          case wait_for_path (sw_polls w) of
            RecorderExited \<Rightarrow> (Inl SoakRecorderExited, started)
          | WaitTimedOut \<Rightarrow> (Inl SoakIndexTimeout, started)
          | IndexPresent \<Rightarrow>
              (let remote_path = ''/tmp/qcrate-dp5d-'' @ sw_token w @ ''.json'';
                   start = soak_marker (sw_token w) ''_BEGIN__'';
                   finish = soak_marker (sw_token w) ''_END__'';
                   command = soak_command args (soak_script args remote_path start finish);
                   sent = started @ (if so_gui args then [SoakWindow] else []) @ [SoakRemote command]
               in case extract_remote_report parse (sw_transcript w) start finish of
                    Inl e \<Rightarrow> (Inl e, sent @ soak_close w)
                  | Inr report \<Rightarrow>
                      (let name = (if sw_sender_status w = 0 then ''sender.json'' else ''sender-failed.json'');
                           (result, final) = soak_evaluate pr repo args w faults report
                       in (result, sent @ [SoakWrite name report] @ soak_close w @ final))))"

section \<open>The evaluate command\<close>

definition evaluate_command ::
    "report_printing \<Rightarrow> repository_files \<Rightarrow> run_files \<Rightarrow> config_file option \<Rightarrow> rat \<Rightarrow> fault_file \<Rightarrow> acceptance_error + int" where
  "evaluate_command pr repo files bundled minimum_duration faults =
     bind_res (evaluate_run pr repo files bundled minimum_duration faults) (\<lambda>summary.
     if rh_complete_shots (as_health summary) = 0 then Inl ReportWithoutShots
     else Inr (if as_result summary = FAIL then 2 else 0))"

text \<open>The recorder started by a soak whose index never appears is neither waited for nor stopped.\<close>

lemma soak_timeout_leaves_recorder:
  assumes "run_soak pr repo parse recorder output args w faults = (result, actions)"
    and "wait_for_path (sw_polls w) = WaitTimedOut" "\<not> sw_output_exists w" "sw_recorder_present w"
  shows "result = Inl SoakIndexTimeout \<and> actions = [SoakStart (soak_recorder recorder args output)]"
  using assms by (auto simp: run_soak_def Let_def)

end
