(* ===== verification/AcceptanceLaws.thy ===== *)
theory AcceptanceLaws
  imports Soak ExperimentLaws
begin

text \<open>
  What the counters of the sample audit mean, and what a verdict of the acceptance says of the run
  and of the evidence file.
\<close>

unbundle bit_operations_syntax

section \<open>The sample audit\<close>

definition audit_cache_exact :: "repository_files \<Rightarrow> ((config_file \<times> nat) \<times> int list) list \<Rightarrow> bool" where
  "audit_cache_exact repo cache \<longleftrightarrow>
     (\<forall>config n ws. map_of cache (config, n) = Some ws \<longrightarrow> expected_words repo config (int n) = Inr ws)"

text \<open>A published shot as it should be: its own CRC, a reference of its own, and the reference's words.\<close>

definition shot_published :: "repository_files \<Rightarrow> config_file option \<Rightarrow> run_files \<Rightarrow> shot_record \<Rightarrow> bool" where
  "shot_published repo bundled files shot \<longleftrightarrow>
     (case bundle_samples files shot of
        Inl _ \<Rightarrow> False
      | Inr payload \<Rightarrow> crc32 payload = sr_payload_crc32 shot \<and>
          (case reference_config repo bundled shot None of
             Inr (Some config) \<Rightarrow> length payload mod 4 = 0 \<and>
               expected_words repo config (int (length payload div 4)) = Inr (le_words payload)
           | _ \<Rightarrow> False))"

definition audit_clean :: "sample_audit \<Rightarrow> bool" where
  "audit_clean au \<longleftrightarrow> su_crc_mismatches au = 0 \<and> su_unexpected_configs au = [] \<and> su_reference_mismatches au = 0"

lemma insert_not_Nil: "List.insert x xs \<noteq> []"
  by (auto simp: List.insert_def)

lemma audit_shot_Inr:
  assumes "audit_shot repo bundled files shot au = Inr au'" "audit_cache_exact repo (su_reference_words au)"
  shows "audit_cache_exact repo (su_reference_words au')"
    and "audit_clean au' \<longleftrightarrow> audit_clean au \<and> shot_published repo bundled files shot"
proof -
  define counted where "counted payload = (if crc32 payload AND 0xFFFFFFFF \<noteq> sr_payload_crc32 shot
      then au\<lparr>su_crc_mismatches := Suc (su_crc_mismatches au)\<rparr> else au)"
    for payload
  have same: "su_reference_words (counted p) = su_reference_words au" for p by (simp add: counted_def)
  have crc: "audit_clean (counted p) \<longleftrightarrow> audit_clean au \<and> crc32 p = sr_payload_crc32 shot" for p
    by (auto simp: counted_def audit_clean_def)
  obtain payload selected where p: "bundle_samples files shot = Inr payload"
    and r: "reference_config repo bundled shot None = Inr selected"
    and rest: "(case selected of
       None \<Rightarrow> Inr ((counted payload)\<lparr>su_unexpected_configs := List.insert (sr_config_id shot) (su_unexpected_configs (counted payload))\<rparr>)
     | Some config \<Rightarrow>
         if length payload mod 4 \<noteq> 0 then Inl (PayloadBuffer (sr_shot_id shot))
         else
           bind_res
             (case map_of (su_reference_words (counted payload)) (config, length (le_words payload)) of
                Some expected \<Rightarrow> Inr (expected, su_reference_words (counted payload))
              | None \<Rightarrow>
                  bind_res (raised_as AcceptanceAnalysis (expected_words repo config (int (length (le_words payload))))) (\<lambda>expected.
                  Inr (expected, ((config, length (le_words payload)), expected) # su_reference_words (counted payload))))
             (\<lambda>(expected, cache).
           Inr ((counted payload)\<lparr>su_reference_words := cache,
                   su_reference_mismatches := su_reference_mismatches (counted payload) + length (mismatches (le_words payload) expected),
                   su_checked_words := su_checked_words (counted payload) + length (le_words payload)\<rparr>))) = Inr au'"
    using assms(1) unfolding audit_shot_def Let_def bind_res_Inr_iff[of "raised_as AcceptanceRun _"]
      bind_res_Inr_iff[of "raised_as AcceptanceAnalysis (reference_config _ _ _ _)"] raised_as_Inr_iff counted_def[symmetric]
    by (elim exE conjE) (rule that, assumption+)
  show "audit_cache_exact repo (su_reference_words au')"
    and "audit_clean au' \<longleftrightarrow> audit_clean au \<and> shot_published repo bundled files shot"
  proof (atomize (full), cases selected)
    case None
    then have "au' = (counted payload)\<lparr>su_unexpected_configs := List.insert (sr_config_id shot) (su_unexpected_configs (counted payload))\<rparr>"
      using rest by simp
    then show "audit_cache_exact repo (su_reference_words au') \<and>
        audit_clean au' = (audit_clean au \<and> shot_published repo bundled files shot)"
      using assms(2) p r None by (simp add: same audit_clean_def shot_published_def insert_not_Nil)
  next
    case (Some config)
    obtain expected cache where whole: "length payload mod 4 = 0"
      and looked: "(case map_of (su_reference_words au) (config, length (le_words payload)) of
                Some expected \<Rightarrow> Inr (expected, su_reference_words au)
              | None \<Rightarrow>
                  bind_res (raised_as AcceptanceAnalysis (expected_words repo config (int (length (le_words payload))))) (\<lambda>expected.
                  Inr (expected, ((config, length (le_words payload)), expected) # su_reference_words au))) = Inr (expected, cache)"
      and au': "au' = (counted payload)\<lparr>su_reference_words := cache,
                   su_reference_mismatches := su_reference_mismatches (counted payload) + length (mismatches (le_words payload) expected),
                   su_checked_words := su_checked_words (counted payload) + length (le_words payload)\<rparr>"
      using rest unfolding Some option.case if_Inl_Inr_iff same not_not
        bind_res_Inr_iff split_paired_Ex prod.case sum.inject
      by (elim exE conjE) (rule that, assumption+, rule sym)
    have words: "expected_words repo config (int (length (le_words payload))) = Inr expected \<and> audit_cache_exact repo cache"
    proof (cases "map_of (su_reference_words au) (config, length (le_words payload))")
      case None
      then show ?thesis using looked assms(2) by (auto simp: result_iff audit_cache_exact_def split: if_splits)
    next
      case (Some ws)
      then show ?thesis using looked assms(2) by (auto simp: audit_cache_exact_def)
    qed
    then have "length expected = length (le_words payload)" using expected_words_length by fastforce
    then have "length (mismatches (le_words payload) expected) = 0 \<longleftrightarrow> le_words payload = expected"
      using mismatches_Nil[of expected "le_words payload"] by simp
    moreover have "audit_clean au' \<longleftrightarrow> audit_clean (counted payload) \<and> length (mismatches (le_words payload) expected) = 0"
      by (auto simp: au' audit_clean_def)
    moreover have "shot_published repo bundled files shot \<longleftrightarrow> crc32 payload = sr_payload_crc32 shot \<and> le_words payload = expected"
      using p r Some whole conjunct1[OF words] by (auto simp: shot_published_def le_words_length)
    ultimately show "audit_cache_exact repo (su_reference_words au') \<and>
        audit_clean au' = (audit_clean au \<and> shot_published repo bundled files shot)"
      using crc conjunct2[OF words] by (auto simp: au')
  qed
qed

lemma audit_shots_Inr:
  assumes "fold_res (audit_shot repo bundled files) shots au = Inr au'" "audit_cache_exact repo (su_reference_words au)"
  shows "audit_clean au' \<longleftrightarrow> audit_clean au \<and> list_all (shot_published repo bundled files) shots"
  using assms
proof (induction shots arbitrary: au)
  case (Cons shot shots)
  then obtain au1 where au1: "audit_shot repo bundled files shot au = Inr au1"
    "fold_res (audit_shot repo bundled files) shots au1 = Inr au'" by (auto simp: result_iff)
  note step = audit_shot_Inr[OF au1(1) Cons.prems(2)]
  show ?case using Cons.IH[OF au1(2) step(1)] step(2) by auto
qed simp

lemma audit_clean_checks: "list_all ci_pass (sample_checks au) \<longleftrightarrow> audit_clean au"
  by (auto simp: sample_checks_def check_item_of_def audit_clean_def)

section \<open>The verdict\<close>

definition reported_duration :: "run_bundle \<Rightarrow> rat option" where
  "reported_duration b =
     float_of_json (nested (report_value (rb_sender_report b)) [''timing'', ''capture_duration_seconds''] (JFloat ''0.0''))"

definition reported_shots :: "run_bundle \<Rightarrow> int option" where
  "reported_shots b = int_of_json (nested (report_value (rb_sender_report b)) [''capture'', ''shots_transmitted''] (JInt (-1)))"

lemma evaluate_run_Inr:
  assumes "evaluate_run pr repo files bundled minimum_duration faults = Inr s"
  obtains b duration shots au tests where "bundle_open files False = Inr b"
    and "reported_duration b = Some duration" "reported_shots b = Some shots"
    and "fold_res (audit_shot repo bundled files) (complete_shots b) no_audit = Inr au" "fault_results faults = Inr tests"
    and "as_checks s = health_checks pr b (bundle_health b) duration shots minimum_duration @ [timestamp_check b] @ sample_checks au"
    and "as_clean s = list_all ci_pass (as_checks s)" "as_health s = bundle_health b"
    and "as_result s = (if \<not> as_clean s \<or> list_ex (\<lambda>(name, v). v = JBool False) tests then FAIL
      else if list_all (\<lambda>(name, v). v = JBool True) tests then PASS else PENDING)"
proof -
  obtain b where b: "bundle_open files False = Inr b"
    using assms unfolding evaluate_run_def bind_res_Inr_iff raised_as_Inr_iff by (elim exE conjE) (rule that)
  obtain duration shots where d: "reported_duration b = Some duration" "reported_shots b = Some shots"
    using assms unfolding evaluate_run_def Let_def b raised_as_Inr bind_res_simps reported_duration_def[symmetric]
      reported_shots_def[symmetric]
    by (cases "reported_duration b"; cases "reported_shots b") simp_all
  obtain au tests where "fold_res (audit_shot repo bundled files) (complete_shots b) no_audit = Inr au"
      "fault_results faults = Inr tests"
    and s: "(Inr \<lparr>as_result = (if \<not> list_all ci_pass (health_checks pr b (bundle_health b) duration shots minimum_duration @
              [timestamp_check b] @ sample_checks au) \<or> list_ex (\<lambda>(name, v). v = JBool False) tests then FAIL
            else if list_all (\<lambda>(name, v). v = JBool True) tests then PASS else PENDING),
          as_run_id = rb_run_id b, as_stream_id = rb_stream_id b, as_minimum_duration = minimum_duration,
          as_clean = list_all ci_pass (health_checks pr b (bundle_health b) duration shots minimum_duration @
              [timestamp_check b] @ sample_checks au),
          as_faults_complete = list_all (\<lambda>(name, v). v = JBool True) tests,
          as_checks = health_checks pr b (bundle_health b) duration shots minimum_duration @ [timestamp_check b] @ sample_checks au,
          as_duration = duration, as_health = bundle_health b, as_audit = au, as_recovery_tests = tests\<rparr> ::
        acceptance_error + acceptance_summary) = Inr s"
    using assms unfolding evaluate_run_def Let_def b raised_as_Inr bind_res_simps reported_duration_def[symmetric]
      reported_shots_def[symmetric] d prod.case option.case bind_res_Inr_iff
    by (elim exE conjE) (rule that)
  then show thesis using b d by (intro that[of b duration shots au tests]) auto
qed

lemma increasing_pairs:
  fixes xs :: "int list"
  shows "list_all (\<lambda>(left, right). right > left) (zip xs (tl xs)) \<longleftrightarrow> sorted_wrt (<) xs"
proof (induction xs)
  case (Cons x xs)
  show ?case
  proof (cases xs)
    case (Cons y ys)
    then have "sorted_wrt (<) (x # xs) \<longleftrightarrow> x < y \<and> sorted_wrt (<) xs" by auto
    then show ?thesis using Cons.IH Cons by simp
  qed simp
qed simp

text \<open>What the ten checks of the health, the timestamps and the samples add up to.\<close>

definition clean_run ::
    "repository_files \<Rightarrow> run_files \<Rightarrow> config_file option \<Rightarrow> rat \<Rightarrow> run_bundle \<Rightarrow> bool" where
  "clean_run repo files bundled minimum_duration b \<longleftrightarrow>
     rh_state (bundle_health b) = Accepted \<and> truthy (section_of (rb_sender_report b) ''complete'') \<and>
     (\<exists>duration. reported_duration b = Some duration \<and> minimum_duration \<le> duration) \<and>
     rb_shots b \<noteq> [] \<and> reported_shots b = Some (int (length (rb_shots b))) \<and>
     successively (\<lambda>s t. sr_shot_id t = sr_shot_id s + 1) (rb_shots b) \<and>
     sorted_wrt (<) (map sr_first_sample_timestamp (rb_shots b)) \<and>
     list_all (\<lambda>shot. shot_complete shot \<and> shot_published repo bundled files shot) (rb_shots b)"

lemma integrity_state [simp]: "integrity_ok (h\<lparr>rh_state := st\<rparr>) = integrity_ok h"
  by (simp add: integrity_ok_def record_integrity_ok_def acquisition_integrity_ok_def)

lemma health_decided:
  obtains h where "bundle_health b = h\<lparr>rh_state := decide_state h (run_complete (rb_manifest b))\<rparr>"
  unfolding bundle_health_def build_health_def Let_def by blast

lemma accepted_health:
  "rh_state (bundle_health b) = Accepted \<longleftrightarrow> run_complete (rb_manifest b) = Some True \<and> integrity_ok (bundle_health b)"
proof (rule health_decided)
  fix h
  assume h: "bundle_health b = h\<lparr>rh_state := decide_state h (run_complete (rb_manifest b))\<rparr>"
  have "rh_sender_complete h \<noteq> Some False" if "integrity_ok h" using that by (simp add: integrity_ok_def)
  then show ?thesis unfolding h by (auto simp: decide_state_def split: option.splits)
qed

lemma sender_flag:
  "truthy (section_of (rb_sender_report b) ''complete'') \<Longrightarrow> rh_sender_complete (bundle_health b) \<noteq> Some False"
  by (simp add: bundle_health_def build_health_def Let_def section_of_def split: option.splits if_splits)

lemma health_checks_pass:
  "list_all ci_pass (health_checks pr b (bundle_health b) duration shots minimum_duration) \<longleftrightarrow>
     run_complete (rb_manifest b) = Some True \<and> truthy (section_of (rb_sender_report b) ''complete'') \<and>
     minimum_duration \<le> duration \<and> 0 < rh_complete_shots (bundle_health b) \<and>
     shots = rh_complete_shots (bundle_health b) \<and> integrity_ok (bundle_health b)"
proof -
  have "rb_sender_report b \<noteq> None" if "truthy (section_of (rb_sender_report b) ''complete'')"
    using that by (cases "rb_sender_report b") (auto simp: section_of_def)
  then show ?thesis using sender_flag[of b]
    by (auto simp: health_checks_def Let_def check_item_of_def integrity_ok_def record_integrity_ok_def)
qed

lemma timestamp_check_pass:
  "ci_pass (timestamp_check b) \<longleftrightarrow>
     complete_shots b \<noteq> [] \<and> sorted_wrt (<) (map sr_first_sample_timestamp (complete_shots b))"
  by (simp add: timestamp_check_def Let_def check_item_of_def increasing_pairs)

lemma clean_summary:
  assumes b: "bundle_open files False = Inr b"
    and d: "reported_duration b = Some duration" "reported_shots b = Some shots"
    and au: "fold_res (audit_shot repo bundled files) (complete_shots b) no_audit = Inr au"
  shows "list_all ci_pass (health_checks pr b (bundle_health b) duration shots minimum_duration @ [timestamp_check b] @
      sample_checks au) \<longleftrightarrow> clean_run repo files bundled minimum_duration b"
proof -
  have audit: "audit_clean au \<longleftrightarrow> list_all (shot_published repo bundled files) (complete_shots b)"
    using audit_shots_Inr[OF au] by (simp add: audit_cache_exact_def no_audit_def audit_clean_def)
  have count: "rh_complete_shots (bundle_health b) = int (length (complete_shots b))"
    by (simp add: bundle_health_def build_health_def bundle_totals_def Let_def)
  have whole: "complete_shots b = rb_shots b" "list_all shot_complete (rb_shots b)"
      "successively (\<lambda>s t. sr_shot_id t = sr_shot_id s + 1) (rb_shots b)" if ok: "integrity_ok (bundle_health b)"
  proof -
    show all: "complete_shots b = rb_shots b" by (rule integrity_complete(1)[OF ok])
    have "list_all shot_complete (complete_shots b)" by (simp add: complete_shots_def list_all_iff)
    then show "list_all shot_complete (rb_shots b)" by (simp add: all)
    show "successively (\<lambda>s t. sr_shot_id t = sr_shot_id s + 1) (rb_shots b)"
      by (rule consecutive_ids[OF opened_ids[OF b] integrity_complete(2)[OF ok]])
  qed
  show ?thesis
  proof (cases "integrity_ok (bundle_health b)")
    case True
    note w = whole[OF True]
    have "list_all (\<lambda>shot. shot_complete shot \<and> shot_published repo bundled files shot) (rb_shots b) \<longleftrightarrow>
        list_all (shot_published repo bundled files) (rb_shots b)"
      using w(2) by (auto simp: list_all_iff)
    moreover have "0 < int (length (rb_shots b)) \<longleftrightarrow> rb_shots b \<noteq> []" by simp
    ultimately show ?thesis
      unfolding list_all_append health_checks_pass audit_clean_checks list.pred_inject timestamp_check_pass
        clean_run_def accepted_health audit count w(1) d
      using True w(3) by auto
  next
    case False
    then show ?thesis by (simp add: health_checks_pass clean_run_def accepted_health)
  qed
qed

section \<open>The evidence file\<close>

text \<open>A value that parsing produced: no object has two entries of one key.\<close>

fun json_single :: "json \<Rightarrow> bool" where
  "json_single (JObject kvs) \<longleftrightarrow> distinct (map fst kvs) \<and> list_all (\<lambda>(k, v). json_single v) kvs"
| "json_single (JArray xs) \<longleftrightarrow> list_all json_single xs"
| "json_single _ \<longleftrightarrow> True"

lemma loads_lists: "loads_list xs = map json_loads xs" "loads_pairs kvs = map (\<lambda>(k, v). (k, json_loads v)) kvs"
  by (induction xs) (simp_all, induction kvs, auto)

lemma single_loads: "json_single v \<Longrightarrow> json_loads v = v"
proof (induction v rule: json_single.induct)
  case (1 kvs)
  have "map (\<lambda>(k, v). (k, json_loads v)) kvs = kvs"
    using 1 by (intro map_idI) (auto simp: list_all_iff)
  then show ?case using 1 by (simp add: loads_lists dict_of_distinct)
next
  case (2 xs)
  then show ?case by (auto simp: loads_lists list_all_iff intro!: map_idI)
qed simp_all

lemma update_all:
  "list_all (\<lambda>(k, v). P v) d \<Longrightarrow> P w \<Longrightarrow> list_all (\<lambda>(k, v). P v) (AList.update k w d)"
  by (induction d) auto

lemma dict_of_all: "list_all (\<lambda>(k, v). P v) kvs \<Longrightarrow> list_all (\<lambda>(k, v). P v) (dict_of kvs)"
proof -
  have "list_all (\<lambda>(k, v). P v) (fold (\<lambda>(k, v). AList.update k v) kvs acc)"
    if "list_all (\<lambda>(k, v). P v) kvs" "list_all (\<lambda>(k, v). P v) acc" for acc
    using that by (induction kvs arbitrary: acc) (auto simp: update_all)
  then show "list_all (\<lambda>(k, v). P v) kvs \<Longrightarrow> list_all (\<lambda>(k, v). P v) (dict_of kvs)"
    by (simp add: dict_of_def)
qed

lemma loads_single: "json_single (json_loads v)"
proof (induction v rule: json_single.induct)
  case (1 kvs)
  have "list_all (\<lambda>(k, v). json_single v) (map (\<lambda>(k, v). (k, json_loads v)) kvs)"
    using 1 by (auto simp: list_all_iff)
  then show ?case by (simp add: loads_lists distinct_dict_of dict_of_all)
qed (auto simp: loads_lists list_all_iff)

lemma update_single:
  assumes "json_single (JObject d)" "json_single w"
  shows "json_single (JObject (AList.update k w d))"
  using assms update_all[of json_single d w k] by (simp add: distinct_update)

lemma get_single: "json_single (JObject d) \<Longrightarrow> json_single (get d k)"
  by (auto simp: get_def list_all_iff dest: map_of_SomeD split: option.splits)

lemma get_update: "get (AList.update k w d) l = (if l = k then w else get d l)"
  by (simp add: get_def update_conv')

text \<open>An evidence file whose \<open>cases\<close> is not an object leaves no test open.\<close>

lemma malformed_cases_complete:
  "fault_results (FaultText (Some (JObject [(''format'', JString ACC_FAULT_FORMAT), (''cases'', JArray [])]))) = Inr []"
  by code_simp

text \<open>The evidence file a case is added to.\<close>

definition fault_state :: "jobject \<Rightarrow> jobject \<Rightarrow> bool" where
  "fault_state document cases \<longleftrightarrow> json_single (JObject document) \<and>
     get document ''format'' = JString ACC_FAULT_FORMAT \<and> get document ''cases'' = JObject cases"

lemma fault_state_results:
  assumes "fault_state document cases"
  shows "fault_results (FaultText (Some (JObject document))) = Inr (map (\<lambda>name. (name, case_value cases name)) REQUIRED_FAULTS)"
proof -
  have "get_default document ''cases'' (JObject []) = JObject cases"
    using assms by (auto simp: fault_state_def get_default_def has_key_def get_def split: option.splits)
  then show ?thesis using assms single_loads[of "JObject document"]
    by (simp add: fault_results_def fault_document_def fault_state_def)
qed

lemma load_faults_Inr:
  assumes "load_faults file now = Inr document"
  obtains cs where "fault_state document cs"
    and "fault_results file = Inr (map (\<lambda>name. (name, case_value cs name)) REQUIRED_FAULTS)"
proof (cases "file")
  case NoFaultFile
  then have "document = [(''format'', JString ACC_FAULT_FORMAT), (''updated_utc'', JString now), (''cases'', JObject [])]"
    using assms by (simp add: load_faults_def)
  then show thesis using NoFaultFile
    by (intro that[of "[]"]) (simp_all add: fault_state_def get_def fault_results_def case_value_def)
next
  case (FaultText parsed)
  then obtain d where d: "fault_document parsed = Inr d" "get d ''format'' = JString ACC_FAULT_FORMAT" "is_JObject (get d ''cases'')"
      "document = d"
    using assms by (auto simp: load_faults_def result_iff split: if_splits)
  obtain v where v: "parsed = Some v" "json_loads v = JObject document"
    using d(1,4) by (auto simp: fault_document_def split: option.splits json.splits)
  obtain cs where c: "get document ''cases'' = JObject cs" using d(3,4) by (cases "get d ''cases''") auto
  have "fault_state document cs" using loads_single[of v] d c v by (simp add: fault_state_def)
  moreover have "fault_results file = fault_results (FaultText (Some (JObject document)))"
    using FaultText v single_loads[of "json_loads v"] loads_single[of v]
    by (simp add: fault_results_def fault_document_def del: json_loads.simps)
  ultimately show thesis using that fault_state_results by metis
qed

end
