(* ===== verification/AcceptanceExample.thy ===== *)
theory AcceptanceExample
  imports AcceptanceLaws ExperimentExample
begin

text \<open>
  A run of one shot that the acceptance passes, and a run that was cut short before its first
  shot: the example run with a sender report that counts its shot, and an index that is only a header.
\<close>

section \<open>An accepted run\<close>

definition counted_sender :: jobject where
  "counted_sender = example_sender 0 @
     [(''timing'', JObject [(''capture_duration_seconds'', JInt 300)]), (''capture'', JObject [(''shots_transmitted'', JInt 1)])]"

definition counted_files :: run_files where
  "counted_files = finished_files (example_world 0) counted_sender"

definition counted_run :: run_bundle where
  "counted_run = \<lparr>rb_run_id = 3, rb_stream_id = 1, rb_shots = [example_shot],
     rb_manifest = Some (example_manifest 0), rb_sender_report = Some counted_sender\<rparr>"

lemma counted_files_parts:
  "rf_index counted_files = example_index" "rf_samples counted_files = Some [0, 0, 0, 0]"
  "rf_run_json counted_files = rf_run_json (example_files 0)"
  "rf_sender_json counted_files = Some \<lparr>rp_signature = (0, 0, 0), rp_parsed = Some (JObject counted_sender)\<rparr>"
  by (simp_all add: counted_files_def finished_files_def example_world_def example_files_def)

lemma counted_report:
  "load_json_report ''sender.json'' (Some \<lparr>rp_signature = (0, 0, 0), rp_parsed = Some (JObject counted_sender)\<rparr>)
     ''qcrate-sender-report-v1'' 3 1 = Inr (Some counted_sender)"
proof -
  have "int_base0 ''0x3'' = Some 3" by code_simp
  then show ?thesis
    by (simp add: load_json_report_def counted_sender_def example_sender_def get_def get_default_def has_key_def
        report_identity_def ensure_def)
qed

lemma counted_opens: "bundle_open counted_files False = Inr counted_run"
  unfolding bundle_open_def Let_def counted_files_parts
  by (simp add: QIDX_HEADER_BYTES_def QIDX_RECORD_BYTES_def example_index_parts ensure_def example_reports counted_report
      counted_run_def del: check_shots.simps)

lemma counted_health: "run_complete (rb_manifest counted_run) = Some True" "integrity_ok (bundle_health counted_run)"
    "complete_shots counted_run = [example_shot]" "truthy (section_of (rb_sender_report counted_run) ''complete'')"
    "reported_duration counted_run = Some 300" "reported_shots counted_run = Some 1"
proof -
  have complete: "shot_complete example_shot" by (simp add: shot_complete_def example_shot_def shot_one_def)
  then show c: "complete_shots counted_run = [example_shot]" by (simp add: complete_shots_def counted_run_def)
  have "incomplete_shots counted_run = []" using complete by (simp add: incomplete_shots_def counted_run_def)
  then show "integrity_ok (bundle_health counted_run)"
    by (simp add: integrity_ok_def record_integrity_ok_def acquisition_integrity_ok_def bundle_health_def build_health_def
        bundle_totals_def Let_def c skipped_ids_def total_of_def counted_run_def example_manifest_def counted_sender_def
        example_sender_def manifest_integer_def get_def section_of_def sender_counter_def or_zero_def example_shot_def shot_one_def)
  show "run_complete (rb_manifest counted_run) = Some True"
    by (simp add: run_complete_def counted_run_def example_manifest_def get_default_def has_key_def get_def)
  show "truthy (section_of (rb_sender_report counted_run) ''complete'')"
    "reported_duration counted_run = Some 300" "reported_shots counted_run = Some 1"
    by (simp_all add: reported_duration_def reported_shots_def report_value_def section_of_def counted_run_def counted_sender_def
        example_sender_def get_default_def has_key_def get_def)
qed

lemma counted_samples: "bundle_samples counted_files example_shot = Inr [0, 0, 0, 0]"
proof -
  have "read_samples [0, 0, 0, 0] example_shot = Inr [0, 0, 0, 0]" by code_simp
  then show ?thesis by (simp add: bundle_samples_def counted_files_parts)
qed

lemma zero_crc: "crc32 [0, 0, 0, 0] = 0x2144DF1C"
proof -
  have ones: "(NOT 0 :: 32 word) = 0xFFFFFFFF" by code_simp
  show ?thesis unfolding crc32_def ones by (simp add: crc_byte_def crc_8_unfold crc_bit_def)
qed

section \<open>The evidence of the recovery tests\<close>

definition passed_tests :: json where
  "passed_tests = JObject [(''format'', JString ACC_FAULT_FORMAT),
     (''cases'', JObject (map (\<lambda>name. (name, JObject [(''pass'', JBool True)])) REQUIRED_FAULTS))]"

lemma passed_results: "fault_results (FaultText (Some passed_tests)) = Inr (map (\<lambda>name. (name, JBool True)) REQUIRED_FAULTS)"
  unfolding passed_tests_def by code_simp

lemma counted_evaluation:
  assumes r: "document_config_id r = Some 0xaf46287bb969ed24"
    "load_resolved_profile example_tables example_registers (JObject r) = Inr r"
    "expected_words example_repository (example_file r) 1 = Inr [0]"
  shows "\<exists>s. evaluate_run pr example_repository counted_files (Some (example_file r)) 300 (FaultText (Some passed_tests)) = Inr s \<and>
    as_result s = PASS"
proof -
  have "resolved_config_id example_repository (example_file r) = Inr 0xaf46287bb969ed24"
    unfolding resolved_config_id_Inr using r by (auto simp: example_file_def example_repository_def)
  then have ref: "reference_config example_repository (Some (example_file r)) example_shot None = Inr (Some (example_file r))"
    by (simp add: bundled_reference example_fields)
  have words: "le_words [0, 0, 0, 0] = [0]" "mismatches [0] [0] = []" by code_simp+
  define au where "au = \<lparr>su_reference_words = [((example_file r, 1), [0])], su_checked_words = 1, su_reference_mismatches = 0,
    su_crc_mismatches = 0, su_unexpected_configs = []\<rparr>"
  have shot: "audit_shot example_repository (Some (example_file r)) counted_files example_shot no_audit = Inr au"
    by (simp add: audit_shot_def counted_samples zero_crc example_fields ref words r(3) no_audit_def au_def Let_def)
  then have fold: "fold_res (audit_shot example_repository (Some (example_file r)) counted_files) (complete_shots counted_run) no_audit = Inr au"
    by (simp add: counted_health)
  have "rh_complete_shots (bundle_health counted_run) = 1"
    by (simp add: bundle_health_def build_health_def bundle_totals_def Let_def counted_health(3))
  then have clean: "list_all ci_pass (health_checks pr counted_run (bundle_health counted_run) 300 1 300 @
      [timestamp_check counted_run] @ sample_checks au)"
    by (simp only: list_all_append health_checks_pass audit_clean_checks list.pred_inject timestamp_check_pass)
       (simp add: counted_health au_def audit_clean_def)
  show ?thesis
    unfolding evaluate_run_def Let_def counted_opens raised_as_Inr bind_res_simps reported_duration_def[symmetric]
      reported_shots_def[symmetric] counted_health prod.case option.case fold[unfolded counted_health] passed_results
    using clean by (simp add: list_all_iff list_ex_iff)
qed

section \<open>A run cut short\<close>

definition cut_files :: run_files where
  "cut_files = \<lparr>rf_index = write_fields [4, 2, 2, 2, 6, 8, 4, 4] [0x51494458, 1, 32, 128, 0, 5, 1, 0], rf_samples = Some [],
     rf_run_json = Some \<lparr>rp_signature = (0, 0, 0), rp_parsed = Some (JObject
       [(''format'', JString ''qcrate-run-v1''), (''run_id'', JInt 5), (''stream_id'', JInt 1), (''complete'', JBool False)])\<rparr>,
     rf_sender_json = None\<rparr>"

lemma cut_opens:
  "bundle_open cut_files False = Inr \<lparr>rb_run_id = 5, rb_stream_id = 1, rb_shots = [],
     rb_manifest = Some [(''format'', JString ''qcrate-run-v1''), (''run_id'', JInt 5), (''stream_id'', JInt 1), (''complete'', JBool False)],
     rb_sender_report = None\<rparr>"
  by code_simp

lemma recovery_example:
  "\<exists>document. assess_fault NoFaultFile ''ethernet_disconnect'' (RecoveryEvidence cut_files counted_files) ''now'' = Inr (document, 0)"
proof -
  have "accepted_bundle counted_files = Inr (counted_run, True)"
  proof -
    have "rb_sender_report counted_run \<noteq> None" by (simp add: counted_run_def)
    then show ?thesis
      by (simp add: accepted_bundle_def counted_opens counted_health published_payloads_valid_def counted_samples zero_crc
          example_fields)
  qed
  moreover obtain d where d: "accepted_bundle cut_files = Inr (d, False)" "run_complete (rb_manifest d) = Some False"
      "complete_shots d = []" "rb_run_id d = 5"
    by (simp add: accepted_bundle_def cut_opens run_complete_def get_default_def has_key_def get_def complete_shots_def)
  moreover have "rb_run_id counted_run = 3" by (simp add: counted_run_def)
  ultimately show ?thesis
    by (simp add: assess_fault_def load_faults_def assess_evidence_def published_payloads_valid_def Let_def)
qed

end
