(* ===== verification/AcceptanceProperties.thy ===== *)
theory AcceptanceProperties
  imports AcceptanceExample
begin

text \<open>
  The properties of the acceptance of a run: what its verdict says of the recorded run, and that a
  recovery test counts as it was assessed.
\<close>

section \<open>Recovery tests\<close>

definition payload_intact :: "run_files \<Rightarrow> shot_record \<Rightarrow> bool" where
  "payload_intact files shot \<longleftrightarrow>
     (case bundle_samples files shot of Inr payload \<Rightarrow> crc32 payload = sr_payload_crc32 shot | Inl _ \<Rightarrow> False)"

lemma payloads_valid_Inr: "payloads_valid files shots = Inr ok \<Longrightarrow> ok \<longleftrightarrow> list_all (payload_intact files) shots"
proof (induction shots)
  case (Cons shot shots)
  then obtain payload where "bundle_samples files shot = Inr payload" by (auto simp: result_iff)
  then show ?case using Cons by (auto simp: payload_intact_def split: if_splits)
qed simp

lemma accepted_bundle_Inr:
  assumes "accepted_bundle files = Inr (b, ok)"
  shows "bundle_open files False = Inr b"
    and "ok \<longleftrightarrow> rh_state (bundle_health b) = Accepted \<and> truthy (section_of (rb_sender_report b) ''complete'') \<and>
      list_all (payload_intact files) (complete_shots b)"
proof -
  have present: "rb_sender_report b \<noteq> None" if "truthy (section_of (rb_sender_report b) ''complete'')"
    using that by (cases "rb_sender_report b") (auto simp: section_of_def)
  show b: "bundle_open files False = Inr b"
    using assms unfolding accepted_bundle_def bind_res_Inr_iff raised_as_Inr_iff
    by (auto simp: bind_res_Inr_iff published_payloads_valid_def split: if_splits)
  show "ok \<longleftrightarrow> rh_state (bundle_health b) = Accepted \<and> truthy (section_of (rb_sender_report b) ''complete'') \<and>
      list_all (payload_intact files) (complete_shots b)"
  proof (cases "run_complete (rb_manifest b) = Some True \<and> rb_sender_report b \<noteq> None \<and>
        truthy (section_of (rb_sender_report b) ''complete'') \<and> integrity_ok (bundle_health b)")
    case True
    then have "payloads_valid files (complete_shots b) = Inr ok"
      using assms by (auto simp: accepted_bundle_def b bind_res_Inr_iff published_payloads_valid_def)
    then show ?thesis using True payloads_valid_Inr by (simp add: accepted_health)
  next
    case False
    have "\<not> ok"
      using assms unfolding accepted_bundle_def b raised_as_Inr bind_res_simps if_not_P[OF False] by simp
    then show ?thesis using False present by (auto simp: accepted_health)
  qed
qed

lemma recovery_assessed:
  assumes "assess_evidence (RecoveryEvidence disrupted_run recovery_run) = Inr (passed, evidence)"
  shows "json_single (JObject evidence)"
    and "passed \<longleftrightarrow> (\<exists>d r. bundle_open disrupted_run False = Inr d \<and> bundle_open recovery_run False = Inr r \<and>
      run_complete (rb_manifest d) = Some False \<and> list_all (payload_intact disrupted_run) (complete_shots d) \<and>
      rh_state (bundle_health r) = Accepted \<and> truthy (section_of (rb_sender_report r) ''complete'') \<and>
      list_all (payload_intact recovery_run) (complete_shots r) \<and> rb_run_id d \<noteq> rb_run_id r)"
proof -
  obtain d d_ok r r_ok d_payloads where d: "accepted_bundle disrupted_run = Inr (d, d_ok)"
    and r: "accepted_bundle recovery_run = Inr (r, r_ok)"
    and p: "payloads_valid disrupted_run (complete_shots d) = Inr d_payloads"
    and result: "(\<not> d_ok \<and> run_complete (rb_manifest d) = Some False \<and> d_payloads \<and> r_ok \<and> rb_run_id d \<noteq> rb_run_id r,
       [(''disrupted_manifest_complete'', case run_complete (rb_manifest d) of None \<Rightarrow> JNull | Some c \<Rightarrow> JBool c),
        (''disrupted_complete_shots'', JInt (int (length (complete_shots d)))),
        (''disrupted_incomplete_shots'', JInt (int (length (incomplete_shots d)))),
        (''disrupted_published_payloads_valid'', JBool d_payloads), (''recovery_complete'', JBool r_ok),
        (''fresh_run_identity'', JBool (rb_run_id d \<noteq> rb_run_id r))]) = (passed, evidence)"
    using assms unfolding assess_evidence_def fault_evidence.case bind_res_Inr_iff split_paired_Ex prod.case
      published_payloads_valid_def sum.inject by (elim exE conjE) (rule that, assumption+)
  show "json_single (JObject evidence)" using result by (auto split: option.splits)
  show "passed \<longleftrightarrow> (\<exists>d r. bundle_open disrupted_run False = Inr d \<and> bundle_open recovery_run False = Inr r \<and>
      run_complete (rb_manifest d) = Some False \<and> list_all (payload_intact disrupted_run) (complete_shots d) \<and>
      rh_state (bundle_health r) = Accepted \<and> truthy (section_of (rb_sender_report r) ''complete'') \<and>
      list_all (payload_intact recovery_run) (complete_shots r) \<and> rb_run_id d \<noteq> rb_run_id r)"
    using result payloads_valid_Inr[OF p] accepted_bundle_Inr[OF d] accepted_bundle_Inr[OF r]
    by (auto simp: accepted_health)
qed

lemma recorded_case:
  assumes "assess_fault file name ev now = Inr (document, status)"
    and single: "\<And>passed evidence. assess_evidence ev = Inr (passed, evidence) \<Longrightarrow> json_single (JObject evidence)"
  obtains cs passed evidence where "assess_evidence ev = Inr (passed, evidence)" "status = (if passed then 0 else 2)"
    and "fault_results file = Inr (map (\<lambda>n. (n, case_value cs n)) REQUIRED_FAULTS)"
    and "fault_results (FaultText (Some (JObject document))) =
      Inr (map (\<lambda>n. (n, if n = name then JBool passed else case_value cs n)) REQUIRED_FAULTS)"
proof -
  obtain old passed evidence where old: "load_faults file now = Inr old"
    and ev: "assess_evidence ev = Inr (passed, evidence)"
    and result: "AList.update ''cases'' (JObject (AList.update name (JObject [(''pass'', JBool passed), (''assessed_utc'', JString now),
        (''evidence'', JObject evidence)]) (section_object old ''cases''))) (AList.update ''updated_utc'' (JString now) old) = document"
      "status = (if passed then 0 else 2)"
    using assms(1) unfolding assess_fault_def Let_def bind_res_Inr_iff split_paired_Ex prod.case sum.inject prod.inject
    by (elim exE conjE) (rule that, assumption+, rule sym)
  obtain cs where cs: "fault_state old cs" "fault_results file = Inr (map (\<lambda>n. (n, case_value cs n)) REQUIRED_FAULTS)"
    by (rule load_faults_Inr[OF old])
  define entry where "entry = JObject [(''pass'', JBool passed), (''assessed_utc'', JString now), (''evidence'', JObject evidence)]"
  have "json_single (get old ''cases'')" by (rule get_single) (use cs(1) in \<open>simp add: fault_state_def\<close>)
  then have "json_single (JObject cs)" using cs(1) by (simp add: fault_state_def)
  moreover have "json_single entry" using single[OF ev] by (simp add: entry_def)
  ultimately have new: "json_single (JObject (AList.update name entry cs))" by (rule update_single)
  have old_cases: "section_object old ''cases'' = cs" using cs(1) by (simp add: fault_state_def section_object_def)
  have doc: "document = AList.update ''cases'' (JObject (AList.update name entry cs)) (AList.update ''updated_utc'' (JString now) old)"
    using result(1) by (simp add: old_cases entry_def)
  have "json_single (JObject (AList.update ''updated_utc'' (JString now) old))"
    using cs(1) by (intro update_single) (simp_all add: fault_state_def)
  from update_single[OF this new] have "fault_state document (AList.update name entry cs)"
    using cs(1) by (simp add: doc fault_state_def get_update)
  moreover have "get [(''pass'', JBool passed), (''assessed_utc'', JString now), (''evidence'', JObject evidence)] ''pass'' =
      JBool passed" by (simp add: get_def)
  then have "case_value (AList.update name entry cs) n = (if n = name then JBool passed else case_value cs n)" for n
    by (simp add: case_value_def get_update entry_def)
  ultimately show thesis
    using that[OF ev result(2) cs(2)] by (simp add: fault_state_results)
qed

text \<open>
  C35. A recovery test counts as it was assessed.  After a disruption has been assessed, the
  evidence file gives the assessed case its result and every other case what it had.  The command
  succeeds exactly when the case then counts as passed, and that is when the disrupted run was closed as
  incomplete but every shot it published has the CRC it recorded, and another run, of another
  identity, was accepted with every payload intact.
\<close>

theorem recovery_test_counts:
  assumes "assess_fault file name (RecoveryEvidence disrupted_run recovery_run) now = Inr (document, status)"
    and "name \<in> set REQUIRED_FAULTS"
  shows "\<exists>before after. fault_results file = Inr before \<and>
    fault_results (FaultText (Some (JObject document))) = Inr after \<and>
    map fst after = REQUIRED_FAULTS \<and> filter (\<lambda>(n, v). n \<noteq> name) after = filter (\<lambda>(n, v). n \<noteq> name) before \<and>
    (status = 0 \<longleftrightarrow> (name, JBool True) \<in> set after) \<and>
    (status = 2 \<longleftrightarrow> (name, JBool False) \<in> set after) \<and>
    (status = 0 \<longleftrightarrow> (\<exists>d r. bundle_open disrupted_run False = Inr d \<and> bundle_open recovery_run False = Inr r \<and>
      run_complete (rb_manifest d) = Some False \<and> list_all (payload_intact disrupted_run) (complete_shots d) \<and>
      rh_state (bundle_health r) = Accepted \<and> truthy (section_of (rb_sender_report r) ''complete'') \<and>
      list_all (payload_intact recovery_run) (complete_shots r) \<and> rb_run_id d \<noteq> rb_run_id r))"
proof (rule recorded_case[OF assms(1) recovery_assessed(1)])
  fix cs passed evidence
  assume ev: "assess_evidence (RecoveryEvidence disrupted_run recovery_run) = Inr (passed, evidence)"
    and status: "status = (if passed then 0 else 2)"
    and results: "fault_results file = Inr (map (\<lambda>n. (n, case_value cs n)) REQUIRED_FAULTS)"
      "fault_results (FaultText (Some (JObject document))) =
        Inr (map (\<lambda>n. (n, if n = name then JBool passed else case_value cs n)) REQUIRED_FAULTS)"
  have others: "filter (\<lambda>(n, v). n \<noteq> name) (map (\<lambda>n. (n, if n = name then JBool passed else case_value cs n)) names) =
      filter (\<lambda>(n, v). n \<noteq> name) (map (\<lambda>n. (n, case_value cs n)) names)" for names
    by (induction names) auto
  have counted: "(name, JBool t) \<in> set (map (\<lambda>n. (n, if n = name then JBool passed else case_value cs n)) REQUIRED_FAULTS) \<longleftrightarrow>
      passed = t" for t
    using assms(2) by auto
  have "status = 0 \<longleftrightarrow> passed = True" "status = 2 \<longleftrightarrow> passed = False" by (simp_all add: status)
  note codes = this(1)[folded counted] this(2)[folded counted] this(1)[simplified, unfolded recovery_assessed(2)[OF ev]]
  show ?thesis
    unfolding results by (rule exI, rule exI, intro conjI, rule refl, rule refl, simp add: comp_def, rule others, (rule codes)+)
qed

theorem recovery_test_counts_witness:
  "\<exists>document after. assess_fault NoFaultFile ''ethernet_disconnect'' (RecoveryEvidence cut_files counted_files) ''now'' =
      Inr (document, 0) \<and> fault_results (FaultText (Some (JObject document))) = Inr after \<and>
    (''ethernet_disconnect'', JBool True) \<in> set after"
proof -
  obtain document where d: "assess_fault NoFaultFile ''ethernet_disconnect'' (RecoveryEvidence cut_files counted_files) ''now'' =
      Inr (document, 0)" using recovery_example by blast
  have "''ethernet_disconnect'' \<in> set REQUIRED_FAULTS" by (simp add: REQUIRED_FAULTS_def)
  from recovery_test_counts[OF d this] d show ?thesis by blast
qed

section \<open>The verdict\<close>



end
