(* ===== verification/SweepPlan.thy ===== *)
theory SweepPlan
  imports Acceptance
begin

text \<open>
  The plan of \<open>host/experiment_profiles/qcrate_sweep.py\<close>: from a sweep specification to the staged
  profiles and the plan that later commands load.  A binary floating-point number is the rational
  it equals; the rounding to the nearest one and the text \<open>repr\<close> gives it are parameters.
\<close>

section \<open>Constants and errors\<close>

definition SWEEP_FORMAT :: string where "SWEEP_FORMAT = ''qcrate-lo-sweep-v1''"
definition PLAN_FORMAT :: string where "PLAN_FORMAT = ''qcrate-dp6e-sweep-plan-v1''"
definition PASSBAND_HZ :: int where "PASSBAND_HZ = 2000000"
definition STOPBAND_HZ :: int where "STOPBAND_HZ = 6250000"

datatype sweep_error =
    SweepDuplicateKey string
  | SweepSyntax string
  | SweepRoot string
  | SweepNotObject string
  | SweepKeys string "string list" "string list"
  | SweepExists
  | SweepFormatText
  | SweepName
  | PhaseFloorType
  | PhaseFloorRange
  | TooFewPoints
  | BasePathText
  | BasePathOutside
  | BasePathMissing
  | SweepProfile profile_error
  | SignalFrequency
  | PointLabel nat
  | DuplicateLabel string
  | PointFrequencyType string
  | PointFrequencyRange string
  | PointRegion string string
  | PointReference string
  | PointNumber string
  | ReferenceCount
  | RegionsMissing
  | ConfigIdsRepeat
  | TuningWordsRepeat
  | PlanMalformed
  | PlanIdentityInput
  | PlanStale
  | SweepPathText string
  | SweepPathOutside string

section \<open>Documents with floating-point numbers\<close>

record floats =
  fl_round :: "rat \<Rightarrow> rat"
  fl_repr :: "rat \<Rightarrow> string"

text \<open>The value of the number a parsed document holds; the text of such a number always has one.\<close>

definition float_value :: "floats \<Rightarrow> string \<Rightarrow> rat" where
  "float_value fl s = fl_round fl (case decimal_of_string s of Some q \<Rightarrow> q | None \<Rightarrow> 0)"

text \<open>\<open>json.dumps\<close> with sorted keys: the text, and the value a reader parses from it.\<close>

fun float_text :: "floats \<Rightarrow> json \<Rightarrow> string"
  and float_texts :: "floats \<Rightarrow> json list \<Rightarrow> string list"
  and float_members :: "floats \<Rightarrow> jobject \<Rightarrow> (string \<times> string) list"
where
  "float_text fl JNull = ''null''"
| "float_text fl (JBool b) = (if b then ''true'' else ''false'')"
| "float_text fl (JInt i) = str_int i"
| "float_text fl (JFloat s) = fl_repr fl (float_value fl s)"
| "float_text fl (JString s) = quoted s"
| "float_text fl (JArray xs) = ''['' @ joined '','' (float_texts fl xs) @ '']''"
| "float_text fl (JObject d) =
     ''{'' @ joined '','' (map (\<lambda>(k, t). quoted k @ '':'' @ t) (sort_key fst (float_members fl d))) @ ''}''"
| "float_texts fl [] = []"
| "float_texts fl (x # xs) = float_text fl x # float_texts fl xs"
| "float_members fl [] = []"
| "float_members fl ((k, v) # d) = (k, float_text fl v) # float_members fl d"

fun dumped :: "floats \<Rightarrow> json \<Rightarrow> json"
  and dumped_list :: "floats \<Rightarrow> json list \<Rightarrow> json list"
  and dumped_members :: "floats \<Rightarrow> jobject \<Rightarrow> jobject"
where
  "dumped fl (JFloat s) = JFloat (fl_repr fl (float_value fl s))"
| "dumped fl (JArray xs) = JArray (dumped_list fl xs)"
| "dumped fl (JObject d) = JObject (sort_key fst (dumped_members fl d))"
| "dumped fl JNull = JNull"
| "dumped fl (JBool b) = JBool b"
| "dumped fl (JInt i) = JInt i"
| "dumped fl (JString s) = JString s"
| "dumped_list fl [] = []"
| "dumped_list fl (x # xs) = dumped fl x # dumped_list fl xs"
| "dumped_members fl [] = []"
| "dumped_members fl ((k, v) # d) = (k, dumped fl v) # dumped_members fl d"

definition sweep_load_json :: "string \<Rightarrow> json option \<Rightarrow> sweep_error + jobject" where
  "sweep_load_json path parsed =
     (case parsed of
        None \<Rightarrow> Inl (SweepSyntax path)
      | Some v \<Rightarrow>
          bind_res (hook SweepDuplicateKey v) (\<lambda>document.
          case document of JObject d \<Rightarrow> Inr d | _ \<Rightarrow> Inl (SweepRoot path)))"

definition exact_keys :: "json \<Rightarrow> string list \<Rightarrow> string \<Rightarrow> sweep_error + jobject" where
  "exact_keys v expected context =
     (case v of
        JObject d \<Rightarrow>
          (let missing = sorted_keys (filter (\<lambda>k. k \<notin> set (keys_of d)) expected);
               unknown = sorted_keys (filter (\<lambda>k. k \<notin> set expected) (keys_of d))
           in if missing \<noteq> [] \<or> unknown \<noteq> [] then Inl (SweepKeys context missing unknown) else Inr d)
      | _ \<Rightarrow> Inl (SweepNotObject context))"

text \<open>\<open>float(v)\<close>.\<close>

definition float_of :: "floats \<Rightarrow> json \<Rightarrow> rat option" where
  "float_of fl v = map_option (fl_round fl) (float_of_json v)"

section \<open>Response regions and aliases\<close>

definition response_region :: "int \<Rightarrow> string" where
  "response_region offset_hz =
     (let frequency = \<bar>offset_hz\<bar>
      in if frequency \<le> PASSBAND_HZ then ''passband''
         else if frequency < STOPBAND_HZ then ''transition'' else ''stopband'')"

definition rat_mod :: "rat \<Rightarrow> rat \<Rightarrow> rat" where
  "rat_mod a b = a - b * of_int \<lfloor>a / b\<rfloor>"

definition alias_frequency :: "floats \<Rightarrow> rat \<Rightarrow> rat \<Rightarrow> rat" where
  "alias_frequency fl frequency_hz rate_hz =
     (let half = fl_round fl (rate_hz / 2)
      in fl_round fl (fl_round fl (rat_mod (fl_round fl (frequency_hz + half)) rate_hz) - half))"

section \<open>The identity of a plan\<close>

definition plan_identity :: "floats \<Rightarrow> json list \<Rightarrow> rat \<Rightarrow> string" where
  "plan_identity fl points phase_floor_db =
     hexdigest (sha256 (ascii (float_text fl (JObject
       [(''format'', JString ''qcrate-dp6e-sweep-identity-v1''),
        (''phase_response_floor_db'', JFloat (fl_repr fl phase_floor_db)), (''points'', JArray points)]))))"

section \<open>One point\<close>

definition label_char :: "char \<Rightarrow> bool" where
  "label_char c = (c \<in> set ''abcdefghijklmnopqrstuvwxyz0123456789'')"

definition label_ok :: "string \<Rightarrow> bool" where
  "label_ok s = (1 \<le> length s \<and> length s \<le> 64 \<and> label_char (hd s) \<and>
     list_all (\<lambda>c. label_char c \<or> c = CHR ''-'') (tl s))"

definition point_keys :: "string list" where
  "point_keys = [''label'', ''lo_frequency_hz'', ''region'', ''reference'']"

record plan_state =
  ps_labels :: "string list"
  ps_references :: int
  ps_regions :: "string list"
  ps_points :: "json list"
  ps_staged :: "(string \<times> json) list"

definition point_stem :: "nat \<Rightarrow> string \<Rightarrow> string" where
  "point_stem ordinal label = zfill 2 (digits 10 ordinal) @ CHR ''-'' # label"

definition point_source :: "jobject \<Rightarrow> string \<Rightarrow> string \<Rightarrow> int \<Rightarrow> jobject" where
  "point_source base_document name label lo_hz =
     AList.update ''dsp'' (JObject (AList.update ''lo_frequency_hz'' (JInt lo_hz) (section_object base_document ''dsp'')))
       (AList.update ''name'' (JString (name @ '': '' @ label)) base_document)"

definition point_entry ::
    "nat \<Rightarrow> string \<Rightarrow> string \<Rightarrow> bool \<Rightarrow> int \<Rightarrow> int \<Rightarrow> string \<Rightarrow> jobject \<Rightarrow> jobject" where
  "point_entry ordinal label region reference lo_hz requested_offset observed resolved =
     (let realized = section_object (section_object resolved ''dsp'') ''realized'';
          identity = section_object resolved ''identity'';
          stem = point_stem ordinal label
      in [(''ordinal'', JInt (int ordinal)), (''label'', JString label), (''region'', JString region),
          (''reference'', JBool reference), (''requested_lo_frequency_hz'', JInt lo_hz),
          (''requested_baseband_frequency_hz'', JInt requested_offset),
          (''realized_lo_frequency_hz'', get realized ''lo_frequency_hz''),
          (''realized_baseband_frequency_hz'', get realized ''baseband_frequency_hz''),
          (''observed_frequency_hz'', JFloat observed), (''dsp_config_id'', get identity ''dsp_config_id''),
          (''dsp_config_sha256'', get identity ''dsp_config_sha256''),
          (''profile_sha256'', get identity ''profile_sha256''),
          (''source_profile'', JString (''profiles/'' @ stem @ ''.profile.json'')),
          (''resolved_profile'', JString (''profiles/'' @ stem @ ''.resolved.json'')),
          (''run'', JString (''runs/'' @ stem))])"

definition plan_point ::
    "floats \<Rightarrow> (json \<Rightarrow> profile_error + jobject) \<Rightarrow> string \<Rightarrow> jobject \<Rightarrow> int \<Rightarrow> nat \<times> json \<Rightarrow> plan_state \<Rightarrow>
     sweep_error + plan_state" where
  "plan_point fl compile name base_document signal_hz entry st =
     (case entry of (ordinal, raw_point) \<Rightarrow>
     bind_res (exact_keys raw_point point_keys (''sweep point '' @ digits 10 ordinal)) (\<lambda>point.
     bind_res (case get point ''label'' of
         JString label \<Rightarrow> (if label_ok label then Inr label else Inl (PointLabel ordinal))
       | _ \<Rightarrow> Inl (PointLabel ordinal)) (\<lambda>label.
     if label \<in> set (ps_labels st) then Inl (DuplicateLabel label)
     else
     bind_res (case get point ''lo_frequency_hz'' of JInt i \<Rightarrow> Inr i | _ \<Rightarrow> Inl (PointFrequencyType label)) (\<lambda>lo_hz.
     if \<not> (0 \<le> lo_hz \<and> lo_hz < SAMPLE_RATE_HZ div 2) then Inl (PointFrequencyRange label)
     else
     let requested_offset = signal_hz - lo_hz; actual_region = response_region requested_offset in
     if get point ''region'' \<noteq> JString actual_region then Inl (PointRegion label actual_region)
     else
     bind_res (case get point ''reference'' of JBool b \<Rightarrow> Inr b | _ \<Rightarrow> Inl (PointReference label)) (\<lambda>reference.
     let stem = point_stem ordinal label;
         source = dumped fl (JObject (point_source base_document name label lo_hz))
     in
     bind_res (raised_as SweepProfile (compile source)) (\<lambda>resolved.
     case (float_of fl (get (section_object (section_object resolved ''dsp'') ''realized'') ''baseband_frequency_hz''),
           float_of fl (get (section_object resolved ''numerical_contract'') ''output_sample_rate_hz'')) of
       (Some realized_offset, Some output_rate) \<Rightarrow>
         let observed = fl_repr fl (alias_frequency fl realized_offset output_rate) in
         Inr \<lparr>ps_labels = label # ps_labels st,
              ps_references = ps_references st + (if reference then 1 else 0),
              ps_regions = List.insert actual_region (ps_regions st),
              ps_points = ps_points st @
                [JObject (point_entry ordinal label actual_region reference lo_hz requested_offset observed resolved)],
              ps_staged = ps_staged st @
                [(''profiles/'' @ stem @ ''.profile.json'', source),
                 (''profiles/'' @ stem @ ''.resolved.json'', dumped fl (JObject resolved))]\<rparr>
     | _ \<Rightarrow> Inl (PointNumber label)))))))"

section \<open>The plan\<close>

text \<open>
  The repository as \<open>_repo_path\<close> sees it: what a relative path names, and the name \<open>relative_to\<close>
  gives it after it is resolved.
\<close>

record sweep_repository =
  sq_file :: "string \<Rightarrow> source_file"
  sq_name :: "string \<Rightarrow> string"

definition base_profile_file :: "sweep_repository \<Rightarrow> json \<Rightarrow> sweep_error + string \<times> json" where
  "base_profile_file sq v =
     (case v of
        JString path \<Rightarrow>
          if path = [] then Inl BasePathText
          else
            (case sq_file sq path of
               OutsideRepository \<Rightarrow> Inl BasePathOutside
             | NotAFile \<Rightarrow> Inl BasePathMissing
             | ParsedFile parsed \<Rightarrow> Inr (sq_name sq path, parsed))
      | _ \<Rightarrow> Inl BasePathText)"

definition phase_floor :: "floats \<Rightarrow> json \<Rightarrow> sweep_error + rat" where
  "phase_floor fl v =
     (case v of
        JInt i \<Rightarrow> Inr (fl_round fl (of_int i))
      | JFloat s \<Rightarrow> Inr (float_value fl s)
      | _ \<Rightarrow> Inl PhaseFloorType)"

text \<open>The sweep specification after its own fields are checked: its name, phase floor and points.\<close>

definition read_spec :: "floats \<Rightarrow> jobject \<Rightarrow> sweep_error + string \<times> rat \<times> json list" where
  "read_spec fl spec =
     (if get spec ''format'' \<noteq> JString SWEEP_FORMAT then Inl SweepFormatText
      else
        bind_res (case get spec ''name'' of
            JString n \<Rightarrow> (if 1 \<le> length n \<and> length n \<le> 128 then Inr n else Inl SweepName)
          | _ \<Rightarrow> Inl SweepName) (\<lambda>name.
        bind_res (phase_floor fl (get spec ''phase_response_floor_db'')) (\<lambda>floor_db.
        if \<not> (-160 \<le> floor_db \<and> floor_db \<le> 0) then Inl PhaseFloorRange
        else
          case get spec ''points'' of
            JArray points \<Rightarrow> if length points < 3 then Inl TooFewPoints else Inr (name, floor_db, points)
          | _ \<Rightarrow> Inl TooFewPoints)))"

definition staged_file :: "(string \<times> json) list \<Rightarrow> string \<Rightarrow> json" where
  "staged_file staged path = (case map_of staged path of Some v \<Rightarrow> v | None \<Rightarrow> JNull)"

definition tuning_word ::
    "(json \<Rightarrow> profile_error + jobject) \<Rightarrow> (string \<times> json) list \<Rightarrow> json \<Rightarrow> sweep_error + json" where
  "tuning_word reload staged point =
     (case point of
        JObject p \<Rightarrow>
          bind_res (raised_as SweepProfile (reload (staged_file staged (jtext (get p ''resolved_profile''))))) (\<lambda>resolved.
          Inr (get (section_object (section_object resolved ''dsp'') ''active'') ''LO_PHASE_INCREMENT''))
      | _ \<Rightarrow> Inl PlanMalformed)"

definition point_field :: "string \<Rightarrow> json \<Rightarrow> json" where
  "point_field k point = (case point of JObject p \<Rightarrow> get p k | _ \<Rightarrow> JNull)"

definition spec_keys :: "string list" where
  "spec_keys = [''format'', ''name'', ''base_profile'', ''phase_response_floor_db'', ''points'']"

definition no_points :: plan_state where
  "no_points = \<lparr>ps_labels = [], ps_references = 0, ps_regions = [], ps_points = [], ps_staged = []\<rparr>"

definition regions_covered :: "string list \<Rightarrow> bool" where
  "regions_covered regions = (set regions = {''passband'', ''transition'', ''stopband''})"

text \<open>A success is the plan and the files of the output directory, which appears only then.\<close>

definition prepare_plan ::
    "floats \<Rightarrow> (json \<Rightarrow> profile_error + jobject) \<Rightarrow> (json \<Rightarrow> profile_error + jobject) \<Rightarrow> sweep_repository \<Rightarrow>
     string \<Rightarrow> config_file \<Rightarrow> bool \<Rightarrow> sweep_error + jobject \<times> (string \<times> json) list" where
  "prepare_plan fl compile reload sq spec_path spec_file output_exists =
     (if output_exists then Inl SweepExists
      else
        bind_res (sweep_load_json spec_path (cf_parsed spec_file)) (\<lambda>loaded.
        bind_res (exact_keys (JObject loaded) spec_keys ''sweep'') (\<lambda>spec.
        bind_res (read_spec fl spec) (\<lambda>(name, floor_db, raw_points).
        bind_res (base_profile_file sq (get spec ''base_profile'')) (\<lambda>(base_name, base_parsed).
        bind_res (raised_as SweepProfile (compile base_parsed)) (\<lambda>_.
        bind_res (sweep_load_json base_name (Some base_parsed)) (\<lambda>base_document.
        bind_res (case get (section_object base_document ''dsp'') ''signal_frequency_hz'' of
            JInt i \<Rightarrow> Inr i | _ \<Rightarrow> Inl SignalFrequency) (\<lambda>signal_hz.
        bind_res (fold_res (plan_point fl compile name base_document signal_hz)
          (enumerate 0 raw_points) no_points) (\<lambda>st.
        let points = ps_points st in
        if ps_references st \<noteq> 1 then Inl ReferenceCount
        else if \<not> regions_covered (ps_regions st) then Inl RegionsMissing
        else if \<not> distinct (map (point_field ''dsp_config_id'') points) then Inl ConfigIdsRepeat
        else
          bind_res (map_res (tuning_word reload (ps_staged st)) points) (\<lambda>tuning_words.
          if \<not> distinct tuning_words then Inl TuningWordsRepeat
          else
            let plan = [(''format'', JString PLAN_FORMAT), (''name'', JString name), (''source_spec'', JString spec_path),
                  (''source_spec_sha256'', JString (hexdigest (sha256 (cf_bytes spec_file)))),
                  (''base_profile'', JString base_name), (''phase_response_floor_db'', JFloat (fl_repr fl floor_db)),
                  (''sweep_sha256'', JString (plan_identity fl points floor_db)), (''points'', JArray points)]
            in Inr (plan, ps_staged st @ [(''sweep-plan.json'', dumped fl (JObject plan))])))))))))))"

definition plan_keys :: "string list" where
  "plan_keys = [''format'', ''name'', ''source_spec'', ''source_spec_sha256'', ''base_profile'',
     ''phase_response_floor_db'', ''sweep_sha256'', ''points'']"

definition load_plan :: "floats \<Rightarrow> json option \<Rightarrow> sweep_error + jobject" where
  "load_plan fl parsed =
     bind_res (sweep_load_json ''sweep-plan.json'' parsed) (\<lambda>loaded.
     bind_res (exact_keys (JObject loaded) plan_keys ''sweep plan'') (\<lambda>plan.
     if get plan ''format'' \<noteq> JString PLAN_FORMAT then Inl PlanMalformed
     else
       case get plan ''points'' of
         JArray points \<Rightarrow>
           (case float_of fl (get plan ''phase_response_floor_db'') of
              None \<Rightarrow> Inl PlanIdentityInput
            | Some floor_db \<Rightarrow>
                if get plan ''sweep_sha256'' \<noteq> JString (plan_identity fl points floor_db) then Inl PlanStale
                else Inr plan)
       | _ \<Rightarrow> Inl PlanMalformed))"

section \<open>Paths of a plan\<close>

text \<open>
  \<open>(root / relative).resolve()\<close> on the names of the path, without symbolic links, and its
  containment in the root.
\<close>

fun resolve_names :: "string list \<Rightarrow> string list \<Rightarrow> string list" where
  "resolve_names seen [] = seen"
| "resolve_names seen (s # rest) =
     resolve_names (if s = [] \<or> s = ''.'' then seen else if s = ''..'' then butlast seen else seen @ [s]) rest"

fun split_names :: "string \<Rightarrow> string list" where
  "split_names [] = [[]]"
| "split_names (c # cs) =
     (if c = CHR ''/'' then [] # split_names cs
      else case split_names cs of s # rest \<Rightarrow> (c # s) # rest | [] \<Rightarrow> [[c]])"

definition sweep_path :: "string list \<Rightarrow> json \<Rightarrow> string \<Rightarrow> sweep_error + string list" where
  "sweep_path home relative context =
     (case relative of
        JString (c # cs) \<Rightarrow>
          let path = resolve_names (if c = CHR ''/'' then [] else home) (split_names (c # cs))
          in if take (length home) path = home then Inr path else Inl (SweepPathOutside context)
      | _ \<Rightarrow> Inl (SweepPathText context))"

end
