(* ===== verification/SweepReport.thy ===== *)
theory SweepReport
  imports SweepPlan
begin

text \<open>
  The measurement of \<open>host/experiment_profiles/qcrate_sweep.py\<close>: each point's run is verified,
  projected on its tone and compared with the model's words, and the report decides.  The
  projections, logarithms and angles that numpy and math compute are parameters; the arithmetic on
  their results is exact.
\<close>

unbundle bit_operations_syntax

section \<open>Tones\<close>

definition SETTLE_OUTPUT_SAMPLES :: nat where "SETTLE_OUTPUT_SAMPLES = 32"
definition MAGNITUDE_TOLERANCE_DB :: rat where "MAGNITUDE_TOLERANCE_DB = 2 / 100"
definition PHASE_TOLERANCE_DEGREES :: rat where "PHASE_TOLERANCE_DEGREES = 5 / 100"
definition REPORT_FORMAT :: string where "REPORT_FORMAT = ''qcrate-dp6e-sweep-report-v1''"

type_synonym phasor = "rat \<times> rat"

text \<open>
  The mean of the settled samples times the oscillator, the mean of phasors, the magnitude, the
  angle in degrees, the decimal logarithm and the response of a filter at a frequency.
\<close>

record tone_numerics =
  tn_project :: "iq_samples \<Rightarrow> rat \<Rightarrow> rat \<Rightarrow> phasor"
  tn_mean :: "phasor list \<Rightarrow> phasor"
  tn_magnitude :: "phasor \<Rightarrow> rat"
  tn_angle :: "phasor \<Rightarrow> rat"
  tn_log10 :: "rat \<Rightarrow> rat"
  tn_response :: "int list \<Rightarrow> rat \<Rightarrow> phasor"

datatype measure_error =
    TooFewSettled
  | RunDirectory
  | RunProfileMissing
  | ProfileFileMissing
  | MeasurePath sweep_error
  | MeasureProfile profile_error
  | MeasureExperiment experiment_error
  | MeasureRun run_error
  | MeasureAnalysis analysis_error
  | MeasureCapture capture_error
  | MeasureTables dsp_error
  | MeasureNumber string
  | PointCrc json int
  | PointShape
  | NoReferencePoint

definition coherent_tone :: "tone_numerics \<Rightarrow> iq_samples \<Rightarrow> rat \<Rightarrow> rat \<Rightarrow> measure_error + phasor" where
  "coherent_tone tn samples frequency_hz rate_hz =
     (if length samples \<le> SETTLE_OUTPUT_SAMPLES then Inl TooFewSettled
      else Inr (tn_project tn (drop SETTLE_OUTPUT_SAMPLES samples) frequency_hz rate_hz))"

definition phase_error_degrees :: "rat \<Rightarrow> rat \<Rightarrow> rat" where
  "phase_error_degrees actual expected = rat_mod (actual - expected + 180) 360 - 180"

text \<open>\<open>20 * log10(q)\<close> and the floor under a magnitude.\<close>

definition decibels :: "tone_numerics \<Rightarrow> rat \<Rightarrow> rat" where
  "decibels tn q = 20 * tn_log10 tn q"

definition floored :: "tone_numerics \<Rightarrow> phasor \<Rightarrow> rat" where
  "floored tn p = max (tn_magnitude tn p) (1 / 10 ^ 15)"

definition theoretical_fir_response :: "tone_numerics \<Rightarrow> repository_files \<Rightarrow> rat \<Rightarrow> measure_error + phasor" where
  "theoretical_fir_response tn repo frequency_hz =
     bind_res (raised_as MeasureTables (load_hex (rs_fir_table repo) COEFFICIENT_BITS FIR_TAPS)) (\<lambda>coefficients.
     Inr (tn_response tn coefficients frequency_hz))"

section \<open>The runs of a sweep\<close>

text \<open>A run directory: what the recorder left and the profile copied beside it, when it was.\<close>

record sweep_entry =
  se_files :: run_files
  se_profile :: "config_file option"

text \<open>
  \<open>experiment.verify_run\<close> on a directory.  Without the profile beside the run it has no words to
  compare with and raises.
\<close>

definition verify_entry ::
    "numerics \<Rightarrow> repository_files \<Rightarrow> sweep_entry \<Rightarrow> jobject \<Rightarrow> measure_error + int \<times> int \<times> rat" where
  "verify_entry lib repo entry resolved =
     (case se_profile entry of
        None \<Rightarrow> Inl RunProfileMissing
      | Some bundled \<Rightarrow> raised_as MeasureExperiment (verify_run lib repo (se_files entry) bundled resolved))"

record sweep_files =
  sf_runs :: "string list \<Rightarrow> sweep_entry option"
  sf_profiles :: "string list \<Rightarrow> config_file option"

definition load_point_profile ::
    "repository_files \<Rightarrow> (string list \<Rightarrow> config_file option) \<Rightarrow> string list \<Rightarrow>
     measure_error + config_file \<times> jobject" where
  "load_point_profile repo profiles path =
     (case profiles path of
        None \<Rightarrow> Inl ProfileFileMissing
      | Some profile \<Rightarrow>
          (case cf_parsed profile of
             None \<Rightarrow> Inl ProfileFileMissing
           | Some parsed \<Rightarrow>
               bind_res (raised_as MeasureProfile (load_resolved_profile (rs_tables repo) (rs_registers repo) parsed)) (\<lambda>resolved.
               Inr (profile, resolved))))"

section \<open>One point\<close>

record point_measurement =
  pm_point :: jobject
  pm_run_id :: int
  pm_shots :: int
  pm_words_checked :: int
  pm_iq_mismatches :: int
  pm_measured_magnitude_dbfs :: rat
  pm_model_magnitude_dbfs :: rat
  pm_magnitude_error_db :: rat
  pm_measured_phase_degrees :: rat
  pm_model_phase_degrees :: rat
  pm_phase_error_degrees :: rat
  pm_theoretical_fir_magnitude_db :: rat
  pm_integrity_ok :: bool
  pm_health :: run_health

definition expected_count :: "jobject \<Rightarrow> int" where
  "expected_count resolved =
     jint (get (section_object resolved ''acquisition'') ''frame_length_words'') *
     jint (get (section_object resolved ''acquisition'') ''frame_count'')"

definition shot_phasor ::
    "tone_numerics \<Rightarrow> run_files \<Rightarrow> jobject \<Rightarrow> rat \<Rightarrow> rat \<Rightarrow> shot_record \<Rightarrow> measure_error + phasor" where
  "shot_phasor tn files point frequency_hz rate_hz shot =
     bind_res (raised_as MeasureRun (bundle_samples files shot)) (\<lambda>payload.
     if crc32 payload AND 0xFFFFFFFF \<noteq> sr_payload_crc32 shot then Inl (PointCrc (get point ''label'') (sr_shot_id shot))
     else
       bind_res (raised_as MeasureCapture (decode_payload payload)) (\<lambda>capture.
       coherent_tone tn (complex_samples capture) frequency_hz rate_hz))"

definition number_field :: "jobject \<Rightarrow> string \<Rightarrow> measure_error + rat" where
  "number_field point k = (case float_of_json (get point k) of Some q \<Rightarrow> Inr q | None \<Rightarrow> Inl (MeasureNumber k))"

definition point_result ::
    "tone_numerics \<Rightarrow> jobject \<Rightarrow> run_bundle \<Rightarrow> int \<Rightarrow> int \<Rightarrow> phasor \<Rightarrow> phasor \<Rightarrow> phasor \<Rightarrow> point_measurement" where
  "point_result tn point b shots checked measured model fir =
     \<lparr>pm_point = point, pm_run_id = rb_run_id b, pm_shots = shots, pm_words_checked = checked, pm_iq_mismatches = 0,
      pm_measured_magnitude_dbfs = decibels tn (floored tn measured),
      pm_model_magnitude_dbfs = decibels tn (floored tn model),
      pm_magnitude_error_db = decibels tn (floored tn measured / floored tn model),
      pm_measured_phase_degrees = tn_angle tn measured, pm_model_phase_degrees = tn_angle tn model,
      pm_phase_error_degrees = phase_error_degrees (tn_angle tn measured) (tn_angle tn model),
      pm_theoretical_fir_magnitude_db = decibels tn (floored tn fir),
      pm_integrity_ok = integrity_ok (bundle_health b), pm_health = bundle_health b\<rparr>"

definition measure_point ::
    "tone_numerics \<Rightarrow> numerics \<Rightarrow> repository_files \<Rightarrow> string list \<Rightarrow> sweep_files \<Rightarrow> json \<Rightarrow>
     measure_error + point_measurement" where
  "measure_point tn lib repo home sf point_value =
     (case point_value of
        JObject point \<Rightarrow>
          bind_res (raised_as MeasurePath (sweep_path home (get point ''run'') ''point run path'')) (\<lambda>run_path.
          bind_res (raised_as MeasurePath (sweep_path home (get point ''resolved_profile'') ''point resolved-profile path''))
            (\<lambda>resolved_path.
          bind_res (load_point_profile repo (sf_profiles sf) resolved_path) (\<lambda>(profile, resolved).
          bind_res (case sf_runs sf run_path of Some entry \<Rightarrow> Inr entry | None \<Rightarrow> Inl RunDirectory) (\<lambda>entry.
          bind_res (verify_entry lib repo entry resolved) (\<lambda>(shots, checked_words, _).
          bind_res (raised_as MeasureRun (bundle_open (se_files entry) False)) (\<lambda>b.
          bind_res (raised_as MeasureRun (sample_rate_hz (rb_manifest b) (Some DEFAULT_SAMPLE_RATE_HZ))) (\<lambda>(rate_hz, _).
          bind_res (number_field point ''observed_frequency_hz'') (\<lambda>frequency_hz.
          bind_res (raised_as MeasureAnalysis (expected_words repo profile (expected_count resolved))) (\<lambda>words.
          bind_res (raised_as MeasureCapture (decode_payload (word_bytes words))) (\<lambda>expected_capture.
          bind_res (coherent_tone tn (complex_samples expected_capture) frequency_hz rate_hz) (\<lambda>model_phasor.
          bind_res (map_res (shot_phasor tn (se_files entry) point frequency_hz rate_hz) (complete_shots b)) (\<lambda>phasors.
          bind_res (number_field point ''realized_baseband_frequency_hz'') (\<lambda>realized.
          bind_res (theoretical_fir_response tn repo realized) (\<lambda>fir.
          Inr (point_result tn point b shots checked_words (tn_mean tn phasors) model_phasor fir)))))))))))))))
      | _ \<Rightarrow> Inl PointShape)"

section \<open>The report\<close>

record point_verdict =
  pv_measurement :: point_measurement
  pv_measured_response_db :: rat
  pv_model_response_db :: rat
  pv_theoretical_fir_response_db :: rat
  pv_phase_required :: bool
  pv_pass :: bool

definition phase_matches :: "point_measurement \<Rightarrow> bool \<Rightarrow> bool" where
  "phase_matches m required \<longleftrightarrow> \<not> required \<or> \<bar>pm_phase_error_degrees m\<bar> \<le> PHASE_TOLERANCE_DEGREES"

definition judge_point :: "point_measurement \<Rightarrow> rat \<Rightarrow> point_measurement \<Rightarrow> point_verdict" where
  "judge_point reference phase_floor_db m =
     (let model = pm_model_magnitude_dbfs m - pm_model_magnitude_dbfs reference;
          required = (model \<ge> phase_floor_db)
      in \<lparr>pv_measurement = m,
          pv_measured_response_db = pm_measured_magnitude_dbfs m - pm_measured_magnitude_dbfs reference,
          pv_model_response_db = model,
          pv_theoretical_fir_response_db =
            pm_theoretical_fir_magnitude_db m - pm_theoretical_fir_magnitude_db reference,
          pv_phase_required = required,
          pv_pass = (pm_integrity_ok m \<and> pm_iq_mismatches m = 0 \<and>
            \<bar>pm_magnitude_error_db m\<bar> \<le> MAGNITUDE_TOLERANCE_DB \<and> phase_matches m required)\<rparr>)"

record sweep_summary =
  ss_passed :: bool
  ss_sweep_sha256 :: json
  ss_name :: json
  ss_phase_floor_db :: rat
  ss_total_words :: int
  ss_checks :: "(string \<times> bool) list"
  ss_points :: "point_verdict list"

definition measured_field :: "string \<Rightarrow> point_verdict \<Rightarrow> json" where
  "measured_field k v = get (pm_point (pv_measurement v)) k"

definition report_checks :: "point_verdict list \<Rightarrow> (string \<times> bool) list" where
  "report_checks vs =
     [(''all_points_complete'', list_all (\<lambda>v. pm_integrity_ok (pv_measurement v)) vs),
      (''all_config_ids_distinct'', distinct (map (measured_field ''dsp_config_id'') vs)),
      (''all_iq_words_bit_exact'', list_all (\<lambda>v. pm_iq_mismatches (pv_measurement v) = 0) vs),
      (''meaningful_phase_matches'', list_all (\<lambda>v. phase_matches (pv_measurement v) (pv_phase_required v)) vs),
      (''all_regions_measured'',
        set (map (measured_field ''region'') vs) = {JString ''passband'', JString ''transition'', JString ''stopband''})]"

definition evaluate_sweep ::
    "tone_numerics \<Rightarrow> numerics \<Rightarrow> repository_files \<Rightarrow> floats \<Rightarrow> string list \<Rightarrow> sweep_files \<Rightarrow> jobject \<Rightarrow>
     measure_error + sweep_summary" where
  "evaluate_sweep tn lib repo fl home sf plan =
     (case get plan ''points'' of
        JArray points \<Rightarrow>
          bind_res (map_res (measure_point tn lib repo home sf) points) (\<lambda>measured.
          case find (\<lambda>m. truthy (get (pm_point m) ''reference'')) measured of
            None \<Rightarrow> Inl NoReferencePoint
          | Some reference \<Rightarrow>
              (case float_of fl (get plan ''phase_response_floor_db'') of
                 None \<Rightarrow> Inl (MeasureNumber ''phase_response_floor_db'')
               | Some phase_floor_db \<Rightarrow>
                   let vs = map (judge_point reference phase_floor_db) measured; checks = report_checks vs in
                   Inr \<lparr>ss_passed = (list_all snd checks \<and> list_all pv_pass vs),
                        ss_sweep_sha256 = get plan ''sweep_sha256'', ss_name = get plan ''name'',
                        ss_phase_floor_db = phase_floor_db,
                        ss_total_words = sum_list (map (\<lambda>m. pm_words_checked m) measured),
                        ss_checks = checks, ss_points = vs\<rparr>))
      | _ \<Rightarrow> Inl PointShape)"

end
