(* ===== verification/SweepPlanLaws.thy ===== *)
theory SweepPlanLaws
  imports SweepPlan AcceptanceLaws
begin

text \<open>
  What a prepared plan is made of, and that its text is the one a later command reads the same
  plan from.
\<close>

section \<open>Text and value of a document\<close>

text \<open>\<open>repr\<close> of a floating-point number reads back as this number.\<close>

definition repr_reads :: "floats \<Rightarrow> bool" where
  "repr_reads fl \<longleftrightarrow>
     (\<forall>q. \<exists>y. decimal_of_string (fl_repr fl (fl_round fl q)) = Some y \<and> fl_round fl y = fl_round fl q)"

lemma float_value_repr:
  assumes "repr_reads fl"
  shows "float_value fl (fl_repr fl (fl_round fl q)) = fl_round fl q"
proof -
  obtain y where "decimal_of_string (fl_repr fl (fl_round fl q)) = Some y" "fl_round fl y = fl_round fl q"
    using assms unfolding repr_reads_def by blast
  then show ?thesis by (simp add: float_value_def)
qed

lemma insort_map: "insort_key f (g x) (map g xs) = map g (insort_key (\<lambda>x. f (g x)) x xs)"
  by (induction xs) simp_all

lemma sort_map: "sort_key f (map g xs) = map g (sort_key (\<lambda>x. f (g x)) xs)"
  by (induction xs) (simp_all add: insort_map)

lemma members_map:
  "float_texts fl xs = map (float_text fl) xs" "dumped_list fl xs = map (dumped fl) xs"
  "float_members fl d = map (\<lambda>(k, v). (k, float_text fl v)) d" "dumped_members fl d = map (\<lambda>(k, v). (k, dumped fl v)) d"
  by (induction xs, auto) (induction d, auto)+

lemma sort_members: "sort_key fst (map (\<lambda>(k, v). (k, g v)) d) = map (\<lambda>(k, v). (k, g v)) (sort_key fst d)"
  by (simp add: sort_map case_prod_beta)

definition float_stable :: "floats \<Rightarrow> json \<Rightarrow> bool" where
  "float_stable fl v \<longleftrightarrow> float_text fl (dumped fl v) = float_text fl v"

lemma stable_text: "repr_reads fl \<Longrightarrow> float_stable fl v"
proof (induction v)
  case (JFloat s)
  then show ?case unfolding float_stable_def float_text.simps dumped.simps
    by (simp only: float_value_def[of fl s] float_value_repr)
next
  case (JArray xs)
  then show ?case by (simp add: float_stable_def members_map cong: map_cong)
next
  case (JObject d)
  have "map (\<lambda>(k, v). (k, float_text fl (dumped fl v))) d = map (\<lambda>(k, v). (k, float_text fl v)) d"
    using JObject by (force simp: float_stable_def)
  moreover have "sort_key fst (map (\<lambda>(k, v). (k, float_text fl v)) (sort_key fst (map (\<lambda>(k, v). (k, dumped fl v)) d))) =
      sort_key fst (map (\<lambda>(k, v). (k, float_text fl (dumped fl v))) d)"
    by (simp add: sort_members comp_def case_prod_beta sort_key_id_if_sorted)
  ultimately show ?case by (simp only: float_stable_def members_map float_text.simps dumped.simps)
qed (simp_all add: float_stable_def)

section \<open>Reading a dumped document\<close>

lemma hook_single: "json_single v \<Longrightarrow> hook dup v = Inr v"
proof (induction v)
  case (JArray xs)
  then have "hook_list dup xs = Inr xs" by (intro hook_list_all) (auto simp: list_all_iff)
  then show ?case by simp
next
  case (JObject d)
  have "hook_pairs dup d = Inr d"
    by (rule hook_pairs_all) (use JObject in \<open>auto simp: list_all_iff\<close>)
  then show ?case using JObject.prems by (intro hook_object) simp_all
qed simp_all

lemma sort_distinct: "distinct (map fst d) \<Longrightarrow> distinct (map fst (sort_key fst d))"
  by (metis distinct_map distinct_sort set_sort)

lemma dumped_single: "json_single v \<Longrightarrow> json_single (dumped fl v)"
proof (induction v)
  case (JArray xs)
  then show ?case by (auto simp: members_map list_all_iff)
next
  case (JObject d)
  then show ?case by (auto simp: members_map sort_members sort_distinct list_all_iff comp_def case_prod_beta)
qed simp_all

lemma keys_dumped: "set (keys_of (sort_key fst (dumped_members fl d))) = set (keys_of d)"
  by (force simp: members_map sort_members image_iff)

lemma map_of_sort: "distinct (map fst d) \<Longrightarrow> map_of (sort_key fst d) = map_of d"
  by (rule map_of_inject_set[THEN iffD2]) (simp_all add: sort_distinct)

lemma get_dumped:
  assumes "json_single (JObject d)"
  shows "get (sort_key fst (dumped_members fl d)) k = dumped fl (get d k)"
proof -
  have "map_of (sort_key fst (dumped_members fl d)) = map_of (map (\<lambda>(k, v). (k, dumped fl v)) (sort_key fst d))"
    by (simp add: members_map sort_members)
  also have "\<dots> = map_option (dumped fl) \<circ> map_of d"
    using assms by (simp add: map_of_map map_of_sort)
  finally show ?thesis by (simp add: get_def split: option.splits)
qed

lemma dumped_string: "dumped fl v = JString s \<longleftrightarrow> v = JString s"
  by (cases v) simp_all

section \<open>The points of a plan\<close>

record plan_item =
  it_ordinal :: nat
  it_label :: string
  it_region :: string
  it_reference :: bool
  it_lo :: int
  it_observed :: string
  it_source :: json
  it_resolved :: jobject

definition item_stem :: "plan_item \<Rightarrow> string" where
  "item_stem i = point_stem (it_ordinal i) (it_label i)"

definition item_entry :: "int \<Rightarrow> plan_item \<Rightarrow> jobject" where
  "item_entry signal_hz i =
     point_entry (it_ordinal i) (it_label i) (it_region i) (it_reference i) (it_lo i) (signal_hz - it_lo i)
       (it_observed i) (it_resolved i)"

definition item_files :: "floats \<Rightarrow> plan_item \<Rightarrow> (string \<times> json) list" where
  "item_files fl i =
     [(''profiles/'' @ item_stem i @ ''.profile.json'', it_source i),
      (''profiles/'' @ item_stem i @ ''.resolved.json'', dumped fl (JObject (it_resolved i)))]"

definition item_ok ::
    "floats \<Rightarrow> (json \<Rightarrow> profile_error + jobject) \<Rightarrow> string \<Rightarrow> jobject \<Rightarrow> int \<Rightarrow> plan_item \<Rightarrow> bool" where
  "item_ok fl compile name base signal_hz i \<longleftrightarrow>
     label_ok (it_label i) \<and> 0 \<le> it_lo i \<and> it_lo i < SAMPLE_RATE_HZ div 2 \<and>
     it_region i = response_region (signal_hz - it_lo i) \<and>
     it_source i = dumped fl (JObject (point_source base name (it_label i) (it_lo i))) \<and>
     compile (it_source i) = Inr (it_resolved i)"

definition items_state :: "floats \<Rightarrow> int \<Rightarrow> plan_item list \<Rightarrow> plan_state \<Rightarrow> bool" where
  "items_state fl signal_hz items st \<longleftrightarrow>
     set (ps_labels st) = set (map it_label items) \<and> distinct (map it_label items) \<and>
     ps_references st = int (length (filter it_reference items)) \<and>
     set (ps_regions st) = set (map it_region items) \<and>
     ps_points st = map (JObject \<circ> item_entry signal_hz) items \<and>
     ps_staged st = concat (map (item_files fl) items)"

lemma plan_point_Inr:
  assumes "plan_point fl compile name base signal_hz (n, raw) st = Inr st'" "items_state fl signal_hz items st"
  obtains i where "item_ok fl compile name base signal_hz i" "it_ordinal i = n"
    "items_state fl signal_hz (items @ [i]) st'"
proof -
  obtain point label lo reference resolved where
    label: "(case get point ''label'' of
         JString label \<Rightarrow> (if label_ok label then Inr label else Inl (PointLabel n))
       | _ \<Rightarrow> Inl (PointLabel n)) = Inr label" "\<not> label \<in> set (ps_labels st)"
    and lo: "\<not> \<not> (0 \<le> lo \<and> lo < SAMPLE_RATE_HZ div 2)"
    and compiled: "compile (dumped fl (JObject (point_source base name label lo))) = Inr resolved"
    and st': "(case (float_of fl (get (section_object (section_object resolved ''dsp'') ''realized'') ''baseband_frequency_hz''),
           float_of fl (get (section_object resolved ''numerical_contract'') ''output_sample_rate_hz'')) of
       (Some realized_offset, Some output_rate) \<Rightarrow>
         Inr \<lparr>ps_labels = label # ps_labels st,
              ps_references = ps_references st + (if reference then 1 else 0),
              ps_regions = List.insert (response_region (signal_hz - lo)) (ps_regions st),
              ps_points = ps_points st @
                [JObject (point_entry n label (response_region (signal_hz - lo)) reference lo (signal_hz - lo)
                  (fl_repr fl (alias_frequency fl realized_offset output_rate)) resolved)],
              ps_staged = ps_staged st @
                [(''profiles/'' @ point_stem n label @ ''.profile.json'', dumped fl (JObject (point_source base name label lo))),
                 (''profiles/'' @ point_stem n label @ ''.resolved.json'', dumped fl (JObject resolved))]\<rparr>
     | _ \<Rightarrow> Inl (PointNumber label)) = Inr st'"
    using assms(1) unfolding plan_point_def Let_def prod.case[of _ n raw] bind_res_Inr_iff if_Inl_Inr_iff raised_as_Inr_iff
    by (elim exE conjE) (rule that, assumption+)
  have ok: "label_ok label" using label(1) by (auto split: json.splits if_splits)
  obtain offset rate where numbers:
    "float_of fl (get (section_object (section_object resolved ''dsp'') ''realized'') ''baseband_frequency_hz'') = Some offset"
    "float_of fl (get (section_object resolved ''numerical_contract'') ''output_sample_rate_hz'') = Some rate"
    using st' by (cases "float_of fl (get (section_object (section_object resolved ''dsp'') ''realized'') ''baseband_frequency_hz'')";
      cases "float_of fl (get (section_object resolved ''numerical_contract'') ''output_sample_rate_hz'')") simp_all
  define i where "i = \<lparr>it_ordinal = n, it_label = label, it_region = response_region (signal_hz - lo), it_reference = reference,
    it_lo = lo, it_observed = fl_repr fl (alias_frequency fl offset rate),
    it_source = dumped fl (JObject (point_source base name label lo)), it_resolved = resolved\<rparr>"
  have "item_ok fl compile name base signal_hz i" using ok lo compiled by (simp add: i_def item_ok_def)
  moreover have "items_state fl signal_hz (items @ [i]) st'"
    using assms(2) st' label(2) unfolding numbers
    by (auto simp: items_state_def i_def item_entry_def item_files_def item_stem_def)
  ultimately show thesis by (intro that[of i]) (simp_all add: i_def)
qed

lemma plan_points_Inr:
  assumes "fold_res (plan_point fl compile name base signal_hz) (enumerate n raws) st = Inr st'"
    and "items_state fl signal_hz items st"
  shows "\<exists>new. items_state fl signal_hz (items @ new) st' \<and> list_all (item_ok fl compile name base signal_hz) new \<and>
    map it_ordinal new = [n..<n + length raws]"
  using assms
proof (induction raws arbitrary: n st items)
  case (Cons raw raws)
  obtain st1 where st1: "plan_point fl compile name base signal_hz (n, raw) st = Inr st1"
      "fold_res (plan_point fl compile name base signal_hz) (enumerate (Suc n) raws) st1 = Inr st'"
    using Cons.prems(1) by (auto simp: bind_res_Inr_iff)
  obtain i where i: "item_ok fl compile name base signal_hz i" "it_ordinal i = n" "items_state fl signal_hz (items @ [i]) st1"
    by (rule plan_point_Inr[OF st1(1) Cons.prems(2)])
  obtain new where "items_state fl signal_hz ((items @ [i]) @ new) st'" "list_all (item_ok fl compile name base signal_hz) new"
      "map it_ordinal new = [Suc n..<Suc n + length raws]"
    using Cons.IH[OF st1(2) i(3)] by blast
  then show ?case using i by (intro exI[of _ "i # new"]) (simp add: upt_conv_Cons del: upt_Suc)
qed simp

section \<open>A prepared plan\<close>

lemma phase_floor_rounded:
  assumes "phase_floor fl v = Inr q"
  obtains x where "q = fl_round fl x"
  using assms by (cases v) (auto simp: phase_floor_def float_value_def)

definition plan_object ::
    "floats \<Rightarrow> string \<Rightarrow> string \<Rightarrow> bytes \<Rightarrow> string \<Rightarrow> rat \<Rightarrow> json list \<Rightarrow> jobject" where
  "plan_object fl name spec_path spec_bytes base_name floor_db points =
     [(''format'', JString PLAN_FORMAT), (''name'', JString name), (''source_spec'', JString spec_path),
      (''source_spec_sha256'', JString (hexdigest (sha256 spec_bytes))), (''base_profile'', JString base_name),
      (''phase_response_floor_db'', JFloat (fl_repr fl floor_db)),
      (''sweep_sha256'', JString (plan_identity fl points floor_db)), (''points'', JArray points)]"

lemma read_spec_Inr:
  assumes "read_spec fl spec = Inr (name, floor_db, points)"
  shows "3 \<le> length points" "\<exists>q. floor_db = fl_round fl q"
proof -
  obtain name' floor' where f: "phase_floor fl (get spec ''phase_response_floor_db'') = Inr floor'"
    and len': "(case get spec ''points'' of
            JArray points \<Rightarrow> if length points < 3 then Inl TooFewPoints else Inr (name', floor', points)
          | _ \<Rightarrow> Inl TooFewPoints) = Inr (name, floor_db, points)"
    using assms unfolding read_spec_def if_Inl_Inr_iff bind_res_Inr_iff by (elim exE conjE) (rule that, assumption+)
  have len: "3 \<le> length points \<and> floor' = floor_db"
    using len' by (cases "get spec ''points''") (auto split: if_splits)
  show "3 \<le> length points" using len by simp
  show "\<exists>q. floor_db = fl_round fl q" using phase_floor_rounded[OF f] len by blast
qed

lemma prepare_plan_Inr:
  assumes "prepare_plan fl compile reload sq spec_path spec_file output_exists = Inr (plan, files)"
  obtains name base base_name signal_hz q items words where
    "list_all (item_ok fl compile name base signal_hz) items" "map it_ordinal items = [0..<length items]" "3 \<le> length items"
    and "distinct (map it_label items)" "length (filter it_reference items) = 1"
    and "set (map it_region items) = {''passband'', ''transition'', ''stopband''}"
    and "distinct (map (point_field ''dsp_config_id'') (map (JObject \<circ> item_entry signal_hz) items))"
    and "map_res (tuning_word reload (concat (map (item_files fl) items))) (map (JObject \<circ> item_entry signal_hz) items) = Inr words"
    and "distinct words"
    and "plan = plan_object fl name spec_path (cf_bytes spec_file) base_name (fl_round fl q)
      (map (JObject \<circ> item_entry signal_hz) items)"
    and "files = concat (map (item_files fl) items) @ [(''sweep-plan.json'', dumped fl (JObject plan))]"
proof -
  obtain spec name floor_db raws base_name base signal_hz st words where
    spec: "read_spec fl spec = Inr (name, floor_db, raws)"
    and points: "fold_res (plan_point fl compile name base signal_hz) (enumerate 0 raws) no_points = Inr st"
    and checks: "\<not> ps_references st \<noteq> 1" "\<not> \<not> regions_covered (ps_regions st)"
      "\<not> \<not> distinct (map (point_field ''dsp_config_id'') (ps_points st))"
    and words: "map_res (tuning_word reload (ps_staged st)) (ps_points st) = Inr words" "\<not> \<not> distinct words"
    and result: "(Inr (plan_object fl name spec_path (cf_bytes spec_file) base_name floor_db (ps_points st),
      ps_staged st @ [(''sweep-plan.json'', dumped fl (JObject (plan_object fl name spec_path (cf_bytes spec_file)
        base_name floor_db (ps_points st))))]) :: sweep_error + jobject \<times> (string \<times> json) list) = Inr (plan, files)"
    using assms unfolding prepare_plan_def Let_def if_Inl_Inr_iff bind_res_Inr_iff split_paired_Ex prod.case
      plan_object_def[symmetric] by (elim exE conjE) (rule that, assumption+)
  have "items_state fl signal_hz [] no_points" by (simp add: items_state_def no_points_def)
  from plan_points_Inr[OF points this] obtain items where
    items: "items_state fl signal_hz items st" "list_all (item_ok fl compile name base signal_hz) items"
      "map it_ordinal items = [0..<length raws]" by auto
  have n: "length items = length raws" using items(3) by (metis length_map length_upt minus_nat.diff_0)
  obtain q where q: "floor_db = fl_round fl q" using read_spec_Inr(2)[OF spec] by blast
  show thesis
    by (rule that[of name base signal_hz items words base_name q])
       (use items n read_spec_Inr(1)[OF spec] checks words result q in \<open>auto simp: items_state_def regions_covered_def\<close>)
qed

text \<open>What the compiler of the profiles is relied on for.\<close>

definition compiles_documents :: "(json \<Rightarrow> profile_error + jobject) \<Rightarrow> bool" where
  "compiles_documents compile \<longleftrightarrow>
     (\<forall>v r. compile v = Inr r \<longrightarrow> json_single (JObject r) \<and>
        is_JString (get (section_object r ''identity'') ''dsp_config_id''))"

lemma single_hook:
  "hook dup v = Inr w \<Longrightarrow> json_single v" "hook_list dup vs = Inr ws \<Longrightarrow> list_all json_single vs"
  "hook_pairs dup kvs = Inr kws \<Longrightarrow> list_all (\<lambda>(k, v). json_single v) kvs"
  by (induction dup v and dup vs and dup kvs arbitrary: w and ws and kws rule: hook_hook_list_hook_pairs.induct)
     (auto simp: bind_res_Inr_iff unique_keys_Inr dest: hook_same)

lemma compile_profile_documents: "compiles_documents (compile_profile repo tables registers)"
  unfolding compiles_documents_def
proof (intro allI impI conjI)
  fix v r
  assume r: "compile_profile repo tables registers v = Inr r"
  show "json_single (JObject r)" by (rule single_hook(1)[OF compiled_hook[OF r]])
  obtain name digest profile_digest contract rq acq seq writes where
    "r = resolved_parts name digest profile_digest contract rq acq seq writes"
    by (rule compiled_parts[OF r]) blast
  then show "is_JString (get (section_object r ''identity'') ''dsp_config_id'')"
    by (simp add: resolved_parts_def section_object_def get_def)
qed

lemma section_single: "json_single (JObject d) \<Longrightarrow> json_single (JObject (section_object d k))"
  using get_single[of d k] by (cases "get d k") (simp_all add: section_object_def)

lemma item_entry_single:
  assumes "json_single (JObject (it_resolved i))"
  shows "json_single (JObject (item_entry signal_hz i))"
  using get_single[OF section_single[OF section_single[OF assms]]] get_single[OF section_single[OF assms]]
  by (simp add: item_entry_def point_entry_def Let_def)

lemma load_prepared:
  assumes fl: "repr_reads fl" and single: "list_all json_single points"
    and plan_def: "plan = plan_object fl name spec_path spec_bytes base_name (fl_round fl q) points"
  shows "\<exists>loaded. load_plan fl (Some (dumped fl (JObject plan))) = Inr loaded \<and>
    get loaded ''points'' = JArray (map (dumped fl) points) \<and> get loaded ''name'' = JString name \<and>
    get loaded ''source_spec_sha256'' = JString (hexdigest (sha256 spec_bytes))"
proof -
  have plan: "json_single (JObject plan)" using single by (simp add: plan_def plan_object_def)
  define loaded where "loaded = sort_key fst (dumped_members fl plan)"
  have dump: "dumped fl (JObject plan) = JObject loaded" by (simp add: loaded_def)
  have single: "json_single (JObject loaded)" using dumped_single[OF plan, of fl] by (simp only: dump)
  have read: "sweep_load_json ''sweep-plan.json'' (Some (JObject loaded)) = Inr loaded"
    by (simp only: sweep_load_json_def option.case hook_single[OF single] bind_res_simps json.case)
  have "set (keys_of loaded) = set plan_keys"
    unfolding loaded_def keys_dumped by (simp add: plan_def plan_object_def plan_keys_def)
  then have keys: "exact_keys (JObject loaded) plan_keys ''sweep plan'' = Inr loaded"
    by (auto simp: exact_keys_def Let_def filter_empty_conv)
  note got = get_dumped[OF plan, of fl, folded loaded_def]
  have fields: "get loaded ''format'' = JString PLAN_FORMAT" "get loaded ''name'' = JString name"
    "get loaded ''source_spec_sha256'' = JString (hexdigest (sha256 spec_bytes))"
    "get loaded ''phase_response_floor_db'' = JFloat (fl_repr fl (fl_round fl q))"
    "get loaded ''sweep_sha256'' = JString (plan_identity fl points (fl_round fl q))"
    "get loaded ''points'' = JArray (map (dumped fl) points)"
    unfolding got by (simp_all add: plan_def plan_object_def get_def float_value_repr[OF fl] members_map)
  have floor_db: "float_of fl (JFloat (fl_repr fl (fl_round fl q))) = Some (fl_round fl q)"
    using fl[unfolded repr_reads_def, rule_format, of q] by (auto simp: float_of_def)
  have "float_text fl (JArray (map (dumped fl) points)) = float_text fl (JArray points)"
    using stable_text[OF fl, of "JArray points"] by (simp add: float_stable_def members_map)
  then have identity: "plan_identity fl (map (dumped fl) points) = plan_identity fl points"
    by (intro ext) (simp add: plan_identity_def)
  have "load_plan fl (Some (dumped fl (JObject plan))) = Inr loaded"
    unfolding load_plan_def dump read bind_res_simps keys fields json.case floor_db option.case identity by simp
  then show ?thesis using fields by blast
qed

end
