(* ===== verification/SweepLaws.thy ===== *)
theory SweepLaws
  imports SweepReport SweepPlanLaws
begin

text \<open>
  What the report of a sweep measures on runs that pass verification.
\<close>

section \<open>A verified run\<close>

text \<open>A run beside which the point's own profile lies, whose shots have the configured length.\<close>

definition full_run :: "sweep_entry \<Rightarrow> config_file \<Rightarrow> jobject \<Rightarrow> bool" where
  "full_run entry profile resolved \<longleftrightarrow> se_profile entry = Some profile \<and>
     (\<forall>b. bundle_open (se_files entry) False = Inr b \<longrightarrow>
        list_all (\<lambda>shot. int (shot_words (se_files entry) shot) = expected_count resolved) (complete_shots b))"

lemma measure_point_Inr:
  assumes "measure_point tn lib repo home sf point_value = Inr m"
  obtains point run_path resolved_path profile resolved entry shots words hz b rate_hz frequency_hz ws capture model
      phasors fir where "point_value = JObject point"
    and "sweep_path home (get point ''run'') ''point run path'' = Inr run_path"
    and "sweep_path home (get point ''resolved_profile'') ''point resolved-profile path'' = Inr resolved_path"
    and "load_point_profile repo (sf_profiles sf) resolved_path = Inr (profile, resolved)"
    and "sf_runs sf run_path = Some entry" "verify_entry lib repo entry resolved = Inr (shots, words, hz)"
    and "bundle_open (se_files entry) False = Inr b"
    and "expected_words repo profile (expected_count resolved) = Inr ws" "decode_payload (word_bytes ws) = Inr capture"
    and "coherent_tone tn (complex_samples capture) frequency_hz rate_hz = Inr model"
    and "map_res (shot_phasor tn (se_files entry) point frequency_hz rate_hz) (complete_shots b) = Inr phasors"
    and "m = point_result tn point b shots words (tn_mean tn phasors) model fir"
proof (cases point_value)
  case (JObject point)
  obtain run_path resolved_path profile resolved entry shots words hz b rate_hz frequency_hz ws capture model phasors fir
    where paths: "sweep_path home (get point ''run'') ''point run path'' = Inr run_path"
      "sweep_path home (get point ''resolved_profile'') ''point resolved-profile path'' = Inr resolved_path"
      "load_point_profile repo (sf_profiles sf) resolved_path = Inr (profile, resolved)"
    and entry: "(case sf_runs sf run_path of Some entry \<Rightarrow> Inr entry | None \<Rightarrow> Inl RunDirectory) = Inr entry"
    and rest: "verify_entry lib repo entry resolved = Inr (shots, words, hz)" "bundle_open (se_files entry) False = Inr b"
      "expected_words repo profile (expected_count resolved) = Inr ws" "decode_payload (word_bytes ws) = Inr capture"
      "coherent_tone tn (complex_samples capture) frequency_hz rate_hz = Inr model"
      "map_res (shot_phasor tn (se_files entry) point frequency_hz rate_hz) (complete_shots b) = Inr phasors"
      "(Inr (point_result tn point b shots words (tn_mean tn phasors) model fir) :: measure_error + point_measurement) = Inr m"
    using assms unfolding measure_point_def JObject json.case bind_res_Inr_iff split_paired_Ex prod.case raised_as_Inr_iff
    by (elim exE conjE) (rule that, assumption+)
  have "sf_runs sf run_path = Some entry" using entry by (simp split: option.splits)
  then show thesis using that[OF JObject paths _ rest(1-6)] rest(7) by blast
qed (use assms in \<open>simp_all add: measure_point_def\<close>)

lemma rat_mod_half: "phase_error_degrees a a = 0"
  by (simp add: phase_error_degrees_def rat_mod_def floor_eq_iff)

lemma map_res_constant: "(\<And>x. x \<in> set xs \<Longrightarrow> f x = Inr y) \<Longrightarrow> map_res f xs = Inr (replicate (length xs) y)"
  by (induction xs) simp_all

text \<open>Its every shot gives the phasor of the model's words.\<close>

lemma full_shot_phasor:
  assumes matches: "shot_matches repo profile files i shot" and full: "int (shot_words files shot) = expected_count resolved"
    and model: "expected_words repo profile (expected_count resolved) = Inr ws" "decode_payload (word_bytes ws) = Inr capture"
      "coherent_tone tn (complex_samples capture) frequency_hz rate_hz = Inr phasor"
  shows "shot_phasor tn files point frequency_hz rate_hz shot = Inr phasor"
proof -
  obtain payload where p: "bundle_samples files shot = Inr payload" "crc32 payload = sr_payload_crc32 shot"
      "length payload mod 4 = 0" "expected_words repo profile (int (length payload div 4)) = Inr (le_words payload)"
    using matches by (auto simp: shot_matches_def split: sum.splits)
  have "int (length payload div 4) = expected_count resolved" using full p(1) by (simp add: shot_words_def)
  then have "ws = le_words payload" using p(4) model(1) by simp
  then have "decode_payload payload = Inr capture" using model(2) word_bytes_words[OF p(3)] by simp
  then show ?thesis using p(1,2) model(3) by (simp add: shot_phasor_def)
qed

lemma full_run_measurement:
  assumes "measure_point tn lib repo home sf point_value = Inr m"
    and full: "\<And>point run_path resolved_path profile resolved entry. point_value = JObject point \<Longrightarrow>
      sweep_path home (get point ''run'') ''point run path'' = Inr run_path \<Longrightarrow>
      sweep_path home (get point ''resolved_profile'') ''point resolved-profile path'' = Inr resolved_path \<Longrightarrow>
      load_point_profile repo (sf_profiles sf) resolved_path = Inr (profile, resolved) \<Longrightarrow>
      sf_runs sf run_path = Some entry \<Longrightarrow> full_run entry profile resolved"
    and mean: "\<And>n p. tn_mean tn (replicate (Suc n) p) = p" and unit: "tn_log10 tn 1 = 0"
  shows "pm_magnitude_error_db m = 0" "pm_phase_error_degrees m = 0" "pm_integrity_ok m" "pm_iq_mismatches m = 0"
    "point_value = JObject (pm_point m)"
proof (atomize (full), rule measure_point_Inr[OF assms(1)])
  fix point run_path resolved_path profile resolved entry shots words hz b rate_hz frequency_hz ws capture model phasors fir
  assume point: "point_value = JObject point" and paths: "sweep_path home (get point ''run'') ''point run path'' = Inr run_path"
      "sweep_path home (get point ''resolved_profile'') ''point resolved-profile path'' = Inr resolved_path"
      "load_point_profile repo (sf_profiles sf) resolved_path = Inr (profile, resolved)" "sf_runs sf run_path = Some entry"
    and verified: "verify_entry lib repo entry resolved = Inr (shots, words, hz)" and b: "bundle_open (se_files entry) False = Inr b"
    and model: "expected_words repo profile (expected_count resolved) = Inr ws" "decode_payload (word_bytes ws) = Inr capture"
      "coherent_tone tn (complex_samples capture) frequency_hz rate_hz = Inr model"
    and phasors: "map_res (shot_phasor tn (se_files entry) point frequency_hz rate_hz) (complete_shots b) = Inr phasors"
    and m: "m = point_result tn point b shots words (tn_mean tn phasors) model fir"
  have full: "se_profile entry = Some profile"
    "list_all (\<lambda>shot. int (shot_words (se_files entry) shot) = expected_count resolved) (complete_shots b)"
    using assms(2)[OF point paths] b unfolding full_run_def by blast+
  have "verify_run lib repo (se_files entry) profile resolved = Inr (shots, words, hz)"
    using verified by (simp add: verify_entry_def full(1) raised_as_Inr_iff)
  then obtain i where run: "integrity_ok (bundle_health b)" "complete_shots b \<noteq> []"
      "list_all (shot_matches repo profile (se_files entry) i) (complete_shots b)"
    using b by (auto elim!: verify_run_Inr)
  have same: "shot_phasor tn (se_files entry) point frequency_hz rate_hz shot = Inr model"
    if shot: "shot \<in> set (complete_shots b)" for shot
  proof -
    have "shot_matches repo profile (se_files entry) i shot" "int (shot_words (se_files entry) shot) = expected_count resolved"
      using run(3) full(2) shot by (simp_all add: list_all_iff)
    then show ?thesis by (rule full_shot_phasor[OF _ _ model])
  qed
  have "map_res (shot_phasor tn (se_files entry) point frequency_hz rate_hz) (complete_shots b) =
      Inr (replicate (length (complete_shots b)) model)" by (rule map_res_constant) (rule same)
  then have "phasors = replicate (length (complete_shots b)) model" using phasors by simp
  then have "tn_mean tn phasors = model" using mean run(2) by (cases "complete_shots b") simp_all
  moreover have "floored tn model \<noteq> 0" unfolding floored_def by (simp add: max_def)
  ultimately show "(pm_magnitude_error_db m = 0 \<and> pm_phase_error_degrees m = 0) \<and> pm_integrity_ok m \<and> pm_iq_mismatches m = 0 \<and>
      point_value = JObject (pm_point m)"
    using run(1) unit by (simp add: m point point_result_def decibels_def rat_mod_half)
qed

section \<open>The report\<close>

text \<open>Every run of the points is a full one.\<close>

definition full_points :: "repository_files \<Rightarrow> string list \<Rightarrow> sweep_files \<Rightarrow> json list \<Rightarrow> bool" where
  "full_points repo home sf points \<longleftrightarrow>
     (\<forall>point run_path resolved_path profile resolved entry. JObject point \<in> set points \<longrightarrow>
        sweep_path home (get point ''run'') ''point run path'' = Inr run_path \<longrightarrow>
        sweep_path home (get point ''resolved_profile'') ''point resolved-profile path'' = Inr resolved_path \<longrightarrow>
        load_point_profile repo (sf_profiles sf) resolved_path = Inr (profile, resolved) \<longrightarrow>
        sf_runs sf run_path = Some entry \<longrightarrow> full_run entry profile resolved)"

lemma evaluate_sweep_Inr:
  assumes "evaluate_sweep tn lib repo fl home sf plan = Inr s" "get plan ''points'' = JArray points"
  obtains measured reference floor_db where "map_res (measure_point tn lib repo home sf) points = Inr measured"
    and "ss_points s = map (judge_point reference floor_db) measured" "ss_checks s = report_checks (ss_points s)"
    and "ss_passed s \<longleftrightarrow> list_all snd (ss_checks s) \<and> list_all pv_pass (ss_points s)"
proof -
  obtain measured where m: "map_res (measure_point tn lib repo home sf) points = Inr measured"
    and rest: "(case find (\<lambda>m. truthy (get (pm_point m) ''reference'')) measured of
            None \<Rightarrow> Inl NoReferencePoint
          | Some reference \<Rightarrow>
              (case float_of fl (get plan ''phase_response_floor_db'') of
                 None \<Rightarrow> Inl (MeasureNumber ''phase_response_floor_db'')
               | Some phase_floor_db \<Rightarrow>
                   let vs = map (judge_point reference phase_floor_db) measured; checks = report_checks vs in
                   Inr \<lparr>ss_passed = (list_all snd checks \<and> list_all pv_pass vs),
                        ss_sweep_sha256 = get plan ''sweep_sha256'', ss_name = get plan ''name'',
                        ss_phase_floor_db = phase_floor_db,
                        ss_total_words = sum_list (map (\<lambda>m. pm_words_checked m) measured),
                        ss_checks = checks, ss_points = vs\<rparr>)) = Inr s"
    using assms(1) unfolding evaluate_sweep_def assms(2) json.case bind_res_Inr_iff by blast
  obtain reference floor_db where found: "find (\<lambda>m. truthy (get (pm_point m) ''reference'')) measured = Some reference"
      "float_of fl (get plan ''phase_response_floor_db'') = Some floor_db"
    using rest by (cases "find (\<lambda>m. truthy (get (pm_point m) ''reference'')) measured";
        cases "float_of fl (get plan ''phase_response_floor_db'')") simp_all
  show thesis
    by (rule that[OF m, of reference floor_db]) (use rest in \<open>auto simp: found Let_def\<close>)
qed

lemma full_measurements:
  assumes "map_res (measure_point tn lib repo home sf) points = Inr measured" "full_points repo home sf points"
    and "\<And>n p. tn_mean tn (replicate (Suc n) p) = p" "tn_log10 tn 1 = 0"
  shows "points = map (JObject \<circ> pm_point) measured"
    and "list_all (\<lambda>m. pm_magnitude_error_db m = 0 \<and> pm_phase_error_degrees m = 0 \<and> pm_integrity_ok m \<and> pm_iq_mismatches m = 0)
      measured"
proof -
  have each: "list_all2 (\<lambda>p m. p = JObject (pm_point m) \<and> pm_magnitude_error_db m = 0 \<and> pm_phase_error_degrees m = 0 \<and>
      pm_integrity_ok m \<and> pm_iq_mismatches m = 0) points measured"
    unfolding list_all2_conv_all_nth
  proof (intro conjI allI impI)
    have all: "list_all2 (\<lambda>p m. measure_point tn lib repo home sf p = Inr m) points measured"
      using assms(1) unfolding map_res_Inr_iff .
    then show "length points = length measured" by (rule list_all2_lengthD)
    fix k
    assume k: "k < length points"
    have m: "measure_point tn lib repo home sf (points ! k) = Inr (measured ! k)" by (rule list_all2_nthD[OF all k])
    have "full_run entry profile resolved" if "points ! k = JObject point"
      "sweep_path home (get point ''run'') ''point run path'' = Inr run_path"
      "sweep_path home (get point ''resolved_profile'') ''point resolved-profile path'' = Inr resolved_path"
      "load_point_profile repo (sf_profiles sf) resolved_path = Inr (profile, resolved)" "sf_runs sf run_path = Some entry"
      for point run_path resolved_path profile resolved entry
    proof -
      have "JObject point \<in> set points" using that(1) k nth_mem by metis
      then show ?thesis using assms(2) that(2-5) unfolding full_points_def by blast
    qed
    note full = full_run_measurement[OF m this assms(3,4)]
    show "points ! k = JObject (pm_point (measured ! k))" by (rule full(5))
    show "pm_magnitude_error_db (measured ! k) = 0" by (rule full(1))
    show "pm_phase_error_degrees (measured ! k) = 0" by (rule full(2))
    show "pm_integrity_ok (measured ! k)" by (rule full(3))
    show "pm_iq_mismatches (measured ! k) = 0" by (rule full(4))
  qed
  then show "points = map (JObject \<circ> pm_point) measured"
    by (intro nth_equalityI) (auto simp: list_all2_conv_all_nth)
  show "list_all (\<lambda>m. pm_magnitude_error_db m = 0 \<and> pm_phase_error_degrees m = 0 \<and> pm_integrity_ok m \<and> pm_iq_mismatches m = 0)
      measured"
    using each by (simp add: list_all2_conv_all_nth list_all_length)
qed

lemma full_verdicts:
  assumes "list_all (\<lambda>m. pm_magnitude_error_db m = 0 \<and> pm_phase_error_degrees m = 0 \<and> pm_integrity_ok m \<and> pm_iq_mismatches m = 0)
      measured"
    and vs_def: "vs = map (judge_point reference floor_db) measured"
  shows "list_all pv_pass vs" "list_all snd (report_checks vs) \<longleftrightarrow>
    distinct (map (measured_field ''dsp_config_id'') vs) \<and>
    set (map (measured_field ''region'') vs) = {JString ''passband'', JString ''transition'', JString ''stopband''}"
proof -
  have "pv_measurement (judge_point reference floor_db m) = m" for m by (simp add: judge_point_def Let_def)
  then have same: "phase_matches m t" "pv_pass (judge_point reference floor_db m)" if "m \<in> set measured" for m t
    using assms(1) that
    by (auto simp: list_all_iff phase_matches_def judge_point_def Let_def MAGNITUDE_TOLERANCE_DB_def PHASE_TOLERANCE_DEGREES_def)
  have m: "pv_measurement (judge_point reference floor_db m) = m" for m by (simp add: judge_point_def Let_def)
  show "list_all pv_pass vs" using same(2) by (simp add: vs_def list_all_iff)
  show "list_all snd (report_checks vs) \<longleftrightarrow> distinct (map (measured_field ''dsp_config_id'') vs) \<and>
    set (map (measured_field ''region'') vs) = {JString ''passband'', JString ''transition'', JString ''stopband''}"
    using assms(1) same(1) by (auto simp: report_checks_def vs_def list_all_iff m)
qed

end
