(* ===== verification/SweepExample.thy ===== *)
theory SweepExample
  imports SweepPlanLaws
begin

text \<open>
  A sweep of three points on which the hypotheses of the sweep properties hold: whole numbers as
  floating-point numbers, and a compiler that puts the LO frequency where the plan reads it.
\<close>

definition whole_floats :: floats where
  "whole_floats = \<lparr>fl_round = (\<lambda>q. of_int \<lfloor>q\<rfloor>),
     fl_repr = (\<lambda>q. decimal_string (Dec (q < 0) (nat \<lfloor>\<bar>q\<bar>\<rfloor>) 0))\<rparr>"

lemma whole_value: "dec_value (Dec (of_int i < (0 :: rat)) (nat \<lfloor>\<bar>of_int i :: rat\<bar>\<rfloor>) 0) = of_int i"
  by (cases "i < 0") (simp_all add: dec_value_def scale10_def)

lemma whole_repr_reads: "repr_reads whole_floats"
  unfolding repr_reads_def whole_floats_def floats.simps decimal_string_reads whole_value by simp

definition lo_compile :: "json \<Rightarrow> profile_error + jobject" where
  "lo_compile v =
     (case v of
        JObject d \<Rightarrow>
          (let lo = jint (get (section_object d ''dsp'') ''lo_frequency_hz'')
           in Inr [(''identity'', JObject [(''dsp_config_id'', JString (hexadecimal (lo div 1000000) 64)),
                (''dsp_config_sha256'', JString []), (''profile_sha256'', JString [])]),
              (''numerical_contract'', JObject [(''output_sample_rate_hz'', JInt 12500000)]),
              (''dsp'', JObject [(''active'', JObject [(''LO_PHASE_INCREMENT'', JInt lo)]),
                (''realized'', JObject [(''lo_frequency_hz'', JString ''0''), (''baseband_frequency_hz'', JString ''0'')])])])
      | _ \<Rightarrow> Inl ProfileRoot)"

definition same_document :: "json \<Rightarrow> profile_error + jobject" where
  "same_document v = (case v of JObject d \<Rightarrow> Inr d | _ \<Rightarrow> Inl ProfileRoot)"

lemma lo_compiles: "compiles_documents lo_compile"
  by (auto simp: compiles_documents_def lo_compile_def Let_def section_object_def get_def split: json.splits)

definition example_point :: "string \<Rightarrow> int \<Rightarrow> string \<Rightarrow> bool \<Rightarrow> json" where
  "example_point label lo region reference =
     JObject [(''label'', JString label), (''lo_frequency_hz'', JInt lo), (''region'', JString region),
       (''reference'', JBool reference)]"

definition example_points :: "json list" where
  "example_points = [example_point ''dc'' 30000000 ''passband'' True, example_point ''mid'' 27000000 ''transition'' False,
     example_point ''stop'' 23000000 ''stopband'' False]"

definition example_spec :: config_file where
  "example_spec = \<lparr>cf_bytes = [], cf_parsed = Some (JObject
     [(''format'', JString SWEEP_FORMAT), (''name'', JString ''s''), (''base_profile'', JString ''base.json''),
      (''phase_response_floor_db'', JInt (-50)), (''points'', JArray example_points)])\<rparr>"

definition example_base :: json where
  "example_base = JObject [(''name'', JString ''b''),
     (''dsp'', JObject [(''signal_frequency_hz'', JInt 30000000), (''lo_frequency_hz'', JInt 30000000)])]"

definition example_sweep_repository :: sweep_repository where
  "example_sweep_repository = \<lparr>sq_file = (\<lambda>p. ParsedFile example_base), sq_name = (\<lambda>p. p)\<rparr>"

lemma example_fold:
  "(case fold_res (plan_point whole_floats lo_compile ''s'' (case example_base of JObject d \<Rightarrow> d | _ \<Rightarrow> []) 30000000)
     (enumerate 0 example_points) no_points of
     Inr st \<Rightarrow> ps_references st = 1 \<and> regions_covered (ps_regions st) \<and>
       distinct (map (point_field ''dsp_config_id'') (ps_points st)) \<and>
       map_res (tuning_word same_document (ps_staged st)) (ps_points st) = Inr [JInt 30000000, JInt 27000000, JInt 23000000]
   | Inl e \<Rightarrow> False)"
  by code_simp

lemma example_reads:
  "bind_res (sweep_load_json ''sweep.json'' (cf_parsed example_spec)) (\<lambda>loaded.
   bind_res (exact_keys (JObject loaded) spec_keys ''sweep'') (\<lambda>spec.
   bind_res (read_spec whole_floats spec) (\<lambda>(name, floor_db, raw_points).
   Inr (name, floor_db, raw_points, get spec ''base_profile'')))) = Inr (''s'', -50, example_points, JString ''base.json'')"
  "base_profile_file example_sweep_repository (JString ''base.json'') = Inr (''base.json'', example_base)"
  "(case lo_compile example_base of Inr _ \<Rightarrow> True | Inl _ \<Rightarrow> False)"
  "bind_res (sweep_load_json ''base.json'' (Some example_base)) (\<lambda>d. Inr (JObject d, get (section_object d ''dsp'') ''signal_frequency_hz'')) =
     Inr (example_base, JInt 30000000)"
  by code_simp+

lemma example_plan:
  "\<exists>plan files. prepare_plan whole_floats lo_compile same_document example_sweep_repository ''sweep.json'' example_spec False =
     Inr (plan, files)"
proof -
  obtain loaded spec where spec: "sweep_load_json ''sweep.json'' (cf_parsed example_spec) = Inr loaded"
    "exact_keys (JObject loaded) spec_keys ''sweep'' = Inr spec" "read_spec whole_floats spec = Inr (''s'', -50, example_points)"
    "get spec ''base_profile'' = JString ''base.json''"
    using example_reads(1) by (auto simp: bind_res_Inr_iff)
  obtain base r where base: "sweep_load_json ''base.json'' (Some example_base) = Inr base" "JObject base = example_base"
    "get (section_object base ''dsp'') ''signal_frequency_hz'' = JInt 30000000" "lo_compile example_base = Inr r"
    using example_reads(3,4) by (auto simp: bind_res_Inr_iff split: sum.splits)
  obtain st where st: "fold_res (plan_point whole_floats lo_compile ''s'' base 30000000) (enumerate 0 example_points) no_points = Inr st"
    "ps_references st = 1" "regions_covered (ps_regions st)" "distinct (map (point_field ''dsp_config_id'') (ps_points st))"
    "map_res (tuning_word same_document (ps_staged st)) (ps_points st) = Inr [JInt 30000000, JInt 27000000, JInt 23000000]"
    using example_fold unfolding base(2)[symmetric] json.case by (auto split: sum.splits)
  show ?thesis
    unfolding prepare_plan_def Let_def if_False spec bind_res_simps prod.case example_reads(2) base json.case raised_as_Inr st
    using st(3,4) by simp
qed

end
