(* ===== verification/SweepRunExample.thy ===== *)
theory SweepRunExample
  imports SweepLaws SweepExample ExperimentExample
begin

text \<open>
  A run of one shot of the length the example profile asks for, all words 0, and its sweep of one point.
\<close>

section \<open>The run\<close>

definition full_words :: nat where "full_words = 4096"

lemma full_words_bounds: "32 < full_words" "1 \<le> int full_words" "int full_words = 4096" "full_words \<noteq> 0"
  by (simp_all add: full_words_def)

definition full_payload :: bytes where "full_payload = word_bytes (replicate full_words 0)"

definition full_shot :: shot_record where
  "full_shot = example_shot\<lparr>sr_sample_bytes := 16384, sr_frame_count := 4, sr_frame_samples := 1024,
     sr_payload_crc32 := crc32 full_payload\<rparr>"

definition full_files :: "int \<Rightarrow> run_files" where
  "full_files center = \<lparr>rf_index = sample_header @ record_image full_shot, rf_samples = Some full_payload,
     rf_run_json = Some \<lparr>rp_signature = (0, 0, 0), rp_parsed = Some (JObject (example_manifest center))\<rparr>,
     rf_sender_json = Some \<lparr>rp_signature = (0, 0, 0), rp_parsed = Some (JObject (example_sender center))\<rparr>\<rparr>"

definition full_bundle :: "int \<Rightarrow> run_bundle" where
  "full_bundle center = \<lparr>rb_run_id = 3, rb_stream_id = 1, rb_shots = [full_shot],
     rb_manifest = Some (example_manifest center), rb_sender_report = Some (example_sender center)\<rparr>"

lemma full_payload_facts: "length full_payload = 16384" "le_words full_payload = replicate full_words 0"
proof -
  have "length (word_bytes ws) = 4 * length ws" for ws by (induction ws) (simp_all add: word_bytes_def)
  then show "length full_payload = 16384" by (simp add: full_payload_def full_words_def)
  show "le_words full_payload = replicate full_words 0"
    unfolding full_payload_def by (rule le_words_bytes) (simp add: list_all_iff)
qed

lemma full_fields: "sr_config_id full_shot = 0xaf46287bb969ed24" "sr_payload_crc32 full_shot = crc32 full_payload"
    "sr_payload_format full_shot = 2" "sr_sample_bytes_per_word full_shot = 4" "sr_frame_count full_shot = 4"
    "sr_frame_samples full_shot = 1024" "sr_sample_offset full_shot = 0" "sr_sample_bytes full_shot = 16384"
    "shot_complete full_shot"
  by (simp_all add: full_shot_def example_shot_def shot_one_def shot_complete_def)

lemma full_record: "record_valid full_shot"
  using crc32_bounds[of full_payload]
  by (simp add: record_valid_def fields_ok_def record_sizes_def record_values_def full_shot_def example_shot_def shot_one_def)

lemma full_opens: "bundle_open (full_files center) False = Inr (full_bundle center)"
proof -
  have len: "length (record_image full_shot) = 128"
    using full_record write_fields_length[of record_sizes "record_values full_shot"]
    by (simp add: record_valid_def record_image_def record_sizes_def)
  have header: "length sample_header = 32" "header_identity sample_header = Inr (3, 1)" by code_simp+
  have identity: "header_identity (sample_header @ record_image full_shot) = Inr (3, 1)"
    using header_prefix[of "sample_header @ record_image full_shot"] header by simp
  have "record_slices (record_image full_shot) = [record_image full_shot]"
    using len record_slices_exact[of "record_image full_shot" 1] by simp
  moreover have "shot_decode (record_image full_shot) = Inr full_shot" using full_record by (simp only: shot_decode_exact)
  ultimately have shots: "map_res shot_decode (record_slices (record_image full_shot)) = Inr [full_shot]" by simp
  have check: "check_shots (int (length full_payload)) 0 None [full_shot] = Inr ()"
    by (simp add: full_fields full_payload_facts)
  note reports = example_reports[of center, unfolded example_files_def run_files.simps]
  show ?thesis
    by (simp add: bundle_open_def full_files_def Let_def QIDX_HEADER_BYTES_def QIDX_RECORD_BYTES_def header len identity ensure_def
        shots check reports full_bundle_def del: check_shots.simps)
qed

lemma full_samples: "bundle_samples (full_files center) full_shot = Inr full_payload"
  by (simp add: bundle_samples_def full_files_def read_samples_def full_fields pread_def full_payload_facts)

lemma full_health: "run_complete (rb_manifest (full_bundle center)) = Some True" "integrity_ok (bundle_health (full_bundle center))"
    "complete_shots (full_bundle center) = [full_shot]"
proof -
  show c: "complete_shots (full_bundle center) = [full_shot]"
    by (simp add: complete_shots_def full_bundle_def full_fields)
  have "incomplete_shots (full_bundle center) = []" by (simp add: incomplete_shots_def full_bundle_def full_fields)
  then show "integrity_ok (bundle_health (full_bundle center))"
    by (simp add: integrity_ok_def record_integrity_ok_def acquisition_integrity_ok_def bundle_health_def build_health_def
        bundle_totals_def Let_def c skipped_ids_def total_of_def full_bundle_def example_manifest_def example_sender_def
        manifest_integer_def get_def section_of_def sender_counter_def or_zero_def full_shot_def example_shot_def shot_one_def)
  show "run_complete (rb_manifest (full_bundle center)) = Some True"
    by (simp add: run_complete_def full_bundle_def example_manifest_def get_default_def has_key_def get_def)
qed

section \<open>Its profile\<close>

lemma config_geometry:
  assumes "config_from_resolved_document r = Inr cfg" "get r ''acquisition'' = JObject a"
    and "has_key r ''acquisition''" "has_key a ''frame_length_words''" "has_key a ''frame_count''"
    and "get a ''frame_length_words'' = JInt l" "get a ''frame_count'' = JInt n"
  shows "output_samples cfg = l * n"
proof -
  obtain acq l' n' c where acq: "item (JObject r) ''acquisition'' = Inr acq" "item_int acq ''frame_length_words'' = Inr l'"
      "item_int acq ''frame_count'' = Inr n'" "validate_config c = Inr cfg" "c_frame_length c = l'" "c_frame_count c = n'"
    using assms(1) unfolding config_from_resolved_document_def Let_def bind_res_Inr_iff by auto
  have "cfg = c" using acq(4) by (auto simp: validate_config_def Let_def split: if_splits)
  moreover have "acq = JObject a" using acq(1) assms(2,3) by (simp add: item_def)
  then have "l' = l" "n' = n" using acq(2,3) assms(4-7) by (simp_all add: item_def item_int_def)
  ultimately show ?thesis using acq(5,6) by (simp add: output_samples_def)
qed

lemma example_acquired:
  assumes "compile_profile example_repo example_tables example_registers example_profile = Inr r"
  shows "has_key r ''acquisition''" "get r ''acquisition'' = JObject example_geometry"
proof -
  have load: "profile_load_json example_profile = Inr [(''format'', JString PROFILE_FORMAT), (''name'', JString ''28.5 MHz LO''),
      (''dsp'', example_dsp), (''acquisition'', example_acquisition), (''sequence'', example_source)]"
    by code_simp
  obtain name contract rq acq s g where acq: "compile_acquisition example_acquisition = Inr acq"
      and r: "resolve_profile name rq acq s contract g = Inr r"
    using assms unfolding compile_profile_def load bind_res_simps bind_res_Inr_iff split_paired_Ex prod.case check_object_Inr_iff
    by (auto simp: get_def)
  have "acq = example_geometry" using acq example_acquisition_compiles by simp
  then show "has_key r ''acquisition''" "get r ''acquisition'' = JObject example_geometry"
    using r by (auto elim!: resolve_profile_Inr simp: has_key_def get_def)
qed

lemma full_expected:
  assumes "compile_profile example_repo example_tables example_registers example_profile = Inr r"
    and "load_resolved_profile example_tables example_registers (JObject r) = Inr r"
  shows "expected_count r = int full_words"
    and "expected_words example_repository (example_file r) (int full_words) = Inr (replicate full_words 0)"
proof -
  note acq = example_acquired[OF assms(1)]
  have geometry: "has_key example_geometry ''frame_length_words''" "has_key example_geometry ''frame_count''"
      "get example_geometry ''frame_length_words'' = JInt 1024" "get example_geometry ''frame_count'' = JInt 4"
    by code_simp+
  show count: "expected_count r = int full_words"
    by (simp add: expected_count_def section_object_def acq(2) geometry full_words_def)
  obtain cfg where cfg: "load_config (JObject r) = Inr cfg" "config_from_resolved_document r = Inr cfg"
    by (rule loaded_profile_config[OF assms(2)]) blast
  have "output_samples cfg = int full_words"
    using config_geometry[OF cfg(2) acq(2,1) geometry] by (simp add: full_words_def)
  then show "expected_words example_repository (example_file r) (int full_words) = Inr (replicate full_words 0)"
    unfolding expected_words_Inr example_file_def example_repository_def config_file.simps repository_files.simps
    using zero_words[OF cfg(1) full_words_bounds(2)] by simp
qed

section \<open>Its verification\<close>

lemma full_decoded: "decode_payload full_payload = Inr \<lparr>iq_payload = full_payload, iq_words = replicate full_words 0,
    iq_i_raw = replicate full_words 0, iq_q_raw = replicate full_words 0\<rparr>"
proof -
  have "signed_16 0 = 0" by code_simp
  moreover have "full_payload \<noteq> []" using full_payload_facts(1) by auto
  ultimately show ?thesis by (simp add: decode_payload_Inr full_payload_facts)
qed

lemma same_words: "mismatches (replicate n 0) (replicate n 0) = []"
  by (simp add: mismatches_Nil)

lemma full_verified:
  assumes "document_config_id r = Some 0xaf46287bb969ed24" "expected_center r = Some center"
    and load: "load_resolved_profile example_tables example_registers (JObject r) = Inr r"
    and words: "expected_words example_repository (example_file r) (int full_words) = Inr (replicate full_words 0)"
  shows "verify_run flat_numerics example_repository (full_files center) (example_file r) r = Inr (1, int full_words, 0)"
proof -
  have number: "int_base0 ''0xaf46287bb969ed24'' = Some 0xaf46287bb969ed24"
    by (simp add: int_base0_def read_sign_def read_radix_def read_nat_def digit_value_def)
  have stream: "check_stream name (example_stream center) 0xaf46287bb969ed24 center = Inr ()" for name
    by (simp add: check_stream_def example_stream_def get_default_def has_key_def get_def number)
  have streams: "section_of (rb_manifest (full_bundle center)) ''stream'' = example_stream center"
    "section_of (rb_sender_report (full_bundle center)) ''stream'' = example_stream center"
    by (simp_all add: full_bundle_def example_manifest_def example_sender_def section_of_def get_def)
  have shot: "verify_shot example_repository (example_file r) (full_files center) 0xaf46287bb969ed24 full_shot
      \<lparr>vs_expected_by_count = [], vs_checked = 0\<rparr> =
      Inr \<lparr>vs_expected_by_count = [(full_words, replicate full_words 0)], vs_checked = full_words\<rparr>"
    by (simp add: verify_shot_def full_fields full_samples full_payload_facts words same_words Let_def)
  have rate: "sample_rate_hz (rb_manifest (full_bundle center)) (Some DEFAULT_SAMPLE_RATE_HZ) = Inr (12500000, Fallback)"
    using streams(1) by (simp add: sample_rate_hz_def example_stream_def get_def DEFAULT_SAMPLE_RATE_HZ_def)
  have "resolved_config_id example_repository (example_file r) = Inr 0xaf46287bb969ed24"
    unfolding resolved_config_id_Inr using assms(1) load by (auto simp: example_file_def example_repository_def)
  then have ref: "reference_config example_repository (Some (example_file r)) full_shot None = Inr (Some (example_file r))"
    by (simp add: bundled_reference full_fields)
  have peak: "argmax [1] = Some 0" by code_simp
  have "\<exists>a. analyze_shot flat_numerics example_repository (Some (example_file r)) (Inr full_payload) (Inr (12500000, Fallback))
      full_shot None = Inr a \<and> sa_dominant_frequency_hz a = 0"
    using words by (simp add: analyze_shot_def full_fields full_decoded Let_def ref reference_mismatches_def same_words
        spectrum_dbfs_def flat_numerics_def max_def peak full_words_def)
  then obtain a where a: "analyze_shot flat_numerics example_repository (Some (example_file r)) (Inr full_payload)
      (Inr (12500000, Fallback)) full_shot None = Inr a" "sa_dominant_frequency_hz a = 0" by blast
  show ?thesis
    unfolding verify_run_def Let_def full_opens raised_as_Inr bind_res_simps assms(1,2) prod.case option.case full_health
      streams stream list.sel full_samples rate
    by (simp add: shot a full_health(2))
qed

section \<open>Its sweep\<close>

definition flat_tones :: tone_numerics where
  "flat_tones = \<lparr>tn_project = (\<lambda>samples f r. (1, 0)), tn_mean = hd, tn_magnitude = (\<lambda>p. 1), tn_angle = (\<lambda>p. 0),
     tn_log10 = (\<lambda>q. 0), tn_response = (\<lambda>cs f. (1, 0))\<rparr>"

definition full_point :: json where
  "full_point = JObject [(''label'', JString ''dc''), (''region'', JString ''passband''), (''reference'', JBool True),
     (''realized_baseband_frequency_hz'', JString ''0''), (''observed_frequency_hz'', JFloat ''0''),
     (''dsp_config_id'', JString ''0xaf46287bb969ed24''), (''resolved_profile'', JString ''profiles/00-dc.resolved.json''),
     (''run'', JString ''runs/00-dc'')]"

definition full_plan :: jobject where
  "full_plan = [(''phase_response_floor_db'', JFloat ''-50''), (''points'', JArray [full_point])]"

definition full_entry :: "int \<Rightarrow> jobject \<Rightarrow> sweep_entry" where
  "full_entry center r = \<lparr>se_files = full_files center, se_profile = Some (example_file r)\<rparr>"

definition full_sweep :: "int \<Rightarrow> jobject \<Rightarrow> sweep_files" where
  "full_sweep center r = \<lparr>sf_runs = (\<lambda>p. Some (full_entry center r)), sf_profiles = (\<lambda>p. Some (example_file r))\<rparr>"

lemma full_point_fields:
  "(case full_point of JObject p \<Rightarrow> sweep_path [''s''] (get p ''run'') ''point run path'' = Inr [''s'', ''runs'', ''00-dc''] \<and>
     sweep_path [''s''] (get p ''resolved_profile'') ''point resolved-profile path'' =
       Inr [''s'', ''profiles'', ''00-dc.resolved.json''] \<and>
     number_field p ''observed_frequency_hz'' = Inr 0 \<and> number_field p ''realized_baseband_frequency_hz'' = Inr 0 \<and>
     truthy (get p ''reference'')
   | _ \<Rightarrow> False)"
  by code_simp

lemma full_evaluated:
  assumes "document_config_id r = Some 0xaf46287bb969ed24" "expected_center r = Some center"
    and load: "load_resolved_profile example_tables example_registers (JObject r) = Inr r"
    and count: "expected_count r = int full_words"
    and words: "expected_words example_repository (example_file r) (int full_words) = Inr (replicate full_words 0)"
  shows "\<exists>s. evaluate_sweep flat_tones flat_numerics example_repository whole_floats [''s''] (full_sweep center r) full_plan = Inr s"
    and "full_run (full_entry center r) (example_file r) r"
    and "load_point_profile example_repository (sf_profiles (full_sweep center r)) p = Inr (example_file r, r)"
proof -
  show profile: "load_point_profile example_repository (sf_profiles (full_sweep center r)) p = Inr (example_file r, r)" for p
    using load by (simp add: load_point_profile_def full_sweep_def example_file_def example_repository_def)
  have shot: "shot_words (full_files center) full_shot = full_words"
    by (simp add: shot_words_def full_samples full_payload_facts full_words_def)
  then show "full_run (full_entry center r) (example_file r) r"
    by (simp add: full_run_def full_entry_def full_opens full_health count)
  obtain point where point: "full_point = JObject point" by (simp add: full_point_def)
  note fields = full_point_fields[unfolded point json.case]
  have verified: "verify_entry flat_numerics example_repository (full_entry center r) r = Inr (1, int full_words, 0)"
    by (simp add: verify_entry_def full_entry_def full_verified[OF assms(1,2) load words])
  obtain rate source where rate: "sample_rate_hz (rb_manifest (full_bundle center)) (Some DEFAULT_SAMPLE_RATE_HZ) = Inr (rate, source)"
    by (simp add: sample_rate_hz_def full_bundle_def example_manifest_def section_of_def example_stream_def get_def
        DEFAULT_SAMPLE_RATE_HZ_def)
  have tone: "coherent_tone flat_tones (complex_samples \<lparr>iq_payload = full_payload, iq_words = replicate full_words 0,
      iq_i_raw = replicate full_words 0, iq_q_raw = replicate full_words 0\<rparr>) f h = Inr (1, 0)" for f h
    using full_words_bounds(1) by (simp add: coherent_tone_def complex_samples_def SETTLE_OUTPUT_SAMPLES_def flat_tones_def)
  have phasor: "shot_phasor flat_tones (full_files center) point f h full_shot = Inr (1, 0)" for f h
    by (simp add: shot_phasor_def full_samples full_fields full_decoded tone)
  have "load_hex (rs_fir_table example_repository) COEFFICIENT_BITS FIR_TAPS = Inr zero_fir"
    using load_render[of 18 zero_fir]
    by (simp add: example_repository_def zero_fir_def in_bits_def list_all_iff COEFFICIENT_BITS_def FIR_TAPS_def)
  then obtain fir where fir: "theoretical_fir_response flat_tones example_repository 0 = Inr fir"
    by (simp add: theoretical_fir_response_def)
  have runs: "sf_runs (full_sweep center r) q = Some (full_entry center r)" for q by (simp add: full_sweep_def)
  have parts: "se_files (full_entry center r) = full_files center" by (simp add: full_entry_def)
  have "\<exists>m. measure_point flat_tones flat_numerics example_repository [''s''] (full_sweep center r) full_point = Inr m \<and> pm_point m = point"
    unfolding measure_point_def point json.case
    by (simp add: fields profile runs verified parts full_opens rate count words
        full_payload_def[symmetric] full_decoded tone full_health phasor fir point_result_def)
  then obtain m where m: "measure_point flat_tones flat_numerics example_repository [''s''] (full_sweep center r) full_point = Inr m"
      "pm_point m = point" by blast
  have "decimal_of_string ''-50'' = Some (-50)" by code_simp
  then have "get full_plan ''points'' = JArray [full_point]"
    "\<exists>q. float_of whole_floats (get full_plan ''phase_response_floor_db'') = Some q"
    by (simp_all add: full_plan_def get_def float_of_def)
  then show "\<exists>s. evaluate_sweep flat_tones flat_numerics example_repository whole_floats [''s''] (full_sweep center r) full_plan = Inr s"
    using fields by (auto simp: evaluate_sweep_def m Let_def)
qed

end
