(* ===== verification/SweepProperties.thy ===== *)
theory SweepProperties
  imports SweepRunExample
begin

text \<open>
  The properties of a sweep: its plan, and what a resumed sweep keeps.
\<close>

section \<open>The plan\<close>





















section \<open>The report\<close>



end
