(* ===== verification/SweepRun.thy ===== *)
theory SweepRun
  imports SweepReport
begin

text \<open>
  The run command of \<open>host/experiment_profiles/qcrate_sweep.py\<close>: the points are measured in order,
  and what an earlier attempt left is kept, under its own name when it is verified and under a free
  name beside it otherwise.  The evidence is the run directories under the sweep's root, which lie
  beside one another.
\<close>

section \<open>Interrupted runs\<close>

type_synonym evidence = "(string list \<times> sweep_entry) list"

definition suffixed :: "string list \<Rightarrow> nat \<Rightarrow> string list" where
  "suffixed path n = butlast path @ [last path @ ''.interrupted-'' @ zfill 2 (digits 10 n)]"

lemma suffixed_inj: "suffixed path n = suffixed path m \<Longrightarrow> n = m"
proof -
  assume "suffixed path n = suffixed path m"
  then have "zfill 2 (digits 10 n) = zfill 2 (digits 10 m)" unfolding suffixed_def by (simp del: digits.simps)
  moreover have "read_nat 10 (zfill 2 (digits 10 k)) = Some k" for k by (rule read_nat_zfill) simp_all
  ultimately show ?thesis by (metis option.inject)
qed

lemma finite_taken: "finite {k. n \<le> k \<and> suffixed path k \<in> set names}"
proof -
  have "inj (suffixed path)" by (auto intro: injI dest: suffixed_inj)
  then have "finite (suffixed path -` set names)" by (simp add: finite_vimageI)
  then show ?thesis by (rule rev_finite_subset) auto
qed

text \<open>The loop ends: a directory has finitely many names, and every suffix gives another one.\<close>

function first_free :: "string list list \<Rightarrow> string list \<Rightarrow> nat \<Rightarrow> nat" where
  "first_free names path suffix =
     (if suffixed path suffix \<in> set names then first_free names path (suffix + 1) else suffix)"
  by auto
termination
proof (relation "measure (\<lambda>(names, path, n). card {k. n \<le> k \<and> suffixed path k \<in> set names})")
  fix names path suffix
  assume taken: "suffixed path suffix \<in> set names"
  have "suffix \<in> {k. suffix \<le> k \<and> suffixed path k \<in> set names}"
    "suffix \<notin> {k. suffix + 1 \<le> k \<and> suffixed path k \<in> set names}" using taken by simp_all
  moreover have "{k. suffix + 1 \<le> k \<and> suffixed path k \<in> set names} \<subseteq> {k. suffix \<le> k \<and> suffixed path k \<in> set names}"
    by auto
  ultimately have "{k. suffix + 1 \<le> k \<and> suffixed path k \<in> set names} \<subset>
      {k. suffix \<le> k \<and> suffixed path k \<in> set names}" by blast
  from psubset_card_mono[OF finite_taken this]
  show "((names, path, suffix + 1), names, path, suffix) \<in>
      measure (\<lambda>(names, path, n). card {k. n \<le> k \<and> suffixed path k \<in> set names})" by simp
qed simp

declare first_free.simps [simp del]

definition entry_names :: "evidence \<Rightarrow> string list list" where
  "entry_names store = map fst store"

definition rename_entry :: "string list \<Rightarrow> string list \<Rightarrow> evidence \<Rightarrow> evidence" where
  "rename_entry path destination store = map (\<lambda>(p, e). (if p = path then destination else p, e)) store"

definition preserve_interrupted :: "string list \<Rightarrow> evidence \<Rightarrow> string list \<times> evidence" where
  "preserve_interrupted path store =
     (let destination = suffixed path (first_free (entry_names store) path 1)
      in (destination, rename_entry path destination store))"

section \<open>One point\<close>

datatype sweep_run_error =
    TargetAccess
  | PlanError sweep_error
  | DifferentSpecification
  | PointError measure_error
  | PointExists "string list"
  | PointExperiment experiment_error
  | SweepMeasurement measure_error

datatype point_outcome = PointSkipped | PointMeasured | PointPreserved "string list"

record sweep_args =
  sw_resume :: bool
  sw_interactive_auth :: bool
  sw_point :: experiment_args

text \<open>
  The arguments of a point's experiment: those of the sweep, without a window, and unattended unless
  interactive authentication was asked for.
\<close>

definition point_args :: "sweep_args \<Rightarrow> experiment_args" where
  "point_args args = (sw_point args)\<lparr>ea_gui := False, ea_unattended := \<not> sw_interactive_auth args\<rparr>"

text \<open>
  The outside of a sweep: the profile files of its plan, what the processes of the experiment on a
  run directory do, and whether the recorder leaves the directory when its index was never seen.
\<close>

record sweep_world =
  wo_profiles :: "string list \<Rightarrow> config_file option"
  wo_experiment :: "string list \<Rightarrow> experiment_world"
  wo_directory :: "string list \<Rightarrow> bool"

definition written_report :: "action list \<Rightarrow> jobject option" where
  "written_report actions =
     (case List.map_filter (\<lambda>a. case a of WriteReport r \<Rightarrow> Some r | _ \<Rightarrow> None) actions of
        [] \<Rightarrow> None | r # _ \<Rightarrow> Some r)"

definition left_entry :: "experiment_world \<Rightarrow> bool \<Rightarrow> config_file \<Rightarrow> action list \<Rightarrow> sweep_entry option" where
  "left_entry w directory profile actions =
     (let copied = (CopyProfile profile \<in> set actions);
          started = list_ex (\<lambda>a. case a of StartRecorder _ \<Rightarrow> True | _ \<Rightarrow> False) actions
      in if copied \<or> (started \<and> directory)
         then Some \<lparr>se_files = (case written_report actions of Some r \<Rightarrow> finished_files w r | None \<Rightarrow> ew_recorded w),
                    se_profile = (if copied then Some profile else None)\<rparr>
         else None)"

definition run_name :: "string list \<Rightarrow> string" where
  "run_name path = concat (map (\<lambda>s. CHR ''/'' # s) path)"

definition measure_run ::
    "numerics \<Rightarrow> repository_files \<Rightarrow> (string \<Rightarrow> json option) \<Rightarrow> string \<Rightarrow> sweep_args \<Rightarrow> sweep_world \<Rightarrow>
     string list \<Rightarrow> config_file \<Rightarrow> evidence \<Rightarrow> (sweep_run_error + unit) \<times> evidence" where
  "measure_run lib repo parse recorder args world path profile store =
     (let w = (wo_experiment world path)\<lparr>ew_output_exists := (path \<in> set (entry_names store))\<rparr>;
          (result, actions) = run_experiment lib repo parse recorder (run_name path) (point_args args) w profile
      in (case result of Inl e \<Rightarrow> Inl (PointExperiment e) | Inr _ \<Rightarrow> Inr (),
          case left_entry w (wo_directory world path) profile actions of
            None \<Rightarrow> store | Some entry \<Rightarrow> store @ [(path, entry)]))"

definition sweep_point ::
    "numerics \<Rightarrow> repository_files \<Rightarrow> (string \<Rightarrow> json option) \<Rightarrow> string \<Rightarrow> sweep_args \<Rightarrow> sweep_world \<Rightarrow>
     string list \<Rightarrow> json \<Rightarrow> evidence \<Rightarrow> (sweep_run_error + point_outcome) \<times> evidence" where
  "sweep_point lib repo parse recorder args world home point_value store =
     (case bind_res (raised_as (PointError \<circ> MeasurePath) (sweep_path home (point_field ''resolved_profile'' point_value)
             ''point resolved-profile path'')) (\<lambda>resolved_path.
           bind_res (raised_as (PointError \<circ> MeasurePath) (sweep_path home (point_field ''run'' point_value) ''point run path''))
             (\<lambda>path.
           bind_res (raised_as PointError (load_point_profile repo (wo_profiles world) resolved_path)) (\<lambda>loaded.
           Inr (path, loaded)))) of
        Inl e \<Rightarrow> (Inl e, store)
      | Inr (path, profile, resolved) \<Rightarrow>
          (case map_of store path of
             None \<Rightarrow>
               (let (result, store') = measure_run lib repo parse recorder args world path profile store
                in (bind_res result (\<lambda>_. Inr PointMeasured), store'))
           | Some entry \<Rightarrow>
               if \<not> sw_resume args then (Inl (PointExists path), store)
               else
                 (case verify_entry lib repo entry resolved of
                    Inr _ \<Rightarrow> (Inr PointSkipped, store)
                  | Inl _ \<Rightarrow>
                      (let (destination, kept) = preserve_interrupted path store;
                           (result, store') = measure_run lib repo parse recorder args world path profile kept
                       in (bind_res result (\<lambda>_. Inr (PointPreserved destination)), store')))))"

section \<open>The sweep\<close>

fun sweep_points ::
    "numerics \<Rightarrow> repository_files \<Rightarrow> (string \<Rightarrow> json option) \<Rightarrow> string \<Rightarrow> sweep_args \<Rightarrow> sweep_world \<Rightarrow>
     string list \<Rightarrow> json list \<Rightarrow> evidence \<Rightarrow> (sweep_run_error + point_outcome list) \<times> evidence" where
  "sweep_points lib repo parse recorder args world home [] store = (Inr [], store)"
| "sweep_points lib repo parse recorder args world home (point # points) store =
     (case sweep_point lib repo parse recorder args world home point store of
        (Inl e, store') \<Rightarrow> (Inl e, store')
      | (Inr outcome, store') \<Rightarrow>
          (let (result, final) = sweep_points lib repo parse recorder args world home points store'
           in (bind_res result (\<lambda>outcomes. Inr (outcome # outcomes)), final)))"

text \<open>
  The plan of a run: the stored one when there is one and it was made from this specification, else
  a new one.
\<close>

definition sweep_plan ::
    "floats \<Rightarrow> (json \<Rightarrow> profile_error + jobject) \<Rightarrow> (json \<Rightarrow> profile_error + jobject) \<Rightarrow> sweep_repository \<Rightarrow>
     string \<Rightarrow> config_file \<Rightarrow> bool \<Rightarrow> json option option \<Rightarrow> sweep_run_error + jobject" where
  "sweep_plan fl compile reload sq spec_path spec_file output_exists stored =
     (case stored of
        None \<Rightarrow> raised_as PlanError (bind_res (prepare_plan fl compile reload sq spec_path spec_file output_exists) (\<lambda>(plan, _). Inr plan))
      | Some parsed \<Rightarrow>
          bind_res (raised_as PlanError (load_plan fl parsed)) (\<lambda>plan.
          if JString (hexdigest (sha256 (cf_bytes spec_file))) \<noteq> get plan ''source_spec_sha256'' then Inl DifferentSpecification
          else Inr plan))"

definition sweep_files_of :: "sweep_world \<Rightarrow> evidence \<Rightarrow> sweep_files" where
  "sweep_files_of world store = \<lparr>sf_runs = map_of store, sf_profiles = wo_profiles world\<rparr>"

definition run_sweep ::
    "tone_numerics \<Rightarrow> numerics \<Rightarrow> repository_files \<Rightarrow> (string \<Rightarrow> json option) \<Rightarrow> string \<Rightarrow> floats \<Rightarrow> sweep_args \<Rightarrow>
     sweep_world \<Rightarrow> string list \<Rightarrow> bool \<Rightarrow> sweep_run_error + jobject \<Rightarrow> evidence \<Rightarrow> (sweep_run_error + int) \<times> evidence" where
  "run_sweep tn lib repo parse recorder fl args world home accessible planned store =
     (if \<not> sw_interactive_auth args \<and> \<not> accessible then (Inl TargetAccess, store)
      else
        case planned of
          Inl e \<Rightarrow> (Inl e, store)
        | Inr plan \<Rightarrow>
            (case get plan ''points'' of
               JArray points \<Rightarrow>
                 (case sweep_points lib repo parse recorder args world home points store of
                    (Inl e, final) \<Rightarrow> (Inl e, final)
                  | (Inr _, final) \<Rightarrow>
                      (case evaluate_sweep tn lib repo fl home (sweep_files_of world final) plan of
                         Inl e \<Rightarrow> (Inl (SweepMeasurement e), final)
                       | Inr summary \<Rightarrow> (Inr (if ss_passed summary then 0 else 2), final)))
             | _ \<Rightarrow> (Inl (PlanError PlanMalformed), store)))"

end
