(* ===== verification/SweepRunLaws.thy ===== *)
theory SweepRunLaws
  imports SweepRun SweepLaws "HOL-Library.Sublist"
begin

text \<open>
  What the steps of a sweep do to the evidence: every entry stays, under its own name or one that
  extends it, and no entry takes the place of another.
\<close>

section \<open>Kept evidence\<close>

definition name_extends :: "string list \<Rightarrow> string list \<Rightarrow> bool" where
  "name_extends p q \<longleftrightarrow> butlast q = butlast p \<and> prefix (last p) (last q)"

definition evidence_kept :: "evidence \<Rightarrow> evidence \<Rightarrow> bool" where
  "evidence_kept before after \<longleftrightarrow>
     (\<exists>f. inj_on f (dom (map_of before)) \<and>
        (\<forall>p e. map_of before p = Some e \<longrightarrow> map_of after (f p) = Some e \<and> (f p = p \<or> name_extends p (f p))))"

lemma name_extends_trans: "name_extends p q \<Longrightarrow> name_extends q r \<Longrightarrow> name_extends p r"
  by (auto simp: name_extends_def)

lemma kept_refl: "evidence_kept store store"
  unfolding evidence_kept_def by (rule exI[of _ id]) simp

lemma kept_trans:
  assumes "evidence_kept a b" "evidence_kept b c"
  shows "evidence_kept a c"
proof -
  obtain f where f: "inj_on f (dom (map_of a))"
    "\<And>p e. map_of a p = Some e \<Longrightarrow> map_of b (f p) = Some e \<and> (f p = p \<or> name_extends p (f p))"
    using assms(1) unfolding evidence_kept_def by blast
  obtain g where g: "inj_on g (dom (map_of b))"
    "\<And>p e. map_of b p = Some e \<Longrightarrow> map_of c (g p) = Some e \<and> (g p = p \<or> name_extends p (g p))"
    using assms(2) unfolding evidence_kept_def by blast
  have "f ` dom (map_of a) \<subseteq> dom (map_of b)" using f(2) by (auto simp: dom_def)
  then have "inj_on (g \<circ> f) (dom (map_of a))" using f(1) g(1) by (meson comp_inj_on inj_on_subset)
  moreover have "map_of c ((g \<circ> f) p) = Some e \<and> ((g \<circ> f) p = p \<or> name_extends p ((g \<circ> f) p))" if "map_of a p = Some e" for p e
    using f(2)[OF that] g(2)[of "f p" e] name_extends_trans[of p "f p" "g (f p)"] by auto
  ultimately show ?thesis unfolding evidence_kept_def by blast
qed

text \<open>The entries that are found as they were.\<close>

lemma kept_same: "map_of before \<subseteq>\<^sub>m map_of after \<Longrightarrow> evidence_kept before after"
  unfolding evidence_kept_def by (rule exI[of _ id]) (auto simp: map_le_def dom_def)

section \<open>Renaming\<close>

lemma suffixed_extends: "name_extends p (suffixed p n)" "suffixed p n \<noteq> p"
proof -
  show "name_extends p (suffixed p n)" by (simp add: name_extends_def suffixed_def)
  show "suffixed p n \<noteq> p"
  proof
    assume "suffixed p n = p"
    then have "last (suffixed p n) = last p" by simp
    then show False by (simp add: suffixed_def)
  qed
qed

lemma first_free_free: "suffixed path (first_free names path n) \<notin> set names"
proof (induction names path n rule: first_free.induct)
  case (1 names path n)
  then show ?case by (subst first_free.simps) simp
qed

lemma first_free_least:
  "n \<le> first_free names path n \<and> (\<forall>k. n \<le> k \<longrightarrow> k < first_free names path n \<longrightarrow> suffixed path k \<in> set names)"
proof (induction names path n rule: first_free.induct)
  case (1 names path n)
  show ?case
  proof (cases "suffixed path n \<in> set names")
    case True
    have same: "first_free names path n = first_free names path (n + 1)" by (subst first_free.simps) (simp add: True)
    have step: "n + 1 \<le> first_free names path (n + 1)"
      "\<And>k. n + 1 \<le> k \<Longrightarrow> k < first_free names path (n + 1) \<Longrightarrow> suffixed path k \<in> set names"
      using "1.IH"[OF True] by blast+
    have "suffixed path k \<in> set names" if "n \<le> k" "k < first_free names path (n + 1)" for k
      using that True step(2)[of k] by (cases "k = n") auto
    then show ?thesis unfolding same using step(1) by simp
  next
    case False
    then show ?thesis by (subst (1 2) first_free.simps) simp
  qed
qed

lemma map_of_renamed:
  assumes "path \<noteq> destination" "destination \<notin> set (entry_names store)"
  shows "map_of (rename_entry path destination store) p =
    (if p = path then None else if p = destination then map_of store path else map_of store p)"
  using assms(2)
proof (induction store)
  case (Cons qe store)
  obtain q e where qe: "qe = (q, e)" by (cases qe)
  have q: "q \<noteq> destination" "destination \<notin> set (entry_names store)" using Cons.prems by (auto simp: qe entry_names_def)
  have head: "rename_entry path destination ((q, e) # store) =
      (if q = path then destination else q, e) # rename_entry path destination store" by (simp add: rename_entry_def)
  show ?case unfolding qe head map_of.simps fst_conv snd_conv fun_upd_apply Cons.IH[OF q(2)] using q(1) assms(1) by auto
qed (simp add: rename_entry_def)

lemma renamed_names:
  "entry_names (rename_entry path destination store) = map (\<lambda>p. if p = path then destination else p) (entry_names store)"
  by (induction store) (auto simp: rename_entry_def entry_names_def)

lemma renamed_kept:
  assumes "destination \<notin> set (entry_names store)" "name_extends path destination" "path \<noteq> destination"
  shows "evidence_kept store (rename_entry path destination store)"
proof -
  have names: "dom (map_of store) = set (entry_names store)" by (simp add: entry_names_def dom_map_of_conv_image_fst)
  have "inj_on (\<lambda>p. if p = path then destination else p) (dom (map_of store))"
    using assms(1) unfolding names by (auto simp: inj_on_def)
  moreover have "map_of (rename_entry path destination store) (if p = path then destination else p) = Some e"
    if "map_of store p = Some e" for p e
    using that assms(1) names map_of_renamed[OF assms(3,1)] by (auto simp: dom_def)
  ultimately show ?thesis unfolding evidence_kept_def
    using assms(2) by (intro exI[of _ "\<lambda>p. if p = path then destination else p"]) auto
qed

lemma renamed_distinct:
  "distinct (entry_names store) \<Longrightarrow> destination \<notin> set (entry_names store) \<Longrightarrow>
   distinct (entry_names (rename_entry path destination store))"
  unfolding renamed_names distinct_map by (auto simp: inj_on_def)

section \<open>One point\<close>

lemma store_names: "map_of store p = None \<longleftrightarrow> p \<notin> set (entry_names store)"
  by (simp add: entry_names_def map_of_eq_None_iff)

lemma measure_run_store:
  assumes "measure_run lib repo parse recorder args world path profile store = (result, store')"
    and "path \<notin> set (entry_names store)" "distinct (entry_names store)"
  shows "map_of store \<subseteq>\<^sub>m map_of store'" "distinct (entry_names store')"
proof -
  have "store' = store \<or> (\<exists>e. store' = store @ [(path, e)])"
    using assms(1) by (auto simp: measure_run_def Let_def split: prod.splits option.splits)
  then show "map_of store \<subseteq>\<^sub>m map_of store'" "distinct (entry_names store')"
    using assms(2,3) by (auto simp: entry_names_def map_le_map_add)
qed

lemma preserved_store:
  assumes "preserve_interrupted path store = (destination, kept)" "distinct (entry_names store)"
  shows "path \<notin> set (entry_names kept)" "distinct (entry_names kept)" "evidence_kept store kept"
    and "destination \<notin> set (entry_names store)" "\<And>p e. p \<noteq> path \<Longrightarrow> map_of store p = Some e \<Longrightarrow> map_of kept p = Some e"
proof -
  have d: "destination = suffixed path (first_free (entry_names store) path 1)" "kept = rename_entry path destination store"
    using assms(1) by (auto simp: preserve_interrupted_def Let_def)
  show free: "destination \<notin> set (entry_names store)" unfolding d(1) by (rule first_free_free)
  have differ: "path \<noteq> destination" using suffixed_extends(2)[of path] d(1) by metis
  show "path \<notin> set (entry_names kept)" unfolding d(2) renamed_names using differ by auto
  show "distinct (entry_names kept)" unfolding d(2) by (rule renamed_distinct[OF assms(2) free])
  show "evidence_kept store kept"
    unfolding d(2) by (rule renamed_kept[OF free _ differ]) (simp add: d(1) suffixed_extends(1))
  show "map_of kept p = Some e" if "p \<noteq> path" "map_of store p = Some e" for p e
  proof -
    have "p \<noteq> destination" using that(2) free store_names[of store destination] by auto
    then show ?thesis using that by (simp add: d(2) map_of_renamed[OF differ free])
  qed
qed

text \<open>An entry that passes for every point that names its directory.\<close>

definition entry_fits ::
    "numerics \<Rightarrow> repository_files \<Rightarrow> sweep_world \<Rightarrow> string list \<Rightarrow> json \<Rightarrow> string list \<Rightarrow> sweep_entry \<Rightarrow> bool" where
  "entry_fits lib repo world home point p e \<longleftrightarrow>
     (\<forall>resolved_path profile resolved. sweep_path home (point_field ''run'' point) ''point run path'' = Inr p \<longrightarrow>
        sweep_path home (point_field ''resolved_profile'' point) ''point resolved-profile path'' = Inr resolved_path \<longrightarrow>
        load_point_profile repo (wo_profiles world) resolved_path = Inr (profile, resolved) \<longrightarrow>
        (\<exists>v. verify_entry lib repo e resolved = Inr v))"

lemma sweep_point_store:
  assumes "sweep_point lib repo parse recorder args world home point store = (result, store')" "distinct (entry_names store)"
  shows "distinct (entry_names store') \<and> evidence_kept store store' \<and>
    (\<not> sw_resume args \<longrightarrow> map_of store \<subseteq>\<^sub>m map_of store') \<and>
    (\<forall>p e. map_of store p = Some e \<longrightarrow> entry_fits lib repo world home point p e \<longrightarrow> map_of store' p = Some e)"
proof (cases "bind_res (raised_as (PointError \<circ> MeasurePath) (sweep_path home (point_field ''resolved_profile'' point)
             ''point resolved-profile path'')) (\<lambda>resolved_path.
           bind_res (raised_as (PointError \<circ> MeasurePath) (sweep_path home (point_field ''run'' point) ''point run path''))
             (\<lambda>path.
           bind_res (raised_as PointError (load_point_profile repo (wo_profiles world) resolved_path)) (\<lambda>loaded.
           Inr (path, loaded)))) :: sweep_run_error + _")
  case (Inl e)
  then show ?thesis using assms kept_refl by (simp add: sweep_point_def)
next
  case (Inr found)
  obtain path profile resolved where found: "found = (path, profile, resolved)" by (cases found)
  obtain resolved_path where at: "sweep_path home (point_field ''run'' point) ''point run path'' = Inr path"
      "sweep_path home (point_field ''resolved_profile'' point) ''point resolved-profile path'' = Inr resolved_path"
      "load_point_profile repo (wo_profiles world) resolved_path = Inr (profile, resolved)"
    using Inr unfolding found bind_res_Inr_iff raised_as_Inr_iff by auto
  note point = assms(1)[unfolded sweep_point_def Inr found sum.case prod.case]
  show ?thesis
  proof (cases "map_of store path")
    case None
    obtain r where m: "measure_run lib repo parse recorder args world path profile store = (r, store')"
      using point unfolding None option.case by (auto split: prod.splits)
    note step = measure_run_store[OF m _ assms(2)]
    have free: "path \<notin> set (entry_names store)" using None by (simp add: store_names)
    show ?thesis using step[OF free] kept_same[OF step(1)[OF free]] by (auto simp: map_le_def dom_def)
  next
    case (Some entry)
    show ?thesis
    proof (cases "sw_resume args \<and> (\<exists>e. verify_entry lib repo entry resolved = Inl e)")
      case False
      then have "store' = store" using point unfolding Some option.case by (auto split: if_splits sum.splits)
      then show ?thesis using assms(2) kept_refl by simp
    next
      case True
      then obtain e where bad: "sw_resume args" "verify_entry lib repo entry resolved = Inl e" by blast
      obtain destination kept r where p: "preserve_interrupted path store = (destination, kept)"
        and m: "measure_run lib repo parse recorder args world path profile kept = (r, store')"
        using point unfolding Some option.case by (auto simp: bad Let_def split: prod.splits)
      note pres = preserved_store[OF p assms(2)]
      note step = measure_run_store[OF m pres(1,2)]
      have "map_of store' q = Some f" if "map_of store q = Some f" "entry_fits lib repo world home point q f" for q f
      proof -
        have "q \<noteq> path"
        proof
          assume "q = path"
          then have "f = entry" using that(1) Some by simp
          then show False using that(2) at bad(2) \<open>q = path\<close> unfolding entry_fits_def by force
        qed
        then have "map_of kept q = Some f" using pres(5) that(1) by blast
        then show ?thesis using step(1) by (auto simp: map_le_def dom_def)
      qed
      then show ?thesis using step pres(3) kept_trans[OF _ kept_same[OF step(1)]] bad(1) by auto
    qed
  qed
qed

lemma sweep_points_store:
  assumes "sweep_points lib repo parse recorder args world home points store = (result, store')" "distinct (entry_names store)"
  shows "distinct (entry_names store') \<and> evidence_kept store store' \<and>
    (\<not> sw_resume args \<longrightarrow> map_of store \<subseteq>\<^sub>m map_of store') \<and>
    (\<forall>p e. map_of store p = Some e \<longrightarrow> list_all (\<lambda>point. entry_fits lib repo world home point p e) points \<longrightarrow>
      map_of store' p = Some e)"
  using assms
proof (induction points arbitrary: store result)
  case Nil
  then show ?case using kept_refl by simp
next
  case (Cons point points)
  obtain outcome store1 where one: "sweep_point lib repo parse recorder args world home point store = (outcome, store1)"
    by fastforce
  note step = sweep_point_store[OF one Cons.prems(2)]
  show ?case
  proof (cases outcome)
    case (Inl e)
    then have "store' = store1" using Cons.prems(1) one by simp
    then show ?thesis using step by auto
  next
    case (Inr o1)
    obtain r where rest: "sweep_points lib repo parse recorder args world home points store1 = (r, store')"
      using Cons.prems(1) one Inr by (auto split: prod.splits)
    have IH: "distinct (entry_names store')" "evidence_kept store1 store'" "\<not> sw_resume args \<Longrightarrow> map_of store1 \<subseteq>\<^sub>m map_of store'"
      "\<And>p e. map_of store1 p = Some e \<Longrightarrow> list_all (\<lambda>point. entry_fits lib repo world home point p e) points \<Longrightarrow>
        map_of store' p = Some e"
      using Cons.IH[OF rest] step by blast+
    show ?thesis
      using IH(1) kept_trans[OF _ IH(2)] IH(3,4) step map_le_trans[of "map_of store" "map_of store1" "map_of store'"] by simp
  qed
qed

end
