(* ===== verification/SweepEvidence.thy ===== *)
theory SweepEvidence
  imports SweepRunLaws SweepRunExample
begin

text \<open>
  The property of a whole sweep run: no evidence is lost.
\<close>

section \<open>An interrupted point\<close>

text \<open>A run directory without its profile, found by a resumed sweep whose recorder never opens an index.\<close>

definition cut_entry :: sweep_entry where
  "cut_entry = \<lparr>se_files = full_files 0, se_profile = None\<rparr>"

definition cut_store :: evidence where
  "cut_store = [([''s'', ''runs'', ''00-dc''], cut_entry)]"

definition resumed :: sweep_args where
  "resumed = \<lparr>sw_resume = True, sw_interactive_auth = False, sw_point = example_experiment\<rparr>"

definition silent_world :: "jobject \<Rightarrow> sweep_world" where
  "silent_world r = \<lparr>wo_profiles = (\<lambda>p. Some (example_file r)), wo_experiment = (\<lambda>p. (example_world 0)\<lparr>ew_polls := []\<rparr>),
     wo_directory = (\<lambda>p. False)\<rparr>"

lemma cut_preserved: "preserve_interrupted [''s'', ''runs'', ''00-dc''] cut_store =
    ([''s'', ''runs'', ''00-dc.interrupted-01''], [([''s'', ''runs'', ''00-dc.interrupted-01''], cut_entry)])"
proof -
  have name: "suffixed [''s'', ''runs'', ''00-dc''] 1 = [''s'', ''runs'', ''00-dc.interrupted-01'']" by code_simp
  then have "first_free [[''s'', ''runs'', ''00-dc'']] [''s'', ''runs'', ''00-dc''] 1 = 1"
    by (subst first_free.simps) simp
  then show ?thesis
    by (simp add: preserve_interrupted_def entry_names_def cut_store_def rename_entry_def name[unfolded One_nat_def] Let_def)
qed

lemma cut_sweep:
  assumes load: "load_resolved_profile example_tables example_registers (JObject r) = Inr r"
  shows "run_sweep tn lib example_repository parse ''recorder'' whole_floats resumed (silent_world r) [''s''] True (Inr full_plan) cut_store =
    (Inl (PointExperiment IndexTimeout), [([''s'', ''runs'', ''00-dc.interrupted-01''], cut_entry)])"
proof -
  have fields: "sweep_path [''s''] (point_field ''run'' full_point) ''point run path'' = Inr [''s'', ''runs'', ''00-dc'']"
    "sweep_path [''s''] (point_field ''resolved_profile'' full_point) ''point resolved-profile path'' =
      Inr [''s'', ''profiles'', ''00-dc.resolved.json'']" by code_simp+
  have profile: "load_point_profile example_repository (wo_profiles (silent_world r)) p = Inr (example_file r, r)" for p
    using load by (simp add: load_point_profile_def silent_world_def example_file_def example_repository_def)
  have found: "map_of cut_store [''s'', ''runs'', ''00-dc''] = Some cut_entry" by (simp add: cut_store_def)
  have bad: "verify_entry lib example_repository cut_entry r = Inl RunProfileMissing" by (simp add: verify_entry_def cut_entry_def)
  have parts: "cf_parsed (example_file r) = Some (JObject r)" "rs_tables example_repository = example_tables"
    "rs_registers example_repository = example_registers" by (simp_all add: example_file_def example_repository_def)
  have run: "\<exists>start. run_experiment lib example_repository parse ''recorder'' name (point_args resumed)
      ((wo_experiment (silent_world r) p)\<lparr>ew_output_exists := False\<rparr>) (example_file r) = (Inl IndexTimeout, start) \<and>
      CopyProfile (example_file r) \<notin> set start" for name p
    by (simp add: run_experiment_def parts load acquire_def silent_world_def example_world_def)
  have measured: "measure_run lib example_repository parse ''recorder'' resumed (silent_world r) p (example_file r) store =
      (Inl (PointExperiment IndexTimeout), store)" if free: "p \<notin> set (entry_names store)" for p store
  proof -
    obtain start where start: "run_experiment lib example_repository parse ''recorder'' (run_name p) (point_args resumed)
        ((wo_experiment (silent_world r) p)\<lparr>ew_output_exists := False\<rparr>) (example_file r) = (Inl IndexTimeout, start)"
      "CopyProfile (example_file r) \<notin> set start" using run[of "run_name p" p] by (elim exE conjE)
    have "left_entry ((wo_experiment (silent_world r) p)\<lparr>ew_output_exists := False\<rparr>) (wo_directory (silent_world r) p)
        (example_file r) start = None"
      by (simp add: left_entry_def start(2) silent_world_def Let_def)
    then show ?thesis by (simp add: measure_run_def free start(1) Let_def)
  qed
  have point: "sweep_point lib example_repository parse ''recorder'' resumed (silent_world r) [''s''] full_point cut_store =
      (Inl (PointExperiment IndexTimeout), [([''s'', ''runs'', ''00-dc.interrupted-01''], cut_entry)])"
    by (simp add: sweep_point_def fields profile found bad resumed_def[THEN arg_cong[of _ _ sw_resume], simplified]
        cut_preserved measured entry_names_def)
  show ?thesis by (simp add: run_sweep_def resumed_def[THEN arg_cong[of _ _ sw_interactive_auth], simplified] full_plan_def get_def
        point)
qed

section \<open>The property\<close>

text \<open>The run directory that a point names holds a run that passes for the point's profile.\<close>

definition run_in_place :: "numerics \<Rightarrow> repository_files \<Rightarrow> sweep_world \<Rightarrow> string list \<Rightarrow> evidence \<Rightarrow> json \<Rightarrow> bool" where
  "run_in_place lib repo world home store point \<longleftrightarrow>
     (\<exists>run_path resolved_path profile resolved entry v.
        sweep_path home (point_field ''run'' point) ''point run path'' = Inr run_path \<and>
        sweep_path home (point_field ''resolved_profile'' point) ''point resolved-profile path'' = Inr resolved_path \<and>
        load_point_profile repo (wo_profiles world) resolved_path = Inr (profile, resolved) \<and>
        map_of store run_path = Some entry \<and> verify_entry lib repo entry resolved = Inr v)"

lemma measured_in_place:
  "measure_point tn lib repo home (sweep_files_of world store) point = Inr m \<Longrightarrow> run_in_place lib repo world home store point"
  by (erule measure_point_Inr) (auto simp: run_in_place_def sweep_files_of_def point_field_def)

lemma map_res_Inr_list_all: "map_res f xs = Inr ys \<Longrightarrow> list_all (\<lambda>x. \<exists>y. f x = Inr y) xs"
  by (induction xs arbitrary: ys) (auto simp: bind_res_Inr_iff)

text \<open>
  C38. A sweep run loses no evidence.  Whatever the recorders and targets do, and however the run ends,
  every run directory there was before it is there afterwards with its files, under its own name or
  one that extends it, no two of them under one name; without the resume option none is renamed,
  and a directory that passes for all of the plan's points that name it stays where it was.  When the run
  comes to a verdict, every point of the plan has in its place a run that passes for the point's profile.
\<close>

theorem sweep_keeps_evidence:
  assumes "run_sweep tn lib repo parse recorder fl args world home accessible (Inr plan) store = (result, final)"
    and "get plan ''points'' = JArray points" and "distinct (entry_names store)"
  shows "distinct (entry_names final) \<and> evidence_kept store final \<and>
    (\<not> sw_resume args \<longrightarrow> map_of store \<subseteq>\<^sub>m map_of final) \<and>
    (\<forall>p e. map_of store p = Some e \<longrightarrow> list_all (\<lambda>point. entry_fits lib repo world home point p e) points \<longrightarrow>
      map_of final p = Some e) \<and>
    (\<forall>status. result = Inr status \<longrightarrow> list_all (run_in_place lib repo world home final) points)"
proof (cases "\<not> sw_interactive_auth args \<and> \<not> accessible")
  case True
  then show ?thesis using assms kept_refl by (auto simp: run_sweep_def)
next
  case False
  obtain outcome after where swept: "sweep_points lib repo parse recorder args world home points store = (outcome, after)"
    by fastforce
  have ends: "final = after \<and> (\<forall>status. result = Inr status \<longrightarrow>
      (\<exists>s. evaluate_sweep tn lib repo fl home (sweep_files_of world after) plan = Inr s))"
    using assms(1,2) False swept by (auto simp: run_sweep_def split: sum.splits)
  have "list_all (run_in_place lib repo world home final) points" if verdict: "result = Inr status" for status
  proof -
    obtain s where "evaluate_sweep tn lib repo fl home (sweep_files_of world final) plan = Inr s" using ends verdict by blast
    from evaluate_sweep_Inr[OF this assms(2)] obtain measured where
      "map_res (measure_point tn lib repo home (sweep_files_of world final)) points = Inr measured" by blast
    then show ?thesis using map_res_Inr_list_all measured_in_place by (fastforce simp: list_all_iff)
  qed
  then show ?thesis using sweep_points_store[OF swept assms(3)] ends by blast
qed

theorem sweep_keeps_evidence_witness: "\<exists>r final. load_resolved_profile example_tables example_registers (JObject r) = Inr r \<and>
    run_sweep flat_tones flat_numerics example_repository (\<lambda>_. None) ''recorder'' whole_floats resumed (silent_world r) [''s''] True
      (Inr full_plan) cut_store = (Inl (PointExperiment IndexTimeout), final) \<and>
    entry_names final = [[''s'', ''runs'', ''00-dc.interrupted-01'']] \<and> evidence_kept cut_store final"
proof (rule example_resolved)
  fix r center
  assume load: "load_resolved_profile example_tables example_registers (JObject r) = Inr r"
  note run = cut_sweep[OF load, of flat_tones flat_numerics "\<lambda>_. None"]
  have "get full_plan ''points'' = JArray [full_point]" "distinct (entry_names cut_store)"
    by (simp_all add: full_plan_def get_def entry_names_def cut_store_def)
  from sweep_keeps_evidence[OF run this] show ?thesis
    using load run by (intro exI[of _ r] exI conjI) (assumption | simp add: entry_names_def)+
qed

end
