(* ===== verification/SweepAcceptance.thy ===== *)
theory SweepAcceptance
  imports SweepRun
begin

text \<open>
  \<open>host/experiment_profiles/qcrate_sweep_acceptance.py\<close>: the target refuses an invalid and an
  untimely configuration, an interrupted recording is kept beside the one that recovers from it, and
  a recording is not taken for that of another profile.  The target's session is its transcript and
  status; time stamps are left out of the reports.
\<close>

section \<open>Constants and errors\<close>

definition SWEEP_FAULT_FORMAT :: string where "SWEEP_FAULT_FORMAT = ''qcrate-dp6e-faults-v1''"
definition SWEEP_ACCEPTANCE_FORMAT :: string where "SWEEP_ACCEPTANCE_FORMAT = ''qcrate-dp6e-acceptance-v1''"

definition REQUIRED_FAULT_CASES :: "string list" where
  "REQUIRED_FAULT_CASES =
     [''invalid_profile_rejection'', ''commit_while_armed'', ''configuration_tool_restart'',
      ''interrupted_run_recovery'', ''stale_id_detection'']"

datatype sweep_fault_error =
    FaultAccess
  | FaultPlan sweep_error
  | PlanWithoutPoints
  | FaultMeasure measure_error
  | FaultCommand profile_error
  | InterruptBuildFailed
  | InterruptExited
  | InterruptTimeout
  | FaultRun sweep_run_error
  | ReportFile sweep_error
  | ReportFormatText
  | ReportResult
  | FaultReportFormat
  | FaultReportCases

section \<open>The target session\<close>

definition stage_command :: "jobject \<Rightarrow> profile_error + string list" where
  "stage_command resolved =
     bind_res (configuration_command resolved ''qcrate-control'') (\<lambda>command. Inr (command[1 := ''config-stage'']))"

text \<open>The script's text: a tilde stands for the apostrophe and a caret for the quotation mark.\<close>

definition script_text :: "string \<Rightarrow> string" where
  "script_text = map (\<lambda>c. if c = CHR ''~'' then apostrophe else if c = CHR ''^'' then quotation else c)"

definition newline :: string where "newline = [CHR 0x0A]"

definition print_variable :: "string \<Rightarrow> string" where
  "print_variable name = printf_format (''%s'' @ newline) @ script_text ('' ^$'' @ name @ ''^'')"

definition output_matches :: "string \<Rightarrow> string \<Rightarrow> string \<Rightarrow> string" where
  "output_matches name flag pattern =
     print_variable name @ '' | grep '' @ flag @ script_text '' ~'' @ pattern @ script_text ''~''"

definition case_marker :: "string \<Rightarrow> string \<Rightarrow> string" where
  "case_marker name verdict = ''__QCRATE_'' @ name @ ''_'' @ verdict @ ''__''"

definition case_lines :: "string list \<Rightarrow> string \<Rightarrow> string list" where
  "case_lines conditions name =
     [''if '' @ join_with '' &&    '' conditions @ ''; then'', ''    echo '' @ case_marker name ''PASS'', ''else'',
      ''    echo '' @ case_marker name ''FAIL'', ''    failed=1'', ''fi'']"

definition or_failed :: "string \<Rightarrow> string" where "or_failed command = command @ '' || failed=1''"

definition active_is :: "string \<Rightarrow> string \<Rightarrow> string" where
  "active_is name config_id = output_matches name ''-qi'' (''active config ID : '' @ config_id)"

definition target_fault_lines :: "string \<Rightarrow> string \<Rightarrow> string \<Rightarrow> string \<Rightarrow> string \<Rightarrow> string \<Rightarrow> string list" where
  "target_fault_lines active_apply invalid_stage alternate_stage sequence_load active_id expected_id =
     [''set -u'', ''failed=0'', [],
      or_failed active_apply,
      or_failed invalid_stage,
      ''invalid_output=$(qcrate-control config-validate 2>&1)'',
      ''invalid_status=$?'',
      print_variable ''invalid_output'',
      ''invalid_active=$(qcrate-control config-status 2>&1)'',
      print_variable ''invalid_active''] @
     case_lines
       [script_text ''[ ^$invalid_status^ -ne 0 ]'', output_matches ''invalid_output'' ''-q'' ''R5 reason        : 3 '',
        active_is ''invalid_active'' active_id] ''INVALID_PROFILE'' @
     [or_failed ''qcrate-control config-recover'', [],
      or_failed alternate_stage,
      or_failed ''qcrate-control config-validate'',
      or_failed sequence_load,
      or_failed ''qcrate-sequence arm'',
      ''armed_output=$(qcrate-control config-commit 2>&1)'',
      ''armed_status=$?'',
      print_variable ''armed_output'',
      ''armed_active=$(qcrate-control config-status 2>&1)'',
      print_variable ''armed_active''] @
     case_lines
       [script_text ''[ ^$armed_status^ -ne 0 ]'', output_matches ''armed_output'' ''-q'' ''R5 reason        : 10 '',
        active_is ''armed_active'' active_id] ''ARMED_COMMIT'' @
     [or_failed ''qcrate-sequence abort'',
      or_failed ''qcrate-control config-recover'', [],
      or_failed alternate_stage,
      or_failed ''qcrate-control config-validate'',
      or_failed ''qcrate-control config-commit'',
      ''restart_output=$(qcrate-control config-status 2>&1)'',
      ''restart_status=$?'',
      print_variable ''restart_output''] @
     case_lines
       [script_text ''[ ^$restart_status^ -eq 0 ]'', active_is ''restart_output'' expected_id] ''TOOL_RESTART'' @
     [script_text ''exit ^$failed^'']"

definition config_id_text :: "jobject \<Rightarrow> json" where
  "config_id_text resolved = get (section_object resolved ''identity'') ''dsp_config_id''"

definition target_fault_script :: "jobject \<Rightarrow> jobject \<Rightarrow> string \<Rightarrow> profile_error + string" where
  "target_fault_script active alternate sequence =
     bind_res (configuration_command active ''qcrate-control'') (\<lambda>active_apply.
     bind_res (stage_command active) (\<lambda>staged.
     let invalid = staged[2 := ''0x0000000000000001'', 5 := ''0x00008000''] in
     bind_res (stage_command alternate) (\<lambda>alternate_stage.
     Inr (join_with newline (target_fault_lines (shlex_join active_apply) (shlex_join invalid) (shlex_join alternate_stage)
       (shlex_join [''qcrate-sequence'', ''load'', sequence]) (jtext (config_id_text active)) (jtext (config_id_text alternate)))))))"

definition mentions :: "string \<Rightarrow> string \<Rightarrow> bool" where
  "mentions p s = (find_text p s \<noteq> None)"

definition fault_case :: "bool \<Rightarrow> string \<Rightarrow> json" where
  "fault_case passed requirement = JObject [(''pass'', JBool passed), (''requirement'', JString requirement)]"

definition target_cases :: "string \<Rightarrow> jobject" where
  "target_cases transcript =
     [(''invalid_profile_rejection'', fault_case (mentions (case_marker ''INVALID_PROFILE'' ''PASS'') transcript)
         ''R5 rejects an invalid Q1.15 amplitude and preserves the active profile''),
      (''commit_while_armed'', fault_case (mentions (case_marker ''ARMED_COMMIT'' ''PASS'') transcript)
         ''R5 rejects configuration commit while the sequence engine is armed''),
      (''configuration_tool_restart'', fault_case (mentions (case_marker ''TOOL_RESTART'' ''PASS'') transcript)
         ''stage, validate, and commit survive separate qcrate-control processes'')]"

section \<open>The recovery of an interrupted recording\<close>

text \<open>
  What the target, the recorder that is interrupted and the experiments turn out to do, and the
  stored report of the sweep, when there is one.
\<close>

record fault_world =
  fw_transcript :: string
  fw_status :: int
  fw_recorder_present :: bool
  fw_recorder_builds :: bool
  fw_polls :: "(bool \<times> bool) list"
  fw_directory :: bool
  fw_interrupted :: run_files
  fw_sweep :: sweep_world
  fw_report :: "json option option"

definition recovery_path :: "string list \<Rightarrow> string list" where
  "recovery_path home = home @ [''fault-evidence'', ''recovery-run'']"

definition interrupted_entry :: "fault_world \<Rightarrow> sweep_entry" where
  "interrupted_entry fw = \<lparr>se_files = fw_interrupted fw, se_profile = None\<rparr>"

definition interrupt_recorder ::
    "fault_world \<Rightarrow> string list \<Rightarrow> evidence \<Rightarrow> (sweep_fault_error + string list) \<times> evidence" where
  "interrupt_recorder fw home store =
     (if \<not> fw_recorder_present fw \<and> \<not> fw_recorder_builds fw then (Inl InterruptBuildFailed, store)
      else
        (let run = recovery_path home;
             cleared = (if run \<in> set (entry_names store) then snd (preserve_interrupted run store) else store);
             left = cleared @ [(run, interrupted_entry fw)]
         in case wait_for_path (fw_polls fw) of
              RecorderExited \<Rightarrow> (Inl InterruptExited, if fw_directory fw then left else cleared)
            | WaitTimedOut \<Rightarrow> (Inl InterruptTimeout, if fw_directory fw then left else cleared)
            | IndexPresent \<Rightarrow> (let (preserved, kept) = preserve_interrupted run left in (Inr preserved, kept))))"

text \<open>The errors of a verification that are instances of \<open>RuntimeError\<close>.\<close>

definition runtime_error :: "measure_error \<Rightarrow> bool" where
  "runtime_error e =
     (case e of
        MeasureExperiment x \<Rightarrow>
          (case x of
             RunNotAccepted \<Rightarrow> True | RunWithoutShots \<Rightarrow> True | StreamConfigId _ \<Rightarrow> True | StreamCenter _ \<Rightarrow> True
           | ShotConfigId _ \<Rightarrow> True | ShotCrc _ \<Rightarrow> True | ShotMismatches _ _ \<Rightarrow> True | _ \<Rightarrow> False)
      | _ \<Rightarrow> False)"

definition recovery_args :: "sweep_args \<Rightarrow> sweep_args" where
  "recovery_args args = args\<lparr>sw_point := (sw_point args)\<lparr>ea_shots := 1\<rparr>\<rparr>"

definition stale_rejected ::
    "numerics \<Rightarrow> repository_files \<Rightarrow> sweep_entry \<Rightarrow> jobject \<Rightarrow> sweep_fault_error + bool" where
  "stale_rejected lib repo entry stale =
     (case verify_entry lib repo entry stale of
        Inr _ \<Rightarrow> Inr False
      | Inl e \<Rightarrow> if runtime_error e then Inr True else Inl (FaultMeasure e))"

definition relative_text :: "string list \<Rightarrow> string list \<Rightarrow> string" where
  "relative_text home path = join_with ''/'' (drop (length home) path)"

definition recovery_cases ::
    "string list \<Rightarrow> evidence \<Rightarrow> string list \<Rightarrow> jobject \<Rightarrow> jobject \<Rightarrow> bool \<Rightarrow> jobject" where
  "recovery_cases home store preserved active stale rejected =
     [(''interrupted_run_recovery'', JObject
        [(''pass'', JBool (preserved \<in> set (entry_names store) \<and> recovery_path home \<in> set (entry_names store))),
         (''preserved_run'', JString (relative_text home preserved)),
         (''fresh_run'', JString (relative_text home (recovery_path home))),
         (''requirement'', JString ''interrupted recorder evidence is retained and recovery starts a fresh complete run'')]),
      (''stale_id_detection'', JObject
        [(''pass'', JBool rejected),
         (''active_config_id'', config_id_text active),
         (''stale_config_id'', config_id_text stale),
         (''requirement'', JString ''a complete recording cannot be verified with a stale resolved profile'')])]"

definition run_recovery_faults ::
    "numerics \<Rightarrow> repository_files \<Rightarrow> (string \<Rightarrow> json option) \<Rightarrow> string \<Rightarrow> sweep_args \<Rightarrow> fault_world \<Rightarrow>
     string list \<Rightarrow> config_file \<times> jobject \<Rightarrow> config_file \<times> jobject \<Rightarrow> evidence \<Rightarrow>
     (sweep_fault_error + jobject) \<times> evidence" where
  "run_recovery_faults lib repo parse recorder args fw home active_profile stale_profile store =
     (let (active_file, active) = active_profile; (_, stale) = stale_profile; run = recovery_path home in
      case interrupt_recorder fw home store of
        (Inl e, left) \<Rightarrow> (Inl e, left)
      | (Inr preserved, kept) \<Rightarrow>
          (case measure_run lib repo parse recorder (recovery_args args) (fw_sweep fw) run active_file kept of
             (Inl e, final) \<Rightarrow> (Inl (FaultRun e), final)
           | (Inr _, final) \<Rightarrow>
               (case map_of final run of
                  None \<Rightarrow> (Inl (FaultMeasure RunDirectory), final)
                | Some entry \<Rightarrow>
                    (bind_res (raised_as FaultMeasure (verify_entry lib repo entry active)) (\<lambda>_.
                     bind_res (stale_rejected lib repo entry stale) (\<lambda>rejected.
                     Inr (recovery_cases home final preserved active stale rejected))), final))))"

section \<open>The report of a sweep as a document\<close>

definition updated :: "jobject \<Rightarrow> jobject \<Rightarrow> jobject" where
  "updated document changes = fold (\<lambda>(k, v). AList.update k v) changes document"

definition float_json :: "floats \<Rightarrow> rat \<Rightarrow> json" where "float_json fl q = JFloat (fl_repr fl q)"

definition point_json :: "floats \<Rightarrow> point_verdict \<Rightarrow> json" where
  "point_json fl v =
     (let m = pv_measurement v; h = pm_health m in
      JObject (updated (pm_point m)
        [(''run_id'', JString (hexadecimal (pm_run_id m) 64)), (''shots'', JInt (pm_shots m)),
         (''words_checked'', JInt (pm_words_checked m)), (''iq_mismatches'', JInt (pm_iq_mismatches m)),
         (''measured_magnitude_dbfs'', float_json fl (pm_measured_magnitude_dbfs m)),
         (''model_magnitude_dbfs'', float_json fl (pm_model_magnitude_dbfs m)),
         (''magnitude_error_db'', float_json fl (pm_magnitude_error_db m)),
         (''measured_phase_degrees'', float_json fl (pm_measured_phase_degrees m)),
         (''model_phase_degrees'', float_json fl (pm_model_phase_degrees m)),
         (''phase_error_degrees'', float_json fl (pm_phase_error_degrees m)),
         (''theoretical_fir_magnitude_db'', float_json fl (pm_theoretical_fir_magnitude_db m)),
         (''integrity_ok'', JBool (pm_integrity_ok m)),
         (''incomplete_shots'', JInt (rh_incomplete_shots h)), (''skipped_shot_ids'', JInt (rh_skipped_shot_ids h)),
         (''kernel_receive_drops'', JInt (rh_kernel_receive_drops h)),
         (''missed_triggers'', optional_int (rh_missed_triggers h)),
         (''skipped_triggers'', optional_int (rh_skipped_triggers h)),
         (''dma_error_events'', optional_int (rh_dma_error_events h)),
         (''measured_response_db'', float_json fl (pv_measured_response_db v)),
         (''model_response_db'', float_json fl (pv_model_response_db v)),
         (''theoretical_fir_response_db'', float_json fl (pv_theoretical_fir_response_db v)),
         (''phase_required'', JBool (pv_phase_required v)), (''pass'', JBool (pv_pass v))]))"

definition verdict_text :: "bool \<Rightarrow> json" where
  "verdict_text passed = JString (if passed then ''PASS'' else ''FAIL'')"

definition report_json :: "floats \<Rightarrow> sweep_summary \<Rightarrow> jobject" where
  "report_json fl s =
     [(''format'', JString REPORT_FORMAT), (''result'', verdict_text (ss_passed s)),
      (''sweep_sha256'', ss_sweep_sha256 s), (''name'', ss_name s),
      (''phase_response_floor_db'', float_json fl (ss_phase_floor_db s)),
      (''magnitude_tolerance_db'', float_json fl MAGNITUDE_TOLERANCE_DB),
      (''phase_tolerance_degrees'', float_json fl PHASE_TOLERANCE_DEGREES),
      (''total_points'', JInt (int (length (ss_points s)))), (''total_iq_words_checked'', JInt (ss_total_words s)),
      (''checks'', JObject (map (\<lambda>(k, ok). (k, JBool ok)) (ss_checks s))),
      (''points'', JArray (map (point_json fl) (ss_points s)))]"

section \<open>The acceptance\<close>

text \<open>\<open>v == 0\<close>.\<close>

definition equals_zero :: "json \<Rightarrow> bool" where
  "equals_zero v =
     (case v of JInt i \<Rightarrow> i = 0 | JBool b \<Rightarrow> \<not> b | JFloat s \<Rightarrow> float_of_json v = Some 0 | _ \<Rightarrow> False)"

definition case_passes :: "json \<Rightarrow> bool" where
  "case_passes v = (case v of JObject d \<Rightarrow> get d ''pass'' = JBool True | _ \<Rightarrow> False)"

definition finalize_acceptance ::
    "floats \<Rightarrow> json option option \<Rightarrow> measure_error + sweep_summary \<Rightarrow> jobject \<Rightarrow> sweep_fault_error + bool \<times> jobject" where
  "finalize_acceptance fl stored evaluated faults =
     bind_res (case stored of
         Some parsed \<Rightarrow> raised_as ReportFile (sweep_load_json ''dp6e-sweep.json'' parsed)
       | None \<Rightarrow> raised_as FaultMeasure (bind_res evaluated (\<lambda>s. Inr (report_json fl s)))) (\<lambda>sweep_report.
     if get sweep_report ''format'' \<noteq> JString REPORT_FORMAT then Inl ReportFormatText
     else
       case get faults ''cases'' of
         JObject cases \<Rightarrow>
           if get faults ''format'' \<noteq> JString SWEEP_FAULT_FORMAT then Inl FaultReportFormat
           else if set (keys_of cases) \<noteq> set REQUIRED_FAULT_CASES then Inl FaultReportCases
           else
             (case map_of sweep_report ''result'' of
                None \<Rightarrow> Inl ReportResult
              | Some result \<Rightarrow>
                  (let passed = (result = JString ''PASS'' \<and> equals_zero (get faults ''target_command_status'') \<and>
                         list_all (case_passes \<circ> snd) cases)
                   in Inr (passed, updated sweep_report
                        [(''format'', JString SWEEP_ACCEPTANCE_FORMAT), (''result'', verdict_text passed),
                         (''faults'', JObject faults)])))
       | _ \<Rightarrow> Inl FaultReportFormat)"

definition fault_report :: "int \<Rightarrow> jobject \<Rightarrow> jobject" where
  "fault_report status cases =
     [(''format'', JString SWEEP_FAULT_FORMAT), (''target_command_status'', JInt status), (''cases'', JObject cases)]"

definition point_profile ::
    "repository_files \<Rightarrow> sweep_world \<Rightarrow> string list \<Rightarrow> json \<Rightarrow> string \<Rightarrow> sweep_fault_error + config_file \<times> jobject" where
  "point_profile repo world home point context =
     bind_res (raised_as (FaultMeasure \<circ> MeasurePath) (sweep_path home (point_field ''resolved_profile'' point) context))
       (\<lambda>path. raised_as FaultMeasure (load_point_profile repo (wo_profiles world) path))"

text \<open>
  The exit status, the evidence at the end and the documents written.  The recovery runs with the
  profile of the first point, and the stale one is that of the last point.
\<close>

definition run_acceptance ::
    "tone_numerics \<Rightarrow> numerics \<Rightarrow> repository_files \<Rightarrow> (string \<Rightarrow> json option) \<Rightarrow> string \<Rightarrow> floats \<Rightarrow> sweep_args \<Rightarrow>
     fault_world \<Rightarrow> string list \<Rightarrow> bool \<Rightarrow> sweep_error + jobject \<Rightarrow> evidence \<Rightarrow>
     (sweep_fault_error + int) \<times> evidence \<times> (string \<times> jobject) list" where
  "run_acceptance tn lib repo parse recorder fl args fw home accessible planned store =
     (if \<not> sw_interactive_auth args \<and> \<not> accessible then (Inl FaultAccess, store, [])
      else
        case bind_res (raised_as FaultPlan planned) (\<lambda>plan.
             bind_res (case get plan ''points'' of
                 JArray (p # ps) \<Rightarrow> Inr (p # ps) | _ \<Rightarrow> Inl PlanWithoutPoints) (\<lambda>points.
             bind_res (point_profile repo (fw_sweep fw) home (last points) ''active resolved-profile path'') (\<lambda>active.
             bind_res (point_profile repo (fw_sweep fw) home (hd points) ''alternate resolved-profile path'') (\<lambda>alternate.
             bind_res (raised_as FaultCommand (target_fault_script (snd active) (snd alternate) (ea_sequence (sw_point args))))
               (\<lambda>_. Inr (plan, active, alternate)))))) of
          Inl e \<Rightarrow> (Inl e, store, [])
        | Inr (plan, active, alternate) \<Rightarrow>
            (case run_recovery_faults lib repo parse recorder args fw home alternate active store of
               (Inl e, final) \<Rightarrow> (Inl e, final, [])
             | (Inr recovery, final) \<Rightarrow>
                 (let faults = fault_report (fw_status fw) (target_cases (fw_transcript fw) @ recovery);
                      evaluated = evaluate_sweep tn lib repo fl home (sweep_files_of (fw_sweep fw) final) plan
                  in case finalize_acceptance fl (fw_report fw) evaluated faults of
                       Inl e \<Rightarrow> (Inl e, final, [(''dp6e-faults.json'', faults)])
                     | Inr (passed, acceptance) \<Rightarrow>
                         (Inr (if passed then 0 else 2), final,
                          [(''dp6e-faults.json'', faults), (''dp6e-acceptance.json'', acceptance)]))))"

end
