(* ===== verification/SweepAcceptanceLaws.thy ===== *)
theory SweepAcceptanceLaws
  imports SweepAcceptance SweepRunLaws SweepRunExample
begin

text \<open>
  What the acceptance of a sweep says: which runs of the fault tests are kept, when a stale profile
  is refused, and what the exit status stands for.
\<close>

section \<open>Stale profiles\<close>

lemma verify_run_cong:
  "document_config_id r = document_config_id s \<Longrightarrow> expected_center r = expected_center s \<Longrightarrow>
   verify_run lib repo files bundled r = verify_run lib repo files bundled s"
  by (simp add: verify_run_def)

text \<open>
  A run that verifies for one profile verifies for exactly those of the same identifier and center
  frequency, and the refusal of the others is one the test counts.
\<close>

lemma stale_rejected_exact:
  assumes "verify_entry lib repo entry active = Inr v" "stale_rejected lib repo entry stale = Inr b"
  shows "b \<longleftrightarrow> document_config_id stale \<noteq> document_config_id active \<or> expected_center stale \<noteq> expected_center active"
proof -
  obtain bundled where bundled: "se_profile entry = Some bundled"
    using assms(1) by (cases "se_profile entry") (simp_all add: verify_entry_def)
  obtain n words hz where run: "verify_run lib repo (se_files entry) bundled active = Inr (n, words, hz)"
    using assms(1) by (cases v) (simp add: verify_entry_def bundled raised_as_Inr_iff)
  show ?thesis
  proof (rule verify_run_Inr[OF run])
    fix run_found i center
    assume opened: "bundle_open (se_files entry) False = Inr run_found" "document_config_id active = Some i"
        "expected_center active = Some center" "run_complete (rb_manifest run_found) = Some True"
        "integrity_ok (bundle_health run_found)" "complete_shots run_found \<noteq> []"
      and stream: "check_stream ''run manifest'' (section_of (rb_manifest run_found) ''stream'') i center = Inr ()"
    show ?thesis
    proof (cases "document_config_id stale = Some i \<and> expected_center stale = Some center")
      case True
      then have "verify_run lib repo (se_files entry) bundled stale = Inr (n, words, hz)"
        using verify_run_cong[of stale active] run opened(2,3) by simp
      then show ?thesis using assms(2) True opened(2,3) by (simp add: stale_rejected_def verify_entry_def bundled)
    next
      case False
      obtain j c where known: "document_config_id stale = Some j" "expected_center stale = Some c"
        using assms(2) opened(1)
        by (cases "document_config_id stale"; cases "expected_center stale")
           (auto simp: stale_rejected_def verify_entry_def bundled verify_run_def runtime_error_def raised_as_def)
      define e where "e = (if j \<noteq> i then StreamConfigId ''run manifest'' else StreamCenter ''run manifest'')"
      have e: "check_stream ''run manifest'' (section_of (rb_manifest run_found) ''stream'') j c = Inl e"
        using stream False known unfolding check_stream_Inr by (auto simp: check_stream_def e_def)
      then have "verify_run lib repo (se_files entry) bundled stale = Inl e"
        using opened known by (simp add: verify_run_def)
      then have b using assms(2) by (auto simp: stale_rejected_def verify_entry_def bundled runtime_error_def raised_as_def e_def split: if_splits)
      then show ?thesis using False known opened(2,3) by auto
    qed
  qed
qed

section \<open>The interrupted recording\<close>

lemma added_kept:
  assumes "run \<notin> set (entry_names store)" "distinct (entry_names store)"
  shows "evidence_kept store (store @ [(run, e)])" "distinct (entry_names (store @ [(run, e)]))"
    "map_of (store @ [(run, e)]) run = Some e"
proof -
  show "evidence_kept store (store @ [(run, e)])" by (rule kept_same) (auto simp: map_le_def dom_def map_add_def)
  show "distinct (entry_names (store @ [(run, e)]))" "map_of (store @ [(run, e)]) run = Some e"
    using assms store_names[of store run] by (simp_all add: entry_names_def map_add_def)
qed

lemma preserved_entry:
  assumes "preserve_interrupted path store = (destination, kept)" "map_of store path = Some e"
  shows "map_of kept destination = Some e" "name_extends path destination" "destination \<noteq> path"
proof -
  have d: "destination = suffixed path (first_free (entry_names store) path 1)" "kept = rename_entry path destination store"
    using assms(1) by (auto simp: preserve_interrupted_def Let_def)
  have free: "destination \<notin> set (entry_names store)" unfolding d(1) by (rule first_free_free)
  have differ: "path \<noteq> destination" using suffixed_extends(2)[of path] d(1) by metis
  show "map_of kept destination = Some e" using assms(2) differ by (simp add: d(2) map_of_renamed[OF differ free])
  show "name_extends path destination" "destination \<noteq> path" by (simp_all add: d(1) suffixed_extends)
qed

lemma interrupt_recorder_store:
  assumes "interrupt_recorder fw home store = (result, final)" "distinct (entry_names store)"
  shows "distinct (entry_names final) \<and> evidence_kept store final"
    and "result = Inr preserved \<Longrightarrow> map_of final preserved = Some (interrupted_entry fw) \<and> recovery_path home \<notin> set (entry_names final) \<and>
      name_extends (recovery_path home) preserved \<and> preserved \<noteq> recovery_path home"
proof -
  define run where "run = recovery_path home"
  define cleared where "cleared = (if run \<in> set (entry_names store) then snd (preserve_interrupted run store) else store)"
  have c: "run \<notin> set (entry_names cleared)" "distinct (entry_names cleared)" "evidence_kept store cleared"
    using preserved_store(1-3)[of run store _ _, OF prod.collapse[symmetric] assms(2)] assms(2) kept_refl
    by (simp_all add: cleared_def)
  define left where "left = cleared @ [(run, interrupted_entry fw)]"
  note l = added_kept[OF c(1,2), of "interrupted_entry fw", folded left_def]
  have kept_left: "evidence_kept store left" by (rule kept_trans[OF c(3) l(1)])
  obtain d kept where p: "preserve_interrupted run left = (d, kept)" by fastforce
  note pl = preserved_store(1-3)[OF p l(2)] preserved_entry[OF p l(3)]
  have ends: "(isl result \<and> (final = store \<or> final = cleared \<or> final = left)) \<or> (result = Inr d \<and> final = kept)"
    using assms(1) p by (auto simp: interrupt_recorder_def Let_def run_def cleared_def left_def split: if_splits index_wait.splits)
  then show "distinct (entry_names final) \<and> evidence_kept store final"
    using assms(2) kept_refl c(2,3) l(2) kept_left pl(2) kept_trans[OF kept_left pl(3)] by auto
  show "map_of final preserved = Some (interrupted_entry fw) \<and> recovery_path home \<notin> set (entry_names final) \<and>
      name_extends (recovery_path home) preserved \<and> preserved \<noteq> recovery_path home" if "result = Inr preserved"
    using ends that pl(1,4-6) unfolding run_def by auto
qed

section \<open>The recovery\<close>

lemma run_recovery_store:
  assumes "run_recovery_faults lib repo parse recorder args fw home active_profile stale_profile store = (result, final)"
    and "distinct (entry_names store)"
  shows "distinct (entry_names final) \<and> evidence_kept store final"
    and "result = Inr cases \<Longrightarrow> \<exists>preserved entry v rejected. map_of final preserved = Some (interrupted_entry fw) \<and>
      name_extends (recovery_path home) preserved \<and> preserved \<noteq> recovery_path home \<and>
      map_of final (recovery_path home) = Some entry \<and> verify_entry lib repo entry (snd active_profile) = Inr v \<and>
      stale_rejected lib repo entry (snd stale_profile) = Inr rejected \<and>
      cases = recovery_cases home final preserved (snd active_profile) (snd stale_profile) rejected"
proof -
  obtain active_file active stale_file stale where profiles: "active_profile = (active_file, active)" "stale_profile = (stale_file, stale)"
    by (cases active_profile, cases stale_profile)
  obtain outcome kept where one: "interrupt_recorder fw home store = (outcome, kept)" by fastforce
  note first = interrupt_recorder_store[OF one assms(2)]
  obtain m after where measured: "measure_run lib repo parse recorder (recovery_args args) (fw_sweep fw) (recovery_path home)
      active_file kept = (m, after)" by fastforce
  have both: "(distinct (entry_names final) \<and> evidence_kept store final) \<and> (\<forall>cases. result = Inr cases \<longrightarrow> (\<exists>preserved entry v rejected.
      map_of final preserved = Some (interrupted_entry fw) \<and>
      name_extends (recovery_path home) preserved \<and> preserved \<noteq> recovery_path home \<and>
      map_of final (recovery_path home) = Some entry \<and> verify_entry lib repo entry (snd active_profile) = Inr v \<and>
      stale_rejected lib repo entry (snd stale_profile) = Inr rejected \<and>
      cases = recovery_cases home final preserved (snd active_profile) (snd stale_profile) rejected))"
  proof (cases outcome)
    case (Inl e)
    then have "(result, final) = (Inl e, kept)" using assms(1) by (simp add: run_recovery_faults_def profiles one)
    then show ?thesis using first(1) by simp
  next
    case (Inr preserved)
    note in_place = first(2)[OF Inr]
    have "recovery_path home \<notin> set (entry_names kept)" using in_place by blast
    note step = measure_run_store[OF measured this] first(1)
    have stored: "distinct (entry_names after)" "map_of kept \<subseteq>\<^sub>m map_of after" "evidence_kept store after"
      using step kept_trans[OF _ kept_same] by blast+
    have final: "final = after"
      using assms(1) by (simp add: run_recovery_faults_def profiles one Inr measured split: sum.splits option.splits)
    have found: "map_of after preserved = Some (interrupted_entry fw)"
      using in_place stored(2) by (auto simp: map_le_def dom_def)
    have "\<exists>entry v rejected. map_of after (recovery_path home) = Some entry \<and> verify_entry lib repo entry active = Inr v \<and>
        stale_rejected lib repo entry stale = Inr rejected \<and> cases = recovery_cases home after preserved active stale rejected"
      if "result = Inr cases" for cases
      using assms(1) that
      by (auto simp: run_recovery_faults_def profiles one Inr measured bind_res_Inr_iff raised_as_Inr_iff split: sum.splits option.splits)
    then show ?thesis using stored(1,3) found in_place unfolding final profiles snd_conv by blast
  qed
  then show "distinct (entry_names final) \<and> evidence_kept store final" by blast
  show "\<exists>preserved entry v rejected. map_of final preserved = Some (interrupted_entry fw) \<and>
      name_extends (recovery_path home) preserved \<and> preserved \<noteq> recovery_path home \<and>
      map_of final (recovery_path home) = Some entry \<and> verify_entry lib repo entry (snd active_profile) = Inr v \<and>
      stale_rejected lib repo entry (snd stale_profile) = Inr rejected \<and>
      cases = recovery_cases home final preserved (snd active_profile) (snd stale_profile) rejected" if "result = Inr cases"
    using both that by blast
qed

end
