(* ===== verification/SweepAcceptanceProperties.thy ===== *)
theory SweepAcceptanceProperties
  imports SweepAcceptanceLaws
begin

text \<open>
  The property of a sweep acceptance: what its exit status stands for, and that the fault tests
  lose no recording.
\<close>

section \<open>The verdict\<close>

text \<open>The sweep passed: by its stored report, or by its evaluation when there is none.\<close>

definition sweep_passed :: "json option option \<Rightarrow> measure_error + sweep_summary \<Rightarrow> bool" where
  "sweep_passed stored evaluated \<longleftrightarrow>
     (case stored of
        Some parsed \<Rightarrow> \<exists>r. sweep_load_json ''dp6e-sweep.json'' parsed = Inr r \<and> map_of r ''result'' = Some (JString ''PASS'')
      | None \<Rightarrow> \<exists>s. evaluated = Inr s \<and> ss_passed s)"

lemma get_updated:
  "get (updated document changes) k = (case map_of (rev changes) k of Some v \<Rightarrow> v | None \<Rightarrow> get document k)"
proof (induction changes arbitrary: document)
  case (Cons kv changes)
  obtain j v where kv: "kv = (j, v)" by (cases kv)
  have "get (AList.update j v document) k = (if k = j then v else get document k)"
    by (simp add: get_def AList.update_conv')
  then show ?case using Cons.IH[of "AList.update j v document"]
    by (auto simp: updated_def kv map_add_def split: option.splits)
qed (simp add: updated_def)

lemma verdict_text_iff: "verdict_text p = JString ''PASS'' \<longleftrightarrow> p"
  by (simp add: verdict_text_def)

lemma finalize_acceptance_Inr:
  assumes "finalize_acceptance fl stored evaluated (fault_report status cases) = Inr (passed, acceptance)"
  shows "passed \<longleftrightarrow> sweep_passed stored evaluated \<and> status = 0 \<and> list_all (case_passes \<circ> snd) cases"
    "get acceptance ''result'' = verdict_text passed"
proof -
  have faults: "get (fault_report status cases) ''cases'' = JObject cases"
    "get (fault_report status cases) ''target_command_status'' = JInt status"
    by (simp_all add: fault_report_def get_def)
  obtain report result where report: "(case stored of
         Some parsed \<Rightarrow> raised_as ReportFile (sweep_load_json ''dp6e-sweep.json'' parsed)
       | None \<Rightarrow> raised_as FaultMeasure (bind_res evaluated (\<lambda>s. Inr (report_json fl s)))) = Inr report"
      "map_of report ''result'' = Some result"
    and ends: "passed \<longleftrightarrow> result = JString ''PASS'' \<and> equals_zero (JInt status) \<and> list_all (case_passes \<circ> snd) cases"
      "acceptance = updated report [(''format'', JString SWEEP_ACCEPTANCE_FORMAT), (''result'', verdict_text passed),
         (''faults'', JObject (fault_report status cases))]"
    using assms unfolding finalize_acceptance_def faults bind_res_Inr_iff
    by (auto simp: Let_def split: if_splits option.splits)
  have "result = JString ''PASS'' \<longleftrightarrow> sweep_passed stored evaluated"
    using report by (auto simp: sweep_passed_def raised_as_Inr_iff bind_res_Inr_iff report_json_def verdict_text_iff
        split: option.splits)
  then show "passed \<longleftrightarrow> sweep_passed stored evaluated \<and> status = 0 \<and> list_all (case_passes \<circ> snd) cases"
    using ends(1) by (auto simp: equals_zero_def)
  show "get acceptance ''result'' = verdict_text passed" unfolding ends(2) get_updated by simp
qed

lemma fault_cases_pass:
  "list_all (case_passes \<circ> snd) (target_cases transcript @ recovery_cases home store preserved active stale rejected) \<longleftrightarrow>
     list_all (\<lambda>name. mentions (case_marker name ''PASS'') transcript) [''INVALID_PROFILE'', ''ARMED_COMMIT'', ''TOOL_RESTART''] \<and>
     preserved \<in> set (entry_names store) \<and> recovery_path home \<in> set (entry_names store) \<and> rejected"
  by (auto simp: target_cases_def recovery_cases_def fault_case_def case_passes_def get_def)

lemma written_verdict:
  assumes "(case finalized of
       Inl e \<Rightarrow> (Inl e, after, [(''dp6e-faults.json'', faults :: jobject)])
     | Inr (passed, acceptance) \<Rightarrow>
         (Inr (if passed then 0 else 2), after, [(''dp6e-faults.json'', faults), (''dp6e-acceptance.json'', acceptance)])) =
     (result, final, written)"
  shows "final = after" "result = Inr (status :: int) \<Longrightarrow>
    \<exists>acceptance passed. status = (if passed then 0 else 2) \<and> finalized = Inr (passed, acceptance) \<and>
      map_of written ''dp6e-acceptance.json'' = Some acceptance"
proof -
  have different: "map_of [(''dp6e-faults.json'', a), (''dp6e-acceptance.json'', b)] ''dp6e-acceptance.json'' = Some b" for a b :: jobject
    by simp
  show "final = after" using assms by (cases finalized) (auto simp only: sum.case prod.case prod.inject)
  assume r: "result = Inr status"
  show "\<exists>acceptance passed. status = (if passed then 0 else 2) \<and> finalized = Inr (passed, acceptance) \<and>
      map_of written ''dp6e-acceptance.json'' = Some acceptance"
  proof (cases finalized)
    case (Inl e)
    then show ?thesis using assms r by (simp only: sum.case prod.inject) blast
  next
    case (Inr both)
    obtain passed acceptance where both: "both = (passed, acceptance)" by (cases both)
    have "status = (if passed then 0 else 2)" "written = [(''dp6e-faults.json'', faults), (''dp6e-acceptance.json'', acceptance)]"
      using assms r unfolding Inr both sum.case prod.case prod.inject by blast+
    then show ?thesis by (intro exI[of _ acceptance] exI[of _ passed]) (simp only: Inr both different simp_thms)
  qed
qed

section \<open>An acceptance\<close>

text \<open>A sweep of one point, whose profile is therefore its own stale one: every test but the last passes.\<close>

definition example_faults :: "int \<Rightarrow> jobject \<Rightarrow> fault_world" where
  "example_faults center r =
     \<lparr>fw_transcript = ''__QCRATE_INVALID_PROFILE_PASS__ __QCRATE_ARMED_COMMIT_PASS__ __QCRATE_TOOL_RESTART_PASS__'',
      fw_status = 0, fw_recorder_present = True, fw_recorder_builds = True, fw_polls = [(True, False)], fw_directory = True,
      fw_interrupted = example_files center,
      fw_sweep = \<lparr>wo_profiles = (\<lambda>p. Some (example_file r)), wo_experiment = (\<lambda>p. example_world center), wo_directory = (\<lambda>p. True)\<rparr>,
      fw_report = Some (Some (JObject [(''format'', JString REPORT_FORMAT), (''result'', JString ''PASS'')]))\<rparr>"

definition fault_args :: sweep_args where
  "fault_args = \<lparr>sw_resume = False, sw_interactive_auth = False, sw_point = example_experiment\<rparr>"

definition fresh_entry :: "int \<Rightarrow> jobject \<Rightarrow> sweep_entry" where
  "fresh_entry center r = \<lparr>se_files = finished_files (example_world center) (example_sender center), se_profile = Some (example_file r)\<rparr>"

lemma preserve_alone: "preserve_interrupted path [(path, e)] = (suffixed path 1, [(suffixed path 1, e)])"
proof -
  have "suffixed path 1 \<noteq> path" by (rule suffixed_extends(2))
  then have "first_free [path] path 1 = 1" by (subst first_free.simps) simp
  then show ?thesis by (simp add: preserve_interrupted_def entry_names_def rename_entry_def Let_def)
qed

lemma faults_interrupted: "interrupt_recorder (example_faults center r) home [] =
    (Inr (suffixed (recovery_path home) 1), [(suffixed (recovery_path home) 1, interrupted_entry (example_faults center r))])"
proof -
  have "fw_recorder_present (example_faults center r)" "wait_for_path (fw_polls (example_faults center r)) = IndexPresent"
    by (simp_all add: example_faults_def)
  then show ?thesis by (simp add: interrupt_recorder_def Let_def entry_names_def preserve_alone[unfolded One_nat_def])
qed

lemma faults_measured:
  assumes "load_resolved_profile example_tables example_registers (JObject r) = Inr r"
    and "document_config_id r = Some 0xaf46287bb969ed24" "expected_center r = Some center"
    and "expected_words example_repository (example_file r) 1 = Inr [0]"
    and "get (section_object r ''sequence'') ''image_sha256'' = JString digest" and "path \<notin> set (entry_names store)"
  shows "measure_run flat_numerics example_repository (\<lambda>s. Some (JObject (example_sender center))) ''recorder'' args
    (fw_sweep (example_faults center r)) path (example_file r) store = (Inr (), store @ [(path, fresh_entry center r)])"
proof -
  obtain result start remote more where run: "run_experiment flat_numerics example_repository (\<lambda>s. Some (JObject (example_sender center)))
      ''recorder'' (run_name path) (point_args args) (example_world center) (example_file r) =
      (Inr result, [StartRecorder start, CopyProfile (example_file r), RunRemote remote, WriteReport (example_sender center)] @ more)"
    using example_experiment_actions[OF assms(2,3,1,4,5)] by blast
  have world: "wo_experiment (fw_sweep (example_faults center r)) p = example_world center" for p by (simp add: example_faults_def)
  have same: "(example_world center)\<lparr>ew_output_exists := False\<rparr> = example_world center" by (simp add: example_world_def)
  have "left_entry (example_world center) directory (example_file r)
      ([StartRecorder start, CopyProfile (example_file r), RunRemote remote, WriteReport (example_sender center)] @ more) =
      Some (fresh_entry center r)" for directory
    by (simp add: left_entry_def written_report_def map_filter_simps fresh_entry_def Let_def)
  then show ?thesis using assms(6) by (simp add: measure_run_def Let_def world same run)
qed

lemma faults_end:
  assumes "load_resolved_profile example_tables example_registers (JObject r) = Inr r"
    and "document_config_id r = Some 0xaf46287bb969ed24" "expected_center r = Some center"
    and "expected_words example_repository (example_file r) 1 = Inr [0]"
    and "\<exists>image. get (section_object r ''sequence'') ''image_sha256'' = JString image"
  shows "\<exists>final written. run_acceptance flat_tones flat_numerics example_repository (\<lambda>s. Some (JObject (example_sender center)))
    ''recorder'' whole_floats fault_args (example_faults center r) [''s''] True (Inr full_plan) [] = (Inr 2, final, written)"
proof -
  obtain digest where digest: "get (section_object r ''sequence'') ''image_sha256'' = JString digest" using assms(5) by blast
  obtain ws where ws: "configuration_command r ''qcrate-control'' = Inr ws" by (rule dsp_accepts[OF assms(1)]) blast
  have script: "\<exists>script. target_fault_script r r sequence = Inr script" for sequence
    by (simp add: target_fault_script_def stage_command_def ws Let_def)
  have profile: "point_profile example_repository (fw_sweep (example_faults center r)) [''s''] full_point name = Inr (example_file r, r)"
    for name
  proof -
    have "sweep_path [''s''] (point_field ''resolved_profile'' full_point) name = Inr [''s'', ''profiles'', ''00-dc.resolved.json'']"
      by code_simp
    then show ?thesis using assms(1)
      by (simp add: point_profile_def load_point_profile_def example_faults_def example_file_def example_repository_def)
  qed
  let ?run = "recovery_path [''s'']"
  let ?kept = "[(suffixed ?run 1, interrupted_entry (example_faults center r))]"
  have "?run \<notin> set (entry_names ?kept)" using suffixed_extends(2)[of ?run 1] by (auto simp: entry_names_def)
  note measured = faults_measured[OF assms(1-4) digest this, of "recovery_args fault_args"]
  have verified: "verify_entry flat_numerics example_repository (fresh_entry center r) r = Inr (1, 1, 0)"
    by (simp add: verify_entry_def fresh_entry_def example_verified[OF assms(2,3,1,4)])
  have stale: "stale_rejected flat_numerics example_repository (fresh_entry center r) r = Inr False"
    by (simp add: stale_rejected_def verified)
  have differ: "?run \<noteq> suffixed ?run 1" using suffixed_extends(2)[of ?run 1] by metis
  obtain recovery where recovery: "run_recovery_faults flat_numerics example_repository (\<lambda>s. Some (JObject (example_sender center)))
      ''recorder'' fault_args (example_faults center r) [''s''] (example_file r, r) (example_file r, r) [] =
      (Inr recovery, ?kept @ [(?run, fresh_entry center r)])"
    and cases: "recovery = recovery_cases [''s''] (?kept @ [(?run, fresh_entry center r)]) (suffixed ?run 1) r r False"
    by (simp add: run_recovery_faults_def Let_def faults_interrupted measured verified stale differ del: append.simps One_nat_def)
  have report: "\<exists>acceptance. finalize_acceptance whole_floats (fw_report (example_faults center r)) evaluated
      (fault_report status (target_cases transcript @ recovery)) = Inr (False, acceptance)" for evaluated status transcript
  proof -
    let ?report = "[(''format'', JString REPORT_FORMAT), (''result'', JString ''PASS'')]"
    have "fw_report (example_faults center r) = Some (Some (JObject ?report))" by (simp add: example_faults_def)
    moreover have "sweep_load_json ''dp6e-sweep.json'' (Some (JObject ?report)) = Inr ?report" by code_simp
    moreover have "set (keys_of (target_cases transcript @ recovery)) = set REQUIRED_FAULT_CASES"
      by (auto simp: cases recovery_cases_def target_cases_def REQUIRED_FAULT_CASES_def)
    moreover have "\<not> list_all (case_passes \<circ> snd) (target_cases transcript @ recovery)"
      unfolding cases fault_cases_pass by simp
    ultimately show ?thesis
      by (simp add: finalize_acceptance_def fault_report_def get_def[of "(_, _) # _"] Let_def del: list_all_append)
  qed
  have "get full_plan ''points'' = JArray [full_point]" by (simp add: full_plan_def get_def)
  moreover obtain acceptance where "finalize_acceptance whole_floats (fw_report (example_faults center r))
      (evaluate_sweep flat_tones flat_numerics example_repository whole_floats [''s'']
        (sweep_files_of (fw_sweep (example_faults center r)) (?kept @ [(?run, fresh_entry center r)])) full_plan)
      (fault_report (fw_status (example_faults center r)) (target_cases (fw_transcript (example_faults center r)) @ recovery)) =
      Inr (False, acceptance)" using report by blast
  moreover obtain text_of where "target_fault_script r r (ea_sequence (sw_point fault_args)) = Inr text_of" using script by blast
  ultimately show ?thesis
    by (simp add: run_acceptance_def profile recovery Let_def del: append.simps)
qed

text \<open>
  C39. A sweep acceptance is exact and loses no recording.  However it ends, every recording there was
  is kept under a name of its own.  When it comes to a verdict, the recording that was
  interrupted lies beside a later one that passes for the profile of the first point; the exit
  status is 0 or 2 and the report says the same; and it is 0 exactly when the sweep passed, the target session
  ended with status 0 and printed the three markers of its tests, and the profile of the last
  point has another identifier or center frequency than that of the first.
\<close>

theorem sweep_acceptance_exact:
  assumes "run_acceptance tn lib repo parse recorder fl args fw home accessible (Inr plan) store = (result, final, written)"
    and "get plan ''points'' = JArray points" and "distinct (entry_names store)"
  shows "distinct (entry_names final) \<and> evidence_kept store final \<and>
    (\<forall>status. result = Inr status \<longrightarrow> (\<exists>stale recovered preserved entry v acceptance.
       point_profile repo (fw_sweep fw) home (last points) ''active resolved-profile path'' = Inr stale \<and>
       point_profile repo (fw_sweep fw) home (hd points) ''alternate resolved-profile path'' = Inr recovered \<and>
       map_of final preserved = Some (interrupted_entry fw) \<and> name_extends (recovery_path home) preserved \<and>
       preserved \<noteq> recovery_path home \<and>
       map_of final (recovery_path home) = Some entry \<and> verify_entry lib repo entry (snd recovered) = Inr v \<and>
       map_of written ''dp6e-acceptance.json'' = Some acceptance \<and> get acceptance ''result'' = verdict_text (status = 0) \<and>
       (status = 0 \<or> status = 2) \<and>
       (status = 0 \<longleftrightarrow>
          sweep_passed (fw_report fw) (evaluate_sweep tn lib repo fl home (sweep_files_of (fw_sweep fw) final) plan) \<and>
          fw_status fw = 0 \<and>
          list_all (\<lambda>name. mentions (case_marker name ''PASS'') (fw_transcript fw))
            [''INVALID_PROFILE'', ''ARMED_COMMIT'', ''TOOL_RESTART''] \<and>
          (document_config_id (snd stale) \<noteq> document_config_id (snd recovered) \<or>
           expected_center (snd stale) \<noteq> expected_center (snd recovered)))))"
proof (cases "bind_res (raised_as FaultPlan (Inr plan)) (\<lambda>plan.
             bind_res (case get plan ''points'' of
                 JArray (p # ps) \<Rightarrow> Inr (p # ps) | _ \<Rightarrow> Inl PlanWithoutPoints) (\<lambda>points.
             bind_res (point_profile repo (fw_sweep fw) home (last points) ''active resolved-profile path'') (\<lambda>active.
             bind_res (point_profile repo (fw_sweep fw) home (hd points) ''alternate resolved-profile path'') (\<lambda>alternate.
             bind_res (raised_as FaultCommand (target_fault_script (snd active) (snd alternate) (ea_sequence (sw_point args))))
               (\<lambda>_. Inr (plan, active, alternate)))))) :: sweep_fault_error + _")
  case (Inl e)
  then show ?thesis using assms kept_refl by (auto simp: run_acceptance_def split: if_splits)
next
  case (Inr ends)
  obtain stale recovered where ends: "ends = (plan, stale, recovered)"
    and loaded: "point_profile repo (fw_sweep fw) home (last points) ''active resolved-profile path'' = Inr stale"
      "point_profile repo (fw_sweep fw) home (hd points) ''alternate resolved-profile path'' = Inr recovered"
    using Inr assms(2) by (auto simp: bind_res_Inr_iff split: list.splits)
  show ?thesis
  proof (cases "\<not> sw_interactive_auth args \<and> \<not> accessible")
    case True
    then show ?thesis using assms kept_refl by (auto simp: run_acceptance_def)
  next
    case False
    obtain outcome after where tested: "run_recovery_faults lib repo parse recorder args fw home recovered stale store = (outcome, after)"
      by fastforce
    note kept = run_recovery_store[OF tested assms(3)]
    note run = assms(1)[unfolded run_acceptance_def if_not_P[OF False] Inr ends sum.case prod.case tested]
    show ?thesis
    proof (cases outcome)
      case (Inl e)
      then show ?thesis using run kept(1) by auto
    next
      case (Inr recovery)
      obtain preserved entry v rejected where in_place: "map_of after preserved = Some (interrupted_entry fw)"
          "name_extends (recovery_path home) preserved" "preserved \<noteq> recovery_path home"
          "map_of after (recovery_path home) = Some entry" "verify_entry lib repo entry (snd recovered) = Inr v"
        and stale: "stale_rejected lib repo entry (snd stale) = Inr rejected"
        and recovery: "recovery = recovery_cases home after preserved (snd recovered) (snd stale) rejected"
        using kept(2)[OF Inr] by blast
      have listed: "preserved \<in> set (entry_names after)" "recovery_path home \<in> set (entry_names after)"
        using in_place(1,4) store_names[of after preserved] store_names[of after "recovery_path home"] by auto
      let ?finalized = "finalize_acceptance fl (fw_report fw)
          (evaluate_sweep tn lib repo fl home (sweep_files_of (fw_sweep fw) after) plan)
          (fault_report (fw_status fw) (target_cases (fw_transcript fw) @ recovery))"
      note run = run[unfolded Inr sum.case prod.case Let_def]
      note same = written_verdict(1)[OF run] and finalized = written_verdict(2)[OF run]
      note rest = stale_rejected_exact[OF in_place(5) stale]
      show ?thesis unfolding same
      proof (intro conjI allI impI)
        fix status
        assume "result = Inr status"
        from finalized[OF this] obtain acceptance passed where f: "status = (if passed then 0 else 2)"
            "?finalized = Inr (passed, acceptance)" "map_of written ''dp6e-acceptance.json'' = Some acceptance" by blast
        note exact = finalize_acceptance_Inr[OF f(2)]
        have zero: "(status = 0) = passed" using f(1) by simp
        show "\<exists>stale recovered preserved entry v acceptance.
       point_profile repo (fw_sweep fw) home (last points) ''active resolved-profile path'' = Inr stale \<and>
       point_profile repo (fw_sweep fw) home (hd points) ''alternate resolved-profile path'' = Inr recovered \<and>
       map_of after preserved = Some (interrupted_entry fw) \<and> name_extends (recovery_path home) preserved \<and>
       preserved \<noteq> recovery_path home \<and>
       map_of after (recovery_path home) = Some entry \<and> verify_entry lib repo entry (snd recovered) = Inr v \<and>
       map_of written ''dp6e-acceptance.json'' = Some acceptance \<and> get acceptance ''result'' = verdict_text (status = 0) \<and>
       (status = 0 \<or> status = 2) \<and>
       (status = 0 \<longleftrightarrow>
          sweep_passed (fw_report fw) (evaluate_sweep tn lib repo fl home (sweep_files_of (fw_sweep fw) after) plan) \<and>
          fw_status fw = 0 \<and>
          list_all (\<lambda>name. mentions (case_marker name ''PASS'') (fw_transcript fw))
            [''INVALID_PROFILE'', ''ARMED_COMMIT'', ''TOOL_RESTART''] \<and>
          (document_config_id (snd stale) \<noteq> document_config_id (snd recovered) \<or>
           expected_center (snd stale) \<noteq> expected_center (snd recovered)))"
          by (rule exI[of _ stale], rule exI[of _ recovered], rule exI[of _ preserved], rule exI[of _ entry], rule exI[of _ v],
              rule exI[of _ acceptance], unfold zero, intro conjI)
             (fact loaded in_place f(3) exact(2) | simp add: f(1)
              | simp only: exact(1) recovery fault_cases_pass listed rest simp_thms)+
      qed (use kept(1) in blast)+
    qed
  qed
qed

theorem sweep_acceptance_exact_witness:
  "\<exists>parse r center written final. run_acceptance flat_tones flat_numerics example_repository parse ''recorder'' whole_floats fault_args
      (example_faults center r) [''s''] True (Inr full_plan) [] = (Inr 2, final, written) \<and>
    distinct (entry_names final) \<and> (\<exists>acceptance. map_of written ''dp6e-acceptance.json'' = Some acceptance \<and>
      get acceptance ''result'' = JString ''FAIL'')"
proof (rule example_resolved)
  fix r center
  assume r: "load_resolved_profile example_tables example_registers (JObject r) = Inr r"
    "document_config_id r = Some 0xaf46287bb969ed24" "expected_center r = Some center"
    "expected_words example_repository (example_file r) 1 = Inr [0]"
    "\<exists>image. get (section_object r ''sequence'') ''image_sha256'' = JString image"
  obtain final written where run: "run_acceptance flat_tones flat_numerics example_repository
      (\<lambda>s. Some (JObject (example_sender center))) ''recorder'' whole_floats fault_args (example_faults center r) [''s''] True
      (Inr full_plan) [] = (Inr 2, final, written)" using faults_end[OF r] by blast
  have "get full_plan ''points'' = JArray [full_point]" "distinct (entry_names [])"
    by (simp_all add: full_plan_def get_def entry_names_def)
  from sweep_acceptance_exact[OF run this] have "distinct (entry_names final)"
    "\<exists>acceptance. map_of written ''dp6e-acceptance.json'' = Some acceptance \<and> get acceptance ''result'' = verdict_text False"
    by auto
  then show ?thesis using run unfolding verdict_text_def if_False by blast
qed

end
