(* ===== verification/RegisterWindow.thy ===== *)
theory RegisterWindow
  imports RunIndex
begin

text \<open>
  \<open>kv260/linux/qcrate_apb.py\<close>: the register smoke tool of the target.  The mapped device memory is a
  function from addresses to bytes that the hardware may change before each of the tool's accesses; what
  the tool prints is a list of lines.
\<close>

unbundle bit_operations_syntax

section \<open>Registers\<close>

definition APB_BASE :: int where "APB_BASE = 0xa0010000"
definition APB_SIZE :: int where "APB_SIZE = 0x10000"
definition DEVICE_ID_QCRT :: int where "DEVICE_ID_QCRT = 0x51435254"
definition VERSION_EXPECTED :: int where "VERSION_EXPECTED = 0x100"
definition STREAM_CLOCK_HZ :: int where "STREAM_CLOCK_HZ = 200000000"
definition CONTROL_CLOCK_HZ :: int where "CONTROL_CLOCK_HZ = 100000000"
definition SYS_DEVICE_ID :: int where "SYS_DEVICE_ID = 0x0"
definition SYS_VERSION :: int where "SYS_VERSION = 0x4"
definition SYS_BUILD_ID :: int where "SYS_BUILD_ID = 0x8"
definition SYS_CAPABILITIES :: int where "SYS_CAPABILITIES = 0xc"
definition SYS_SCRATCH :: int where "SYS_SCRATCH = 0x10"
definition SYS_STREAM_CLOCK_HZ :: int where "SYS_STREAM_CLOCK_HZ = 0x14"
definition SYS_CONTROL_CLOCK_HZ :: int where "SYS_CONTROL_CLOCK_HZ = 0x18"
definition STREAM_BASE :: int where "STREAM_BASE = 0x1000"
definition STREAM_CONTROL :: int where "STREAM_CONTROL = STREAM_BASE + 0x0"
definition STREAM_FRAME_LENGTH :: int where "STREAM_FRAME_LENGTH = STREAM_BASE + 0x4"
definition STREAM_FRAME_COUNT :: int where "STREAM_FRAME_COUNT = STREAM_BASE + 0x8"
definition STREAM_MODE :: int where "STREAM_MODE = STREAM_BASE + 0xc"
definition STREAM_STATUS :: int where "STREAM_STATUS = STREAM_BASE + 0x10"
definition STREAM_COMPLETED_FRAMES :: int where "STREAM_COMPLETED_FRAMES = STREAM_BASE + 0x14"
definition STREAM_CURRENT_FRAME_ID :: int where "STREAM_CURRENT_FRAME_ID = STREAM_BASE + 0x18"
definition STREAM_CURRENT_SAMPLE_INDEX :: int where "STREAM_CURRENT_SAMPLE_INDEX = STREAM_BASE + 0x1c"
definition STREAM_STALL_CYCLES :: int where "STREAM_STALL_CYCLES = STREAM_BASE + 0x20"
definition STREAM_IRQ_STATUS :: int where "STREAM_IRQ_STATUS = STREAM_BASE + 0x24"
definition STREAM_IRQ_ENABLE :: int where "STREAM_IRQ_ENABLE = STREAM_BASE + 0x28"
definition STREAM_IRQ_CLEAR :: int where "STREAM_IRQ_CLEAR = STREAM_BASE + 0x2c"
definition STREAM_TRIGGER_SHOT_ID :: int where "STREAM_TRIGGER_SHOT_ID = STREAM_BASE + 0x30"
definition STREAM_TRIGGER_COUNT :: int where "STREAM_TRIGGER_COUNT = STREAM_BASE + 0x34"
definition STREAM_MISSED_TRIGGER_COUNT :: int where "STREAM_MISSED_TRIGGER_COUNT = STREAM_BASE + 0x38"
definition STREAM_TRIGGER_TIME_LOW :: int where "STREAM_TRIGGER_TIME_LOW = STREAM_BASE + 0x3c"
definition STREAM_TRIGGER_TIME_HIGH :: int where "STREAM_TRIGGER_TIME_HIGH = STREAM_BASE + 0x40"
definition STREAM_FIRST_SAMPLE_TIME_LOW :: int where "STREAM_FIRST_SAMPLE_TIME_LOW = STREAM_BASE + 0x44"
definition STREAM_FIRST_SAMPLE_TIME_HIGH :: int where "STREAM_FIRST_SAMPLE_TIME_HIGH = STREAM_BASE + 0x48"
definition STREAM_CAPTURE_CONFIG_ID_LOW :: int where "STREAM_CAPTURE_CONFIG_ID_LOW = STREAM_BASE + 0x4c"
definition STREAM_CAPTURE_CONFIG_ID_HIGH :: int where "STREAM_CAPTURE_CONFIG_ID_HIGH = STREAM_BASE + 0x50"
definition DSP_CONFIG_BASE :: int where "DSP_CONFIG_BASE = 0x3000"
definition DSP_CONFIG_COMMAND :: int where "DSP_CONFIG_COMMAND = DSP_CONFIG_BASE + 0x0"
definition DSP_CONFIG_STATUS :: int where "DSP_CONFIG_STATUS = DSP_CONFIG_BASE + 0x4"
definition DSP_CONFIG_REJECT_REASON :: int where "DSP_CONFIG_REJECT_REASON = DSP_CONFIG_BASE + 0x8"
definition DSP_CONFIG_ACTIVE_GENERATION :: int where "DSP_CONFIG_ACTIVE_GENERATION = DSP_CONFIG_BASE + 0xc"
definition DSP_CONFIG_SHADOW_CONFIG_ID_LOW :: int where "DSP_CONFIG_SHADOW_CONFIG_ID_LOW = DSP_CONFIG_BASE + 0x10"
definition DSP_CONFIG_SHADOW_CONFIG_ID_HIGH :: int where "DSP_CONFIG_SHADOW_CONFIG_ID_HIGH = DSP_CONFIG_BASE + 0x14"
definition DSP_CONFIG_SHADOW_SIGNAL_INCREMENT :: int where "DSP_CONFIG_SHADOW_SIGNAL_INCREMENT = DSP_CONFIG_BASE + 0x18"
definition DSP_CONFIG_SHADOW_SIGNAL_INITIAL :: int where "DSP_CONFIG_SHADOW_SIGNAL_INITIAL = DSP_CONFIG_BASE + 0x1c"
definition DSP_CONFIG_SHADOW_SIGNAL_AMPLITUDE :: int where "DSP_CONFIG_SHADOW_SIGNAL_AMPLITUDE = DSP_CONFIG_BASE + 0x20"
definition DSP_CONFIG_SHADOW_NOISE_AMPLITUDE :: int where "DSP_CONFIG_SHADOW_NOISE_AMPLITUDE = DSP_CONFIG_BASE + 0x24"
definition DSP_CONFIG_SHADOW_NOISE_SEED :: int where "DSP_CONFIG_SHADOW_NOISE_SEED = DSP_CONFIG_BASE + 0x28"
definition DSP_CONFIG_SHADOW_LO_INCREMENT :: int where "DSP_CONFIG_SHADOW_LO_INCREMENT = DSP_CONFIG_BASE + 0x2c"
definition DSP_CONFIG_SHADOW_LO_INITIAL :: int where "DSP_CONFIG_SHADOW_LO_INITIAL = DSP_CONFIG_BASE + 0x30"
definition DSP_CONFIG_ACTIVE_CONFIG_ID_LOW :: int where "DSP_CONFIG_ACTIVE_CONFIG_ID_LOW = DSP_CONFIG_BASE + 0x40"
definition DSP_CONFIG_ACTIVE_CONFIG_ID_HIGH :: int where "DSP_CONFIG_ACTIVE_CONFIG_ID_HIGH = DSP_CONFIG_BASE + 0x44"
definition DSP_CONFIG_ACTIVE_SIGNAL_INCREMENT :: int where "DSP_CONFIG_ACTIVE_SIGNAL_INCREMENT = DSP_CONFIG_BASE + 0x48"
definition DSP_CONFIG_ACTIVE_SIGNAL_INITIAL :: int where "DSP_CONFIG_ACTIVE_SIGNAL_INITIAL = DSP_CONFIG_BASE + 0x4c"
definition DSP_CONFIG_ACTIVE_SIGNAL_AMPLITUDE :: int where "DSP_CONFIG_ACTIVE_SIGNAL_AMPLITUDE = DSP_CONFIG_BASE + 0x50"
definition DSP_CONFIG_ACTIVE_NOISE_AMPLITUDE :: int where "DSP_CONFIG_ACTIVE_NOISE_AMPLITUDE = DSP_CONFIG_BASE + 0x54"
definition DSP_CONFIG_ACTIVE_NOISE_SEED :: int where "DSP_CONFIG_ACTIVE_NOISE_SEED = DSP_CONFIG_BASE + 0x58"
definition DSP_CONFIG_ACTIVE_LO_INCREMENT :: int where "DSP_CONFIG_ACTIVE_LO_INCREMENT = DSP_CONFIG_BASE + 0x5c"
definition DSP_CONFIG_ACTIVE_LO_INITIAL :: int where "DSP_CONFIG_ACTIVE_LO_INITIAL = DSP_CONFIG_BASE + 0x60"

record register =
  rg_name :: string
  rg_offset :: int

definition REGISTERS :: "register list" where
  "REGISTERS =
     [register.make ''SYS.DEVICE_ID'' SYS_DEVICE_ID,
      register.make ''SYS.VERSION'' SYS_VERSION,
      register.make ''SYS.BUILD_ID'' SYS_BUILD_ID,
      register.make ''SYS.CAPABILITIES'' SYS_CAPABILITIES,
      register.make ''SYS.SCRATCH'' SYS_SCRATCH,
      register.make ''SYS.STREAM_CLOCK_HZ'' SYS_STREAM_CLOCK_HZ,
      register.make ''SYS.CONTROL_CLOCK_HZ'' SYS_CONTROL_CLOCK_HZ,
      register.make ''STREAM.CONTROL'' STREAM_CONTROL,
      register.make ''STREAM.FRAME_LENGTH'' STREAM_FRAME_LENGTH,
      register.make ''STREAM.FRAME_COUNT'' STREAM_FRAME_COUNT,
      register.make ''STREAM.STREAM_MODE'' STREAM_MODE,
      register.make ''STREAM.STATUS'' STREAM_STATUS,
      register.make ''STREAM.COMPLETED_FRAMES'' STREAM_COMPLETED_FRAMES,
      register.make ''STREAM.CURRENT_FRAME_ID'' STREAM_CURRENT_FRAME_ID,
      register.make ''STREAM.CURRENT_SAMPLE_INDEX'' STREAM_CURRENT_SAMPLE_INDEX,
      register.make ''STREAM.STALL_CYCLES'' STREAM_STALL_CYCLES,
      register.make ''STREAM.IRQ_STATUS'' STREAM_IRQ_STATUS,
      register.make ''STREAM.IRQ_ENABLE'' STREAM_IRQ_ENABLE,
      register.make ''STREAM.TRIGGER_SHOT_ID'' STREAM_TRIGGER_SHOT_ID,
      register.make ''STREAM.TRIGGER_COUNT'' STREAM_TRIGGER_COUNT,
      register.make ''STREAM.MISSED_TRIGGER_COUNT'' STREAM_MISSED_TRIGGER_COUNT,
      register.make ''STREAM.TRIGGER_TIME_LOW'' STREAM_TRIGGER_TIME_LOW,
      register.make ''STREAM.TRIGGER_TIME_HIGH'' STREAM_TRIGGER_TIME_HIGH,
      register.make ''STREAM.FIRST_SAMPLE_TIME_LOW'' STREAM_FIRST_SAMPLE_TIME_LOW,
      register.make ''STREAM.FIRST_SAMPLE_TIME_HIGH'' STREAM_FIRST_SAMPLE_TIME_HIGH,
      register.make ''STREAM.CAPTURE_CONFIG_ID_LOW'' STREAM_CAPTURE_CONFIG_ID_LOW,
      register.make ''STREAM.CAPTURE_CONFIG_ID_HIGH'' STREAM_CAPTURE_CONFIG_ID_HIGH,
      register.make ''DSP_CONFIG.STATUS'' DSP_CONFIG_STATUS,
      register.make ''DSP_CONFIG.REJECT_REASON'' DSP_CONFIG_REJECT_REASON,
      register.make ''DSP_CONFIG.ACTIVE_GENERATION'' DSP_CONFIG_ACTIVE_GENERATION,
      register.make ''DSP_CONFIG.SHADOW_CONFIG_ID_LOW'' DSP_CONFIG_SHADOW_CONFIG_ID_LOW,
      register.make ''DSP_CONFIG.SHADOW_CONFIG_ID_HIGH'' DSP_CONFIG_SHADOW_CONFIG_ID_HIGH,
      register.make ''DSP_CONFIG.SHADOW_SIGNAL_INCREMENT'' DSP_CONFIG_SHADOW_SIGNAL_INCREMENT,
      register.make ''DSP_CONFIG.SHADOW_SIGNAL_INITIAL'' DSP_CONFIG_SHADOW_SIGNAL_INITIAL,
      register.make ''DSP_CONFIG.SHADOW_SIGNAL_AMPLITUDE'' DSP_CONFIG_SHADOW_SIGNAL_AMPLITUDE,
      register.make ''DSP_CONFIG.SHADOW_NOISE_AMPLITUDE'' DSP_CONFIG_SHADOW_NOISE_AMPLITUDE,
      register.make ''DSP_CONFIG.SHADOW_NOISE_SEED'' DSP_CONFIG_SHADOW_NOISE_SEED,
      register.make ''DSP_CONFIG.SHADOW_LO_INCREMENT'' DSP_CONFIG_SHADOW_LO_INCREMENT,
      register.make ''DSP_CONFIG.SHADOW_LO_INITIAL'' DSP_CONFIG_SHADOW_LO_INITIAL,
      register.make ''DSP_CONFIG.ACTIVE_CONFIG_ID_LOW'' DSP_CONFIG_ACTIVE_CONFIG_ID_LOW,
      register.make ''DSP_CONFIG.ACTIVE_CONFIG_ID_HIGH'' DSP_CONFIG_ACTIVE_CONFIG_ID_HIGH,
      register.make ''DSP_CONFIG.ACTIVE_SIGNAL_INCREMENT'' DSP_CONFIG_ACTIVE_SIGNAL_INCREMENT,
      register.make ''DSP_CONFIG.ACTIVE_SIGNAL_INITIAL'' DSP_CONFIG_ACTIVE_SIGNAL_INITIAL,
      register.make ''DSP_CONFIG.ACTIVE_SIGNAL_AMPLITUDE'' DSP_CONFIG_ACTIVE_SIGNAL_AMPLITUDE,
      register.make ''DSP_CONFIG.ACTIVE_NOISE_AMPLITUDE'' DSP_CONFIG_ACTIVE_NOISE_AMPLITUDE,
      register.make ''DSP_CONFIG.ACTIVE_NOISE_SEED'' DSP_CONFIG_ACTIVE_NOISE_SEED,
      register.make ''DSP_CONFIG.ACTIVE_LO_INCREMENT'' DSP_CONFIG_ACTIVE_LO_INCREMENT,
      register.make ''DSP_CONFIG.ACTIVE_LO_INITIAL'' DSP_CONFIG_ACTIVE_LO_INITIAL]"

section \<open>The mapped window\<close>

datatype apb_error =
    OffsetAlignment int
  | OffsetOutside int
  | UnexpectedValue string int int
  | ConfigurationInvalid int
  | MailboxBusy int
  | ConfigurationChanged

datatype apb_line =
    SmokeTitle
  | OkLine string int
  | RegisterLine int string int
  | ValueLine int
  | WritesSkipped
  | SmokePassed

type_synonym memory = "nat \<Rightarrow> byte"

text \<open>
  The memory of the mapping, the number of accesses made, and the printed lines.  The hardware is
  given by what it makes of the memory before each access.
\<close>

record window =
  wi_memory :: memory
  wi_accesses :: nat
  wi_lines :: "apb_line list"

type_synonym hardware = "nat \<Rightarrow> memory \<Rightarrow> memory"

type_synonym 'a apb_step = "window \<Rightarrow> (apb_error + 'a) \<times> window"

definition page_offset :: "int \<Rightarrow> int \<Rightarrow> nat" where
  "page_offset page_size base = nat (base - base AND NOT (page_size - 1))"

definition access :: "hardware \<Rightarrow> window \<Rightarrow> window" where
  "access hw st = st\<lparr>wi_memory := hw (wi_accesses st) (wi_memory st), wi_accesses := Suc (wi_accesses st)\<rparr>"

definition check_offset :: "int \<Rightarrow> apb_error + unit" where
  "check_offset offset =
     (if offset < 0 \<or> offset mod 4 \<noteq> 0 then Inl (OffsetAlignment offset)
      else if offset > APB_SIZE - 4 then Inl (OffsetOutside offset) else Inr ())"

text \<open>A word of the memory, least significant byte first, and the memory with a word replaced.\<close>

definition word_at :: "memory \<Rightarrow> nat \<Rightarrow> int" where
  "word_at m a = le_int (map m [a..<a + 4])"

definition with_word :: "memory \<Rightarrow> nat \<Rightarrow> int \<Rightarrow> memory" where
  "with_word m a v = (\<lambda>i. if a \<le> i \<and> i < a + 4 then le_bytes 4 (v AND 0xFFFFFFFF) ! (i - a) else m i)"

definition read32 :: "hardware \<Rightarrow> nat \<Rightarrow> int \<Rightarrow> int apb_step" where
  "read32 hw origin offset st =
     (case check_offset offset of
        Inl e \<Rightarrow> (Inl e, st)
      | Inr _ \<Rightarrow> (let t = access hw st in (Inr (word_at (wi_memory t) (origin + nat offset)), t)))"

definition write32 :: "hardware \<Rightarrow> nat \<Rightarrow> int \<Rightarrow> int \<Rightarrow> unit apb_step" where
  "write32 hw origin offset v st =
     (case check_offset offset of
        Inl e \<Rightarrow> (Inl e, st)
      | Inr _ \<Rightarrow> (let t = access hw st in (Inr (), t\<lparr>wi_memory := with_word (wi_memory t) (origin + nat offset) v\<rparr>)))"

definition say :: "apb_line \<Rightarrow> unit apb_step" where
  "say line st = (Inr (), st\<lparr>wi_lines := wi_lines st @ [line]\<rparr>)"

definition fail_with :: "apb_error \<Rightarrow> 'a apb_step" where
  "fail_with e st = (Inl e, st)"

definition return_step :: "'a \<Rightarrow> 'a apb_step" where
  "return_step x st = (Inr x, st)"

section \<open>The commands\<close>

definition expect :: "int \<Rightarrow> int \<Rightarrow> string \<Rightarrow> unit apb_step" where
  "expect actual expected what =
     (if actual \<noteq> expected then fail_with (UnexpectedValue what expected actual) else say (OkLine what actual))"

fun command_dump :: "hardware \<Rightarrow> nat \<Rightarrow> register list \<Rightarrow> unit apb_step" where
  "command_dump hw origin [] = return_step ()"
| "command_dump hw origin (reg # regs) =
     bind_step (read32 hw origin (rg_offset reg)) (\<lambda>v.
     bind_step (say (RegisterLine (rg_offset reg) (rg_name reg) v)) (\<lambda>_.
     command_dump hw origin regs))"

text \<open>The generation and the identifier, read until the generation is the same before and after.\<close>

fun read_active :: "hardware \<Rightarrow> nat \<Rightarrow> nat \<Rightarrow> (int \<times> int) apb_step" where
  "read_active hw origin 0 = fail_with ConfigurationChanged"
| "read_active hw origin (Suc tries) =
     bind_step (read32 hw origin DSP_CONFIG_ACTIVE_GENERATION) (\<lambda>dsp_generation.
     bind_step (read32 hw origin DSP_CONFIG_ACTIVE_CONFIG_ID_LOW) (\<lambda>low.
     bind_step (read32 hw origin DSP_CONFIG_ACTIVE_CONFIG_ID_HIGH) (\<lambda>high.
     bind_step (read32 hw origin DSP_CONFIG_ACTIVE_GENERATION) (\<lambda>again.
     if again = dsp_generation then return_step (dsp_generation, low OR push_bit 32 high)
     else read_active hw origin tries))))"

definition read_and_say :: "hardware \<Rightarrow> nat \<Rightarrow> int \<Rightarrow> string \<Rightarrow> unit apb_step" where
  "read_and_say hw origin offset what = bind_step (read32 hw origin offset) (\<lambda>v. say (OkLine what v))"

definition read_and_expect :: "hardware \<Rightarrow> nat \<Rightarrow> int \<Rightarrow> int \<Rightarrow> string \<Rightarrow> unit apb_step" where
  "read_and_expect hw origin offset expected what =
     bind_step (read32 hw origin offset) (\<lambda>v. expect v expected what)"

definition scratch_patterns :: "int list" where
  "scratch_patterns = [0, 0x5A5AA5A5, 0x12345678]"

fun check_scratch :: "hardware \<Rightarrow> nat \<Rightarrow> int list \<Rightarrow> unit apb_step" where
  "check_scratch hw origin [] = return_step ()"
| "check_scratch hw origin (pattern # patterns) =
     bind_step (write32 hw origin SYS_SCRATCH pattern) (\<lambda>_.
     bind_step (read_and_expect hw origin SYS_SCRATCH pattern (''SCRATCH write/read '' @ hexadecimal pattern 32)) (\<lambda>_.
     check_scratch hw origin patterns))"

definition smoke_identity :: "hardware \<Rightarrow> nat \<Rightarrow> unit apb_step" where
  "smoke_identity hw origin =
     bind_step (say SmokeTitle) (\<lambda>_.
     bind_step (read_and_expect hw origin SYS_DEVICE_ID DEVICE_ID_QCRT ''DEVICE_ID'') (\<lambda>_.
     bind_step (read_and_expect hw origin SYS_VERSION VERSION_EXPECTED ''VERSION'') (\<lambda>_.
     bind_step (read_and_say hw origin SYS_BUILD_ID ''BUILD_ID'') (\<lambda>_.
     bind_step (read_and_say hw origin SYS_CAPABILITIES ''CAPABILITIES'') (\<lambda>_.
     bind_step (read_and_expect hw origin SYS_STREAM_CLOCK_HZ STREAM_CLOCK_HZ ''STREAM_CLOCK_HZ'') (\<lambda>_.
     read_and_expect hw origin SYS_CONTROL_CLOCK_HZ CONTROL_CLOCK_HZ ''CONTROL_CLOCK_HZ''))))))"

definition smoke_config :: "hardware \<Rightarrow> nat \<Rightarrow> unit apb_step" where
  "smoke_config hw origin =
     bind_step (read32 hw origin DSP_CONFIG_STATUS) (\<lambda>dsp_status.
     if dsp_status AND push_bit 2 1 = 0 then fail_with (ConfigurationInvalid dsp_status)
     else if dsp_status AND push_bit 1 1 \<noteq> 0 then fail_with (MailboxBusy dsp_status)
     else
       bind_step (read_active hw origin 3) (\<lambda>(dsp_generation, dsp_config_id).
       bind_step (say (OkLine ''DSP_CONFIG.STATUS'' dsp_status)) (\<lambda>_.
       bind_step (say (OkLine ''DSP_CONFIG.ACTIVE_GENERATION'' dsp_generation)) (\<lambda>_.
       say (OkLine ''DSP_CONFIG.ACTIVE_ID'' dsp_config_id)))))"

definition smoke_writes :: "hardware \<Rightarrow> nat \<Rightarrow> unit apb_step" where
  "smoke_writes hw origin =
     bind_step (read32 hw origin SYS_SCRATCH) (\<lambda>original_scratch.
     bind_step (check_scratch hw origin scratch_patterns) (\<lambda>_.
     bind_step (write32 hw origin SYS_SCRATCH original_scratch) (\<lambda>_.
     bind_step (write32 hw origin STREAM_FRAME_LENGTH 16) (\<lambda>_.
     bind_step (write32 hw origin STREAM_FRAME_COUNT 1) (\<lambda>_.
     bind_step (write32 hw origin STREAM_MODE 0) (\<lambda>_.
     bind_step (write32 hw origin STREAM_CONTROL 0) (\<lambda>_.
     bind_step (read_and_expect hw origin STREAM_FRAME_LENGTH 16 ''STREAM.FRAME_LENGTH'') (\<lambda>_.
     bind_step (read_and_expect hw origin STREAM_FRAME_COUNT 1 ''STREAM.FRAME_COUNT'') (\<lambda>_.
     bind_step (read_and_expect hw origin STREAM_MODE 0 ''STREAM.STREAM_MODE'') (\<lambda>_.
     bind_step (read_and_say hw origin STREAM_STATUS ''STREAM.STATUS'') (\<lambda>_.
     say SmokePassed)))))))))))"

definition command_smoke :: "hardware \<Rightarrow> nat \<Rightarrow> bool \<Rightarrow> unit apb_step" where
  "command_smoke hw origin skip_writes =
     bind_step (smoke_identity hw origin) (\<lambda>_.
     bind_step (smoke_config hw origin) (\<lambda>_.
     if skip_writes then say WritesSkipped else smoke_writes hw origin))"

datatype apb_command = DumpRegisters | SmokeTest bool | ReadOffset int | WriteOffset int int

definition apb_main :: "hardware \<Rightarrow> int \<Rightarrow> int \<Rightarrow> apb_command \<Rightarrow> unit apb_step" where
  "apb_main hw page_size base command =
     (let origin = page_offset page_size base
      in case command of
           DumpRegisters \<Rightarrow> command_dump hw origin REGISTERS
         | SmokeTest skip_writes \<Rightarrow> command_smoke hw origin skip_writes
         | ReadOffset offset \<Rightarrow> bind_step (read32 hw origin offset) (\<lambda>v. say (ValueLine v))
         | WriteOffset offset v \<Rightarrow> write32 hw origin offset v)"

end
