(* ===== verification/RegisterWindowLaws.thy ===== *)
theory RegisterWindowLaws
  imports RegisterWindow
begin

text \<open>
  What the smoke test of the register window reads and leaves behind: the configuration it prints was
  active at one moment, and on memory that only the tool writes it leaves all but four words as they were.
\<close>

unbundle bit_operations_syntax

section \<open>Steps\<close>

lemma bind_step_Inr_iff: "bind_step m f s = (Inr y, u) \<longleftrightarrow> (\<exists>x t. m s = (Inr x, t) \<and> f x t = (Inr y, u))"
  by (auto simp: bind_step_def split: prod.splits sum.splits)

lemma read32_Inr_iff:
  "read32 hw origin offset st = (Inr v, t) \<longleftrightarrow>
     check_offset offset = Inr () \<and> t = access hw st \<and> v = word_at (wi_memory t) (origin + nat offset)"
  by (auto simp: read32_def Let_def split: sum.splits)

lemma write32_Inr_iff:
  "write32 hw origin offset v st = (Inr u, t) \<longleftrightarrow>
     check_offset offset = Inr () \<and>
     t = (access hw st)\<lparr>wi_memory := with_word (wi_memory (access hw st)) (origin + nat offset) v\<rparr>"
  by (auto simp: write32_def Let_def split: sum.splits)

lemma say_Inr_iff: "say line st = (Inr u, t) \<longleftrightarrow> t = st\<lparr>wi_lines := wi_lines st @ [line]\<rparr>"
  by (auto simp: say_def)

lemma return_step_Inr_iff: "return_step x st = (Inr y, t) \<longleftrightarrow> y = x \<and> t = st"
  by (auto simp: return_step_def)

lemma fail_with_Inr: "fail_with e st \<noteq> (Inr x, t)"
  by (simp add: fail_with_def)

lemma expect_Inr_iff:
  "expect actual expected what st = (Inr u, t) \<longleftrightarrow>
     actual = expected \<and> t = st\<lparr>wi_lines := wi_lines st @ [OkLine what actual]\<rparr>"
  by (auto simp: expect_def say_Inr_iff fail_with_def)

lemmas step_iff = bind_step_Inr_iff read32_Inr_iff write32_Inr_iff say_Inr_iff return_step_Inr_iff expect_Inr_iff

section \<open>Reading\<close>

text \<open>The memory each access of a session without writes sees.\<close>

fun seen :: "hardware \<Rightarrow> memory \<Rightarrow> nat \<Rightarrow> memory" where
  "seen hw m 0 = m"
| "seen hw m (Suc n) = hw n (seen hw m n)"

definition observed :: "hardware \<Rightarrow> memory \<Rightarrow> window \<Rightarrow> window \<Rightarrow> bool" where
  "observed hw m st t \<longleftrightarrow> wi_memory t = seen hw m (wi_accesses t) \<and> wi_accesses st \<le> wi_accesses t \<and>
     set (wi_lines st) \<subseteq> set (wi_lines t)"

lemma observed_trans: "observed hw m a b \<Longrightarrow> observed hw m b c \<Longrightarrow> observed hw m a c"
  by (auto simp: observed_def)

lemma observed_access: "observed hw m st st \<Longrightarrow> observed hw m st (access hw st)"
  by (simp add: observed_def access_def)

lemma observed_say: "observed hw m st st \<Longrightarrow> observed hw m st (st\<lparr>wi_lines := wi_lines st @ lines\<rparr>)"
  by (auto simp: observed_def)

lemma observed_start: "observed hw m st t \<Longrightarrow> observed hw m t t"
  by (simp add: observed_def)

lemma read_and_observed:
  "read_and_say hw origin offset what st = (Inr u, t) \<Longrightarrow> observed hw m st st \<Longrightarrow> observed hw m st t"
  "read_and_expect hw origin offset expected what st = (Inr u, t) \<Longrightarrow> observed hw m st st \<Longrightarrow> observed hw m st t"
  unfolding read_and_say_def read_and_expect_def step_iff
  by (elim exE conjE, hypsubst, rule observed_trans[OF observed_access observed_say[OF observed_start[OF observed_access]]],
      assumption+)+

text \<open>
  The active configuration changes only together with its generation: two accesses that see the same
  generation see the same identifier, and so does every access between them.
\<close>

definition generation :: "nat \<Rightarrow> memory \<Rightarrow> int" where
  "generation origin m = word_at m (origin + nat DSP_CONFIG_ACTIVE_GENERATION)"

definition active_id :: "nat \<Rightarrow> memory \<Rightarrow> int" where
  "active_id origin m = word_at m (origin + nat DSP_CONFIG_ACTIVE_CONFIG_ID_LOW) OR
     push_bit 32 (word_at m (origin + nat DSP_CONFIG_ACTIVE_CONFIG_ID_HIGH))"

definition coherent :: "hardware \<Rightarrow> memory \<Rightarrow> nat \<Rightarrow> bool" where
  "coherent hw m origin \<longleftrightarrow>
     (\<forall>s u t. s \<le> u \<longrightarrow> u \<le> t \<longrightarrow> generation origin (seen hw m s) = generation origin (seen hw m t) \<longrightarrow>
        (\<forall>offset \<in> {DSP_CONFIG_ACTIVE_CONFIG_ID_LOW, DSP_CONFIG_ACTIVE_CONFIG_ID_HIGH}.
           word_at (seen hw m u) (origin + nat offset) = word_at (seen hw m s) (origin + nat offset)))"

lemma coherent_words:
  assumes "coherent hw m origin" "s \<le> u" "u \<le> t" "generation origin (seen hw m s) = generation origin (seen hw m t)"
  shows "word_at (seen hw m u) (origin + nat DSP_CONFIG_ACTIVE_CONFIG_ID_LOW) =
      word_at (seen hw m s) (origin + nat DSP_CONFIG_ACTIVE_CONFIG_ID_LOW)"
    "word_at (seen hw m u) (origin + nat DSP_CONFIG_ACTIVE_CONFIG_ID_HIGH) =
      word_at (seen hw m s) (origin + nat DSP_CONFIG_ACTIVE_CONFIG_ID_HIGH)"
  using assms unfolding coherent_def by blast+

lemma read_active_Suc:
  assumes "read_active hw origin (Suc tries) st = (Inr x, t)"
    and "s1 = access hw st" "s2 = access hw s1" "s3 = access hw s2" "s4 = access hw s3"
  shows "(if generation origin (wi_memory s4) = generation origin (wi_memory s1)
     then x = (generation origin (wi_memory s1),
         word_at (wi_memory s2) (origin + nat DSP_CONFIG_ACTIVE_CONFIG_ID_LOW) OR
         push_bit 32 (word_at (wi_memory s3) (origin + nat DSP_CONFIG_ACTIVE_CONFIG_ID_HIGH))) \<and> t = s4
     else read_active hw origin tries s4 = (Inr x, t))"
proof -
  have "(if generation origin (wi_memory s4) = generation origin (wi_memory s1)
       then return_step (generation origin (wi_memory s1),
         word_at (wi_memory s2) (origin + nat DSP_CONFIG_ACTIVE_CONFIG_ID_LOW) OR
         push_bit 32 (word_at (wi_memory s3) (origin + nat DSP_CONFIG_ACTIVE_CONFIG_ID_HIGH)))
       else read_active hw origin tries) s4 = (Inr x, t)"
    using assms(1) unfolding read_active.simps step_iff assms(2-5) generation_def
    by (elim exE conjE) (hypsubst, assumption)
  then show ?thesis
    by (cases "generation origin (wi_memory s4) = generation origin (wi_memory s1)") (simp_all only: if_True if_False return_step_Inr_iff simp_thms)
qed

lemma read_active_snapshot:
  assumes "read_active hw origin tries st = (Inr (g, i), t)" "observed hw m st st" "coherent hw m origin"
  shows "observed hw m st t \<and> (\<exists>n \<le> wi_accesses t. g = generation origin (seen hw m n) \<and> i = active_id origin (seen hw m n))"
  using assms(1,2)
proof (induction tries arbitrary: st)
  case (Suc tries)
  define s1 where "s1 = access hw st"
  define s2 where "s2 = access hw s1"
  define s3 where "s3 = access hw s2"
  define s4 where "s4 = access hw s3"
  have o1: "observed hw m st s1" unfolding s1_def by (rule observed_access[OF Suc.prems(2)])
  have o2: "observed hw m s1 s2" unfolding s2_def by (rule observed_access[OF observed_start[OF o1]])
  have o3: "observed hw m s2 s3" unfolding s3_def by (rule observed_access[OF observed_start[OF o2]])
  have o4: "observed hw m s3 s4" unfolding s4_def by (rule observed_access[OF observed_start[OF o3]])
  have all: "observed hw m st s4" using o1 o2 o3 o4 observed_trans by blast
  note step = read_active_Suc[OF Suc.prems(1) s1_def s2_def s3_def s4_def]
  show ?case
  proof (cases "generation origin (wi_memory s4) = generation origin (wi_memory s1)")
    case True
    then have t: "t = s4" "g = generation origin (wi_memory s1)"
      "i = word_at (wi_memory s2) (origin + nat DSP_CONFIG_ACTIVE_CONFIG_ID_LOW) OR
        push_bit 32 (word_at (wi_memory s3) (origin + nat DSP_CONFIG_ACTIVE_CONFIG_ID_HIGH))"
      using step by simp_all
    have m1: "wi_memory s1 = seen hw m (wi_accesses s1)" and m2: "wi_memory s2 = seen hw m (wi_accesses s2)"
      and m3: "wi_memory s3 = seen hw m (wi_accesses s3)" and m4: "wi_memory s4 = seen hw m (wi_accesses s4)"
      using o1 o2 o3 o4 by (simp_all only: observed_def)
    have order: "wi_accesses s1 \<le> wi_accesses s2" "wi_accesses s2 \<le> wi_accesses s3" "wi_accesses s3 \<le> wi_accesses s4"
      using o2 o3 o4 by (simp_all only: observed_def)
    have same: "generation origin (seen hw m (wi_accesses s1)) = generation origin (seen hw m (wi_accesses s4))"
      using True by (simp only: m1 m4)
    have "g = generation origin (seen hw m (wi_accesses s1)) \<and> i = active_id origin (seen hw m (wi_accesses s1))"
      unfolding t(2,3) active_id_def m1 m2 m3
      using coherent_words(1)[OF assms(3) order(1) le_trans[OF order(2,3)] same]
        coherent_words(2)[OF assms(3) le_trans[OF order(1,2)] order(3) same] by simp
    moreover have "wi_accesses s1 \<le> wi_accesses t" using order t(1) by simp
    ultimately show ?thesis using all t(1) by blast
  next
    case False
    then have "read_active hw origin tries s4 = (Inr (g, i), t)" using step by simp
    from Suc.IH[OF this observed_start[OF all]] show ?thesis using observed_trans[OF all] by blast
  qed
qed (simp add: fail_with_Inr)

section \<open>Writing\<close>

lemma word_at_bytes: "le_bytes 4 (word_at m a) = map m [a..<a + 4]"
  using le_bytes_le_int[of "map m [a..<a + 4]"] by (simp add: word_at_def)

lemma word_at_bounds: "0 \<le> word_at m a" "word_at m a < 2 ^ 32"
  using le_int_nonneg[of "map m [a..<a + 4]"] le_int_bound[of "map m [a..<a + 4]"] by (simp_all add: word_at_def)

lemma low_word: "v AND 0xFFFFFFFF = v mod 2 ^ 32" for v :: int
  using take_bit_eq_mask[of 32 v] by (simp add: take_bit_eq_mod mask_eq_exp_minus_1)

text \<open>The original is restored by writing back what was read.\<close>

lemma with_word_back: "with_word m a (word_at m a) = m"
proof
  fix i
  have bytes: "le_bytes 4 (word_at m a AND 0xFFFFFFFF) = map m [a..<a + 4]"
    using word_at_bounds[of m a] by (simp add: low_word word_at_bytes)
  have "map m [a..<a + 4] ! (i - a) = m i" if "a \<le> i" "i < a + 4"
    using that nth_map_upt[of "i - a" "a + 4" a m] by simp
  then show "with_word m a (word_at m a) i = m i" unfolding with_word_def bytes
    by (cases "a \<le> i \<and> i < a + 4") (simp_all only: if_True if_False simp_thms)
qed

lemma with_word_twice: "with_word (with_word m a v) a w = with_word m a w"
  by (auto simp: with_word_def)

lemma word_at_with_word: "word_at (with_word m a v) a = v AND 0xFFFFFFFF"
proof -
  have "map (with_word m a v) [a..<a + 4] = le_bytes 4 (v AND 0xFFFFFFFF)"
    by (rule nth_equalityI) (simp_all add: with_word_def)
  then show ?thesis unfolding word_at_def low_word by (simp add: le_int_le_bytes)
qed

text \<open>Memory that the hardware leaves alone.\<close>

definition quiet :: hardware where "quiet = (\<lambda>n m. m)"

lemma quiet_access: "access quiet st = st\<lparr>wi_accesses := Suc (wi_accesses st)\<rparr>"
  by (simp add: access_def quiet_def)

lemma quiet_read:
  "read_and_say quiet origin offset what st = (Inr u, t) \<Longrightarrow> wi_memory t = wi_memory st"
  "read_and_expect quiet origin offset expected what st = (Inr u, t) \<Longrightarrow> wi_memory t = wi_memory st"
  by (auto simp: read_and_say_def read_and_expect_def step_iff quiet_access)

lemma check_scratch_memory:
  assumes "check_scratch quiet origin patterns st = (Inr u, t)"
  shows "wi_memory t = (if patterns = [] then wi_memory st
    else with_word (wi_memory st) (origin + nat SYS_SCRATCH) (last patterns))"
  using assms
proof (induction patterns arbitrary: st)
  case (Cons pattern patterns)
  obtain s1 s2 where s: "write32 quiet origin SYS_SCRATCH pattern st = (Inr (), s1)"
      "wi_memory s2 = wi_memory s1" "check_scratch quiet origin patterns s2 = (Inr u, t)"
    using Cons.prems quiet_read(2) by (fastforce simp: bind_step_Inr_iff)
  have "wi_memory s1 = with_word (wi_memory st) (origin + nat SYS_SCRATCH) pattern"
    using s(1) by (simp add: write32_Inr_iff quiet_access)
  then show ?case using Cons.IH[OF s(3)] s(2) by (simp add: with_word_twice)
qed (simp add: return_step_Inr_iff)

text \<open>The stream registers as the test leaves them.\<close>

definition stream_reset :: "nat \<Rightarrow> memory \<Rightarrow> memory" where
  "stream_reset origin m =
     with_word (with_word (with_word (with_word m (origin + nat STREAM_FRAME_LENGTH) 16) (origin + nat STREAM_FRAME_COUNT) 1)
       (origin + nat STREAM_MODE) 0) (origin + nat STREAM_CONTROL) 0"

lemma smoke_writes_memory:
  assumes "smoke_writes quiet origin st = (Inr u, t)"
  shows "wi_memory t = stream_reset origin (wi_memory st)"
proof -
  have restored: "wi_memory x = wi_memory st"
    if "check_scratch quiet origin scratch_patterns (access quiet st) = (Inr v, w)"
      "x = (access quiet w)\<lparr>wi_memory := with_word (wi_memory (access quiet w)) (origin + nat SYS_SCRATCH)
        (word_at (wi_memory (access quiet st)) (origin + nat SYS_SCRATCH))\<rparr>" for v w x
    using check_scratch_memory[OF that(1)] that(2)
    by (simp add: scratch_patterns_def quiet_access with_word_twice with_word_back)
  show ?thesis
    using assms unfolding smoke_writes_def bind_step_Inr_iff read32_Inr_iff write32_Inr_iff
    by (elim exE conjE, hypsubst) (drule restored, rule refl, (drule quiet_read)+, simp add: step_iff stream_reset_def quiet_access)
qed

lemma smoke_reads_memory:
  assumes "smoke_identity quiet origin st = (Inr u, s)" "smoke_config quiet origin s = (Inr v, t)"
  shows "wi_memory t = wi_memory st"
proof -
  have active: "wi_memory b = wi_memory a" if "read_active quiet origin n a = (Inr x, b)" for n a b x
    using that
  proof (induction n arbitrary: a)
    case (Suc n)
    define c where "c = access quiet (access quiet (access quiet (access quiet a)))"
    have "wi_memory c = wi_memory a" by (simp add: c_def quiet_access)
    moreover have "b = c \<or> read_active quiet origin n c = (Inr x, b)"
      using read_active_Suc[OF Suc.prems refl refl refl c_def] by (metis (full_types))
    ultimately show ?case using Suc.IH by auto
  qed (simp add: fail_with_Inr)
  have "wi_memory s = wi_memory st"
    using assms(1) unfolding smoke_identity_def bind_step_Inr_iff by (auto simp: say_Inr_iff dest!: quiet_read)
  moreover have "wi_memory t = wi_memory s"
    using assms(2) unfolding smoke_config_def
    by (auto simp: step_iff quiet_access fail_with_Inr split: if_splits dest!: active)
  ultimately show ?thesis by simp
qed

section \<open>The smoke test\<close>

lemma identity_observed:
  assumes "smoke_identity hw origin st = (Inr u, t)" "observed hw m st st"
  shows "observed hw m st t"
proof -
  obtain s0 s1 s2 s3 s4 s5 where s: "s0 = st\<lparr>wi_lines := wi_lines st @ [SmokeTitle]\<rparr>"
      "read_and_expect hw origin SYS_DEVICE_ID DEVICE_ID_QCRT ''DEVICE_ID'' s0 = (Inr (), s1)"
      "read_and_expect hw origin SYS_VERSION VERSION_EXPECTED ''VERSION'' s1 = (Inr (), s2)"
      "read_and_say hw origin SYS_BUILD_ID ''BUILD_ID'' s2 = (Inr (), s3)"
      "read_and_say hw origin SYS_CAPABILITIES ''CAPABILITIES'' s3 = (Inr (), s4)"
      "read_and_expect hw origin SYS_STREAM_CLOCK_HZ STREAM_CLOCK_HZ ''STREAM_CLOCK_HZ'' s4 = (Inr (), s5)"
      "read_and_expect hw origin SYS_CONTROL_CLOCK_HZ CONTROL_CLOCK_HZ ''CONTROL_CLOCK_HZ'' s5 = (Inr u, t)"
    using assms(1) unfolding smoke_identity_def bind_step_Inr_iff say_Inr_iff by auto
  have o0: "observed hw m st s0" unfolding s(1) by (rule observed_say[OF assms(2)])
  note o1 = read_and_observed(2)[OF s(2) observed_start[OF o0]]
  note o2 = read_and_observed(2)[OF s(3) observed_start[OF o1]]
  note o3 = read_and_observed(1)[OF s(4) observed_start[OF o2]]
  note o4 = read_and_observed(1)[OF s(5) observed_start[OF o3]]
  note o5 = read_and_observed(2)[OF s(6) observed_start[OF o4]]
  note o6 = read_and_observed(2)[OF s(7) observed_start[OF o5]]
  show ?thesis by (rule observed_trans[OF o0 observed_trans[OF o1 observed_trans[OF o2 observed_trans[OF o3 observed_trans[OF o4
    observed_trans[OF o5 o6]]]]]])
qed

lemma config_snapshot:
  assumes "smoke_config hw origin st = (Inr u, t)" "observed hw m st st" "coherent hw m origin"
  shows "\<exists>n \<le> wi_accesses t. OkLine ''DSP_CONFIG.ACTIVE_GENERATION'' (generation origin (seen hw m n)) \<in> set (wi_lines t) \<and>
    OkLine ''DSP_CONFIG.ACTIVE_ID'' (active_id origin (seen hw m n)) \<in> set (wi_lines t)"
proof -
  obtain status s g i where status: "read32 hw origin DSP_CONFIG_STATUS st = (Inr status, access hw st)"
    and active: "read_active hw origin 3 (access hw st) = (Inr (g, i), s)"
    and t: "t = s\<lparr>wi_lines := wi_lines s @ [OkLine ''DSP_CONFIG.STATUS'' status, OkLine ''DSP_CONFIG.ACTIVE_GENERATION'' g,
      OkLine ''DSP_CONFIG.ACTIVE_ID'' i]\<rparr>"
    using assms(1) unfolding smoke_config_def step_iff by (auto simp: fail_with_Inr step_iff split: if_splits)
  from read_active_snapshot[OF active observed_start[OF observed_access[OF assms(2)]] assms(3)]
  show ?thesis by (auto simp: t)
qed

end
