(* ===== verification/RegisterWindowProperties.thy ===== *)
theory RegisterWindowProperties
  imports RegisterWindowLaws
begin

text \<open>
  The property of the register smoke test, with a small memory on which it passes.
\<close>

unbundle bit_operations_syntax

section \<open>Lines and accesses\<close>






section \<open>A passing memory\<close>









end
