(* ===== verification/Spec2Isabelle.thy ===== *)
theory Spec2Isabelle
  imports DataProtocol Sequence Receiver DspAgreement RunReaders ProfileProperties CaptureLaws ExperimentProperties AcceptanceProperties SweepProperties SweepEvidence SweepAcceptanceProperties RegisterWindowProperties
begin

text \<open>
  The Q-Crate host software, modelled from its Python sources under \<open>src/\<close>.

  Q-Crate is a pulsed-IQ instrument.  A KV260 board synthesises a signal, mixes, filters and decimates it in
  programmable logic under a pulse sequence, and streams the samples of every triggered shot to a host as
  UDP datagrams.  The host resolves an experiment profile into hardware integers, configures the board
  over ssh, records the shots, and accepts a run only when each recorded word is the one a bit-accurate
  model predicts.  The development models that host software: what is computed from which bytes,
  documents and files, and every error a computation can end in.

  THE PARTS AND THEIR THEORIES, in the order they build on each other.

  Shared ground.  Prelude holds bytes, results with errors as values (a call that may raise is a value of
  a sum type, \<open>Inl\<close> the error) and the lemma collections \<open>result_iff\<close> and its like; ByteCodec the \<open>struct\<close>
  formats, with the locale \<open>byte_order\<close> interpreted for both orders; Hashing CRC-32 and SHA-256; ShaEval a
  form of SHA-256 the simplifier can evaluate; Text, Json, JsonText, JsonLoads, Decimals, DecimalText and DecimalContext the
  number formats, parsed documents, canonical JSON and \<open>decimal\<close> arithmetic; Shell \<open>shlex\<close> with a POSIX word
  reader as its specification; Transcript the search for report markers.

  The data plane (\<open>host/data_plane\<close>).  DataProtocol: headers, payloads and packets of
  \<open>qcrate_data_protocol.py\<close>.  Journal, Assembler, ShotAudit, ShotArrival and Receiver:
  \<open>qcrate_receiver.py\<close>, from the append-only journal over the assembler's state record and its audit to the
  receive and replay commands.  The lemmas say what the state means after any list of datagrams, so order,
  duplication and timing are quantified over; the specification of a complete shot is declarative and
  \<open>finalize\<close> is proved to implement it.

  Pulse sequences (\<open>host/sequence_compiler/qcrate_sequence.py\<close>).  Sequence: document checks, compilation
  against the meaning of pulses as sets of active times, and the image codec with its error detection.

  The numerical model (\<open>host/dsp_model\<close>).  Dsp, DspLaws, DspRun and DspTables: \<open>qcrate_dsp.py\<close>, with bounds for
  every stage of the fixed-point chain, so neither the oscillator nor the accumulator check can fail.  DspReference and
  DspAgreement: \<open>qcrate_dsp_reference.py\<close>, an independent streaming implementation, proved equal on all accepted
  configurations.  Capture and CaptureLaws: the audit of \<open>qcrate_capture_viewer.py\<close>.

  Recorded runs (\<open>host/analyzer\<close>).  RunRecord, RunBundle, RunIndex, RunCache, RunRefresh, RunFollow, RunCatalog and
  RunReaders: \<open>qcrate_run.py\<close>, the strict reader of a whole run and the incremental catalog with its bounded cache, related by
  a simulation over growing files; the cache and the bisection are clients of the locales \<open>bounded_cache\<close> and
  \<open>probed_keys\<close>, interpreted on the catalog.  Analyzer and AnalyzerLaws: the headless part of
  \<open>qcrate_analyzer.py\<close>.

  Experiments (\<open>host/experiment_profiles\<close>, \<open>host/acceptance\<close>).  Profile, ProfileLaws, ProfileChecks, ProfileUse, ProfileExample and
  ProfileProperties: \<open>qcrate_profile.py\<close>, where compiler and validator are proved to agree and the command words to
  carry the configuration of the DSP model.  Experiment, ExperimentLaws, ExperimentUse, ExperimentExample and ExperimentProperties:
  \<open>qcrate_experiment.py\<close>, a run as its result and the list of its actions.  Acceptance, Soak, AcceptanceLaws,
  AcceptanceExample and AcceptanceProperties: \<open>qcrate_acceptance.py\<close>, the verdict and the recovery tests.  SweepPlan, SweepReport and
  SweepRun, with SweepPlanLaws, SweepLaws, SweepRunLaws, their examples, SweepProperties and SweepEvidence: \<open>qcrate_sweep.py\<close>, planning, measuring and resuming
  a sweep.  SweepAcceptance, SweepAcceptanceLaws and SweepAcceptanceProperties: \<open>qcrate_sweep_acceptance.py\<close>.

  The target's register tool (\<open>kv260/linux/qcrate_apb.py\<close>).  RegisterWindow, RegisterWindowLaws and
  RegisterWindowProperties.

  HOW THE PARTS MEET.  A profile that compiles is loaded again, accepted by the DSP model and turned into the command
  words; the words of the model are the ones the streaming reference emits; the run verification compares every
  shot with those words; a successful experiment therefore recorded exactly the model of its profile, and the
  acceptance and the sweep rest on the same verification.  The properties are stated in the theories named
  \<open>Properties\<close> and at the end of the component theories, each numbered in its text, with a witness beside those
  that have hypotheses.

  WHAT THE WORLD IS.  Sockets and clocks are lists of what each call returned; other processes and the target are
  records of their observable results, and the program's own effects are action lists or a returned state; files are
  their contents when read, and a run directory is an entry of an association list whose renaming and creation is
  explicit.  Device memory may be changed by the hardware before each access.  Functions of numpy and math that
  compute floating-point spectra, projections, logarithms and angles are parameters of the definitions that use them,
  as are the rounding and \<open>repr\<close> of floats in the sweep plan; what a theorem needs of them is a hypothesis of it.

  TERMINATION AND BOUNDS.  Every definition is a total function.  Loops over data are structural; the journal reader ends by
  the length of what is left, the bisection and the index scan by the records left, the search for a free name by the
  number of suffixed names that are taken; the wait for a path and the receive loop go over finite lists of polls, and
  the receive loop is proved to end by its grace period whatever the list holds.  No definition takes fuel.  Integers of the
  wire and of the DSP chain keep their width as range conditions or modular arithmetic written out, and CRC-32 is on 32-bit words.

  NOT MODELLED.  The floating-point comparison model, the Kaiser filter design, the sine table generation and
  the spectrum proof of profiles (\<open>qcrate_dsp.py\<close>, \<open>generate_coeffs.py\<close>, \<open>prove_profiles\<close>); matplotlib rendering and the
  Tk window of the analyzer; argument parsers and printed lines, except the lines of the register tool; sockets, file descriptors, temporary files,
  atomic replacement and process handling beyond what is listed above; time stamps and paths in reports; \<open>lru_cache\<close>, whose
  results are recomputed; symbolic links and nested run directories; characters above 255; number texts with underscores, blanks,
  NaN or infinities, and the exponent limits of \<open>decimal\<close>.  The network measurements, the build, packaging and simulation
  runners are process and file glue.  The C programs, the kernel driver and the SystemVerilog design belong to
  the system but are other languages; the model takes their datagrams, files, transcripts and registers as inputs.
\<close>

end
